(* ===== verification/Prelude.thy ===== *)
theory Prelude
  imports Main "HOL-Library.Word" "HOL-Library.Monad_Syntax" "HOL-Library.Signed_Division"
begin

text \<open>
  What every component theory shares: the machine types of the 32-bit kernel, the status codes
  of \<^verbatim>\<open>src/src/status.h\<close>, checked array accesses, the two-outcome result convention, and the
  generic facts on lists and words that the component proofs use.

  \<^bold>\<open>Outcomes.\<close> A kernel operation is a function into \<open>'a option\<close>. \<open>Some\<close> is a normal return,
  with the C return value (negative status codes included) inside. \<open>None\<close> means that the C code
  has no defined outcome there: it reads or writes outside the object it was given, dereferences
  a null pointer, or never returns. A theorem that an operation behaves well therefore states
  that it returns \<open>Some\<close>.
\<close>

unbundle bit_operations_syntax

named_theorems arr_simps \<open>rewriting of checked array accesses\<close>
named_theorems status_simps \<open>values of the status codes\<close>
named_theorems word_bounds \<open>bounds on words that arithmetic needs\<close>

section \<open>Machine types\<close>

type_synonym u8 = "8 word"
type_synonym u16 = "16 word"
type_synonym u32 = "32 word"

section \<open>Status codes\<close>

definition SERPAEOS_ALL_OK :: int where [status_simps]: "SERPAEOS_ALL_OK = 0"
definition EIO :: int where [status_simps]: "EIO = 1"
definition EINVARG :: int where [status_simps]: "EINVARG = 2"
definition ENOMEM :: int where [status_simps]: "ENOMEM = 3"
definition EBADPATH :: int where [status_simps]: "EBADPATH = 4"
definition ENOTUS :: int where [status_simps]: "ENOTUS = 5"
definition ERDONLY :: int where [status_simps]: "ERDONLY = 6"
definition EISTKN :: int where [status_simps]: "EISTKN = 8"
definition EINFORMAT :: int where [status_simps]: "EINFORMAT = 9"
definition ENODISKSPACE :: int where [status_simps]: "ENODISKSPACE = 10"
definition ECANNOTDO :: int where [status_simps]: "ECANNOTDO = 12"
definition ETIMEDOUT :: int where [status_simps]: "ETIMEDOUT = 13"
definition ENOTPRIV :: int where [status_simps]: "ENOTPRIV = 14"

section \<open>Checked array accesses\<close>

definition rd :: "'a list \<Rightarrow> nat \<Rightarrow> 'a option" where
  "rd xs i = (if i < length xs then Some (xs ! i) else None)"

definition wr :: "'a list \<Rightarrow> nat \<Rightarrow> 'a \<Rightarrow> 'a list option" where
  "wr xs i v = (if i < length xs then Some (xs[i := v]) else None)"

lemma rd_Some [arr_simps, simp]: "i < length xs \<Longrightarrow> rd xs i = Some (xs ! i)"
  by (simp add: rd_def)

lemma rd_None [arr_simps, simp]: "length xs \<le> i \<Longrightarrow> rd xs i = None"
  by (simp add: rd_def)

lemma wr_Some [arr_simps, simp]: "i < length xs \<Longrightarrow> wr xs i v = Some (xs[i := v])"
  by (simp add: wr_def)

lemma wr_None [arr_simps, simp]: "length xs \<le> i \<Longrightarrow> wr xs i v = None"
  by (simp add: wr_def)

lemma rd_eq_Some: "rd xs i = Some x \<longleftrightarrow> i < length xs \<and> x = xs ! i"
  by (auto simp: rd_def)

lemma wr_eq_Some: "wr xs i v = Some ys \<longleftrightarrow> i < length xs \<and> ys = xs[i := v]"
  by (auto simp: wr_def)

lemma wr_length: "wr xs i v = Some ys \<Longrightarrow> length ys = length xs"
  by (auto simp: wr_eq_Some)

section \<open>Scanning an array for the first slot that satisfies a test\<close>

text \<open>
  The kernel finds a slot in a table (descriptors, processes, allocations, file systems) with a
  counting loop that stops at the first hit. \<open>scan\<close> is that loop: it starts at index \<open>i\<close> and
  looks at the remaining cells in order.
\<close>

fun scan :: "('a \<Rightarrow> bool) \<Rightarrow> nat \<Rightarrow> 'a list \<Rightarrow> nat option" where
  "scan p i [] = None"
| "scan p i (x # xs) = (if p x then Some i else scan p (Suc i) xs)"

lemma scan_add: "scan p (j + i) xs = map_option (\<lambda>k. k + i) (scan p j xs)"
  by (induction xs arbitrary: j) (simp_all flip: add_Suc)

lemma scan_Suc0: "scan p (Suc 0) xs = map_option Suc (scan p 0 xs)"
  using scan_add [of p 0 "Suc 0" xs] by (simp add: map_option_case)

lemma scan_None: "scan p i xs = None \<longleftrightarrow> (\<forall>x \<in> set xs. \<not> p x)"
  by (induction xs arbitrary: i) auto

lemma scan0_Some:
  "scan p 0 xs = Some k \<longleftrightarrow> k < length xs \<and> p (xs ! k) \<and> (\<forall>j < k. \<not> p (xs ! j))"
proof (induction xs arbitrary: k)
  case (Cons x xs)
  then show ?case
    by (cases k) (auto simp: scan_Suc0 less_Suc_eq_0_disj)
qed simp

lemma scan0_bound: "scan p 0 xs = Some k \<Longrightarrow> k < length xs \<and> p (xs ! k)"
  by (simp add: scan0_Some)

section \<open>Words\<close>

lemma unat_of_nat_small: "m < 2 ^ 32 \<Longrightarrow> unat (of_nat m :: u32) = m"
  by (simp add: unat_of_nat take_bit_nat_eq_self)

lemma unat_u8_lt [word_bounds]: "unat (w :: u8) < 256"
  using unsigned_less [of w] by simp

lemma unat_u16_lt [word_bounds]: "unat (w :: u16) < 65536"
  using unsigned_less [of w] by simp

lemma unat_u32_lt [word_bounds]: "unat (w :: u32) < 4294967296"
  using unsigned_less [of w] by simp

section \<open>Signed 32-bit values\<close>

definition s32 :: "int \<Rightarrow> int" where
  \<comment> \<open>the value of an \<open>int\<close> after a computation that wraps around\<close>
  "s32 x = sint (word_of_int x :: u32)"

lemma s32_id: "- (2 ^ 31) \<le> x \<Longrightarrow> x < 2 ^ 31 \<Longrightarrow> s32 x = x"
proof -
  assume "- (2 ^ 31) \<le> x" and "x < 2 ^ 31"
  then have "signed_take_bit 31 x = x" by (rule signed_take_bit_int_eq_self)
  then show ?thesis unfolding s32_def by (simp only: signed_of_int) simp
qed

lemma s32_int: "n < 2 ^ 31 \<Longrightarrow> s32 (int n) = int n"
proof (rule s32_id)
  assume "n < 2 ^ 31"
  then have "int n < int (2 ^ 31)" by (simp only: of_nat_less_iff)
  then show "int n < 2 ^ 31" by simp
qed simp

section \<open>Little-endian fields\<close>

definition le16 :: "u8 list \<Rightarrow> nat \<Rightarrow> u16" where
  "le16 bs i = ucast (bs ! i) OR push_bit 8 (ucast (bs ! (i + 1)))"

definition le32 :: "u8 list \<Rightarrow> nat \<Rightarrow> u32" where
  "le32 bs i = ucast (le16 bs i) OR push_bit 16 (ucast (le16 bs (i + 2)))"

definition bytes16 :: "u16 \<Rightarrow> u8 list" where
  "bytes16 w = [ucast w, ucast (drop_bit 8 w)]"

definition bytes32 :: "u32 \<Rightarrow> u8 list" where
  "bytes32 w = bytes16 (ucast w) @ bytes16 (ucast (drop_bit 16 w))"

lemma length_bytes [simp]: "length (bytes16 v) = 2" "length (bytes32 w) = 4"
  by (simp_all add: bytes16_def bytes32_def)

lemma le16_bytes16: "le16 (bytes16 v @ r) 0 = v"
proof (rule bit_word_eqI)
  fix n assume "n < LENGTH(16)"
  then show "bit (le16 (bytes16 v @ r) 0) n = bit v n"
    by (cases "n < 8") (auto simp: le16_def bytes16_def bit_simps)
qed

lemma le16_append: "le16 (p @ bs) (length p + i) = le16 bs i"
  by (simp add: le16_def nth_append)

lemma le32_bytes32: "le32 (bytes32 v @ r) 0 = v"
proof -
  have 1: "le16 (bytes32 v @ r) 0 = ucast v" unfolding bytes32_def append_assoc by (rule le16_bytes16)
  have 2: "le16 (bytes32 v @ r) 2 = ucast (drop_bit 16 v)"
    using le16_append [of "bytes16 (ucast v)" "bytes16 (ucast (drop_bit 16 v)) @ r" 0] le16_bytes16
    by (simp add: bytes32_def)
  have 3: "le32 (bytes32 v @ r) 0 = ucast (ucast v :: u16) OR push_bit 16 (ucast (ucast (drop_bit 16 v) :: u16))"
    using 1 2 by (simp add: le32_def numeral_2_eq_2)
  show ?thesis
  proof (rule bit_word_eqI)
    fix n assume "n < LENGTH(32)"
    then show "bit (le32 (bytes32 v @ r) 0) n = bit v n"
      by (cases "n < 16") (auto simp: 3 bit_simps)
  qed
qed

end
