(* ===== verification/Kstring.thy ===== *)
theory Kstring
  imports Prelude
begin

text \<open>
  The kernel's byte and string routines: \<^verbatim>\<open>src/src/memory/memory.c\<close> and
  \<^verbatim>\<open>src/src/string/string.c\<close> (with the \<open>toupper\<close>/\<open>tolower\<close> macros of \<^verbatim>\<open>string.h\<close>).
  A \<open>char *\<close> is the list of bytes from the pointer to the end of the object it points into, so
  walking off the object is visible as \<open>None\<close>. \<open>cstr\<close> reads the C string such a buffer holds.
\<close>

section \<open>memory.c\<close>

fun memset :: "u8 list \<Rightarrow> u8 \<Rightarrow> nat \<Rightarrow> u8 list option" where
  "memset buf c 0 = Some buf"
| "memset [] c (Suc n) = None"
| "memset (x # xs) c (Suc n) = map_option ((#) c) (memset xs c n)"

fun memcmp :: "u8 list \<Rightarrow> u8 list \<Rightarrow> nat \<Rightarrow> int option" where
  "memcmp s1 s2 0 = Some 0"
| "memcmp (a # s1) (b # s2) (Suc n) =
     (if a \<noteq> b then Some (if sint a < sint b then - 1 else 1) else memcmp s1 s2 n)"
| "memcmp _ _ (Suc n) = None"

fun memcpy_loop :: "u8 list \<Rightarrow> u8 list \<Rightarrow> nat \<Rightarrow> u8 list option" where
  "memcpy_loop d s 0 = Some d"
| "memcpy_loop (x # d) (y # s) (Suc n) = map_option ((#) y) (memcpy_loop d s n)"
| "memcpy_loop _ _ (Suc n) = None"

definition memcpy :: "u8 list \<Rightarrow> u8 list \<Rightarrow> int \<Rightarrow> u8 list option" where
  \<comment> \<open>\<open>while (len--)\<close>: a negative length runs past every buffer\<close>
  "memcpy dest src len = (if len < 0 then None else memcpy_loop dest src (nat len))"

section \<open>string.c\<close>

definition toupper :: "u8 \<Rightarrow> u8" where
  "toupper x = (if 97 \<le> x \<and> x \<le> 122 then x - 0x20 else x)"

definition tolower :: "u8 \<Rightarrow> u8" where
  "tolower x = (if 65 \<le> x \<and> x \<le> 90 then x + 0x20 else x)"

fun strlen :: "u8 list \<Rightarrow> int option" where
  "strlen [] = None"
| "strlen (c # cs) = (if c \<noteq> 0 then map_option (\<lambda>i. i + 1) (strlen cs) else Some 0)"

fun strnlen :: "u8 list \<Rightarrow> nat \<Rightarrow> int option" where
  "strnlen ptr 0 = Some 0"
| "strnlen [] (Suc m) = None"
| "strnlen (c # cs) (Suc m) = (if c = 0 then Some 0 else map_option (\<lambda>i. i + 1) (strnlen cs m))"

fun strnlen_terminator :: "u8 list \<Rightarrow> nat \<Rightarrow> u8 \<Rightarrow> int option" where
  "strnlen_terminator str 0 t = Some 0"
| "strnlen_terminator [] (Suc m) t = None"
| "strnlen_terminator (c # cs) (Suc m) t =
     (if c = 0 \<or> c = t then Some 0 else map_option (\<lambda>i. i + 1) (strnlen_terminator cs m t))"

fun istrncmp :: "u8 list \<Rightarrow> u8 list \<Rightarrow> nat \<Rightarrow> int option" where
  "istrncmp s1 s2 0 = Some 0"
| "istrncmp (u1 # s1) (u2 # s2) (Suc n) =
     (if u1 \<noteq> u2 \<and> tolower u1 \<noteq> tolower u2 then Some (uint u1 - uint u2)
      else if u1 = 0 then Some 0
      else istrncmp s1 s2 n)"
| "istrncmp _ _ (Suc n) = None"

fun strncmp :: "u8 list \<Rightarrow> u8 list \<Rightarrow> nat \<Rightarrow> int option" where
  "strncmp s1 s2 0 = Some 0"
| "strncmp (u1 # s1) (u2 # s2) (Suc n) =
     (if u1 \<noteq> u2 then Some (uint u1 - uint u2)
      else if u1 = 0 then Some 0
      else strncmp s1 s2 n)"
| "strncmp _ _ (Suc n) = None"

fun strcpy :: "u8 list \<Rightarrow> u8 list \<Rightarrow> u8 list option" where
  "strcpy dest [] = None"
| "strcpy [] (c # src) = None"
| "strcpy (x # dest) (c # src) =
     (if c \<noteq> 0 then map_option ((#) c) (strcpy dest src) else Some (0 # dest))"

fun strncpy_loop :: "u8 list \<Rightarrow> u8 list \<Rightarrow> nat \<Rightarrow> nat \<Rightarrow> u8 list option" where
  \<comment> \<open>arguments: \<open>dest\<close>, \<open>src\<close>, the loop variable \<open>i\<close>, and the iterations left until \<open>count - 1\<close>\<close>
  "strncpy_loop dest src i 0 = wr dest i 0"
| "strncpy_loop dest src i (Suc k) = do {
     c \<leftarrow> rd src i;
     if c = 0 then wr dest i 0
     else do { dest' \<leftarrow> wr dest i c; strncpy_loop dest' src (Suc i) k }
   }"

definition strncpy :: "u8 list \<Rightarrow> u8 list \<Rightarrow> int \<Rightarrow> u8 list option" where
  "strncpy dest src count = strncpy_loop dest src 0 (nat (count - 1))"

definition isdigit :: "u8 \<Rightarrow> bool" where
  "isdigit c \<longleftrightarrow> 48 \<le> sint c \<and> sint c \<le> 57"

definition tonumericdigit :: "u8 \<Rightarrow> int" where
  "tonumericdigit c = sint c - 48"

function itoa_loop :: "int \<Rightarrow> nat \<Rightarrow> u8 list \<Rightarrow> (nat \<times> u8 list) option" where
  \<comment> \<open>\<open>while (i) { text[--loc] = '0' - (i % 10); i /= 10; }\<close>, with C's truncating division\<close>
  "itoa_loop i loc text =
     (if i = 0 then Some (loc, text)
      else if loc = 0 then None
      else do {
        text' \<leftarrow> wr text (loc - 1) (word_of_int (48 - (i smod 10)));
        itoa_loop (i sdiv 10) (loc - 1) text'
      })"
  by pat_completeness auto
termination
  by (relation "measure (\<lambda>(i, loc, text). loc)") auto

declare itoa_loop.simps [simp del]

definition itoa :: "u8 list \<Rightarrow> int \<Rightarrow> (nat \<times> u8 list) option" where
  \<comment> \<open>the static buffer \<open>text\<close> is passed in; the result is the offset of the returned pointer
      in it and its new contents\<close>
  "itoa text i = do {
     text \<leftarrow> wr text 11 0;
     let neg = \<not> 0 \<le> i;
     (loc, text) \<leftarrow> itoa_loop (if 0 \<le> i then - i else i) 11 text;
     (loc, text) \<leftarrow> (if loc = 11 then do { t \<leftarrow> wr text 10 48; Some (10, t) } else Some (loc, text));
     if neg then (if loc = 0 then None else do { t \<leftarrow> wr text (loc - 1) 45; Some (loc - 1, t) })
     else Some (loc, text)
   }"

partial_function (option) strupper :: "u8 list \<Rightarrow> (int \<times> u8 list) option" where
  \<comment> \<open>\<open>while (*str) *str = toupper(*str);\<close>: the pointer is never advanced\<close>
  "strupper str =
     (case str of
        [] \<Rightarrow> None
      | c # cs \<Rightarrow> if c = 0 then Some (0, c # cs) else strupper (toupper c # cs))"

section \<open>Abstract strings\<close>

definition cstr :: "u8 list \<Rightarrow> u8 list" where
  "cstr buf = takeWhile (\<lambda>c. c \<noteq> 0) buf"

definition terminated :: "u8 list \<Rightarrow> bool" where
  "terminated buf \<longleftrightarrow> 0 \<in> set buf"

lemma cstr_Nil [simp]: "cstr [] = []"
  by (simp add: cstr_def)

lemma cstr_Cons [simp]: "cstr (c # cs) = (if c = 0 then [] else c # cstr cs)"
  by (simp add: cstr_def)

lemma terminated_simps [simp]:
  "\<not> terminated []" "terminated (c # cs) \<longleftrightarrow> c = 0 \<or> terminated cs"
  by (auto simp: terminated_def)

lemma cstr_no_nul [simp]: "0 \<notin> set (cstr buf)"
  by (auto simp: cstr_def dest: set_takeWhileD)

lemma cstr_append [simp]: "0 \<notin> set s \<Longrightarrow> cstr (s @ 0 # r) = s"
  by (induction s) auto

lemma terminated_split: "terminated buf \<Longrightarrow> \<exists>r. buf = cstr buf @ 0 # r"
  by (induction buf) auto

lemma length_cstr_le: "length (cstr buf) \<le> length buf"
  by (simp add: cstr_def length_takeWhile_le)

lemma length_cstr_lt: "terminated buf \<Longrightarrow> length (cstr buf) < length buf"
  by (induction buf) auto

lemma strlen_terminated: "terminated s \<Longrightarrow> strlen s = Some (int (length (cstr s)))"
  by (induction s) auto

lemma strlen_None: "strlen s = None \<longleftrightarrow> \<not> terminated s"
  by (induction s) auto

lemma strnlen_terminated:
  "terminated s \<Longrightarrow> strnlen s m = Some (int (min (length (cstr s)) m))"
  by (induction s m rule: strnlen.induct) auto

lemma memset_eq:
  "memset buf c n = (if n \<le> length buf then Some (replicate n c @ drop n buf) else None)"
  by (induction buf c n rule: memset.induct) auto

lemma memcpy_eq:
  "memcpy dest src (int n) =
     (if n \<le> length dest \<and> n \<le> length src then Some (take n src @ drop n dest) else None)"
proof -
  have "memcpy_loop dest src n =
     (if n \<le> length dest \<and> n \<le> length src then Some (take n src @ drop n dest) else None)"
    by (induction dest src n rule: memcpy_loop.induct) auto
  then show ?thesis by (simp add: memcpy_def)
qed

lemma memcmp_zero:
  "n \<le> length a \<Longrightarrow> n \<le> length b \<Longrightarrow> memcmp a b n = Some 0 \<longleftrightarrow> take n a = take n b"
  by (induction a b n rule: memcmp.induct) auto

lemma memcmp_defined:
  "n \<le> length a \<Longrightarrow> n \<le> length b \<Longrightarrow> \<exists>r. memcmp a b n = Some r"
  by (induction a b n rule: memcmp.induct) auto

lemma tolower_0_iff [simp]: "tolower u = 0 \<longleftrightarrow> u = 0"
proof
  show "u = 0" if "tolower u = 0"
  proof (rule ccontr)
    assume "u \<noteq> 0"
    with that have "65 \<le> u" "u \<le> 90" "u + 0x20 = 0"
      by (auto simp: tolower_def split: if_splits)
    then show False by unat_arith simp_all
  qed
qed (simp add: tolower_def)

lemma istrncmp_step:
  "istrncmp (u1 # s1) (u2 # s2) (Suc n) =
     (if tolower u1 \<noteq> tolower u2 then Some (uint u1 - uint u2)
      else if u1 = 0 then Some 0 else istrncmp s1 s2 n)"
  by auto

lemma tolower_same_0: "tolower a = tolower b \<Longrightarrow> a = 0 \<longleftrightarrow> b = 0"
  using tolower_0_iff [of a] tolower_0_iff [of b] by simp

lemma istrncmp_eq_0:
  assumes "terminated a" and "terminated b"
  shows "istrncmp a b n = Some 0 \<longleftrightarrow>
         map tolower (take n (cstr a)) = map tolower (take n (cstr b))"
  using assms
proof (induction a b n rule: istrncmp.induct)
  case (2 u1 s1 u2 s2 n)
  show ?case
  proof (cases "tolower u1 = tolower u2")
    case True
    then have "u1 = 0 \<longleftrightarrow> u2 = 0" by (rule tolower_same_0)
    with True 2 show ?thesis by (auto simp: istrncmp_step simp del: istrncmp.simps)
  next
    case False
    then have "u1 \<noteq> u2" by auto
    then have "uint u1 - uint u2 \<noteq> 0" by (simp add: word_uint_eq_iff)
    with False show ?thesis by (auto simp: istrncmp_step simp del: istrncmp.simps)
  qed
qed auto

lemma istrncmp_defined:
  "terminated a \<Longrightarrow> terminated b \<Longrightarrow> \<exists>r. istrncmp a b n = Some r"
proof (induction a b n rule: istrncmp.induct)
  case (2 u1 s1 u2 s2 n)
  show ?case
  proof (cases "tolower u1 = tolower u2")
    case True
    then have "u1 = 0 \<longleftrightarrow> u2 = 0" by (rule tolower_same_0)
    with True 2 show ?thesis by (auto simp: istrncmp_step simp del: istrncmp.simps)
  next
    case False
    then show ?thesis by (simp add: istrncmp_step del: istrncmp.simps)
  qed
qed auto

section \<open>Copying\<close>

lemma take_update_snoc: "i < length xs \<Longrightarrow> take (Suc i) (xs[i := v]) = take i xs @ [v]"
  by (simp add: take_Suc_conv_app_nth)

lemma list_update_split: "i < length xs \<Longrightarrow> xs[i := v] = take i xs @ v # drop (Suc i) xs"
  by (simp add: upd_conv_take_nth_drop)

lemma strncpy_loop_eq:
  assumes "i + k < length dest" and "terminated (drop i src) \<or> i + k \<le> length src"
  shows "strncpy_loop dest src i k =
     Some (take i dest @ take k (cstr (drop i src)) @
           0 # drop (Suc (i + length (take k (cstr (drop i src))))) dest)"
  using assms
proof (induction k arbitrary: dest i)
  case 0
  then show ?case by (simp add: list_update_split)
next
  case (Suc k)
  then have i: "i < length src"
    by (cases "i < length src") auto
  then have split: "drop i src = src ! i # drop (Suc i) src"
    by (simp add: Cons_nth_drop_Suc)
  show ?case
  proof (cases "src ! i = 0")
    case True
    with Suc.prems i show ?thesis by (simp add: split list_update_split)
  next
    case False
    have "terminated (drop (Suc i) src) \<or> Suc i + k \<le> length src"
      using Suc.prems(2) False by (simp add: split)
    with Suc.prems(1) have "strncpy_loop (dest[i := src ! i]) src (Suc i) k =
       Some (take (Suc i) (dest[i := src ! i]) @ take k (cstr (drop (Suc i) src)) @
             0 # drop (Suc (Suc i + length (take k (cstr (drop (Suc i) src))))) (dest[i := src ! i]))"
      by (intro Suc.IH) auto
    with Suc.prems i False show ?thesis
      by (simp add: split take_update_snoc)
  qed
qed

lemma strncpy_eq:
  assumes "0 < count" and "nat count \<le> length dest"
    and "terminated src \<or> nat count \<le> Suc (length src)"
  shows "strncpy dest src count =
     Some (take (nat count - 1) (cstr src) @ 0 #
           drop (Suc (length (take (nat count - 1) (cstr src)))) dest)"
proof -
  have "nat (count - 1) = nat count - 1" using assms(1) by simp
  moreover have "0 + (nat count - 1) < length dest" using assms by linarith
  moreover have "terminated (drop 0 src) \<or> 0 + (nat count - 1) \<le> length src"
    using assms(3) by (cases "terminated src") simp_all
  ultimately show ?thesis
    by (simp add: strncpy_def strncpy_loop_eq)
qed

lemma strncpy_cstr:
  assumes "0 < count" and "nat count \<le> length dest"
    and "terminated src \<or> nat count \<le> Suc (length src)"
  shows "\<exists>d. strncpy dest src count = Some d \<and> cstr d = take (nat count - 1) (cstr src)
              \<and> terminated d \<and> length d = length dest"
proof -
  let ?s = "take (nat count - 1) (cstr src)"
  have "0 \<notin> set ?s" by (meson cstr_no_nul in_set_takeD)
  moreover have "length ?s < length dest"
    using assms by (simp add: min_def) linarith
  ultimately show ?thesis
    using strncpy_eq [OF assms] by (auto simp: terminated_def)
qed

section \<open>Decimal conversion\<close>

fun decimal :: "nat \<Rightarrow> u8 list" where
  "decimal n = (if n < 10 then [of_nat (48 + n)] else decimal (n div 10) @ [of_nat (48 + n mod 10)])"

declare decimal.simps [simp del]

lemma length_decimal: "n < 10 ^ Suc k \<Longrightarrow> length (decimal n) \<le> Suc k"
proof (induction k arbitrary: n)
  case 0
  then show ?case by (subst decimal.simps) simp
next
  case (Suc k)
  show ?case
  proof (cases "n < 10")
    case True
    then show ?thesis by (subst decimal.simps) simp
  next
    case False
    have "n div 10 < 10 ^ Suc k" using Suc.prems by (simp add: less_mult_imp_div_less)
    with Suc.IH False show ?thesis by (subst decimal.simps) simp
  qed
qed

lemma int_sdiv_10: "int n sdiv 10 = int (n div 10)"
  by (cases "n = 0") (simp_all add: signed_divide_int_def zdiv_int)

lemma int_smod_10: "int n smod 10 = int (n mod 10)"
  by (cases "n = 0") (simp_all add: signed_modulo_int_def zmod_int)

lemma itoa_loop_eq:
  assumes "0 < n" and "length (decimal n) \<le> loc" and "loc \<le> length tx"
  shows "itoa_loop (- int n) loc tx =
     Some (loc - length (decimal n),
           take (loc - length (decimal n)) tx @ decimal n @ drop loc tx)"
  using assms
proof (induction n arbitrary: loc tx rule: decimal.induct)
  case (1 n)
  let ?d = "word_of_int (48 + int (n mod 10)) :: u8"
  let ?tx = "tx[loc - 1 := ?d]"
  have d: "?d = of_nat (48 + n mod 10)" by simp
  have loc: "loc - 1 < length tx" "0 < loc" using "1.prems" by (auto simp: decimal.simps [of n] split: if_splits)
  have step: "itoa_loop (- int n) loc tx = itoa_loop (- int (n div 10)) (loc - 1) ?tx"
    using "1.prems"(1) loc by (subst itoa_loop.simps) (simp add: int_sdiv_10 int_smod_10)
  have upd: "?tx = take (loc - 1) tx @ ?d # drop loc tx"
    using loc by (simp add: list_update_split)
  show ?case
  proof (cases "n < 10")
    case True
    have "itoa_loop 0 (loc - 1) ?tx = Some (loc - 1, ?tx)"
      by (subst itoa_loop.simps) simp
    with True show ?thesis
      using step upd by (simp add: decimal.simps [of n] d)
  next
    case False
    then have dec: "decimal n = decimal (n div 10) @ [of_nat (48 + n mod 10)]"
      by (subst decimal.simps) simp
    have "itoa_loop (- int (n div 10)) (loc - 1) ?tx =
       Some (loc - 1 - length (decimal (n div 10)),
             take (loc - 1 - length (decimal (n div 10))) ?tx @ decimal (n div 10) @ drop (loc - 1) ?tx)"
      using False "1.prems" dec by (intro "1.IH") auto
    moreover have "drop (loc - 1) ?tx = ?d # drop loc tx"
      using loc upd by simp
    ultimately show ?thesis
      using step dec d by (simp add: take_update_cancel)
  qed
qed

definition decimal_int :: "int \<Rightarrow> u8 list" where
  "decimal_int i = (if i < 0 then 45 # decimal (nat (- i)) else decimal (nat i))"

lemma itoa_eq:
  assumes "length text = 12" and "- (2 ^ 31) \<le> i" and "i < 2 ^ 31"
  shows "\<exists>loc text'. itoa text i = Some (loc, text') \<and> length text' = 12 \<and>
           drop loc text' = decimal_int i @ [0]"
proof -
  define n where "n = nat \<bar>i\<bar>"
  let ?t = "text[11 := 0]"
  have abs: "(if 0 \<le> i then - i else i) = - int n" by (simp add: n_def)
  have dec: "decimal_int i = (if i < 0 then 45 # decimal n else decimal n)"
    by (auto simp: decimal_int_def n_def)
  have "n < 10 ^ Suc 9" using assms by (simp add: n_def)
  then have len: "length (decimal n) \<le> 10" using length_decimal [of n 9] by simp
  show ?thesis
  proof (cases "n = 0")
    case True
    then show ?thesis
      using assms(1) by (simp add: itoa_def itoa_loop.simps decimal_int_def n_def decimal.simps list_update_split)
  next
    case False
    let ?D = "decimal n" and ?l = "11 - length (decimal n)"
    have D: "0 < length ?D" by (subst decimal.simps) simp
    then have l: "0 < ?l" "?l \<noteq> 11" "?l \<le> 10" using len by linarith+
    have t11: "drop 11 ?t = [0]"
      using assms(1) by (simp add: list_update_split)
    from False len assms(1) have "itoa_loop (- int n) 11 ?t = Some (?l, take ?l ?t @ ?D @ drop 11 ?t)"
      by (intro itoa_loop_eq) auto
    then have "itoa text i =
        (if i < 0 then Some (?l - 1, (take ?l ?t @ ?D @ [0])[?l - 1 := 45])
         else Some (?l, take ?l ?t @ ?D @ [0]))"
      using assms(1) l by (simp add: itoa_def abs t11 Let_def)
    moreover have "drop (?l - 1) ((take ?l ?t @ ?D @ [0])[?l - 1 := 45]) = 45 # ?D @ [0]"
      using l assms(1) len by (subst list_update_split) auto
    ultimately show ?thesis
      using assms(1) len l by (auto simp: dec)
  qed
qed

section \<open>The loop of strupper\<close>

lemma strupper_returns:
  assumes ret: "strupper str = Some r"
  shows "str \<noteq> [] \<and> hd str = 0"
proof (rule strupper.raw_induct [where P = "\<lambda>str r. str \<noteq> [] \<and> hd str = 0", OF _ ret])
  fix f :: "u8 list \<Rightarrow> (int \<times> u8 list) option" and str r
  assume IH: "\<And>str r. f str = Some r \<Longrightarrow> str \<noteq> [] \<and> hd str = 0"
    and eq: "(case str of [] \<Rightarrow> None
              | c # cs \<Rightarrow> if c = 0 then Some (0, c # cs) else f (toupper c # cs)) = Some r"
  show "str \<noteq> [] \<and> hd str = 0"
  proof (cases str)
    case (Cons c cs)
    have False if "c \<noteq> 0"
    proof -
      from eq Cons that have "toupper c = 0" using IH [of "toupper c # cs"] by simp
      with that have "97 \<le> c" "c \<le> 122" "c - 0x20 = 0" by (auto simp: toupper_def split: if_splits)
      then show False by unat_arith
    qed
    with Cons show ?thesis by auto
  qed (use eq in simp)
qed

section \<open>Properties\<close>

text \<open>\<open>itoa\<close> writes the decimal representation of every 32-bit integer, the most negative one
  included, inside its 12-byte static buffer, terminated by a zero byte.\<close>
theorem itoa_decimal:
  assumes "length text = 12" and "- (2 ^ 31) \<le> i" and "i < 2 ^ 31"
  shows "\<exists>loc text'. itoa text i = Some (loc, text') \<and> length text' = 12 \<and>
           drop loc text' = decimal_int i @ [0]"
  using assms by (rule itoa_eq)

theorem itoa_decimal_witness:
  "length (replicate 12 0 :: u8 list) = 12 \<and>
   (\<exists>loc text'. itoa (replicate 12 0) (- (2 ^ 31)) = Some (loc, text') \<and> length text' = 12 \<and>
           drop loc text' = decimal_int (- (2 ^ 31)) @ [0])"
  using itoa_decimal [of "replicate 12 0" "- (2 ^ 31)"] by simp

text \<open>C17: \<open>strncpy\<close> never writes outside a destination of at least \<open>count\<close> bytes, always
  terminates it, and leaves there the first \<open>count - 1\<close> characters of the source string.\<close>
theorem strncpy_bounded_copy:
  assumes "0 < count" and "nat count \<le> length dest"
    and "terminated src \<or> nat count \<le> Suc (length src)"
  shows "\<exists>d. strncpy dest src count = Some d \<and> cstr d = take (nat count - 1) (cstr src)
              \<and> terminated d \<and> length d = length dest"
  using assms by (rule strncpy_cstr)

theorem strncpy_bounded_copy_witness:
  "\<exists>d. strncpy (replicate 4 255) [65, 66, 67, 68, 69, 0] 4 = Some d \<and>
       cstr d = take (nat 4 - 1) (cstr [65, 66, 67, 68, 69, 0]) \<and> terminated d \<and>
       length d = length (replicate 4 (255 :: u8))"
  using strncpy_bounded_copy [of 4 "replicate 4 255" "[65, 66, 67, 68, 69, 0]"] by simp

text \<open>\<open>istrncmp\<close> returns 0 exactly when the first \<open>n\<close> characters of the two strings agree up
  to the case of ASCII letters.\<close>
theorem istrncmp_case_insensitive:
  assumes "terminated a" and "terminated b"
  shows "istrncmp a b n = Some 0 \<longleftrightarrow>
         map tolower (take n (cstr a)) = map tolower (take n (cstr b))"
  using assms by (rule istrncmp_eq_0)

theorem istrncmp_case_insensitive_witness:
  "istrncmp [83, 72, 0] [115, 104, 0, 7] 108 = Some 0 \<longleftrightarrow>
   map tolower (take 108 (cstr [83, 72, 0])) = map tolower (take 108 (cstr [115, 104, 0, 7]))"
  using istrncmp_case_insensitive [of "[83, 72, 0]" "[115, 104, 0, 7]" 108] by simp

text \<open>\<open>strupper\<close> never returns on a non-empty string: its loop rewrites the first character
  and does not advance the pointer.\<close>
theorem strupper_diverges:
  assumes "c \<noteq> 0"
  shows "strupper (c # cs) = None"
  using strupper_returns [of "c # cs"] assms by (cases "strupper (c # cs)") auto

theorem strupper_diverges_witness: "(97 :: u8) \<noteq> 0 \<and> strupper (97 # [98, 0]) = None"
  using strupper_diverges [of 97 "[98, 0]"] by simp

end
