(* ===== verification/Heap.thy ===== *)
theory Heap
  imports Prelude
begin

text \<open>
  The block allocator of the kernel heap: \<^verbatim>\<open>src/src/memory/heap/heap.c\<close> and the structures of
  \<^verbatim>\<open>heap.h\<close>. The heap is a pool of 4096-byte blocks starting at \<open>hp_saddr\<close>, with one status byte
  per block in a table. A write outside the table has no defined outcome (\<open>None\<close>): in the
  kernel it lands in whatever memory follows or precedes the table.
\<close>

section \<open>State\<close>

record heap_table =
  ht_entries :: "u8 list"
  ht_total :: u32

record heap =
  hp_table :: heap_table
  hp_saddr :: u32

definition SERPAEOS_HEAP_BLOCK_SIZE :: u32 where
  "SERPAEOS_HEAP_BLOCK_SIZE = 4096"

definition HEAP_BLOCK_TABLE_ENTRY_TAKEN :: u8 where "HEAP_BLOCK_TABLE_ENTRY_TAKEN = 0x01"
definition HEAP_BLOCK_TABLE_ENTRY_FREE :: u8 where "HEAP_BLOCK_TABLE_ENTRY_FREE = 0x00"
definition HEAP_BLOCK_HAS_NEXT :: u8 where "HEAP_BLOCK_HAS_NEXT = 0x80"
definition HEAP_BLOCK_IS_FIRST :: u8 where "HEAP_BLOCK_IS_FIRST = 0x40"

lemmas heap_consts = SERPAEOS_HEAP_BLOCK_SIZE_def HEAP_BLOCK_TABLE_ENTRY_TAKEN_def
  HEAP_BLOCK_TABLE_ENTRY_FREE_def HEAP_BLOCK_HAS_NEXT_def HEAP_BLOCK_IS_FIRST_def

section \<open>Operations\<close>

definition heap_validate_table :: "u32 \<Rightarrow> u32 \<Rightarrow> heap_table \<Rightarrow> int" where
  "heap_validate_table ptr end_ptr table =
     (let table_size = end_ptr - ptr;
          total_blocks = table_size div SERPAEOS_HEAP_BLOCK_SIZE
      in if ht_total table \<noteq> total_blocks then - EINVARG else 0)"

definition heap_validate_alignment :: "u32 \<Rightarrow> bool" where
  "heap_validate_alignment ptr \<longleftrightarrow> ptr mod SERPAEOS_HEAP_BLOCK_SIZE = 0"

definition heap_create :: "heap \<Rightarrow> u32 \<Rightarrow> u32 \<Rightarrow> heap_table \<Rightarrow> (int \<times> heap) option" where
  \<comment> \<open>the last step is \<open>memset(table->entries, FREE, table->total)\<close>\<close>
  "heap_create heap ptr end_ptr table =
     (if \<not> heap_validate_alignment ptr \<or> \<not> heap_validate_alignment end_ptr
      then Some (- EINVARG, heap)
      else let heap = heap\<lparr>hp_saddr := ptr, hp_table := table\<rparr>;
               res = heap_validate_table ptr end_ptr table
           in if res < 0 then Some (res, heap)
              else if length (ht_entries table) < unat (ht_total table) then None
              else Some (res, heap\<lparr>hp_table := table\<lparr>ht_entries :=
                     replicate (unat (ht_total table)) HEAP_BLOCK_TABLE_ENTRY_FREE
                     @ drop (unat (ht_total table)) (ht_entries table)\<rparr>\<rparr>))"

definition heap_align_value_to_upper :: "u32 \<Rightarrow> u32" where
  "heap_align_value_to_upper val =
     (if val mod SERPAEOS_HEAP_BLOCK_SIZE = 0 then val
      else (val - val mod SERPAEOS_HEAP_BLOCK_SIZE) + SERPAEOS_HEAP_BLOCK_SIZE)"

definition heap_get_entry_type :: "u8 \<Rightarrow> u8" where
  "heap_get_entry_type entry = entry AND 0x0f"

fun heap_get_start_block_loop :: "u8 list \<Rightarrow> u32 \<Rightarrow> nat \<Rightarrow> nat \<Rightarrow> int \<Rightarrow> int \<Rightarrow> int option" where
  \<comment> \<open>arguments: the entries, \<open>total_blocks\<close>, the iterations left, \<open>i\<close>, \<open>bc\<close> and \<open>bs\<close>;
      the result is \<open>bs\<close> when the loop ends\<close>
  "heap_get_start_block_loop es total_blocks 0 i bc bs = Some bs"
| "heap_get_start_block_loop es total_blocks (Suc k) i bc bs = do {
     entry \<leftarrow> rd es i;
     if heap_get_entry_type entry \<noteq> HEAP_BLOCK_TABLE_ENTRY_FREE
     then heap_get_start_block_loop es total_blocks k (Suc i) 0 (- 1)
     else let bs = (if bs = - 1 then int i else bs); bc = bc + 1
          in if word_of_int bc = total_blocks then Some bs
             else heap_get_start_block_loop es total_blocks k (Suc i) bc bs
   }"

definition heap_get_start_block :: "heap \<Rightarrow> u32 \<Rightarrow> int option" where
  "heap_get_start_block heap total_blocks = do {
     bs \<leftarrow> heap_get_start_block_loop (ht_entries (hp_table heap)) total_blocks
             (unat (ht_total (hp_table heap))) 0 0 (- 1);
     if bs = - 1 then Some (- ENOMEM) else Some bs
   }"

definition heap_block_to_address :: "heap \<Rightarrow> int \<Rightarrow> u32" where
  "heap_block_to_address heap block = hp_saddr heap + word_of_int (block * 4096)"

definition set_entry :: "heap \<Rightarrow> int \<Rightarrow> u8 \<Rightarrow> heap option" where
  \<comment> \<open>\<open>heap->table->entries[i] = entry\<close>\<close>
  "set_entry heap i entry =
     (if i < 0 then None
      else do {
        es \<leftarrow> wr (ht_entries (hp_table heap)) (nat i) entry;
        Some (heap\<lparr>hp_table := (hp_table heap)\<lparr>ht_entries := es\<rparr>\<rparr>)
      })"

fun heap_mark_blocks_taken_loop :: "heap \<Rightarrow> nat \<Rightarrow> int \<Rightarrow> int \<Rightarrow> u8 \<Rightarrow> heap option" where
  \<comment> \<open>arguments: the iterations left, \<open>i\<close>, \<open>end_block\<close> and \<open>entry\<close>\<close>
  "heap_mark_blocks_taken_loop heap 0 i end_block entry = Some heap"
| "heap_mark_blocks_taken_loop heap (Suc k) i end_block entry = do {
     heap \<leftarrow> set_entry heap i entry;
     let entry = HEAP_BLOCK_TABLE_ENTRY_TAKEN;
     let entry = (if i \<noteq> end_block - 1 then entry OR HEAP_BLOCK_HAS_NEXT else entry);
     heap_mark_blocks_taken_loop heap k (i + 1) end_block entry
   }"

definition heap_mark_blocks_taken :: "heap \<Rightarrow> int \<Rightarrow> int \<Rightarrow> heap option" where
  "heap_mark_blocks_taken heap start_block total_blocks =
     (let end_block = start_block + total_blocks - 1;
          entry = HEAP_BLOCK_TABLE_ENTRY_TAKEN OR HEAP_BLOCK_IS_FIRST;
          entry = (if total_blocks > 1 then entry OR HEAP_BLOCK_HAS_NEXT else entry)
      in heap_mark_blocks_taken_loop heap (nat (end_block - start_block + 1))
           start_block end_block entry)"

definition heap_malloc_blocks :: "heap \<Rightarrow> u32 \<Rightarrow> (u32 \<times> heap) option" where
  "heap_malloc_blocks heap total_blocks = do {
     start_block \<leftarrow> heap_get_start_block heap total_blocks;
     if start_block < 0 then Some (0, heap)
     else do {
       let address = heap_block_to_address heap start_block;
       heap \<leftarrow> heap_mark_blocks_taken heap start_block (sint total_blocks);
       Some (address, heap)
     }
   }"

fun heap_mark_blocks_free_loop :: "heap \<Rightarrow> nat \<Rightarrow> int \<Rightarrow> heap option" where
  \<comment> \<open>arguments: the iterations left until \<open>table->total\<close>, and \<open>i\<close>\<close>
  "heap_mark_blocks_free_loop heap 0 i = Some heap"
| "heap_mark_blocks_free_loop heap (Suc k) i =
     (if i < 0 then None
      else do {
        entry \<leftarrow> rd (ht_entries (hp_table heap)) (nat i);
        heap \<leftarrow> set_entry heap i HEAP_BLOCK_TABLE_ENTRY_FREE;
        if entry AND HEAP_BLOCK_HAS_NEXT = 0 then Some heap
        else heap_mark_blocks_free_loop heap k (i + 1)
      })"

definition heap_mark_blocks_free :: "heap \<Rightarrow> int \<Rightarrow> heap option" where
  "heap_mark_blocks_free heap starting_block =
     heap_mark_blocks_free_loop heap (nat (sint (ht_total (hp_table heap)) - starting_block))
       starting_block"

definition heap_address_to_block :: "heap \<Rightarrow> u32 \<Rightarrow> int" where
  "heap_address_to_block heap address = sint (address - hp_saddr heap) sdiv 4096"

definition heap_malloc :: "heap \<Rightarrow> u32 \<Rightarrow> (u32 \<times> heap) option" where
  "heap_malloc heap sz =
     (let aligned_size = heap_align_value_to_upper sz;
          total_blocks = aligned_size div SERPAEOS_HEAP_BLOCK_SIZE
      in heap_malloc_blocks heap total_blocks)"

definition heap_free :: "heap \<Rightarrow> u32 \<Rightarrow> heap option" where
  "heap_free heap ptr = heap_mark_blocks_free heap (heap_address_to_block heap ptr)"

section \<open>Invariant and vocabulary of the specification\<close>

definition is_free :: "u8 \<Rightarrow> bool" where
  "is_free e \<longleftrightarrow> heap_get_entry_type e = HEAP_BLOCK_TABLE_ENTRY_FREE"

definition heap_inv :: "heap \<Rightarrow> bool" where
  \<comment> \<open>the table covers the pool, the pool lies below 2 GiB, a free block has status byte 0\<close>
  "heap_inv h \<longleftrightarrow>
     length (ht_entries (hp_table h)) = unat (ht_total (hp_table h)) \<and>
     unat (hp_saddr h) + 4096 * unat (ht_total (hp_table h)) < 2 ^ 31 \<and>
     4096 \<le> unat (hp_saddr h) \<and>
     (\<forall>e \<in> set (ht_entries (hp_table h)). is_free e \<longrightarrow> e = 0)"

definition window_free :: "u8 list \<Rightarrow> nat \<Rightarrow> nat \<Rightarrow> bool" where
  "window_free es s n \<longleftrightarrow> s + n \<le> length es \<and> (\<forall>j. s \<le> j \<and> j < s + n \<longrightarrow> is_free (es ! j))"

definition first_fit :: "u8 list \<Rightarrow> nat \<Rightarrow> nat \<Rightarrow> bool" where
  "first_fit es n s \<longleftrightarrow> window_free es s n \<and> (\<forall>s' < s. \<not> window_free es s' n)"

definition block_pattern :: "nat \<Rightarrow> u8 list" where
  "block_pattern n = (if n = 1 then [0x41] else 0xC1 # replicate (n - 2) 0x81 @ [0x01])"

definition blocks_needed :: "u32 \<Rightarrow> nat" where
  "blocks_needed sz = (unat sz + 4095) div 4096"

definition overlay :: "'a list \<Rightarrow> nat \<Rightarrow> 'a list \<Rightarrow> 'a list" where
  "overlay es s p = take s es @ p @ drop (s + length p) es"


abbreviation entries_of :: "heap \<Rightarrow> u8 list" where
  "entries_of h \<equiv> ht_entries (hp_table h)"

abbreviation with_entries :: "heap \<Rightarrow> u8 list \<Rightarrow> heap" where
  "with_entries h es \<equiv> h\<lparr>hp_table := (hp_table h)\<lparr>ht_entries := es\<rparr>\<rparr>"

section \<open>Lists: splicing a segment\<close>

lemma length_overlay [simp]: "s + length p \<le> length es \<Longrightarrow> length (overlay es s p) = length es"
  by (simp add: overlay_def)

lemma nth_overlay:
  "s + length p \<le> length es \<Longrightarrow> j < length es \<Longrightarrow>
   overlay es s p ! j = (if s \<le> j \<and> j < s + length p then p ! (j - s) else es ! j)"
  by (auto simp: overlay_def nth_append min_def)

lemma overlay_Nil [simp]: "overlay es s [] = es"
  by (simp add: overlay_def)

lemma overlay_Cons:
  "s < length es \<Longrightarrow> overlay (es[s := x]) (Suc s) p = overlay es s (x # p)"
  by (simp add: overlay_def take_Suc_conv_app_nth)

lemma overlay_overlay:
  "length p = length q \<Longrightarrow> s + length q \<le> length es \<Longrightarrow> overlay (overlay es s q) s p = overlay es s p"
  by (simp add: overlay_def)

lemma overlay_id: "s + n \<le> length es \<Longrightarrow> n = length p \<Longrightarrow> take n (drop s es) = p \<Longrightarrow> overlay es s p = es"
  by (auto simp: overlay_def) (metis append_take_drop_id drop_drop add.commute)

lemma take_drop_overlay: "s + length p \<le> length es \<Longrightarrow> take (length p) (drop s (overlay es s p)) = p"
  by (simp add: overlay_def)

lemma set_overlay: "set (overlay es s p) \<subseteq> set es \<union> set p"
  by (auto simp: overlay_def dest: in_set_takeD in_set_dropD)

lemma word_of_int_nat_eq:
  "m < 2 ^ 32 \<Longrightarrow> n < 2 ^ 32 \<Longrightarrow> (word_of_int (int m) = (of_nat n :: u32)) \<longleftrightarrow> m = n"
  by (simp add: word_of_nat_eq_iff take_bit_nat_eq_self)

section \<open>The first-fit search\<close>

definition search_inv :: "u8 list \<Rightarrow> nat \<Rightarrow> nat \<Rightarrow> int \<Rightarrow> int \<Rightarrow> bool" where
  "search_inv es n i bc bs \<longleftrightarrow>
     (if bs = - 1 then bc = 0 \<and> (\<forall>s < i. \<not> window_free es s n) \<and> (i = 0 \<or> \<not> is_free (es ! (i - 1)))
      else 0 \<le> bs \<and> bs < int i \<and> bc = int i - bs \<and> bc < int n \<and>
           (\<forall>s < nat bs. \<not> window_free es s n) \<and> (\<forall>j. nat bs \<le> j \<and> j < i \<longrightarrow> is_free (es ! j)))"

definition search_result :: "u8 list \<Rightarrow> nat \<Rightarrow> int \<Rightarrow> bool" where
  "search_result es n r \<longleftrightarrow>
     (0 \<le> r \<and> first_fit es n (nat r)) \<or>
     ((\<forall>s. \<not> window_free es s n) \<and>
      (if r = - 1 then es = [] \<or> \<not> is_free (last es)
       else 0 \<le> r \<and> nat r < length es \<and> length es < nat r + n \<and> is_free (last es)))"

lemma search_inv_taken:
  assumes "search_inv es n i bc bs" and "0 < n" and "\<not> is_free (es ! i)"
  shows "search_inv es n (Suc i) 0 (- 1)"
proof -
  have "\<not> window_free es s n" if "s < Suc i" for s
  proof (cases "s < (if bs = - 1 then i else nat bs)")
    case True
    with assms(1) show ?thesis by (auto simp: search_inv_def split: if_splits)
  next
    case False
    then have "i < s + n" using that assms(1,2) by (auto simp: search_inv_def split: if_splits)
    with that assms(3) show ?thesis by (auto simp: window_free_def intro!: exI [of _ i])
  qed
  with assms(3) show ?thesis by (simp add: search_inv_def)
qed

lemma search_inv_free:
  assumes "search_inv es n i bc bs" and "is_free (es ! i)" and "bc + 1 < int n"
  shows "search_inv es n (Suc i) (bc + 1) (if bs = - 1 then int i else bs)"
  using assms by (auto simp: search_inv_def less_Suc_eq)

lemma search_inv_found:
  assumes "search_inv es n i bc bs" and "is_free (es ! i)" and "bc + 1 = int n" and "i < length es"
  shows "0 \<le> (if bs = - 1 then int i else bs) \<and> first_fit es n (nat (if bs = - 1 then int i else bs))"
proof (cases "bs = - 1")
  case True
  with assms show ?thesis
    by (auto simp: search_inv_def first_fit_def) (auto simp: window_free_def le_less_Suc_eq Suc_le_eq)
next
  case False
  with assms(1,3) have "nat bs + n = Suc i" by (auto simp: search_inv_def)
  with False assms show ?thesis
    by (auto simp: search_inv_def first_fit_def less_Suc_eq) (auto simp: window_free_def less_Suc_eq)
qed

lemma search_inv_end:
  assumes "search_inv es n (length es) bc bs" and "0 < n"
  shows "search_result es n bs"
proof -
  have "\<not> window_free es s n" for s
  proof (cases "s < (if bs = - 1 then length es else nat bs)")
    case True
    with assms(1) show ?thesis by (auto simp: search_inv_def split: if_splits)
  next
    case False
    with assms show ?thesis by (auto simp: search_inv_def window_free_def split: if_splits)
  qed
  with assms show ?thesis
    by (cases "es = []") (auto simp: search_inv_def search_result_def last_conv_nth)
qed

lemma heap_get_start_block_loop_spec:
  assumes "search_inv es n i bc bs" and "0 < n" and "n < 2 ^ 32" and "i + k = length es"
  shows "\<exists>r. heap_get_start_block_loop es (of_nat n) k i bc bs = Some r \<and> search_result es n r"
  using assms(1,4)
proof (induction k arbitrary: i bc bs)
  case 0
  then show ?case using search_inv_end [of es n bc bs] assms(2) by simp
next
  case (Suc k)
  then have i: "i < length es" by simp
  have bc: "0 \<le> bc" "bc < int n"
    using Suc.prems(1) assms(2) by (auto simp: search_inv_def split: if_splits)
  have eq: "(word_of_int (bc + 1) = (of_nat n :: u32)) \<longleftrightarrow> bc + 1 = int n"
  proof -
    have "nat (bc + 1) < 2 ^ 32" using bc assms(3) by simp
    from word_of_int_nat_eq [OF this assms(3)] bc show ?thesis by (simp add: nat_eq_iff2) linarith
  qed
  show ?case
  proof (cases "is_free (es ! i)")
    case False
    then have "heap_get_start_block_loop es (of_nat n) (Suc k) i bc bs =
        heap_get_start_block_loop es (of_nat n) k (Suc i) 0 (- 1)"
      using i by (simp add: is_free_def)
    with Suc.IH [OF search_inv_taken [OF Suc.prems(1) assms(2) False]] Suc.prems(2)
    show ?thesis by simp
  next
    case True
    let ?bs = "if bs = - 1 then int i else bs"
    show ?thesis
    proof (cases "bc + 1 = int n")
      case found: True
      have "heap_get_start_block_loop es (of_nat n) (Suc k) i bc bs = Some ?bs"
        using i True found eq by (simp add: is_free_def Let_def)
      with search_inv_found [OF Suc.prems(1) True found i] show ?thesis
        by (simp add: search_result_def)
    next
      case more: False
      then have "heap_get_start_block_loop es (of_nat n) (Suc k) i bc bs =
          heap_get_start_block_loop es (of_nat n) k (Suc i) (bc + 1) ?bs"
        using i True eq by (simp add: is_free_def Let_def)
      moreover have "bc + 1 < int n" using more bc by simp
      ultimately show ?thesis
        using Suc.IH [OF search_inv_free [OF Suc.prems(1) True]] Suc.prems(2) by simp
    qed
  qed
qed

lemma heap_get_start_block_spec:
  assumes "heap_inv h" and "0 < n" and "n < 2 ^ 32"
  shows "\<exists>r. heap_get_start_block h (of_nat n) = Some (if r = - 1 then - ENOMEM else r) \<and>
             search_result (entries_of h) n r"
proof -
  have "search_inv (entries_of h) n 0 0 (- 1)" by (simp add: search_inv_def)
  from heap_get_start_block_loop_spec [OF this assms(2,3)] assms(1)
  show ?thesis by (auto simp: heap_get_start_block_def heap_inv_def)
qed

section \<open>Marking and unmarking blocks\<close>

lemma set_entry_eq:
  "i < length (entries_of h) \<Longrightarrow> set_entry h (int i) e = Some (with_entries h ((entries_of h)[i := e]))"
  by (simp add: set_entry_def)

definition run_pattern :: "u8 \<Rightarrow> nat \<Rightarrow> u8 list" where
  "run_pattern e k = e # (if k = 1 then [] else replicate (k - 2) 0x81 @ [0x01])"

lemma length_run_pattern [simp]: "0 < k \<Longrightarrow> length (run_pattern e k) = k"
  by (cases k; cases "k - 1") (auto simp: run_pattern_def)

lemma length_block_pattern [simp]: "0 < n \<Longrightarrow> length (block_pattern n) = n"
  by (cases n; cases "n - 1") (auto simp: block_pattern_def)

lemma run_pattern_Suc:
  "0 < k \<Longrightarrow> run_pattern e (Suc k) = e # run_pattern (if k = 1 then 0x01 else 0x81) k"
  by (cases k; cases "k - 1") (auto simp: run_pattern_def)

lemma heap_mark_blocks_taken_loop_eq:
  assumes "0 < k" and "i + k \<le> length (entries_of h)"
  shows "heap_mark_blocks_taken_loop h k (int i) (int (i + k) - 1) e =
         Some (with_entries h (overlay (entries_of h) i (run_pattern e k)))"
  using assms
proof (induction k arbitrary: h i e)
  case (Suc k)
  let ?h = "with_entries h ((entries_of h)[i := e])"
  have step: "heap_mark_blocks_taken_loop h (Suc k) (int i) (int (i + Suc k) - 1) e =
     heap_mark_blocks_taken_loop ?h k (int (Suc i)) (int (Suc i + k) - 1) (if k = 1 then 0x01 else 0x81)"
    using Suc.prems by (simp add: set_entry_eq heap_consts add.commute)
  show ?case
  proof (cases "k = 0")
    case True
    with Suc.prems show ?thesis
      by (subst step) (simp add: run_pattern_def overlay_def upd_conv_take_nth_drop)
  next
    case False
    with Suc.prems have "heap_mark_blocks_taken_loop ?h k (int (Suc i)) (int (Suc i + k) - 1)
        (if k = 1 then 0x01 else 0x81) =
      Some (with_entries ?h (overlay (entries_of ?h) (Suc i) (run_pattern (if k = 1 then 0x01 else 0x81) k)))"
      by (intro Suc.IH) auto
    with False Suc.prems show ?thesis
      by (subst step) (simp add: overlay_Cons run_pattern_Suc)
  qed
qed simp

lemma heap_mark_blocks_taken_eq:
  assumes "0 < n" and "s + n \<le> length (entries_of h)"
  shows "heap_mark_blocks_taken h (int s) (int n) =
         Some (with_entries h (overlay (entries_of h) s (block_pattern n)))"
proof -
  have "nat (int s + int n - 1 - int s + 1) = n" by simp
  moreover have "run_pattern (if int n > 1 then 0xC1 else 0x41) n = block_pattern n"
    using assms(1) by (auto simp: run_pattern_def block_pattern_def)
  ultimately show ?thesis
    using heap_mark_blocks_taken_loop_eq [OF assms, of "if int n > 1 then 0xC1 else 0x41"]
    by (simp add: heap_mark_blocks_taken_def heap_consts Let_def add_diff_eq split: if_splits)
qed

lemma heap_mark_blocks_taken_loop_overrun:
  "i \<le> length (entries_of h) \<Longrightarrow> length (entries_of h) < i + k \<Longrightarrow>
   heap_mark_blocks_taken_loop h k (int i) eb e = None"
proof (induction k arbitrary: h i e)
  case (Suc k)
  show ?case
  proof (cases "i < length (entries_of h)")
    case True
    let ?h = "with_entries h ((entries_of h)[i := e])"
    have "heap_mark_blocks_taken_loop ?h k (int (Suc i)) eb e' = None" for e'
      using Suc.prems True by (intro Suc.IH) auto
    with True show ?thesis by (simp add: set_entry_eq add.commute Let_def)
  next
    case False
    then show ?thesis by (simp add: set_entry_def)
  qed
qed simp

lemma heap_mark_blocks_taken_overrun:
  assumes "length (entries_of h) < s + n" and "s < length (entries_of h)"
  shows "heap_mark_blocks_taken h (int s) (int n) = None"
  using heap_mark_blocks_taken_loop_overrun [of s h n] assms
  by (simp add: heap_mark_blocks_taken_def Let_def)

lemma heap_mark_blocks_free_loop_eq:
  assumes "0 < n" and "n \<le> k" and "i + n \<le> length (entries_of h)"
    and "\<forall>j < n - 1. entries_of h ! (i + j) AND 0x80 \<noteq> 0"
    and "entries_of h ! (i + n - 1) AND 0x80 = 0"
  shows "heap_mark_blocks_free_loop h k (int i) =
         Some (with_entries h (overlay (entries_of h) i (replicate n 0)))"
  using assms
proof (induction n arbitrary: h i k)
  case (Suc n)
  then obtain k' where k: "k = Suc k'" by (cases k) auto
  have i: "i < length (entries_of h)" using Suc.prems by simp
  let ?h = "with_entries h ((entries_of h)[i := 0])"
  show ?case
  proof (cases "n = 0")
    case True
    with Suc.prems i k show ?thesis
      by (simp add: set_entry_eq heap_consts overlay_def upd_conv_take_nth_drop)
  next
    case False
    then have first: "entries_of h ! i AND 0x80 \<noteq> 0" using Suc.prems(4) by force
    have "heap_mark_blocks_free_loop ?h k' (int (Suc i)) =
         Some (with_entries ?h (overlay (entries_of ?h) (Suc i) (replicate n 0)))"
    proof (rule Suc.IH)
      have "entries_of h ! (i + Suc j) AND 0x80 \<noteq> 0" if "j < n - 1" for j
        using Suc.prems(4) that less_diff_conv [of j n 1] by (metis Suc_eq_plus1 diff_Suc_1)
      then show "\<forall>j < n - 1. entries_of ?h ! (Suc i + j) AND 0x80 \<noteq> 0" by simp
      show "entries_of ?h ! (Suc i + n - 1) AND 0x80 = 0"
        using Suc.prems(5) False by auto
    qed (use False Suc.prems k in auto)
    with first i k show ?thesis
      by (simp add: set_entry_eq heap_consts overlay_Cons add.commute)
  qed
qed simp

lemma block_pattern_links:
  assumes "0 < n"
  shows "\<forall>j < n - 1. block_pattern n ! j AND 0x80 \<noteq> 0" and "block_pattern n ! (n - 1) AND 0x80 = 0"
  using assms by (auto simp: block_pattern_def nth_Cons' nth_append)

lemma block_pattern_taken: "e \<in> set (block_pattern n) \<Longrightarrow> \<not> is_free e"
  by (auto simp: block_pattern_def is_free_def heap_get_entry_type_def heap_consts split: if_splits)

section \<open>Sizes and addresses\<close>

lemma sint_small:
  assumes "unat (w :: u32) < 2 ^ 31"
  shows "sint w = int (unat w)"
proof -
  have "int (unat w) < int (2 ^ 31)" using assms by (simp only: of_nat_less_iff)
  then have "uint w < 2 ^ 31" by simp
  moreover have "0 \<le> uint w" by simp
  ultimately have "signed_take_bit 31 (uint w) = uint w"
    by (intro signed_take_bit_int_eq_self) linarith+
  then show ?thesis by (simp add: sint_uint)
qed

lemma sint_minus_small:
  assumes "unat (w :: u32) < 2 ^ 31"
  shows "sint (- w) = - int (unat w)"
proof -
  have "- w = word_of_int (- int (unat w))" by simp
  then have "sint (- w) = signed_take_bit 31 (- int (unat w))"
    by (simp only: signed_of_int) simp
  moreover have "int (unat w) < int (2 ^ 31)" using assms by (simp only: of_nat_less_iff)
  then have lo: "- (2 ^ 31) \<le> - int (unat w)" unfolding of_nat_power of_nat_numeral by linarith
  have "- int (unat w) \<le> 0" by (simp only: neg_le_0_iff_le of_nat_0_le_iff)
  then have hi: "- int (unat w) < 2 ^ 31" by (rule le_less_trans) simp
  have "signed_take_bit 31 (- int (unat w)) = - int (unat w)"
    by (rule signed_take_bit_int_eq_self) (rule lo, rule hi)
  ultimately show ?thesis by (simp only:)
qed

lemma heap_align_value_to_upper_eq:
  assumes "unat sz \<le> 0xFFFFF000"
  shows "unat (heap_align_value_to_upper sz) = blocks_needed sz * 4096"
proof -
  define q r where "q = unat sz div 4096" and "r = unat sz mod 4096"
  have m: "unat sz = q * 4096 + r" "r < 4096" by (simp_all add: q_def r_def)
  have md: "unat (sz mod 4096) = r" by (simp add: unat_mod r_def)
  show ?thesis
  proof (cases "r = 0")
    case True
    then have "sz mod 4096 = 0" using md by (simp add: unat_eq_0)
    moreover have "blocks_needed sz = q"
      unfolding blocks_needed_def using True m by (intro div_nat_eqI) auto
    ultimately show ?thesis using True m by (simp add: heap_align_value_to_upper_def heap_consts)
  next
    case False
    then have ne: "sz mod 4096 \<noteq> 0" using md by (metis unat_0)
    have "sz mod 4096 \<le> sz" using m md by (simp add: word_le_nat_alt)
    then have sub: "unat (sz - sz mod 4096) = q * 4096"
      using m md by (simp add: unat_sub)
    have "q * 4096 + 4096 < 2 ^ 32" using m assms False by simp
    then have "unat (sz - sz mod 4096 + 4096) = q * 4096 + 4096"
      using sub by (subst unat_add_lem [THEN iffD1]) simp_all
    moreover have "blocks_needed sz = Suc q"
      unfolding blocks_needed_def using False m by (intro div_nat_eqI) auto
    ultimately show ?thesis using ne by (simp add: heap_align_value_to_upper_def heap_consts)
  qed
qed

lemma blocks_needed_pos: "0 < unat sz \<Longrightarrow> 0 < blocks_needed sz"
  by (simp add: blocks_needed_def div_greater_zero_iff)

lemma blocks_needed_bound: "blocks_needed sz \<le> 1048576"
  using unat_u32_lt [of sz] by (simp add: blocks_needed_def)

lemma heap_align_blocks:
  assumes "unat sz \<le> 0xFFFFF000"
  shows "heap_align_value_to_upper sz div SERPAEOS_HEAP_BLOCK_SIZE = of_nat (blocks_needed sz)"
proof -
  have "unat (heap_align_value_to_upper sz div 4096) = blocks_needed sz"
    using heap_align_value_to_upper_eq [OF assms] by (simp add: unat_div)
  moreover have "unat (of_nat (blocks_needed sz) :: u32) = blocks_needed sz"
    using blocks_needed_bound [of sz] by (intro unat_of_nat_small) simp
  ultimately show ?thesis by (simp add: heap_consts word_unat_eq_iff)
qed

lemma unat_block_offset:
  assumes "heap_inv h" and "s < length (entries_of h)"
  shows "unat (word_of_int (int s * 4096) :: u32) = s * 4096"
proof -
  have "s * 4096 < 2 ^ 32" using assms by (simp add: heap_inv_def)
  then show ?thesis using unat_of_nat_small [of "s * 4096"] by simp
qed

lemma heap_address_to_block_eq:
  assumes "heap_inv h" and "s < length (entries_of h)"
  shows "heap_address_to_block h (heap_block_to_address h (int s)) = int s"
proof -
  have "s * 4096 < 2 ^ 31" using assms by (simp add: heap_inv_def)
  then have "sint (word_of_int (int s * 4096) :: u32) = int s * 4096"
    using unat_block_offset [OF assms] by (simp add: sint_small)
  then show ?thesis
    by (simp add: heap_address_to_block_def heap_block_to_address_def signed_divide_int_def sgn_if)
qed

lemma unat_heap_block_to_address:
  assumes "heap_inv h" and "s < length (entries_of h)"
  shows "unat (heap_block_to_address h (int s)) = unat (hp_saddr h) + s * 4096"
proof -
  have "unat (hp_saddr h) + s * 4096 < 2 ^ 32" using assms by (simp add: heap_inv_def)
  then show ?thesis
    using unat_block_offset [OF assms]
    by (simp add: heap_block_to_address_def) (subst unat_add_lem [THEN iffD1]; simp)
qed

section \<open>Effect of heap_malloc and heap_free\<close>

lemma heap_malloc_first_fit:
  assumes "heap_inv h" and "0 < unat sz" and "unat sz \<le> 0xFFFFF000"
    and "first_fit (entries_of h) (blocks_needed sz) s"
  shows "heap_malloc h sz =
     Some (heap_block_to_address h (int s),
           with_entries h (overlay (entries_of h) s (block_pattern (blocks_needed sz))))"
proof -
  let ?n = "blocks_needed sz"
  have n: "0 < ?n" "?n < 2 ^ 32" using blocks_needed_pos [OF assms(2)] blocks_needed_bound [of sz] by simp_all
  obtain r where r: "heap_get_start_block h (of_nat ?n) = Some (if r = - 1 then - ENOMEM else r)"
    and res: "search_result (entries_of h) ?n r"
    using heap_get_start_block_spec [OF assms(1) n] by blast
  from res assms(4) have "0 \<le> r" "first_fit (entries_of h) ?n (nat r)"
    by (auto simp: search_result_def first_fit_def)
  moreover have "s' = s" if "first_fit (entries_of h) ?n s'" for s'
    using that assms(4) by (auto simp: first_fit_def) (metis linorder_neqE_nat)
  ultimately have rs: "r = int s" by force
  have win: "s + ?n \<le> length (entries_of h)" using assms(4) by (simp add: first_fit_def window_free_def)
  have "unat (of_nat ?n :: u32) = ?n" using n(2) by (rule unat_of_nat_small)
  then have "sint (of_nat ?n :: u32) = int ?n"
    using blocks_needed_bound [of sz] sint_small [of "of_nat ?n"] by simp
  with r rs show ?thesis
    using heap_mark_blocks_taken_eq [OF n(1) win]
    by (simp add: heap_malloc_def Let_def heap_align_blocks [OF assms(3)] heap_malloc_blocks_def)
qed

lemma heap_malloc_no_fit:
  assumes "heap_inv h" and "0 < unat sz" and "unat sz \<le> 0xFFFFF000"
    and "\<And>s. \<not> window_free (entries_of h) s (blocks_needed sz)"
  shows "heap_malloc h sz =
     (if entries_of h = [] \<or> \<not> is_free (last (entries_of h)) then Some (0, h) else None)"
proof -
  let ?n = "blocks_needed sz"
  have n: "0 < ?n" "?n < 2 ^ 32" using blocks_needed_pos [OF assms(2)] blocks_needed_bound [of sz] by simp_all
  obtain r where r: "heap_get_start_block h (of_nat ?n) = Some (if r = - 1 then - ENOMEM else r)"
    and res: "search_result (entries_of h) ?n r"
    using heap_get_start_block_spec [OF assms(1) n] by blast
  have sn: "sint (of_nat ?n :: u32) = int ?n"
    using blocks_needed_bound [of sz] sint_small [of "of_nat ?n"] unat_of_nat_small [OF n(2)] by simp
  note unfold = heap_malloc_def Let_def heap_align_blocks [OF assms(3)] heap_malloc_blocks_def r sn
  show ?thesis
  proof (cases "r = - 1")
    case True
    with res assms(4) have "entries_of h = [] \<or> \<not> is_free (last (entries_of h))"
      by (auto simp: search_result_def)
    with True show ?thesis by (simp add: unfold ENOMEM_def)
  next
    case False
    with res assms(4) have w: "0 \<le> r" "nat r < length (entries_of h)"
        "length (entries_of h) < nat r + ?n" "is_free (last (entries_of h))"
      by (auto simp: search_result_def first_fit_def)
    then have none: "heap_mark_blocks_taken h r (int ?n) = None"
      using heap_mark_blocks_taken_overrun [of h "nat r" ?n] by simp
    have "entries_of h \<noteq> []" using w(2) by auto
    with False w none show ?thesis by (simp add: unfold)
  qed
qed

lemma heap_free_block:
  assumes "heap_inv h" and "0 < n" and "s + n \<le> length (entries_of h)"
    and "take n (drop s (entries_of h)) = block_pattern n"
  shows "heap_free h (heap_block_to_address h (int s)) =
         Some (with_entries h (overlay (entries_of h) s (replicate n 0)))"
proof -
  have "entries_of h ! (s + j) = block_pattern n ! j" if "j < n" for j
    using that assms(3) by (simp flip: assms(4))
  then have links: "\<forall>j < n - 1. entries_of h ! (s + j) AND 0x80 \<noteq> 0"
      "entries_of h ! (s + n - 1) AND 0x80 = 0"
    using block_pattern_links [OF assms(2)] assms(2) by (simp_all flip: add_diff_assoc)
  have total: "sint (ht_total (hp_table h)) = int (length (entries_of h))"
    using assms(1) by (simp add: heap_inv_def sint_small)
  have "heap_address_to_block h (heap_block_to_address h (int s)) = int s"
    using assms by (intro heap_address_to_block_eq) auto
  then show ?thesis
    using heap_mark_blocks_free_loop_eq [OF assms(2) _ assms(3) links, of "length (entries_of h) - s"] assms(3)
    by (simp add: heap_free_def heap_mark_blocks_free_def total nat_diff_distrib)
qed

section \<open>Refinement to a set of live allocations\<close>

text \<open>
  The abstract view of the heap is a finite map from the first block of each live allocation to
  its number of blocks. \<open>heap_rep\<close> relates it to the status bytes.
\<close>

definition owned :: "(nat \<rightharpoonup> nat) \<Rightarrow> nat set" where
  "owned live = {j. \<exists>s n. live s = Some n \<and> s \<le> j \<and> j < s + n}"

definition heap_rep :: "heap \<Rightarrow> (nat \<rightharpoonup> nat) \<Rightarrow> bool" where
  "heap_rep h live \<longleftrightarrow> heap_inv h \<and>
     (\<forall>s n. live s = Some n \<longrightarrow> 0 < n \<and> s + n \<le> length (entries_of h) \<and>
                           take n (drop s (entries_of h)) = block_pattern n) \<and>
     (\<forall>s n s' n'. live s = Some n \<and> live s' = Some n' \<and> s \<noteq> s' \<longrightarrow> s + n \<le> s' \<or> s' + n' \<le> s) \<and>
     (\<forall>j < length (entries_of h). is_free (entries_of h ! j) \<longleftrightarrow> j \<notin> owned live)"

lemma heap_rep_inv: "heap_rep h live \<Longrightarrow> heap_inv h"
  by (simp add: heap_rep_def)

lemma heap_rep_live:
  "heap_rep h live \<Longrightarrow> live s = Some n \<Longrightarrow>
   0 < n \<and> s + n \<le> length (entries_of h) \<and> take n (drop s (entries_of h)) = block_pattern n"
  by (simp add: heap_rep_def)

lemma heap_rep_disjoint:
  assumes "heap_rep h live" and "live s = Some n" and "live s' = Some n'" and "s \<noteq> s'"
  shows "s + n \<le> s' \<or> s' + n' \<le> s"
proof -
  have "\<forall>s n s' n'. live s = Some n \<and> live s' = Some n' \<and> s \<noteq> s' \<longrightarrow> s + n \<le> s' \<or> s' + n' \<le> s"
    using assms(1) by (simp add: heap_rep_def)
  with assms(2-4) show ?thesis by blast
qed

lemma heap_rep_free:
  "heap_rep h live \<Longrightarrow> j < length (entries_of h) \<Longrightarrow> is_free (entries_of h ! j) \<longleftrightarrow> j \<notin> owned live"
  by (simp add: heap_rep_def)

lemma ownedI: "live s = Some n \<Longrightarrow> s \<le> j \<Longrightarrow> j < s + n \<Longrightarrow> j \<in> owned live"
  by (auto simp: owned_def)

lemma take_drop_eqI:
  assumes "s + n \<le> length xs" and "length ys = length xs"
    and "\<And>j. s \<le> j \<Longrightarrow> j < s + n \<Longrightarrow> ys ! j = xs ! j"
  shows "take n (drop s ys) = take n (drop s xs)"
  using assms by (intro nth_equalityI) auto

lemma heap_inv_with_entries:
  "heap_inv h \<Longrightarrow> length es = length (entries_of h) \<Longrightarrow> (\<forall>e \<in> set es. is_free e \<longrightarrow> e = 0) \<Longrightarrow>
   heap_inv (with_entries h es)"
  by (simp add: heap_inv_def)

lemma owned_upd:
  "live s = None \<Longrightarrow> owned (live(s \<mapsto> n)) = owned live \<union> {s ..< s + n}"
  by (force simp: owned_def)

lemma first_fit_not_live:
  assumes "heap_rep h live" and "first_fit (entries_of h) n s" and "0 < n"
  shows "live s = None" and "{s ..< s + n} \<inter> owned live = {}"
proof -
  have "j \<notin> owned live" if "s \<le> j" "j < s + n" for j
    using that assms heap_rep_free [OF assms(1), of j] by (auto simp: first_fit_def window_free_def)
  then show dis: "{s ..< s + n} \<inter> owned live = {}" by auto
  show "live s = None"
  proof (cases "live s")
    case (Some m)
    with heap_rep_live [OF assms(1) Some] have "s \<in> owned live" using Some by (auto intro: ownedI [of live s m])
    moreover have "s \<in> {s ..< s + n}" using assms(3) by simp
    ultimately show ?thesis using dis by blast
  qed simp
qed

lemma heap_rep_alloc:
  assumes rep: "heap_rep h live" and fit: "first_fit (entries_of h) n s" and n: "0 < n"
  shows "heap_rep (with_entries h (overlay (entries_of h) s (block_pattern n))) (live(s \<mapsto> n))"
proof -
  let ?es = "entries_of h" and ?es' = "overlay (entries_of h) s (block_pattern n)"
  have win: "s + n \<le> length ?es" using fit by (simp add: first_fit_def window_free_def)
  then have len: "length ?es' = length ?es" using n by simp
  note fresh = first_fit_not_live [OF rep fit n]
  have out: "?es' ! j = ?es ! j" if "j < length ?es" "j < s \<or> s + n \<le> j" for j
    using that win n by (auto simp: nth_overlay)
  have apart: "t + m \<le> s \<or> s + n \<le> t" if "live t = Some m" for t m
  proof (rule ccontr)
    assume "\<not> ?thesis"
    then have "max s t \<in> {s ..< s + n} \<inter> owned live"
      using that heap_rep_live [OF rep that] n by (auto intro!: ownedI [of live t m])
    with fresh(2) show False by blast
  qed
  have old: "take m (drop t ?es') = block_pattern m" if "live t = Some m" for t m
    using take_drop_eqI [of t m ?es ?es'] heap_rep_live [OF rep that] apart [OF that] len out by auto
  have new: "take n (drop s ?es') = block_pattern n"
    using take_drop_overlay [of s "block_pattern n" ?es] win n by simp
  have free: "is_free (?es' ! j) \<longleftrightarrow> j \<notin> owned (live(s \<mapsto> n))" if j: "j < length ?es" for j
  proof (cases "s \<le> j \<and> j < s + n")
    case True
    then have "?es' ! j \<in> set (block_pattern n)" using win n j by (auto simp: nth_overlay intro!: nth_mem)
    with True show ?thesis using fresh(1) by (auto simp: owned_upd dest: block_pattern_taken)
  next
    case False
    with out j heap_rep_free [OF rep j] show ?thesis using fresh(1) by (auto simp: owned_upd)
  qed
  have zero: "\<forall>e \<in> set ?es'. is_free e \<longrightarrow> e = 0"
    using set_overlay [of ?es s "block_pattern n"] heap_rep_inv [OF rep]
    by (auto simp: heap_inv_def dest: block_pattern_taken)
  have "heap_inv (with_entries h ?es')"
    using heap_inv_with_entries [OF heap_rep_inv [OF rep] len zero] .
  moreover have "\<forall>t m. (live(s \<mapsto> n)) t = Some m \<longrightarrow>
      0 < m \<and> t + m \<le> length ?es' \<and> take m (drop t ?es') = block_pattern m"
    using old new heap_rep_live [OF rep] n win len by (auto split: if_splits)
  moreover have "\<forall>t m t' m'. (live(s \<mapsto> n)) t = Some m \<and> (live(s \<mapsto> n)) t' = Some m' \<and> t \<noteq> t' \<longrightarrow>
      t + m \<le> t' \<or> t' + m' \<le> t"
    using apart heap_rep_disjoint [OF rep] by (auto split: if_splits)
  ultimately show ?thesis using free len unfolding heap_rep_def by simp
qed

lemma owned_del:
  assumes "heap_rep h live" and "live s = Some n"
  shows "owned (live(s := None)) = owned live - {s ..< s + n}"
proof -
  have "j \<notin> {s ..< s + n}" if "live t = Some m" "t \<noteq> s" "t \<le> j" "j < t + m" for j t m
    using heap_rep_disjoint [OF assms(1) assms(2) that(1)] that by auto
  with assms(2) show ?thesis
    by (auto simp: owned_def split: if_splits) (metis option.sel)+
qed

lemma heap_rep_dealloc:
  assumes rep: "heap_rep h live" and liv: "live s = Some n"
  shows "heap_rep (with_entries h (overlay (entries_of h) s (replicate n 0))) (live(s := None))"
proof -
  let ?es = "entries_of h" and ?es' = "overlay (entries_of h) s (replicate n 0)"
  have win: "0 < n" "s + n \<le> length ?es" using heap_rep_live [OF rep liv] by simp_all
  then have len: "length ?es' = length ?es" by simp
  have out: "?es' ! j = ?es ! j" if "j < length ?es" "j < s \<or> s + n \<le> j" for j
    using that win by (auto simp: nth_overlay)
  have old: "take m (drop t ?es') = block_pattern m" if "live t = Some m" "t \<noteq> s" for t m
    using take_drop_eqI [of t m ?es ?es'] heap_rep_live [OF rep that(1)]
      heap_rep_disjoint [OF rep that(1) liv that(2)] len out by auto
  have free: "is_free (?es' ! j) \<longleftrightarrow> j \<notin> owned (live(s := None))" if j: "j < length ?es" for j
  proof (cases "s \<le> j \<and> j < s + n")
    case True
    then have "?es' ! j = 0" using win j by (auto simp: nth_overlay)
    with True show ?thesis
      by (simp add: owned_del [OF rep liv] is_free_def heap_get_entry_type_def heap_consts)
  next
    case False
    with out j heap_rep_free [OF rep j] show ?thesis by (auto simp: owned_del [OF rep liv])
  qed
  have zero: "\<forall>e \<in> set ?es'. is_free e \<longrightarrow> e = 0"
    using set_overlay [of ?es s "replicate n 0"] heap_rep_inv [OF rep] by (auto simp: heap_inv_def)
  have "heap_inv (with_entries h ?es')"
    using heap_inv_with_entries [OF heap_rep_inv [OF rep] len zero] .
  moreover have "\<forall>t m. (live(s := None)) t = Some m \<longrightarrow>
      0 < m \<and> t + m \<le> length ?es' \<and> take m (drop t ?es') = block_pattern m"
    using old heap_rep_live [OF rep] len by (auto split: if_splits)
  moreover have "\<forall>t m t' m'. (live(s := None)) t = Some m \<and> (live(s := None)) t' = Some m' \<and> t \<noteq> t' \<longrightarrow>
      t + m \<le> t' \<or> t' + m' \<le> t"
    using heap_rep_disjoint [OF rep] by (auto split: if_splits)
  ultimately show ?thesis using free len unfolding heap_rep_def by simp
qed

lemma overlay_free_restores:
  assumes "heap_inv h" and "0 < n" and "window_free (entries_of h) s n"
  shows "overlay (overlay (entries_of h) s (block_pattern n)) s (replicate n 0) = entries_of h"
proof -
  have win: "s + n \<le> length (entries_of h)" using assms(3) by (simp add: window_free_def)
  have "take n (drop s (entries_of h)) = replicate n 0"
    using assms(1,3) win by (intro nth_equalityI) (auto simp: heap_inv_def window_free_def)
  then show ?thesis
    using win assms(2) by (simp add: overlay_overlay overlay_id)
qed

lemma heap_align_wraps:
  assumes "sz = 0 \<or> 0xFFFFF000 < unat sz"
  shows "heap_align_value_to_upper sz = 0"
proof (cases "sz = 0")
  case False
  define r where "r = unat sz - 0xFFFFF000"
  have r: "unat sz = 0xFFFFF000 + r" "0 < r" "r < 4096"
    using False assms unat_u32_lt [of sz] by (auto simp: r_def)
  have "(0xFFFFF000 + r) mod 4096 = r" using r(3) by (simp add: mod_add_eq [symmetric, of "0xFFFFF000"])
  then have md: "unat (sz mod 4096) = r" by (simp add: unat_mod r(1))
  then have "sz mod 4096 \<noteq> 0" using r(2) by (metis unat_0 less_irrefl)
  moreover have "unat (sz - sz mod 4096) = 0xFFFFF000"
    using md r by (subst unat_sub) (simp_all add: word_le_nat_alt)
  then have "sz - sz mod 4096 = 0xFFFFF000" by (simp add: word_unat_eq_iff)
  ultimately show ?thesis by (simp add: heap_align_value_to_upper_def heap_consts)
qed (simp add: heap_align_value_to_upper_def heap_consts)

lemma heap_align_nonzero: "heap_align_value_to_upper sz \<noteq> 0 \<Longrightarrow> 0 < unat sz \<and> unat sz \<le> 0xFFFFF000"
  using heap_align_wraps [of sz] by (cases "sz = 0") (auto simp: unat_gt_0 linorder_not_less [symmetric] simp del: linorder_not_less)

lemma heap_malloc_nothing:
  assumes "heap_malloc h sz = Some (p, h')" and "heap_align_value_to_upper sz = 0"
  shows "h' = h"
  using assms
  by (auto simp: heap_malloc_def heap_malloc_blocks_def heap_mark_blocks_taken_def Let_def
      split: bind_splits if_splits)

section \<open>Runs of the allocator\<close>

inductive heap_step :: "heap \<times> (nat \<rightharpoonup> nat) \<Rightarrow> heap \<times> (nat \<rightharpoonup> nat) \<Rightarrow> bool" where
  step_malloc:
    "\<lbrakk>heap_malloc h sz = Some (p, h'); heap_align_value_to_upper sz \<noteq> 0; p \<noteq> 0\<rbrakk> \<Longrightarrow>
     heap_step (h, live) (h', live(nat (heap_address_to_block h p) \<mapsto> blocks_needed sz))"
| step_malloc_nothing:
    \<comment> \<open>a request that rounds to no block at all: the caller gets an address, but owns nothing\<close>
    "\<lbrakk>heap_malloc h sz = Some (p, h'); heap_align_value_to_upper sz = 0\<rbrakk> \<Longrightarrow>
     heap_step (h, live) (h', live)"
| step_malloc_fail:
    "heap_malloc h sz = Some (0, h') \<Longrightarrow> heap_step (h, live) (h', live)"
| step_free:
    "\<lbrakk>live s = Some n; heap_free h (heap_block_to_address h (int s)) = Some h'\<rbrakk> \<Longrightarrow>
     heap_step (h, live) (h', live(s := None))"

inductive heap_reach :: "heap \<Rightarrow> heap \<times> (nat \<rightharpoonup> nat) \<Rightarrow> bool" for h0 where
  reach_start: "heap_reach h0 (h0, Map.empty)"
| reach_step: "heap_reach h0 st \<Longrightarrow> heap_step st st' \<Longrightarrow> heap_reach h0 st'"

lemma first_fit_exists: "window_free es s n \<Longrightarrow> \<exists>s. first_fit es n s"
  unfolding first_fit_def by (rule exI [of _ "LEAST s. window_free es s n"])
    (auto intro: LeastI dest: not_less_Least)

lemma heap_address_nonzero:
  assumes "heap_inv h" and "s < length (entries_of h)"
  shows "heap_block_to_address h (int s) \<noteq> 0"
  using unat_heap_block_to_address [OF assms] assms(1) by (auto simp: heap_inv_def)

lemma heap_malloc_cases:
  assumes "heap_inv h" and "0 < unat sz" and "unat sz \<le> 0xFFFFF000"
    and "heap_malloc h sz = Some (p, h')"
  obtains (fit) s where "first_fit (entries_of h) (blocks_needed sz) s" "s < length (entries_of h)"
      "p = heap_block_to_address h (int s)" "p \<noteq> 0"
      "h' = with_entries h (overlay (entries_of h) s (block_pattern (blocks_needed sz)))"
    | (full) "p = 0" "h' = h"
proof (cases "\<exists>s. window_free (entries_of h) s (blocks_needed sz)")
  case True
  then obtain s where ff: "first_fit (entries_of h) (blocks_needed sz) s" using first_fit_exists by blast
  then have s: "s < length (entries_of h)"
    using blocks_needed_pos [OF assms(2)] by (auto simp: first_fit_def window_free_def)
  show ?thesis
    using fit [OF ff s] heap_malloc_first_fit [OF assms(1-3) ff] assms(4) heap_address_nonzero [OF assms(1) s]
    by simp
next
  case False
  then show ?thesis using heap_malloc_no_fit [OF assms(1-3)] assms(4) full by (auto split: if_splits)
qed

lemma heap_step_malloc:
  assumes "heap_malloc h sz = Some (p, h')"
  shows "\<exists>live'. heap_step (h, live) (h', live')"
  using assms step_malloc_fail step_malloc_nothing step_malloc by (cases "p = 0") blast+

lemma heap_step_rep:
  assumes "heap_step st st'" and "heap_rep (fst st) (snd st)"
  shows "heap_rep (fst st') (snd st')"
  using assms
proof (induction rule: heap_step.induct)
  case (step_malloc h sz p h' live)
  then have inv: "heap_inv h" and sz: "0 < unat sz" "unat sz \<le> 0xFFFFF000"
    using heap_align_nonzero [of sz] by (simp_all add: heap_rep_inv)
  from heap_malloc_cases [OF inv sz step_malloc(1)] step_malloc(3)
  obtain s where s: "first_fit (entries_of h) (blocks_needed sz) s" "s < length (entries_of h)"
    "p = heap_block_to_address h (int s)"
    "h' = with_entries h (overlay (entries_of h) s (block_pattern (blocks_needed sz)))"
    by metis
  have "nat (heap_address_to_block h p) = s"
    using heap_address_to_block_eq [OF inv s(2)] s(3) by simp
  with s heap_rep_alloc [OF _ s(1) blocks_needed_pos [OF sz(1)]] step_malloc(4)
  show ?case by (simp del: fun_upd_apply)
next
  case (step_malloc_nothing h sz p h' live)
  then show ?case using heap_malloc_nothing by (metis fst_conv snd_conv)
next
  case (step_malloc_fail h sz h' live)
  then have inv: "heap_inv h" by (simp add: heap_rep_inv)
  have "h' = h"
  proof (cases "heap_align_value_to_upper sz = 0")
    case True
    with heap_malloc_nothing step_malloc_fail show ?thesis by blast
  next
    case False
    then have sz: "0 < unat sz" "unat sz \<le> 0xFFFFF000" using heap_align_nonzero [of sz] by simp_all
    from heap_malloc_cases [OF inv sz step_malloc_fail(1)] show ?thesis by metis
  qed
  with step_malloc_fail show ?case by simp
next
  case (step_free live s n h h')
  then have rep: "heap_rep h live" by simp
  from heap_free_block [OF heap_rep_inv [OF rep]] heap_rep_live [OF rep step_free(1)] step_free(2)
  have "h' = with_entries h (overlay (entries_of h) s (replicate n 0))" by auto
  with heap_rep_dealloc [OF rep step_free(1)] show ?case by (simp del: fun_upd_apply)
qed

lemma heap_rep_empty:
  assumes "heap_inv h" and "\<forall>e \<in> set (entries_of h). e = 0"
  shows "heap_rep h Map.empty"
proof -
  have "is_free (entries_of h ! j)" if "j < length (entries_of h)" for j
    using bspec [OF assms(2) nth_mem [OF that]] by (simp add: is_free_def heap_get_entry_type_def heap_consts)
  with assms(1) show ?thesis by (simp add: heap_rep_def owned_def)
qed

lemma heap_reach_rep:
  assumes "heap_inv h0" and "\<forall>e \<in> set (entries_of h0). e = 0" and "heap_reach h0 st"
  shows "heap_rep (fst st) (snd st)"
  using assms(3)
proof (induction rule: heap_reach.induct)
  case reach_start
  then show ?case using heap_rep_empty [OF assms(1,2)] by simp
next
  case (reach_step st st')
  then show ?case by (blast intro: heap_step_rep)
qed

section \<open>Addresses below the pool\<close>

lemma heap_free_below:
  assumes "heap_inv h" and "e < 0x01000000" and "unat (hp_saddr h) + e < 2 ^ 31"
  shows "heap_free h (- of_nat e) = None"
proof -
  define a where "a = unat (hp_saddr h) + e"
  have a: "4096 \<le> a" "a < 2 ^ 31" using assms by (simp_all add: heap_inv_def a_def)
  have "unat (hp_saddr h + of_nat e) = a"
    using assms(2,3) by (simp add: a_def unat_word_ariths unat_of_nat_small)
  then have "sint (- (hp_saddr h + of_nat e)) = - int a"
    using sint_minus_small [of "hp_saddr h + of_nat e"] a(2) by simp
  moreover have "- of_nat e - hp_saddr h = - (hp_saddr h + of_nat e)" by simp
  ultimately have "heap_address_to_block h (- of_nat e) = - int (a div 4096)"
    using a by (simp only: heap_address_to_block_def) (simp add: signed_divide_int_def zdiv_int)
  moreover have "0 < a div 4096" using a by (simp add: div_greater_zero_iff)
  moreover have "0 \<le> sint (ht_total (hp_table h))"
    using assms(1) by (simp add: heap_inv_def sint_small)
  ultimately show ?thesis
    by (cases "nat (sint (ht_total (hp_table h)) - heap_address_to_block h (- of_nat e))")
      (auto simp: heap_free_def heap_mark_blocks_free_def)
qed

section \<open>Requests that reserve nothing\<close>

lemma heap_get_start_block_loop_zero:
  assumes "i + k = length es" and "length es < 2 ^ 31" and "0 \<le> bc" and "bc \<le> int i"
    and "bs = - 1 \<or> (0 \<le> bs \<and> bs < int i)" and "k = 0 \<longrightarrow> 0 \<le> bs" and "is_free (last es)"
  shows "\<exists>r. heap_get_start_block_loop es 0 k i bc bs = Some r \<and> 0 \<le> r \<and> r < int (length es)"
  using assms
proof (induction k arbitrary: i bc bs)
  case (Suc k)
  then have i: "i < length es" by simp
  have ne: "(word_of_int (bc + 1) :: u32) \<noteq> 0"
    using word_of_int_nat_eq [of "nat (bc + 1)" 0] Suc.prems by simp
  show ?case
  proof (cases "is_free (es ! i)")
    case True
    have "\<exists>r. heap_get_start_block_loop es 0 k (Suc i) (bc + 1) (if bs = - 1 then int i else bs) = Some r
              \<and> 0 \<le> r \<and> r < int (length es)"
      using Suc.prems by (intro Suc.IH) auto
    with True i ne show ?thesis by (simp add: is_free_def Let_def)
  next
    case False
    have "es \<noteq> []" using i by auto
    moreover have "length es - 1 = i + k" using Suc.prems(1) by simp
    ultimately have "last es = es ! (i + k)" using last_conv_nth [of es] by simp
    with False Suc.prems(7) have "k \<noteq> 0" by (metis add_0_right)
    then have "\<exists>r. heap_get_start_block_loop es 0 k (Suc i) 0 (- 1) = Some r \<and> 0 \<le> r \<and> r < int (length es)"
      using Suc.prems by (intro Suc.IH) auto
    with False i show ?thesis by (simp add: is_free_def)
  qed
qed auto

section \<open>Properties\<close>

text \<open>C4: allocation refines the abstract heap. When some run of free blocks is long enough,
  \<open>heap_malloc\<close> returns the address of the first one that is, its blocks belonged to no live
  allocation, and the status table then represents the live allocations with the new one added.\<close>
theorem heap_malloc_refines:
  assumes "heap_rep h live" and "0 < unat sz" and "unat sz \<le> 0xFFFFF000"
    and "first_fit (entries_of h) (blocks_needed sz) s"
  shows "\<exists>h'. heap_malloc h sz = Some (heap_block_to_address h (int s), h') \<and>
              heap_rep h' (live(s \<mapsto> blocks_needed sz)) \<and>
              {s ..< s + blocks_needed sz} \<inter> owned live = {}"
  using heap_malloc_first_fit [OF heap_rep_inv [OF assms(1)] assms(2-4)]
    heap_rep_alloc [OF assms(1,4) blocks_needed_pos [OF assms(2)]]
    first_fit_not_live(2) [OF assms(1,4) blocks_needed_pos [OF assms(2)]]
  by blast

definition demo_heap :: "u8 list \<Rightarrow> heap" where
  \<comment> \<open>a small pool at the kernel's heap address, for the witnesses\<close>
  "demo_heap es = \<lparr>hp_table = \<lparr>ht_entries = es, ht_total = of_nat (length es)\<rparr>, hp_saddr = 0x01000000\<rparr>"

lemma demo_heap_inv:
  "length es < 100000 \<Longrightarrow> \<forall>e \<in> set es. is_free e \<longrightarrow> e = 0 \<Longrightarrow> heap_inv (demo_heap es)"
  by (simp add: heap_inv_def demo_heap_def unat_of_nat_small)

lemma demo_heap_entries [simp]: "entries_of (demo_heap es) = es"
  by (simp add: demo_heap_def)

lemma demo_heap_rep: "heap_rep (demo_heap (replicate 4 0)) Map.empty"
  by (rule heap_rep_empty) (auto intro!: demo_heap_inv)

lemma demo_first_fit: "first_fit (replicate 4 0) (blocks_needed 5000) 0"
proof -
  have "blocks_needed 5000 = 2" by code_simp
  then show ?thesis
    by (simp add: first_fit_def window_free_def is_free_def heap_get_entry_type_def heap_consts
        nth_replicate)
qed

theorem heap_malloc_refines_witness:
  "\<exists>h'. heap_malloc (demo_heap (replicate 4 0)) 5000 =
          Some (heap_block_to_address (demo_heap (replicate 4 0)) (int 0), h') \<and>
        heap_rep h' (Map.empty(0 \<mapsto> blocks_needed 5000)) \<and>
        {0 ..< 0 + blocks_needed 5000} \<inter> owned Map.empty = {}"
  using heap_malloc_refines [OF demo_heap_rep, of 5000 0] demo_first_fit by simp

text \<open>C6: freeing refines the abstract heap. \<open>heap_free\<close> on the address of a live allocation
  releases exactly its blocks and leaves every other allocation as it was.\<close>
theorem heap_free_refines:
  assumes "heap_rep h live" and "live s = Some n"
  shows "\<exists>h'. heap_free h (heap_block_to_address h (int s)) = Some h' \<and>
              heap_rep h' (live(s := None)) \<and> owned (live(s := None)) = owned live - {s ..< s + n}"
  using heap_free_block [OF heap_rep_inv [OF assms(1)]] heap_rep_live [OF assms]
    heap_rep_dealloc [OF assms] owned_del [OF assms]
  by blast

lemma demo_heap_rep_live: "heap_rep (demo_heap [0xC1, 0x81, 0x01, 0]) [0 \<mapsto> 3]"
  unfolding heap_rep_def
proof (intro conjI)
  show "heap_inv (demo_heap [0xC1, 0x81, 0x01, 0])"
    by (rule demo_heap_inv) (simp_all add: is_free_def heap_get_entry_type_def heap_consts)
  have "owned [0 \<mapsto> 3] = {0, 1, 2}" by (auto simp: owned_def)
  then show "\<forall>j < length (entries_of (demo_heap [0xC1, 0x81, 0x01, 0])).
      is_free (entries_of (demo_heap [0xC1, 0x81, 0x01, 0]) ! j) \<longleftrightarrow> j \<notin> owned [0 \<mapsto> 3]"
    by (auto simp: less_Suc_eq numeral_eq_Suc is_free_def heap_get_entry_type_def heap_consts)
qed (auto simp: block_pattern_def numeral_eq_Suc split: if_splits)

theorem heap_free_refines_witness:
  "\<exists>h'. heap_free (demo_heap [0xC1, 0x81, 0x01, 0])
           (heap_block_to_address (demo_heap [0xC1, 0x81, 0x01, 0]) (int 0)) = Some h' \<and>
        heap_rep h' ([0 \<mapsto> 3](0 := None)) \<and> owned ([0 \<mapsto> 3](0 := None)) = owned [0 \<mapsto> 3] - {0 ..< 0 + 3}"
  using heap_free_refines [OF demo_heap_rep_live, of 0 3] by simp

text \<open>freeing a fresh allocation at once gives back the heap exactly as it was.\<close>
theorem heap_malloc_free_roundtrip:
  assumes "heap_inv h" and "0 < unat sz" and "unat sz \<le> 0xFFFFF000"
    and "heap_malloc h sz = Some (p, h')" and "p \<noteq> 0"
  shows "heap_free h' p = Some h"
proof -
  let ?n = "blocks_needed sz"
  from heap_malloc_cases [OF assms(1-4)] assms(5)
  obtain s where s: "first_fit (entries_of h) ?n s" "p = heap_block_to_address h (int s)"
    "h' = with_entries h (overlay (entries_of h) s (block_pattern ?n))" by metis
  have n: "0 < ?n" by (rule blocks_needed_pos [OF assms(2)])
  have win: "window_free (entries_of h) s ?n" "s + ?n \<le> length (entries_of h)"
    using s(1) by (auto simp: first_fit_def window_free_def)
  have "set (overlay (entries_of h) s (block_pattern ?n)) \<subseteq> set (entries_of h) \<union> set (block_pattern ?n)"
    by (rule set_overlay)
  then have inv': "heap_inv h'"
    using s(3) assms(1) win n
    by (auto simp: heap_inv_def dest!: block_pattern_taken subsetD)
  have "take ?n (drop s (entries_of h')) = block_pattern ?n"
    using s(3) take_drop_overlay [of s "block_pattern ?n"] win n by simp
  from heap_free_block [OF inv' n _ this] win s
  have "heap_free h' p = Some (with_entries h' (overlay (entries_of h') s (replicate ?n 0)))"
    using n by (simp add: heap_block_to_address_def)
  then show ?thesis
    using s(3) overlay_free_restores [OF assms(1) n win(1)] by simp
qed

theorem heap_malloc_free_roundtrip_witness:
  "heap_free (demo_heap [0x41, 0xC1, 0x01, 0]) 0x01001000 = Some (demo_heap [0x41, 0, 0, 0])"
proof -
  have m: "heap_malloc (demo_heap [0x41, 0, 0, 0]) 5000 = Some (0x01001000, demo_heap [0x41, 0xC1, 0x01, 0])"
    by code_simp
  have i: "heap_inv (demo_heap [0x41, 0, 0, 0])"
    by (rule demo_heap_inv) (simp_all add: is_free_def heap_get_entry_type_def heap_consts)
  show ?thesis using heap_malloc_free_roundtrip [OF i _ _ m] by simp
qed

text \<open>C5: in every state the allocator can reach from an empty pool by requests of any size and
  by freeing live allocations, the status table represents the live allocations, and two different
  live allocations never share a block. A live allocation is one that reserved blocks: a request of
  0 bytes, or of more than \<open>0xFFFFF000\<close> bytes, reserves none and adds no live allocation. Every
  request that returns, whatever its size, leads to such a state again.\<close>
theorem heap_reach_disjoint:
  assumes "heap_inv h0" and "\<forall>e \<in> set (entries_of h0). e = 0" and "heap_reach h0 (h, live)"
  shows "heap_rep h live \<and>
         (\<forall>s n s' n'. live s = Some n \<and> live s' = Some n' \<and> s \<noteq> s' \<longrightarrow>
            {s ..< s + n} \<inter> {s' ..< s' + n'} = {}) \<and>
         (\<forall>sz p h'. heap_malloc h sz = Some (p, h') \<longrightarrow> (\<exists>live'. heap_reach h0 (h', live'))) \<and>
         (\<forall>sz p h'. heap_malloc h sz = Some (p, h') \<and> (sz = 0 \<or> 0xFFFFF000 < unat sz) \<longrightarrow> h' = h)"
proof -
  have rep: "heap_rep h live" using heap_reach_rep [OF assms] by simp
  have "\<exists>live'. heap_reach h0 (h', live')" if "heap_malloc h sz = Some (p, h')" for sz p h'
    using heap_step_malloc [OF that] reach_step [OF assms(3)] by blast
  moreover have "h' = h" if "heap_malloc h sz = Some (p, h')" "sz = 0 \<or> 0xFFFFF000 < unat sz" for sz p h'
    using heap_malloc_nothing [OF that(1)] heap_align_wraps [OF that(2)] by blast
  ultimately show ?thesis using rep heap_rep_disjoint [OF rep] by fastforce
qed

theorem heap_reach_disjoint_witness:
  "heap_rep (demo_heap [0xC1, 0x01, 0, 0]) [0 \<mapsto> 2]"
proof -
  let ?h0 = "demo_heap (replicate 4 0)"
  have z: "heap_malloc ?h0 0 = Some (0x01000000, ?h0)" "heap_align_value_to_upper 0 = 0"
    by code_simp+
  have m: "heap_malloc ?h0 5000 = Some (0x01000000, demo_heap [0xC1, 0x01, 0, 0])"
    by code_simp
  have n: "blocks_needed 5000 = 2" and b: "nat (heap_address_to_block ?h0 0x01000000) = 0"
    and al: "heap_align_value_to_upper 5000 \<noteq> 0"
    by code_simp+
  have "heap_reach ?h0 (?h0, Map.empty)"
    using reach_step [OF reach_start step_malloc_nothing [OF z]] .
  moreover have "heap_step (?h0, Map.empty) (demo_heap [0xC1, 0x01, 0, 0], [0 \<mapsto> 2])"
    using step_malloc [OF m al, of Map.empty] unfolding n b by simp
  ultimately have "heap_reach ?h0 (demo_heap [0xC1, 0x01, 0, 0], [0 \<mapsto> 2])"
    by (rule reach_step)
  from heap_reach_disjoint [OF _ _ this] demo_heap_rep heap_rep_inv show ?thesis by force
qed

text \<open>\<open>heap_malloc\<close> runs off its status table when no run of free blocks is long enough but
  the last block is free: the search then returns the start of the short run at the end, and the
  marking loop writes past the last entry.\<close>
theorem heap_malloc_overruns_table:
  assumes "heap_inv h" and "0 < unat sz" and "unat sz \<le> 0xFFFFF000"
    and "\<And>s. \<not> window_free (entries_of h) s (blocks_needed sz)"
    and "entries_of h \<noteq> []" and "is_free (last (entries_of h))"
  shows "heap_malloc h sz = None"
  using heap_malloc_no_fit [OF assms(1-4)] assms(5,6) by simp

theorem heap_malloc_overruns_table_witness:
  "heap_malloc (demo_heap [0x41, 0, 0]) 10000 = None"
proof (rule heap_malloc_overruns_table)
  show "heap_inv (demo_heap [0x41, 0, 0])"
    by (rule demo_heap_inv) (simp_all add: is_free_def heap_get_entry_type_def heap_consts)
  show "\<not> window_free (entries_of (demo_heap [0x41, 0, 0])) s (blocks_needed 10000)" for s
    by (cases s) (auto simp: window_free_def blocks_needed_def is_free_def heap_get_entry_type_def
        heap_consts intro!: exI [of _ 0])
qed (simp_all add: is_free_def heap_get_entry_type_def heap_consts)

text \<open>freeing the null pointer is not a no-operation: the block index computed for address 0
  is negative, and \<open>heap_free\<close> writes in front of the status table.\<close>
theorem heap_free_null_escapes:
  assumes "heap_inv h"
  shows "heap_free h 0 = None"
  using heap_free_below [OF assms, of 0] assms by (simp add: heap_inv_def)

theorem heap_free_null_escapes_witness: "heap_free (demo_heap [0, 0]) 0 = None"
  using heap_free_null_escapes [OF demo_heap_inv [of "[0, 0]"]] by simp

text \<open>a request for 0 bytes, or for more than \<open>0xFFFFF000\<close> bytes (whose rounding wraps
  around to 0), returns a non-null address and reserves nothing, so the next allocation can
  return the same address.\<close>
theorem heap_malloc_reserves_nothing:
  assumes "heap_inv h" and "sz = 0 \<or> 0xFFFFF000 < unat sz"
    and "entries_of h \<noteq> []" and "is_free (last (entries_of h))"
  shows "\<exists>p. heap_malloc h sz = Some (p, h) \<and> p \<noteq> 0"
proof -
  have "\<exists>r. heap_get_start_block_loop (entries_of h) 0 (length (entries_of h)) 0 0 (- 1) = Some r \<and>
            0 \<le> r \<and> r < int (length (entries_of h))"
    using assms by (intro heap_get_start_block_loop_zero) (auto simp: heap_inv_def simp flip: length_greater_0_conv)
  then obtain r where r: "heap_get_start_block_loop (entries_of h) 0 (length (entries_of h)) 0 0 (- 1) = Some r"
    "0 \<le> r" "r < int (length (entries_of h))" by blast
  have "heap_block_to_address h (int (nat r)) \<noteq> 0"
    using r assms(1) by (intro heap_address_nonzero) auto
  moreover have "length (entries_of h) = unat (ht_total (hp_table h))"
    using assms(1) by (simp add: heap_inv_def)
  ultimately show ?thesis
    using r heap_align_wraps [OF assms(2)]
    by (simp add: heap_malloc_def heap_malloc_blocks_def heap_get_start_block_def
        heap_mark_blocks_taken_def Let_def)
qed

theorem heap_malloc_reserves_nothing_witness:
  "\<exists>p. heap_malloc (demo_heap [0x41, 0]) 0xFFFFFFFF = Some (p, demo_heap [0x41, 0]) \<and> p \<noteq> 0"
  by (rule heap_malloc_reserves_nothing)
    (auto intro!: demo_heap_inv simp: is_free_def heap_get_entry_type_def heap_consts)

end
