(* ===== verification/Physmem.thy ===== *)
theory Physmem
  imports Prelude
begin

text \<open>
  The byte-addressed physical memory that the kernel reads and writes through raw pointers:
  32-bit little-endian accesses, the byte loops of \<open>memset\<close> and \<open>memcpy\<close> on such memory, and pages of 4096
  bytes. Addresses wrap around at \<open>2 ^ 32\<close>, as pointer arithmetic on this machine does.
\<close>

type_synonym mem = "u32 \<Rightarrow> u8"

named_theorems mem_simps \<open>loads after stores\<close>

section \<open>Accesses\<close>

definition load32 :: "mem \<Rightarrow> u32 \<Rightarrow> u32" where
  "load32 m a = ucast (m a) OR push_bit 8 (ucast (m (a + 1))) OR
     push_bit 16 (ucast (m (a + 2))) OR push_bit 24 (ucast (m (a + 3)))"

definition store32 :: "mem \<Rightarrow> u32 \<Rightarrow> u32 \<Rightarrow> mem" where
  "store32 m a v = m(a := ucast v, a + 1 := ucast (drop_bit 8 v),
     a + 2 := ucast (drop_bit 16 v), a + 3 := ucast (drop_bit 24 v))"

primrec memset_at :: "mem \<Rightarrow> u32 \<Rightarrow> u8 \<Rightarrow> nat \<Rightarrow> mem" where
  "memset_at m p c 0 = m"
| "memset_at m p c (Suc n) = memset_at (m(p := c)) (p + 1) c n"

primrec memcpy_at :: "mem \<Rightarrow> u32 \<Rightarrow> u32 \<Rightarrow> nat \<Rightarrow> mem" where
  "memcpy_at m dest src 0 = m"
| "memcpy_at m dest src (Suc n) = memcpy_at (m(dest := m src)) (dest + 1) (src + 1) n"

definition store16 :: "mem \<Rightarrow> u32 \<Rightarrow> u16 \<Rightarrow> mem" where
  "store16 m a v = m(a := ucast v, a + 1 := ucast (drop_bit 8 v))"

definition load16 :: "mem \<Rightarrow> u32 \<Rightarrow> u16" where
  "load16 m a = ucast (m a) OR push_bit 8 (ucast (m (a + 1)))"

fun store_bytes :: "mem \<Rightarrow> u32 \<Rightarrow> u8 list \<Rightarrow> mem" where
  "store_bytes m a [] = m"
| "store_bytes m a (c # cs) = store_bytes (m(a := c)) (a + 1) cs"

definition load_bytes :: "mem \<Rightarrow> u32 \<Rightarrow> nat \<Rightarrow> u8 list" where
  "load_bytes m a n = map (\<lambda>i. m (a + of_nat i)) [0 ..< n]"

definition page_base :: "u32 \<Rightarrow> u32" where
  "page_base a = a AND 0xfffff000"

section \<open>Loads and stores\<close>

lemma load32_store32_same [mem_simps]: "load32 (store32 m a v) a = v"
proof (rule bit_word_eqI)
  fix n assume n: "n < LENGTH(32)"
  have ne: "a + 1 \<noteq> a" "a + 2 \<noteq> a" "a + 3 \<noteq> a" "a + 2 \<noteq> a + 1" "a + 3 \<noteq> a + 1" "a + 3 \<noteq> a + 2"
    by simp_all
  consider "n < 8" | "8 \<le> n" "n < 16" | "16 \<le> n" "n < 24" | "24 \<le> n" by linarith
  then show "bit (load32 (store32 m a v) a) n = bit v n"
    by cases (use n ne in \<open>auto simp: load32_def store32_def bit_simps\<close>)
qed

lemma aligned_offset:
  assumes "unat (a :: u32) mod 4 = 0" and "i < 4"
  shows "unat (a + of_nat i) = unat a + i"
proof -
  obtain q where q: "unat a = 4 * q" using assms(1) by (metis mod_0_imp_dvd dvdE)
  then have "q < 1073741824" using unat_u32_lt [of a] by simp
  with q assms(2) have "unat a + i < 4294967296" by linarith
  moreover have "unat (of_nat i :: u32) = i" using assms(2) by (simp add: unat_of_nat take_bit_nat_eq_self)
  ultimately show ?thesis by (simp add: unat_word_ariths)
qed

lemma aligned_cells_disjoint:
  assumes "unat a mod 4 = 0" and "unat (b :: u32) mod 4 = 0" and "a \<noteq> b" and "i < 4" and "j < 4"
  shows "a + of_nat i \<noteq> b + of_nat j"
proof
  assume "a + of_nat i = b + of_nat j"
  then have "unat a + i = unat b + j" using aligned_offset assms by metis
  moreover obtain q r where "unat a = 4 * q" "unat b = 4 * r"
    using assms(1,2) by (metis mod_0_imp_dvd dvdE)
  ultimately have "unat a = unat b" using assms(4,5) by presburger
  with assms(3) show False by (simp only: word_unat_eq_iff)
qed

lemma load32_store32_other [mem_simps]:
  assumes "unat a mod 4 = 0" and "unat b mod 4 = 0" and "a \<noteq> b"
  shows "load32 (store32 m a v) b = load32 m b"
proof -
  have "store32 m a v (b + of_nat j) = m (b + of_nat j)" if "j < 4" for j
    using aligned_cells_disjoint [OF assms, of 0 j] aligned_cells_disjoint [OF assms, of 1 j]
      aligned_cells_disjoint [OF assms, of 2 j] aligned_cells_disjoint [OF assms, of 3 j] that
    by (simp add: store32_def)
  from this [of 0] this [of 1] this [of 2] this [of 3] show ?thesis by (simp add: load32_def)
qed

lemma load32_cong:
  assumes "m' a = m a" "m' (a + 1) = m (a + 1)" "m' (a + 2) = m (a + 2)" "m' (a + 3) = m (a + 3)"
  shows "load32 m' a = load32 m a"
  using assms by (simp add: load32_def)

lemma memset_at_apply:
  assumes "n < 2 ^ 32"
  shows "memset_at m p c n a = (if unat (a - p) < n then c else m a)"
  using assms
proof (induction n arbitrary: m p)
  case (Suc n)
  have IH: "memset_at (m(p := c)) (p + 1) c n a = (if unat (a - (p + 1)) < n then c else (m(p := c)) a)"
    using Suc by simp
  show ?case
  proof (cases "a = p")
    case False
    then have "a - p \<noteq> 0" by simp
    then have "0 < unat (a - p)" by (simp add: unat_gt_0)
    with \<open>a - p \<noteq> 0\<close> have "unat (a - p) = Suc (unat (a - p - 1))"
      using unat_minus_one [of "a - p"] by linarith
    then have "unat (a - p) = Suc (unat (a - (p + 1)))" by (simp add: diff_diff_eq)
    with False IH show ?thesis by simp
  qed (use IH in simp)
qed simp

lemma store_bytes_apply:
  assumes "length bs < 2 ^ 32"
  shows "store_bytes m p bs a = (if unat (a - p) < length bs then bs ! unat (a - p) else m a)"
  using assms
proof (induction bs arbitrary: m p)
  case (Cons c bs)
  have IH: "store_bytes (m(p := c)) (p + 1) bs a = (if unat (a - (p + 1)) < length bs then bs ! unat (a - (p + 1)) else (m(p := c)) a)"
    using Cons by simp
  show ?case
  proof (cases "a = p")
    case True
    have "unat (a - (p + 1)) = 2 ^ 32 - 1" using True by (simp add: unsigned_minus_1_eq_mask mask_eq_exp_minus_1)
    then show ?thesis using True IH Cons.prems by simp
  next
    case False
    then have "unat (a - p) = Suc (unat (a - p - 1))"
      using unat_minus_one [of "a - p"] unat_gt_0 [of "a - p"] by simp
    then have "unat (a - p) = Suc (unat (a - (p + 1)))" by (simp add: diff_diff_eq)
    with False IH show ?thesis by simp
  qed
qed simp

section \<open>Runs of bytes\<close>

lemma load32_le: "load32 m a = le32 [m a, m (a + 1), m (a + 2), m (a + 3)] 0"
proof (rule bit_word_eqI)
  fix n assume n: "n < LENGTH(32)"
  have b: "bit w k \<Longrightarrow> k < 8" for w :: u8 and k using bit_imp_le_length [of w k] by simp
  consider "n < 8" | "8 \<le> n" "n < 16" | "16 \<le> n" "n < 24" | "24 \<le> n" by linarith
  then show "bit (load32 m a) n = bit (le32 [m a, m (a + 1), m (a + 2), m (a + 3)] 0) n"
    by cases (use n in \<open>auto simp: load32_def le32_def le16_def bit_simps dest: b\<close>)
qed

lemma bytes32_eq: "bytes32 v = [ucast v, ucast (drop_bit 8 v), ucast (drop_bit 16 v), ucast (drop_bit 24 v)]"
  unfolding bytes32_def bytes16_def by (auto intro!: bit_word_eqI simp: bit_simps)

lemma store32_bytes: "store32 m a v = store_bytes m a (bytes32 v)"
  by (simp add: store32_def bytes32_eq add.commute [of _ a])

lemma store_bytes_append: "store_bytes m a (xs @ ys) = store_bytes (store_bytes m a xs) (a + of_nat (length xs)) ys"
  by (induction xs arbitrary: m a) (simp_all add: add.assoc)

lemma load_bytes_add: "load_bytes m a (i + j) = load_bytes m a i @ load_bytes m (a + of_nat i) j"
  by (rule nth_equalityI) (auto simp: load_bytes_def nth_append algebra_simps)

lemma load_store_bytes:
  assumes "length bs < 2 ^ 32"
  shows "load_bytes (store_bytes m a bs) a (length bs) = bs"
proof (rule nth_equalityI)
  fix i assume "i < length (load_bytes (store_bytes m a bs) a (length bs))"
  then have i: "i < length bs" by (simp add: load_bytes_def)
  then have "unat (a + of_nat i - a) = i" using assms by (simp add: unat_of_nat take_bit_nat_eq_self)
  with i assms show "load_bytes (store_bytes m a bs) a (length bs) ! i = bs ! i" by (simp add: load_bytes_def store_bytes_apply)
qed (simp add: load_bytes_def)

lemma load32_load_bytes: "load32 m a = le32 (load_bytes m a 4) 0"
  by (simp add: load32_le load_bytes_def upt_rec)

section \<open>Pages\<close>

lemma page_base_eq: "page_base a = push_bit 12 (drop_bit 12 a)"
proof -
  have "(0xfffff000 :: u32) = NOT (mask 12)" by (simp add: mask_eq_exp_minus_1)
  then show ?thesis unfolding page_base_def
    by (simp add: bit_eq_iff bit_simps) auto
qed

lemma unat_page_base: "unat (page_base a) = unat a div 4096 * 4096"
proof -
  have "unat a div 4096 * 4096 \<le> unat a" by simp
  then have "unat a div 4096 * 4096 < 4294967296" using unat_u32_lt [of a] by linarith
  then show ?thesis
    by (simp add: page_base_eq push_bit_eq_mult drop_bit_eq_div unat_word_ariths unat_div)
qed

lemma page_base_idem [simp]: "page_base (page_base a) = page_base a"
  by (simp add: page_base_def and.assoc)

lemma page_aligned_iff: "page_base a = a \<longleftrightarrow> unat a mod 4096 = 0"
  by (metis unat_page_base word_unat_eq_iff dvd_div_mult_self dvd_triv_right mod_0_imp_dvd
      dvd_imp_mod_0 mod_mult_self2_is_0)

lemma unat_page_offset:
  assumes "page_base p = p" and "k < 4096"
  shows "unat (p + of_nat k) = unat p + k"
proof -
  define q where "q = unat p div 4096"
  have q: "unat p = q * 4096" using assms(1) unat_page_base [of p] by (simp add: q_def)
  have "q < 1048576" using unat_u32_lt [of p] q by simp
  then have "unat p + k < 4294967296" using q assms(2) by linarith
  moreover have "unat (of_nat k :: u32) = k" using assms(2) by (simp add: unat_of_nat take_bit_nat_eq_self)
  ultimately show ?thesis by (simp add: unat_word_ariths)
qed

lemma page_base_offset:
  assumes "page_base p = p" and "k < 4096"
  shows "page_base (p + of_nat k) = p"
proof -
  define q where "q = unat p div 4096"
  have q: "unat p = q * 4096" using assms(1) unat_page_base [of p] by (simp add: q_def)
  have "unat (page_base (p + of_nat k)) = unat p"
    unfolding unat_page_base unat_page_offset [OF assms] q using assms(2) by simp
  then show ?thesis by (simp only: unsigned_word_eqI)
qed

lemma page_base_flags:
  assumes "page_base p = p" and "page_base f = 0"
  shows "page_base (p OR f) = p"
  using assms by (simp add: page_base_def bit.conj_disj_distrib2)

lemma in_page_iff:
  assumes "page_base p = p"
  shows "unat (a - p) < 4096 \<longleftrightarrow> page_base a = p"
proof
  assume "unat (a - p) < 4096"
  from page_base_offset [OF assms this] show "page_base a = p" by simp
next
  assume p: "page_base a = p"
  then have "unat p \<le> unat a" using unat_page_base [of a] by simp
  then have "p \<le> a" by (simp add: word_le_nat_alt)
  then have "unat (a - p) = unat a - unat p" by (simp add: unat_sub)
  also have "\<dots> = unat a mod 4096"
    using p unat_page_base [of a] by (metis minus_div_mult_eq_mod)
  finally show "unat (a - p) < 4096" by simp
qed

end
