(* ===== verification/Kheap.thy ===== *)
theory Kheap
  imports Heap Physmem
begin

text \<open>
  The kernel's single heap, \<^verbatim>\<open>src/src/memory/heap/kheap.c\<close>: its creation over the fixed pool of
  \<^verbatim>\<open>config.h\<close>, and \<open>kmalloc\<close>, \<open>kzalloc\<close> and \<open>kfree\<close>. The state is the heap and the physical memory
  that \<open>kzalloc\<close> clears. The locale \<open>page_allocator\<close> is what the page-table code relies on: an
  allocation of at most one page returns a page nobody owns and touches no byte outside it.
\<close>

section \<open>State and operations\<close>

record kmem =
  km_heap :: heap
  km_mem :: mem

definition SERPAEOS_HEAP_SIZE_BYTES :: u32 where "SERPAEOS_HEAP_SIZE_BYTES = 104857600 * 16"
definition SERPAEOS_HEAP_ADDRESS :: u32 where "SERPAEOS_HEAP_ADDRESS = 0x01000000"

definition kheap_init :: "u8 list \<Rightarrow> heap option" where
  \<comment> \<open>the argument is what memory holds at \<open>SERPAEOS_HEAP_TABLE_ADDRESS\<close>; \<open>panic\<close> never returns\<close>
  "kheap_init table_memory = do {
     let total_table_entries = SERPAEOS_HEAP_SIZE_BYTES div SERPAEOS_HEAP_BLOCK_SIZE;
     let kernel_heap_table = \<lparr>ht_entries = table_memory, ht_total = total_table_entries\<rparr>;
     let end_ptr = SERPAEOS_HEAP_ADDRESS + SERPAEOS_HEAP_SIZE_BYTES;
     (res, kernel_heap) \<leftarrow> heap_create \<lparr>hp_table = \<lparr>ht_entries = [], ht_total = 0\<rparr>, hp_saddr = 0\<rparr>
        SERPAEOS_HEAP_ADDRESS end_ptr kernel_heap_table;
     if res < 0 then None else Some kernel_heap
   }"

definition kmalloc :: "kmem \<Rightarrow> u32 \<Rightarrow> (u32 \<times> kmem) option" where
  "kmalloc k sz = do {
     (ptr, heap) \<leftarrow> heap_malloc (km_heap k) sz;
     Some (ptr, k\<lparr>km_heap := heap\<rparr>)
   }"

definition kzalloc :: "kmem \<Rightarrow> u32 \<Rightarrow> (u32 \<times> kmem) option" where
  "kzalloc k sz = do {
     (ptr, k) \<leftarrow> kmalloc k sz;
     if ptr = 0 then Some (0, k)
     else Some (ptr, k\<lparr>km_mem := memset_at (km_mem k) ptr 0 (unat sz)\<rparr>)
   }"

definition kfree :: "kmem \<Rightarrow> u32 \<Rightarrow> kmem option" where
  "kfree k ptr = do {
     heap \<leftarrow> heap_free (km_heap k) ptr;
     Some (k\<lparr>km_heap := heap\<rparr>)
   }"

definition allocated :: "kmem \<Rightarrow> u32 \<Rightarrow> bool" where
  \<comment> \<open>the block of the address is in use; the state of a dangling pointer is read off here\<close>
  "allocated k a \<longleftrightarrow> (case rd (entries_of (km_heap k)) (nat (heap_address_to_block (km_heap k) a)) of None \<Rightarrow> False | Some e \<Rightarrow> \<not> is_free e)"

section \<open>What the clients of the heap rely on\<close>

locale page_source =
  fixes inv :: "'s \<Rightarrow> bool"
    and used :: "'s \<Rightarrow> u32 set"
    and room :: "'s \<Rightarrow> nat"
    and cell :: "'s \<Rightarrow> mem"
    and pages :: "'s \<Rightarrow> u32 set"
    and alloc :: "'s \<Rightarrow> u32 \<Rightarrow> (u32 \<times> 's) option"
  assumes alloc_page:
    "inv s \<Longrightarrow> 0 < room s \<Longrightarrow> 0 < unat sz \<Longrightarrow> unat sz \<le> 4096 \<Longrightarrow>
       \<exists>p s'. alloc s sz = Some (p, s') \<and> p \<noteq> 0 \<and> page_base p = p \<and> p \<notin> used s \<and> inv s' \<and>
              used s' = insert p (used s) \<and> pages s' = insert p (pages s) \<and> Suc (room s') = room s \<and>
              (\<forall>a. cell s' a = (if unat (a - p) < unat sz then 0 else cell s a))"
    and pages_used: "pages s \<subseteq> used s"
    and used_aligned: "inv s \<Longrightarrow> p \<in> used s \<Longrightarrow> page_base p = p"
begin

lemma alloc_frame:
  assumes "inv s" and "0 < room s" and "0 < unat sz" and "unat sz \<le> 4096" and "alloc s sz = Some (p, s')"
  shows "\<forall>a. page_base a \<noteq> p \<longrightarrow> cell s' a = cell s a"
proof -
  from alloc_page [OF assms(1-4)] assms(5)
  have p: "page_base p = p" and c: "\<And>a. cell s' a = (if unat (a - p) < unat sz then 0 else cell s a)"
    by auto
  show ?thesis using in_page_iff [OF p] c assms(4) by (metis order_less_le_trans)
qed

lemma alloc_keeps_used_cells:
  assumes "inv s" and "0 < room s" and "0 < unat sz" and "unat sz \<le> 4096" and "alloc s sz = Some (p, s')"
    and "page_base a \<in> used s"
  shows "cell s' a = cell s a"
  using alloc_frame [OF assms(1-5)] alloc_page [OF assms(1-4)] assms(5,6) by force

end

locale page_allocator = page_source +
  fixes free :: "'a \<Rightarrow> u32 \<Rightarrow> 'a option"
  assumes free_page:
    "inv s \<Longrightarrow> p \<in> pages s \<Longrightarrow>
       \<exists>s'. free s p = Some s' \<and> inv s' \<and> used s' = used s - {p} \<and> pages s' = pages s - {p} \<and>
            room s' = Suc (room s) \<and> cell s' = cell s"
begin

fun free_all :: "'a \<Rightarrow> u32 list \<Rightarrow> 'a option" where
  "free_all s [] = Some s"
| "free_all s (p # ps) = do { s \<leftarrow> free s p; free_all s ps }"

lemma free_all_pages:
  assumes "inv s" and "distinct ps" and "set ps \<subseteq> pages s"
  shows "\<exists>s'. free_all s ps = Some s' \<and> inv s' \<and> used s' = used s - set ps \<and>
              pages s' = pages s - set ps \<and> room s' = room s + length ps \<and> cell s' = cell s"
  using assms
proof (induction ps arbitrary: s)
  case (Cons p ps)
  from Cons.prems have "p \<in> pages s" by simp
  from free_page [OF Cons.prems(1) this] obtain s1 where s1: "free s p = Some s1" "inv s1"
    "used s1 = used s - {p}" "pages s1 = pages s - {p}" "room s1 = Suc (room s)" "cell s1 = cell s"
    by blast
  have "set ps \<subseteq> pages s1" using Cons.prems s1(4) by auto
  from Cons.IH [OF s1(2) _ this] Cons.prems s1 show ?case by auto
qed simp

end

section \<open>The kernel heap provides it\<close>

definition kinv :: "kmem \<Rightarrow> bool" where
  "kinv k \<longleftrightarrow> heap_inv (km_heap k) \<and> page_base (hp_saddr (km_heap k)) = hp_saddr (km_heap k)"

definition block_addr :: "kmem \<Rightarrow> nat \<Rightarrow> u32" where
  "block_addr k j = heap_block_to_address (km_heap k) (int j)"

definition kused :: "kmem \<Rightarrow> u32 set" where
  "kused k = {block_addr k j | j. j < length (entries_of (km_heap k)) \<and> \<not> is_free (entries_of (km_heap k) ! j)}"

definition kpages :: "kmem \<Rightarrow> u32 set" where
  "kpages k = {block_addr k j | j. j < length (entries_of (km_heap k)) \<and> entries_of (km_heap k) ! j = 0x41}"

definition kroom :: "kmem \<Rightarrow> nat" where
  "kroom k = length (filter is_free (entries_of (km_heap k)))"

lemma blocks_needed_page: "0 < unat sz \<Longrightarrow> unat sz \<le> 4096 \<Longrightarrow> blocks_needed sz = 1"
  by (simp add: blocks_needed_def div_nat_eqI)

lemma is_free_41 [simp]: "\<not> is_free 0x41" and is_free_0 [simp]: "is_free 0"
  by (simp_all add: is_free_def heap_get_entry_type_def heap_consts)

lemma block_addr_inj:
  assumes "kinv k" and "i < length (entries_of (km_heap k))" and "j < length (entries_of (km_heap k))"
  shows "block_addr k i = block_addr k j \<longleftrightarrow> i = j"
  using assms unat_heap_block_to_address unfolding kinv_def block_addr_def
  by (metis add_left_cancel mult_right_cancel zero_neq_numeral)

lemma block_addr_aligned:
  assumes "kinv k" and "j < length (entries_of (km_heap k))"
  shows "page_base (block_addr k j) = block_addr k j"
  using assms unat_heap_block_to_address [of "km_heap k" j]
  by (simp add: kinv_def block_addr_def page_aligned_iff)

lemma filter_free_upd:
  assumes "j < length es" and "is_free (es ! j)" and "\<not> is_free e"
  shows "Suc (length (filter is_free (es[j := e]))) = length (filter is_free es)"
  using assms
proof (induction es arbitrary: j)
  case (Cons x es)
  then show ?case by (cases j) auto
qed simp

lemma window_free_1: "window_free es s (Suc 0) \<longleftrightarrow> s < length es \<and> is_free (es ! s)"
  by (auto simp: window_free_def less_Suc_eq)

lemma free_block_exists:
  assumes "0 < length (filter is_free es)"
  shows "\<exists>s. window_free es s 1"
  using assms by (auto simp: window_free_1 in_set_conv_nth filter_empty_conv)

lemma overlay_single: "s < length es \<Longrightarrow> overlay es s [e] = es[s := e]"
  by (simp add: overlay_def upd_conv_take_nth_drop)

lemma kzalloc_page:
  assumes "kinv k" and "0 < kroom k" and "0 < unat sz" and "unat sz \<le> 4096"
  obtains s where "s < length (entries_of (km_heap k))" "is_free (entries_of (km_heap k) ! s)"
    "kzalloc k sz = Some (block_addr k s,
       \<lparr>km_heap = with_entries (km_heap k) ((entries_of (km_heap k))[s := 0x41]),
        km_mem = memset_at (km_mem k) (block_addr k s) 0 (unat sz)\<rparr>)"
proof -
  let ?es = "entries_of (km_heap k)"
  have inv: "heap_inv (km_heap k)" using assms(1) by (simp add: kinv_def)
  have b: "blocks_needed sz = 1" by (rule blocks_needed_page [OF assms(3,4)])
  obtain s where ff: "first_fit ?es 1 s"
    using free_block_exists first_fit_exists assms(2) unfolding kroom_def by blast
  then have s: "s < length ?es" "is_free (?es ! s)" by (auto simp: first_fit_def window_free_1)
  have "heap_malloc (km_heap k) sz =
      Some (block_addr k s, with_entries (km_heap k) (?es[s := 0x41]))"
    using heap_malloc_first_fit [OF inv assms(3), of s] ff assms(4) b s(1)
    by (simp add: block_pattern_def overlay_single block_addr_def)
  moreover have "block_addr k s \<noteq> 0" using heap_address_nonzero [OF inv s(1)] by (simp add: block_addr_def)
  ultimately show ?thesis using that [OF s] by (simp add: kzalloc_def kmalloc_def)
qed

lemma block_addr_with_entries [simp]:
  "block_addr \<lparr>km_heap = with_entries (km_heap k) es, km_mem = m\<rparr> j = block_addr k j"
  by (simp add: block_addr_def heap_block_to_address_def)

lemma kinv_with_entries:
  assumes "kinv k" and "length es = length (entries_of (km_heap k))" and "\<forall>e \<in> set es. is_free e \<longrightarrow> e = 0"
  shows "kinv \<lparr>km_heap = with_entries (km_heap k) es, km_mem = m\<rparr>"
  using assms by (simp add: kinv_def heap_inv_def)

lemma kinv_upd:
  assumes "kinv k" and "is_free e \<longrightarrow> e = 0"
  shows "kinv \<lparr>km_heap = with_entries (km_heap k) ((entries_of (km_heap k))[s := e]), km_mem = m\<rparr>"
  using assms by (intro kinv_with_entries) (auto simp: kinv_def heap_inv_def dest!: set_update_subset_insert [THEN subsetD])

lemma kused_upd:
  assumes "kinv k" and "s < length (entries_of (km_heap k))"
  shows "\<not> is_free e \<Longrightarrow> kused \<lparr>km_heap = with_entries (km_heap k) ((entries_of (km_heap k))[s := e]), km_mem = m\<rparr>
            = insert (block_addr k s) (kused k)"
    and "is_free e \<Longrightarrow> kused \<lparr>km_heap = with_entries (km_heap k) ((entries_of (km_heap k))[s := e]), km_mem = m\<rparr>
            = kused k - {block_addr k s}"
  using assms block_addr_inj [OF assms(1)] by (auto simp: kused_def nth_list_update)

lemma kpages_upd:
  assumes "kinv k" and "s < length (entries_of (km_heap k))"
  shows "kpages \<lparr>km_heap = with_entries (km_heap k) ((entries_of (km_heap k))[s := 0x41]), km_mem = m\<rparr>
            = insert (block_addr k s) (kpages k)"
    and "e \<noteq> 0x41 \<Longrightarrow> kpages \<lparr>km_heap = with_entries (km_heap k) ((entries_of (km_heap k))[s := e]), km_mem = m\<rparr>
            = kpages k - {block_addr k s}"
  using assms block_addr_inj [OF assms(1)] by (auto simp: kpages_def nth_list_update)

lemma kfree_page:
  assumes "kinv k" and "s < length (entries_of (km_heap k))" and "entries_of (km_heap k) ! s = 0x41"
  shows "kfree k (block_addr k s) =
     Some (\<lparr>km_heap = with_entries (km_heap k) ((entries_of (km_heap k))[s := 0]), km_mem = km_mem k\<rparr>)"
proof -
  have "take 1 (drop s (entries_of (km_heap k))) = block_pattern 1"
    using assms(2,3) by (simp add: block_pattern_def take_Suc_conv_app_nth hd_drop_conv_nth take_Suc)
  from heap_free_block [OF _ _ _ this] assms show ?thesis
    by (simp add: kfree_def block_addr_def kinv_def overlay_single)
qed

interpretation kh: page_allocator kinv kused kroom km_mem kpages kzalloc kfree
proof (unfold_locales, goal_cases)
  case (1 k sz)
  from kzalloc_page [OF 1] obtain s where s: "s < length (entries_of (km_heap k))"
    "is_free (entries_of (km_heap k) ! s)"
    and z: "kzalloc k sz = Some (block_addr k s,
       \<lparr>km_heap = with_entries (km_heap k) ((entries_of (km_heap k))[s := 0x41]),
        km_mem = memset_at (km_mem k) (block_addr k s) 0 (unat sz)\<rparr>)" .
  have "block_addr k s \<notin> kused k" using s block_addr_inj [OF 1(1)] by (auto simp: kused_def)
  moreover have "block_addr k s \<noteq> 0"
    using heap_address_nonzero s(1) 1(1) by (simp add: block_addr_def kinv_def)
  moreover have "unat sz < 2 ^ 32" using 1(4) by simp
  ultimately show ?case
    using z kinv_upd [OF 1(1)] kused_upd [OF 1(1) s(1)] kpages_upd [OF 1(1) s(1)]
      block_addr_aligned [OF 1(1) s(1)] filter_free_upd [OF s, of "0x41"]
    by (simp add: memset_at_apply kroom_def)
next
  case (2 k)
  then show ?case by (auto simp: kpages_def kused_def)
next
  case (3 k p)
  then show ?case by (auto simp: kused_def block_addr_aligned)
next
  case (4 k p)
  then obtain s where s: "s < length (entries_of (km_heap k))" "entries_of (km_heap k) ! s = 0x41"
    "p = block_addr k s" by (auto simp: kpages_def)
  let ?es = "entries_of (km_heap k)"
  have "length (filter is_free (?es[s := 0])) = Suc (length (filter is_free ?es))"
    using filter_free_upd [of s "?es[s := 0]" "0x41"] s list_update_id [of ?es s] by simp
  then show ?case
    using kfree_page [OF 4(1) s(1,2)] s kinv_upd [OF 4(1)] kused_upd [OF 4(1) s(1)] kpages_upd [OF 4(1) s(1)]
    by (simp add: kroom_def)
qed

section \<open>Freeing any address\<close>

lemma heap_mark_blocks_free_loop_inv:
  assumes "heap_inv h" and "heap_mark_blocks_free_loop h k i = Some h'"
  shows "heap_inv h'"
  using assms
proof (induction k arbitrary: h i)
  case (Suc k)
  then obtain h1 where i: "0 \<le> i" "nat i < length (entries_of h)" and 1: "set_entry h i HEAP_BLOCK_TABLE_ENTRY_FREE = Some h1"
    and r: "h' = h1 \<or> heap_mark_blocks_free_loop h1 k (i + 1) = Some h'"
    by (auto simp: rd_def bind_eq_Some_conv not_less split: if_splits)
  then have "h1 = with_entries h ((entries_of h)[nat i := 0])" by (simp add: set_entry_def heap_consts)
  then have "heap_inv h1" using Suc.prems(1)
    by (auto simp: heap_inv_def dest!: set_update_subset_insert [THEN subsetD])
  then show ?case using r Suc.IH by blast
qed simp

lemma kfree_keeps:
  assumes "heap_inv (km_heap k)" and "kfree k p = Some k'"
  shows "heap_inv (km_heap k')" "km_mem k' = km_mem k"
  using assms heap_mark_blocks_free_loop_inv by (auto simp: kfree_def heap_free_def heap_mark_blocks_free_def bind_eq_Some_conv)

lemma kfree_null: "heap_inv (km_heap k) \<Longrightarrow> kfree k 0 = None"
  using heap_free_below [of "km_heap k" 0] by (simp add: kfree_def heap_inv_def)

text \<open>The heap knows blocks only: freeing an address inside a block frees the block.\<close>

lemma kfree_inside:
  assumes "kinv k" and "p \<in> kpages k" and "unat off < 4096"
  shows "kfree k (p + off) = kfree k p"
proof -
  let ?h = "km_heap k"
  obtain s where s: "s < length (entries_of ?h)" "p = heap_block_to_address ?h (int s)"
    using assms(2) by (auto simp: kpages_def block_addr_def)
  have inv: "heap_inv ?h" using assms(1) by (simp add: kinv_def)
  have b: "Suc s * 4096 \<le> 2 ^ 31" using s(1) inv by (simp add: heap_inv_def)
  have u: "unat (word_of_int (int s * 4096) :: u32) = s * 4096" by (rule unat_block_offset [OF inv s(1)])
  have "unat ((word_of_int (int s * 4096) :: u32) + off) = s * 4096 + unat off"
    using b assms(3) u by (subst unat_add_lem [THEN iffD1]) simp_all
  then have "sint ((word_of_int (int s * 4096) :: u32) + off) = int (s * 4096 + unat off)"
    using sint_small [of "word_of_int (int s * 4096) + off"] b assms(3) by simp
  moreover have "int n sdiv 4096 = int (n div 4096)" for n by (simp add: signed_divide_int_def sgn_if zdiv_int)
  moreover have "(s * 4096 + unat off) div 4096 = s" using assms(3) by simp
  ultimately have "heap_address_to_block ?h (p + off) = int s"
    by (simp add: heap_address_to_block_def s(2) heap_block_to_address_def del: of_nat_add of_nat_mult)
  then show ?thesis using heap_address_to_block_eq [OF inv s(1)] s(2) by (simp add: kfree_def heap_free_def)
qed

section \<open>The initial heap\<close>

lemma kheap_init_eq:
  assumes "length es = 409600"
  shows "kheap_init es = Some \<lparr>hp_table = \<lparr>ht_entries = replicate 409600 0, ht_total = 409600\<rparr>, hp_saddr = 0x01000000\<rparr>"
  using assms
  by (simp add: kheap_init_def heap_create_def heap_validate_alignment_def heap_validate_table_def
      SERPAEOS_HEAP_SIZE_BYTES_def SERPAEOS_HEAP_ADDRESS_def heap_consts)

text \<open>booting creates a usable kernel heap. With a status table of 409600 bytes (the pool size
  of the configuration divided by the block size), \<open>kheap_init\<close> returns without panicking; the heap it
  makes satisfies the invariant, no block is in use and every block is available.\<close>
theorem kheap_init_ready:
  assumes "length table_memory = 409600"
  shows "\<exists>h. kheap_init table_memory = Some h \<and> heap_inv h \<and> heap_rep h Map.empty \<and>
             kinv \<lparr>km_heap = h, km_mem = m\<rparr> \<and> kused \<lparr>km_heap = h, km_mem = m\<rparr> = {} \<and>
             kroom \<lparr>km_heap = h, km_mem = m\<rparr> = 409600"
proof -
  let ?h = "\<lparr>hp_table = \<lparr>ht_entries = replicate 409600 0, ht_total = 409600\<rparr>, hp_saddr = 0x01000000\<rparr> :: heap"
  have inv: "heap_inv ?h" by (simp add: heap_inv_def)
  moreover have "heap_rep ?h Map.empty" using inv by (rule heap_rep_empty) simp
  moreover have "kinv \<lparr>km_heap = ?h, km_mem = m\<rparr>" using inv by (simp add: kinv_def page_base_def)
  moreover have "kused \<lparr>km_heap = ?h, km_mem = m\<rparr> = {}" by (auto simp: kused_def)
  moreover have "kroom \<lparr>km_heap = ?h, km_mem = m\<rparr> = 409600" by (simp add: kroom_def)
  ultimately show ?thesis using kheap_init_eq [OF assms] by blast
qed

theorem kheap_init_ready_witness:
  "\<exists>h. kheap_init (replicate 409600 7) = Some h \<and> heap_inv h \<and> heap_rep h Map.empty \<and>
       kinv \<lparr>km_heap = h, km_mem = (\<lambda>_. 0)\<rparr> \<and> kused \<lparr>km_heap = h, km_mem = (\<lambda>_. 0)\<rparr> = {} \<and>
       kroom \<lparr>km_heap = h, km_mem = (\<lambda>_. 0)\<rparr> = 409600"
  by (rule kheap_init_ready) simp

end
