(* ===== verification/Paging.thy ===== *)
theory Paging
  imports Kheap
begin

text \<open>
  Two-level 32-bit page tables: \<^verbatim>\<open>src/src/memory/paging/paging.c\<close>. A page directory and its page
  tables live in pages of the kernel heap and are read and written through \<open>load32\<close> and
  \<open>store32\<close> at the addresses the C code computes. The address of a \<open>struct paging_4gb_chunk\<close> is the
  address of its only field.
\<close>

section \<open>Operations\<close>

definition PAGING_IS_WRITEABLE :: u32 where "PAGING_IS_WRITEABLE = 2"
definition PAGING_PAGE_SIZE :: u32 where "PAGING_PAGE_SIZE = 4096"
definition PAGING_TOTAL_ENTRIES_PER_TABLE :: u32 where "PAGING_TOTAL_ENTRIES_PER_TABLE = 1024"

lemmas paging_consts = PAGING_IS_WRITEABLE_def PAGING_PAGE_SIZE_def PAGING_TOTAL_ENTRIES_PER_TABLE_def

abbreviation slot :: "u32 \<Rightarrow> nat \<Rightarrow> u32" where
  \<comment> \<open>the address of element \<open>i\<close> of an array of \<open>uint32_t\<close>\<close>
  "slot p i \<equiv> p + of_nat (4 * i)"

fun paging_fill_table :: "mem \<Rightarrow> u32 \<Rightarrow> u32 \<Rightarrow> u32 \<Rightarrow> nat \<Rightarrow> nat \<Rightarrow> mem" where
  \<comment> \<open>the inner loop of \<open>paging_new_4gb\<close>; the last two arguments are the iterations left and \<open>b\<close>\<close>
  "paging_fill_table m entry offset flags 0 b = m"
| "paging_fill_table m entry offset flags (Suc n) b =
     paging_fill_table (store32 m (slot entry b) ((offset + of_nat b * PAGING_PAGE_SIZE) OR flags))
       entry offset flags n (Suc b)"

fun paging_new_4gb_loop :: "kmem \<Rightarrow> u32 \<Rightarrow> u32 \<Rightarrow> nat \<Rightarrow> nat \<Rightarrow> u32 \<Rightarrow> kmem option" where
  \<comment> \<open>the outer loop; the last three arguments are the iterations left, \<open>i\<close> and \<open>offset\<close>, which wraps\<close>
  "paging_new_4gb_loop k directory flags 0 i offset = Some k"
| "paging_new_4gb_loop k directory flags (Suc n) i offset = do {
     (entry, k) \<leftarrow> kzalloc k (4 * PAGING_TOTAL_ENTRIES_PER_TABLE);
     if entry = 0 then None
     else do {
       let m = paging_fill_table (km_mem k) entry offset flags 1024 0;
       let m = store32 m (slot directory i) (entry OR flags OR PAGING_IS_WRITEABLE);
       paging_new_4gb_loop (k\<lparr>km_mem := m\<rparr>) directory flags n (Suc i)
         (offset + PAGING_TOTAL_ENTRIES_PER_TABLE * PAGING_PAGE_SIZE)
     }
   }"

definition paging_new_4gb :: "kmem \<Rightarrow> u8 \<Rightarrow> (u32 \<times> kmem) option" where
  "paging_new_4gb k flags = do {
     (directory, k) \<leftarrow> kzalloc k (4 * PAGING_TOTAL_ENTRIES_PER_TABLE);
     if directory = 0 then None
     else do {
       k \<leftarrow> paging_new_4gb_loop k directory (ucast flags) 1024 0 0;
       (chunk_4gb, k) \<leftarrow> kzalloc k 4;
       if chunk_4gb = 0 then None
       else Some (chunk_4gb, k\<lparr>km_mem := store32 (km_mem k) chunk_4gb directory\<rparr>)
     }
   }"

definition paging_4gb_chunk_get_directory :: "mem \<Rightarrow> u32 \<Rightarrow> u32" where
  "paging_4gb_chunk_get_directory m chunk = load32 m chunk"

record paging_regs =
  cr3 :: u32
  current_directory :: u32

definition paging_switch :: "mem \<Rightarrow> paging_regs \<Rightarrow> u32 \<Rightarrow> paging_regs" where
  "paging_switch m r directory =
     r\<lparr>cr3 := load32 m directory, current_directory := load32 m directory\<rparr>"

fun paging_free_tables :: "kmem \<Rightarrow> u32 \<Rightarrow> nat \<Rightarrow> nat \<Rightarrow> kmem option" where
  "paging_free_tables k chunk 0 i = Some k"
| "paging_free_tables k chunk (Suc n) i = do {
     let entry = load32 (km_mem k) (slot (load32 (km_mem k) chunk) i);
     k \<leftarrow> kfree k (entry AND 0xfffff000);
     paging_free_tables k chunk n (Suc i)
   }"

definition paging_free_4gb :: "kmem \<Rightarrow> u32 \<Rightarrow> kmem option" where
  "paging_free_4gb k chunk = do {
     k \<leftarrow> paging_free_tables k chunk 1024 0;
     k \<leftarrow> kfree k (load32 (km_mem k) chunk);
     kfree k chunk
   }"

definition paging_is_aligned :: "u32 \<Rightarrow> bool" where
  "paging_is_aligned addr \<longleftrightarrow> addr mod PAGING_PAGE_SIZE = 0"

definition paging_get_indexes :: "u32 \<Rightarrow> u32 \<Rightarrow> u32 \<Rightarrow> int \<times> u32 \<times> u32" where
  \<comment> \<open>the last two arguments and results are what the two out-pointers point to\<close>
  "paging_get_indexes virtual_address directory_index table_index =
     (if \<not> paging_is_aligned virtual_address then (- EINVARG, directory_index, table_index)
      else (0, virtual_address div (PAGING_TOTAL_ENTRIES_PER_TABLE * PAGING_PAGE_SIZE),
            virtual_address mod (PAGING_TOTAL_ENTRIES_PER_TABLE * PAGING_PAGE_SIZE) div PAGING_PAGE_SIZE))"

definition paging_align_address :: "u32 \<Rightarrow> u32" where
  "paging_align_address ptr =
     (if ptr mod PAGING_PAGE_SIZE \<noteq> 0 then ptr + PAGING_PAGE_SIZE - ptr mod PAGING_PAGE_SIZE else ptr)"

definition paging_align_to_lower_page :: "u32 \<Rightarrow> u32" where
  "paging_align_to_lower_page addr = addr - addr mod PAGING_PAGE_SIZE"

definition paging_set :: "mem \<Rightarrow> u32 \<Rightarrow> u32 \<Rightarrow> u32 \<Rightarrow> int \<times> mem" where
  "paging_set m directory virt val =
     (if \<not> paging_is_aligned virt then (- EINVARG, m)
      else case paging_get_indexes virt 0 0 of (res, directory_index, table_index) \<Rightarrow>
        if res < 0 then (res, m)
        else let entry = load32 m (directory + 4 * directory_index);
                 tab = entry AND 0xfffff000
             in (0, store32 m (tab + 4 * table_index) val))"

definition paging_get :: "mem \<Rightarrow> u32 \<Rightarrow> u32 \<Rightarrow> u32" where
  "paging_get m directory virt =
     (case paging_get_indexes virt 0 0 of (_, directory_index, table_index) \<Rightarrow>
        let entry = load32 m (directory + 4 * directory_index);
            tab = entry AND 0xfffff000
        in load32 m (tab + 4 * table_index))"

definition paging_map :: "mem \<Rightarrow> u32 \<Rightarrow> u32 \<Rightarrow> u32 \<Rightarrow> u32 \<Rightarrow> int \<times> mem" where
  "paging_map m chunk virt phys flags =
     (if virt mod PAGING_PAGE_SIZE \<noteq> 0 \<or> phys mod PAGING_PAGE_SIZE \<noteq> 0 then (- EINVARG, m)
      else paging_set m (load32 m chunk) virt (phys OR flags))"

fun paging_map_range_loop :: "mem \<Rightarrow> u32 \<Rightarrow> u32 \<Rightarrow> u32 \<Rightarrow> u32 \<Rightarrow> nat \<Rightarrow> int \<Rightarrow> int \<times> mem" where
  "paging_map_range_loop m chunk virt phys flags 0 res = (res, m)"
| "paging_map_range_loop m chunk virt phys flags (Suc n) res =
     (case paging_map m chunk virt phys flags of (res, m) \<Rightarrow>
        if res < 0 then (res, m)
        else paging_map_range_loop m chunk (virt + PAGING_PAGE_SIZE) (phys + PAGING_PAGE_SIZE) flags n res)"

definition paging_map_range :: "mem \<Rightarrow> u32 \<Rightarrow> u32 \<Rightarrow> u32 \<Rightarrow> int \<Rightarrow> u32 \<Rightarrow> int \<times> mem" where
  "paging_map_range m chunk virt phys count flags =
     paging_map_range_loop m chunk virt phys flags (nat count) 0"

definition paging_map_to :: "mem \<Rightarrow> u32 \<Rightarrow> u32 \<Rightarrow> u32 \<Rightarrow> u32 \<Rightarrow> u32 \<Rightarrow> int \<times> mem" where
  "paging_map_to m chunk virt phys phys_end flags =
     (if virt mod PAGING_PAGE_SIZE \<noteq> 0 then (- EINVARG, m)
      else if phys mod PAGING_PAGE_SIZE \<noteq> 0 then (- EINVARG, m)
      else if phys_end mod PAGING_PAGE_SIZE \<noteq> 0 then (- EINVARG, m)
      else if phys_end < phys then (- EINVARG, m)
      else let total_bytes = phys_end - phys;
               total_pages = total_bytes div PAGING_PAGE_SIZE
           in paging_map_range m chunk virt phys (uint total_pages) flags)"

definition paging_get_physical_address :: "mem \<Rightarrow> u32 \<Rightarrow> u32 \<Rightarrow> u32" where
  "paging_get_physical_address m directory virt =
     (let virt_addr_new = paging_align_to_lower_page virt;
          difference = virt - virt_addr_new
      in (paging_get m directory virt_addr_new AND 0xfffff000) + difference)"

section \<open>Cells of a page\<close>

lemma slot_page:
  assumes "page_base p = p" and "i < 1024"
  shows "unat (slot p i) = unat p + 4 * i" "page_base (slot p i) = p" "unat (slot p i) mod 4 = 0"
proof -
  show u: "unat (slot p i) = unat p + 4 * i" and "page_base (slot p i) = p"
    using unat_page_offset [OF assms(1), of "4 * i"] page_base_offset [OF assms(1), of "4 * i"] assms(2)
    by simp_all
  have "unat p mod 4096 = 0" using assms(1) by (simp add: page_aligned_iff)
  then obtain q where "unat p = 4096 * q" by (metis mod_0_imp_dvd dvdE)
  then have "unat p = 4 * (1024 * q)" by simp
  then have "unat p mod 4 = 0" by (metis mod_mult_self1_is_0)
  then show "unat (slot p i) mod 4 = 0" using u by simp
qed

lemma slot_eq_iff:
  assumes "page_base p = p" and "page_base q = q" and "i < 1024" and "j < 1024"
  shows "slot p i = slot q j \<longleftrightarrow> p = q \<and> i = j"
  using slot_page [OF assms(1,3)] slot_page [OF assms(2,4)] assms
  by (metis add_left_cancel mult_left_cancel zero_neq_numeral)

lemma load32_store32_slot [mem_simps]:
  assumes "page_base p = p" and "page_base q = q" and "i < 1024" and "j < 1024"
  shows "load32 (store32 m (slot p i) v) (slot q j) = (if p = q \<and> i = j then v else load32 m (slot q j))"
  using slot_eq_iff [OF assms] load32_store32_other slot_page(3) assms load32_store32_same by metis

lemma load32_slot_cong:
  assumes "page_base q = q" and "j < 1024" and "\<And>a. page_base a = q \<Longrightarrow> m' a = m a"
  shows "load32 m' (slot q j) = load32 m (slot q j)"
proof (rule load32_cong)
  have "m' (q + of_nat (4 * j + c)) = m (q + of_nat (4 * j + c))" if "c < 4" for c
    using page_base_offset [OF assms(1), of "4 * j + c"] assms(2,3) that by simp
  from this [of 0] this [of 1] this [of 2] this [of 3]
  show "m' (slot q j) = m (slot q j)" "m' (slot q j + 1) = m (slot q j + 1)"
    "m' (slot q j + 2) = m (slot q j + 2)" "m' (slot q j + 3) = m (slot q j + 3)"
    by (simp_all add: ac_simps)
qed

lemma store32_slot_frame:
  assumes "page_base p = p" and "i < 1024" and "page_base a \<noteq> p"
  shows "store32 m (slot p i) v a = m a"
proof -
  have "a \<noteq> p + of_nat (4 * i + c)" if "c < 4" for c
    using page_base_offset [OF assms(1), of "4 * i + c"] assms(2,3) that by auto
  from this [of 0] this [of 1] this [of 2] this [of 3] show ?thesis
    by (simp add: store32_def ac_simps)
qed

section \<open>A directory with its tables\<close>

definition pd_ok :: "mem \<Rightarrow> u32 \<Rightarrow> u32 list \<Rightarrow> bool" where
  \<comment> \<open>\<open>D\<close> is a directory whose first entries point to the page tables \<open>ts\<close>, all in different pages\<close>
  "pd_ok m D ts \<longleftrightarrow> (\<forall>p \<in> set (D # ts). page_base p = p) \<and> distinct (D # ts) \<and> length ts \<le> 1024 \<and>
     (\<forall>j < length ts. page_base (load32 m (slot D j)) = ts ! j)"

lemma pd_ok_table:
  assumes "pd_ok m D ts" and "j < length ts"
  shows "page_base (ts ! j) = ts ! j" "ts ! j \<noteq> D" "load32 m (slot D j) AND 0xfffff000 = ts ! j"
  using assms by (auto simp: pd_ok_def page_base_def)

lemma pd_ok_store:
  assumes "pd_ok m D ts" and "page_base p = p" and "p \<noteq> D" and "i < 1024"
  shows "pd_ok (store32 m (slot p i) v) D ts"
  using assms load32_store32_slot [OF assms(2) _ assms(4), of D]
  by (simp add: pd_ok_def)

lemma page_index:
  assumes "paging_is_aligned v"
  obtains d t where "d < 1024" "t < 1024" "unat v = (d * 1024 + t) * 4096"
    "v div (PAGING_TOTAL_ENTRIES_PER_TABLE * PAGING_PAGE_SIZE) = of_nat d"
    "v mod (PAGING_TOTAL_ENTRIES_PER_TABLE * PAGING_PAGE_SIZE) div PAGING_PAGE_SIZE = of_nat t"
proof -
  define q where "q = unat v div 4096"
  have "unat (v mod 4096) = 0" using assms by (simp add: paging_is_aligned_def paging_consts)
  then have q: "unat v = q * 4096" by (simp add: unat_mod q_def) (metis mod_0_imp_dvd dvd_div_mult_self mult.commute)
  have q2: "q < 1048576" using q unat_u32_lt [of v] by simp
  have d: "unat v div 4194304 = q div 1024" using div_mult2_eq [of "q * 4096" 4096 1024] q by simp
  have "unat v mod 4194304 = q mod 1024 * 4096"
    using mult_mod_left [of q 1024 4096] q by simp
  then have m: "unat v mod 4194304 div 4096 = q mod 1024" by simp
  have small: "unat (of_nat n :: u32) = n" if "n < 1048576" for n
    using that by (simp add: unat_of_nat take_bit_nat_eq_self)
  show ?thesis
  proof (rule that [of "q div 1024" "q mod 1024"])
    show "q div 1024 < 1024" using q2 by simp
    show "unat v = (q div 1024 * 1024 + q mod 1024) * 4096" using q by simp
    show "v div (PAGING_TOTAL_ENTRIES_PER_TABLE * PAGING_PAGE_SIZE) = of_nat (q div 1024)"
      using d small [of "q div 1024"] q2 by (simp add: word_unat_eq_iff paging_consts unat_div)
    show "v mod (PAGING_TOTAL_ENTRIES_PER_TABLE * PAGING_PAGE_SIZE) div PAGING_PAGE_SIZE = of_nat (q mod 1024)"
      using m small [of "q mod 1024"] by (simp add: word_unat_eq_iff paging_consts unat_div unat_mod)
  qed simp
qed


definition page_dir :: "u32 \<Rightarrow> nat" where "page_dir v = unat v div 4194304"
definition page_tab :: "u32 \<Rightarrow> nat" where "page_tab v = unat v div 4096 mod 1024"

lemma paging_get_indexes_aligned:
  assumes "paging_is_aligned v"
  shows "paging_get_indexes v x y = (0, of_nat (page_dir v), of_nat (page_tab v))"
    and "page_dir v < 1024" and "page_tab v < 1024"
    and "unat v = (page_dir v * 1024 + page_tab v) * 4096"
proof -
  from page_index [OF assms] obtain d t where *: "d < 1024" "t < 1024" "unat v = (d * 1024 + t) * 4096"
    "v div (PAGING_TOTAL_ENTRIES_PER_TABLE * PAGING_PAGE_SIZE) = of_nat d"
    "v mod (PAGING_TOTAL_ENTRIES_PER_TABLE * PAGING_PAGE_SIZE) div PAGING_PAGE_SIZE = of_nat t" by blast
  have d: "page_dir v = d" using *(2,3) div_mult2_eq [of "unat v" 4096 1024] by (simp add: page_dir_def)
  have t: "page_tab v = t" using *(2,3) by (simp add: page_tab_def)
  show "paging_get_indexes v x y = (0, of_nat (page_dir v), of_nat (page_tab v))"
    and "page_dir v < 1024" and "page_tab v < 1024"
    and "unat v = (page_dir v * 1024 + page_tab v) * 4096"
    using * d t assms by (simp_all add: paging_get_indexes_def)
qed

lemma paging_get_slot:
  assumes "pd_ok m D ts" and "length ts = 1024" and "paging_is_aligned v"
  shows "paging_get m D v = load32 m (slot (ts ! page_dir v) (page_tab v))"
  using paging_get_indexes_aligned [OF assms(3)] pd_ok_table [OF assms(1), of "page_dir v"] assms(2)
  by (simp add: paging_get_def Let_def)

lemma paging_set_slot:
  assumes "pd_ok m D ts" and "length ts = 1024" and "paging_is_aligned v"
  shows "paging_set m D v x = (0, store32 m (slot (ts ! page_dir v) (page_tab v)) x)"
  using paging_get_indexes_aligned [OF assms(3)] pd_ok_table [OF assms(1), of "page_dir v"] assms
  by (simp add: paging_set_def Let_def)

lemma paging_set_effect:
  assumes "pd_ok m D ts" and "length ts = 1024" and "paging_is_aligned v" and "paging_set m D v x = (r, m')"
  shows "r = 0" and "pd_ok m' D ts"
    and "paging_is_aligned u \<Longrightarrow> paging_get m' D u = (if u = v then x else paging_get m D u)"
    and "page_base a \<notin> set ts \<Longrightarrow> m' a = m a"
proof -
  note iv = paging_get_indexes_aligned [OF assms(3)]
  have r: "r = 0" and m': "m' = store32 m (slot (ts ! page_dir v) (page_tab v)) x"
    using paging_set_slot [OF assms(1-3)] assms(4) by simp_all
  show "r = 0" by (rule r)
  have tv: "page_base (ts ! page_dir v) = ts ! page_dir v" "ts ! page_dir v \<noteq> D"
    using pd_ok_table [OF assms(1), of "page_dir v"] iv assms(2) by simp_all
  show ok: "pd_ok m' D ts" unfolding m' using pd_ok_store [OF assms(1) tv] iv(3) by simp
  show "paging_get m' D u = (if u = v then x else paging_get m D u)" if u: "paging_is_aligned u"
  proof -
    note iu = paging_get_indexes_aligned [OF u]
    have tu: "page_base (ts ! page_dir u) = ts ! page_dir u"
      using pd_ok_table [OF assms(1), of "page_dir u"] iu assms(2) by simp
    have "u = v \<longleftrightarrow> page_dir u = page_dir v \<and> page_tab u = page_tab v"
      using iu(4) iv(4) by (metis word_unat_eq_iff)
    moreover have "ts ! page_dir u = ts ! page_dir v \<longleftrightarrow> page_dir u = page_dir v"
      using assms(1,2) iu(2) iv(2) by (simp add: pd_ok_def nth_eq_iff_index_eq)
    ultimately show ?thesis
      using paging_get_slot [OF ok assms(2) u] paging_get_slot [OF assms(1,2) u]
        load32_store32_slot [OF tv(1) tu iv(3) iu(3), of m x] m' by auto
  qed
  show "m' a = m a" if "page_base a \<notin> set ts"
    unfolding m' using store32_slot_frame [OF tv(1) iv(3)] that iv(2) assms(2) by (metis nth_mem)
qed

section \<open>An address space\<close>

definition space :: "mem \<Rightarrow> u32 \<Rightarrow> u32 list \<Rightarrow> bool" where
  \<comment> \<open>\<open>chunk\<close> points to a complete directory with its 1024 tables \<open>ts\<close>, and lies in a page of its own\<close>
  "space m chunk ts \<longleftrightarrow> pd_ok m (load32 m chunk) ts \<and> length ts = 1024 \<and>
     page_base chunk = chunk \<and> chunk \<notin> set (load32 m chunk # ts)"

definition translate :: "mem \<Rightarrow> u32 \<Rightarrow> u32 \<Rightarrow> u32" where
  "translate m chunk v = paging_get m (load32 m chunk) v"

lemma aligned_dvd: "paging_is_aligned v \<longleftrightarrow> 4096 dvd v"
  using take_bit_eq_0_iff [of 12 v] by (simp add: paging_is_aligned_def paging_consts take_bit_eq_mod)

lemma aligned_page_base: "paging_is_aligned v \<longleftrightarrow> page_base v = v"
proof -
  have "v mod 4096 = 0 \<longleftrightarrow> unat v mod 4096 = 0"
    by (simp add: word_unat_eq_iff unat_mod)
  then show ?thesis by (simp add: paging_is_aligned_def paging_consts page_aligned_iff)
qed

lemma aligned_sub_step:
  assumes "paging_is_aligned u" and "paging_is_aligned v" and "u \<noteq> v"
  shows "unat (u - v) = unat (u - (v + 4096)) + 4096"
proof -
  have "paging_is_aligned (u - v)" using assms by (simp add: aligned_dvd dvd_diff)
  then have "unat (u - v) mod 4096 = 0" by (simp add: aligned_page_base page_aligned_iff)
  moreover have "0 < unat (u - v)" using assms(3) by (simp add: unat_gt_0)
  ultimately have "4096 \<le> unat (u - v)" by (metis dvd_imp_le mod_0_imp_dvd)
  then have "(4096 :: u32) \<le> u - v" by (simp add: word_le_nat_alt)
  then have "unat (u - v - 4096) = unat (u - v) - 4096" by (simp add: unat_sub)
  with \<open>4096 \<le> unat (u - v)\<close> show ?thesis by (simp add: diff_diff_eq)
qed

lemma paging_map_effect:
  assumes "space m chunk ts" and "paging_is_aligned v" and "paging_is_aligned p"
    and "paging_map m chunk v p f = (r, m')"
  shows "r = 0" and "space m' chunk ts"
    and "paging_is_aligned u \<Longrightarrow> translate m' chunk u = (if u = v then p OR f else translate m chunk u)"
    and "page_base a \<notin> set ts \<Longrightarrow> m' a = m a"
proof -
  let ?D = "load32 m chunk"
  have ok: "pd_ok m ?D ts" "length ts = 1024" and ch: "page_base chunk = chunk" "chunk \<notin> set (?D # ts)"
    using assms(1) by (simp_all add: space_def)
  have s: "paging_set m ?D v (p OR f) = (r, m')"
    using assms(2-4) by (simp add: paging_map_def paging_is_aligned_def)
  note e = paging_set_effect [OF ok assms(2) s]
  show "r = 0" by (rule e(1))
  show frame: "m' a = m a" if "page_base a \<notin> set ts" for a by (rule e(4) [OF that])
  have "load32 m' (slot chunk 0) = load32 m (slot chunk 0)"
    using ch frame by (intro load32_slot_cong) auto
  then have D: "load32 m' chunk = ?D" by simp
  show "space m' chunk ts" using e(2) ok ch D by (simp add: space_def)
  show "translate m' chunk u = (if u = v then p OR f else translate m chunk u)" if "paging_is_aligned u"
    using e(3) [OF that] by (simp add: translate_def D)
qed

lemma paging_is_aligned_step: "paging_is_aligned v \<Longrightarrow> paging_is_aligned (v + PAGING_PAGE_SIZE)"
  by (simp add: aligned_dvd paging_consts)

lemma paging_map_range_loop_effect:
  assumes "space m chunk ts" and "paging_is_aligned v" and "paging_is_aligned p" and "n \<le> 1048576"
    and "0 < n \<or> r0 = 0" and "paging_map_range_loop m chunk v p f n r0 = (r, m')"
  shows "r = 0 \<and> space m' chunk ts \<and> (\<forall>a. page_base a \<notin> set ts \<longrightarrow> m' a = m a) \<and>
    (\<forall>u. paging_is_aligned u \<longrightarrow> translate m' chunk u =
       (if unat (u - v) < n * 4096 then (p + (u - v)) OR f else translate m chunk u))"
  using assms
proof (induction n arbitrary: m v p r0)
  case (Suc n)
  obtain r1 m1 where m1: "paging_map m chunk v p f = (r1, m1)" by (cases "paging_map m chunk v p f")
  note e = paging_map_effect [OF Suc.prems(1-3) m1]
  let ?v = "v + PAGING_PAGE_SIZE" and ?p = "p + PAGING_PAGE_SIZE"
  have rest: "paging_map_range_loop m1 chunk ?v ?p f n 0 = (r, m')"
    using Suc.prems(6) m1 e(1) by simp
  note IH = Suc.IH [OF e(2) paging_is_aligned_step [OF Suc.prems(2)] paging_is_aligned_step [OF Suc.prems(3)]
      _ _ rest]
  have "translate m' chunk u = (if unat (u - v) < Suc n * 4096 then (p + (u - v)) OR f else translate m chunk u)"
    if u: "paging_is_aligned u" for u
  proof (cases "u = v")
    case True
    have "unat (- (4096 :: u32)) = 4294963200" by simp
    then have "\<not> unat (u - ?v) < n * 4096" using True Suc.prems(4) by (simp add: paging_consts)
    then show ?thesis using IH e(3) [OF u] u Suc.prems(4) True by simp
  next
    case False
    have s: "unat (u - v) = unat (u - ?v) + 4096"
      using aligned_sub_step [OF u Suc.prems(2) False] by (simp add: paging_consts)
    have "?p + (u - ?v) = p + (u - v)" by simp
    then show ?thesis using IH e(3) [OF u] u Suc.prems(4) False unfolding s by simp
  qed
  then show ?case using IH e(4) Suc.prems(4) by simp
qed (simp_all)

section \<open>Building an address space\<close>

lemma paging_fill_table_load:
  assumes "page_base p = p" and "page_base q = q" and "i < 1024" and "b + n \<le> 1024"
  shows "load32 (paging_fill_table m p off f n b) (slot q i) =
    (if q = p \<and> b \<le> i \<and> i < b + n then (off + of_nat i * PAGING_PAGE_SIZE) OR f else load32 m (slot q i))"
  using assms(4)
proof (induction n arbitrary: m b)
  case (Suc n)
  then show ?case
    using load32_store32_slot [OF assms(1,2) _ assms(3), of b] by (auto simp: less_Suc_eq_le not_le)
qed auto

lemma paging_fill_table_frame:
  assumes "page_base p = p" and "page_base a \<noteq> p" and "b + n \<le> 1024"
  shows "paging_fill_table m p off f n b a = m a"
  using assms(3)
proof (induction n arbitrary: m b)
  case (Suc n)
  then show ?case using store32_slot_frame [OF assms(1) _ assms(2), of b] by simp
qed simp

definition built :: "kmem \<Rightarrow> u32 \<Rightarrow> u32 list \<Rightarrow> u32 \<Rightarrow> bool" where
  \<comment> \<open>the directory \<open>D\<close> holds the tables \<open>ts\<close> built so far, and they map the memory below to itself\<close>
  "built k D ts f \<longleftrightarrow> kinv k \<and> D \<in> kpages k \<and> set ts \<subseteq> kpages k \<and> pd_ok (km_mem k) D ts \<and>
     (\<forall>j < length ts. \<forall>b < 1024. load32 (km_mem k) (slot (ts ! j) b) =
        (of_nat (j * 1024 + b) * PAGING_PAGE_SIZE) OR f)"

lemma kpages_aligned: "kinv k \<Longrightarrow> p \<in> kpages k \<Longrightarrow> page_base p = p"
  using kh.used_aligned kh.pages_used by blast

lemma kmem_update_view [simp]:
  "kinv (k\<lparr>km_mem := m\<rparr>) = kinv k" "kused (k\<lparr>km_mem := m\<rparr>) = kused k"
  "kpages (k\<lparr>km_mem := m\<rparr>) = kpages k" "kroom (k\<lparr>km_mem := m\<rparr>) = kroom k"
  by (simp_all add: kinv_def kused_def kpages_def kroom_def block_addr_def)

lemma flags_low: "page_base (ucast (fl :: u8) OR (2 :: u32)) = 0" "page_base (ucast (fl :: u8) :: u32) = 0"
proof -
  have "bit (0xfffff000 :: u32) n \<Longrightarrow> 12 \<le> n" for n
  proof -
    have "(0xfffff000 :: u32) = NOT (mask 12)" by (simp add: mask_eq_exp_minus_1)
    then show "bit (0xfffff000 :: u32) n \<Longrightarrow> 12 \<le> n" by (auto simp: bit_simps not_less)
  qed
  moreover have "bit (2 :: u32) n \<Longrightarrow> n = 1" for n using bit_2_iff by blast
  moreover have "bit (ucast fl :: u32) n \<Longrightarrow> n < 8" for n
    using bit_imp_le_length [of fl n] by (simp add: bit_ucast_iff)
  ultimately have hi: "\<not> (bit (0xfffff000 :: u32) n \<and> (bit (ucast fl :: u32) n \<or> bit (2 :: u32) n))" for n
    by fastforce
  then show "page_base (ucast fl OR (2 :: u32)) = 0" "page_base (ucast fl :: u32) = 0"
    by (auto simp: page_base_def bit_eq_iff bit_and_iff bit_or_iff)
qed

lemma built_step:
  assumes "built k D ts f" and "length ts < 1024" and "0 < kroom k" and "page_base (f OR 2) = 0"
  shows "\<exists>t k1. kzalloc k (4 * PAGING_TOTAL_ENTRIES_PER_TABLE) = Some (t, k1) \<and> t \<noteq> 0 \<and> t \<notin> kused k \<and>
    (let m = paging_fill_table (km_mem k1) t (of_nat (length ts) * 4194304) f 1024 0;
         k2 = k1\<lparr>km_mem := store32 m (slot D (length ts)) (t OR f OR PAGING_IS_WRITEABLE)\<rparr>
     in built k2 D (ts @ [t]) f \<and> kused k2 = insert t (kused k) \<and> kpages k2 = insert t (kpages k) \<and>
        Suc (kroom k2) = kroom k \<and>
        (\<forall>a. page_base a \<in> kused k \<and> page_base a \<noteq> D \<longrightarrow> km_mem k2 a = km_mem k a))"
proof -
  have inv: "kinv k" and D: "D \<in> kpages k" and ts: "set ts \<subseteq> kpages k" and pd: "pd_ok (km_mem k) D ts"
    and id: "\<And>j b. j < length ts \<Longrightarrow> b < 1024 \<Longrightarrow> load32 (km_mem k) (slot (ts ! j) b) =
        (of_nat (j * 1024 + b) * PAGING_PAGE_SIZE) OR f"
    using assms(1) by (auto simp: built_def)
  have sz: "0 < unat (4 * PAGING_TOTAL_ENTRIES_PER_TABLE)" "unat (4 * PAGING_TOTAL_ENTRIES_PER_TABLE) \<le> 4096"
    by (simp_all add: paging_consts)
  from kh.alloc_page [OF inv assms(3) sz] obtain t k1 where
    z: "kzalloc k (4 * PAGING_TOTAL_ENTRIES_PER_TABLE) = Some (t, k1)" and t: "t \<noteq> 0" "page_base t = t" "t \<notin> kused k"
    and k1: "kinv k1" "kused k1 = insert t (kused k)" "kpages k1 = insert t (kpages k)" "Suc (kroom k1) = kroom k"
    by blast
  have fr: "km_mem k1 a = km_mem k a" if "page_base a \<noteq> t" for a
    using kh.alloc_frame [OF inv assms(3) sz z] that by blast
  define m where "m = paging_fill_table (km_mem k1) t (of_nat (length ts) * 4194304) f 1024 0"
  define m2 where "m2 = store32 m (slot D (length ts)) (t OR f OR PAGING_IS_WRITEABLE)"
  have Dp: "page_base D = D" "D \<noteq> t" using kpages_aligned [OF inv] D t(3) kh.pages_used by auto
  have tsp: "page_base q = q \<and> q \<noteq> t \<and> q \<noteq> D" if "q \<in> set ts" for q
    using that ts kpages_aligned [OF inv] t(3) kh.pages_used pd by (auto simp: pd_ok_def)
  have old: "load32 m2 (slot q j) = load32 (km_mem k) (slot q j)"
    if "page_base q = q" "q \<noteq> t" "j < 1024" "q \<noteq> D \<or> j \<noteq> length ts" for q j
  proof -
    have "load32 m2 (slot q j) = load32 m (slot q j)"
      using load32_store32_slot [OF Dp(1) that(1) assms(2) that(3)] that(4) by (auto simp: m2_def)
    also have "\<dots> = load32 (km_mem k1) (slot q j)"
      using paging_fill_table_load [OF t(2) that(1,3), of 0 1024] that(2) by (simp add: m_def)
    also have "\<dots> = load32 (km_mem k) (slot q j)"
      using that by (intro load32_slot_cong fr) auto
    finally show ?thesis .
  qed
  have new: "load32 m2 (slot t b) = (of_nat (length ts * 1024 + b) * PAGING_PAGE_SIZE) OR f" if "b < 1024" for b
    using load32_store32_slot [OF Dp(1) t(2) assms(2) that] Dp(2)
      paging_fill_table_load [OF t(2) t(2) that, of 0 1024] that
    by (simp add: m2_def m_def paging_consts algebra_simps)
  have ent: "load32 m2 (slot D (length ts)) = t OR f OR PAGING_IS_WRITEABLE"
    by (simp add: m2_def load32_store32_same)
  have "page_base (t OR (f OR 2)) = t" by (rule page_base_flags [OF t(2) assms(4)])
  then have entb: "page_base (load32 m2 (slot D (length ts))) = t" by (simp only: ent paging_consts or.assoc)
  have "pd_ok m2 D (ts @ [t])"
    using pd Dp t tsp entb assms(2) old [OF Dp(1,2)] by (auto simp: pd_ok_def nth_append less_Suc_eq)
  moreover have "load32 m2 (slot ((ts @ [t]) ! j) b) = (of_nat (j * 1024 + b) * PAGING_PAGE_SIZE) OR f"
    if "j < length (ts @ [t])" "b < 1024" for j b
    using that new old id tsp by (cases "j < length ts") (auto simp: nth_append less_Suc_eq)
  ultimately have "built (k1\<lparr>km_mem := m2\<rparr>) D (ts @ [t]) f"
    using k1 D ts by (auto simp: built_def)
  moreover have "m2 a = km_mem k a" if "page_base a \<in> kused k" "page_base a \<noteq> D" for a
  proof -
    have "page_base a \<noteq> t" using that(1) t(3) by auto
    then show ?thesis
      using that fr paging_fill_table_frame [OF t(2), of a 0 1024] store32_slot_frame [OF Dp(1) assms(2)]
      by (simp add: m2_def m_def)
  qed
  ultimately show ?thesis using z t k1 by (auto simp: m_def m2_def Let_def)
qed

lemma paging_new_4gb_loop_built:
  assumes "built k D ts f" and "length ts + n = 1024" and "n \<le> kroom k" and "page_base (f OR 2) = 0"
  shows "\<exists>k' ts'. paging_new_4gb_loop k D f n (length ts) (of_nat (length ts) * 4194304) = Some k' \<and>
    built k' D (ts @ ts') f \<and> length ts' = n \<and> kused k' = kused k \<union> set ts' \<and> kpages k' = kpages k \<union> set ts' \<and>
    set ts' \<inter> kused k = {} \<and> kroom k' + n = kroom k \<and>
    (\<forall>a. page_base a \<in> kused k \<and> page_base a \<noteq> D \<longrightarrow> km_mem k' a = km_mem k a)"
  using assms(1-3)
proof (induction n arbitrary: k ts)
  case 0
  then show ?case by (intro exI [of _ k] exI [of _ "[]"]) simp
next
  case (Suc n)
  have "length ts < 1024" "0 < kroom k" using Suc.prems by simp_all
  from built_step [OF Suc.prems(1) this assms(4)] obtain t k1 k2 where
    z: "kzalloc k (4 * PAGING_TOTAL_ENTRIES_PER_TABLE) = Some (t, k1)" "t \<noteq> 0" "t \<notin> kused k"
    and k2: "k2 = k1\<lparr>km_mem := store32 (paging_fill_table (km_mem k1) t (of_nat (length ts) * 4194304) f 1024 0)
          (slot D (length ts)) (t OR f OR PAGING_IS_WRITEABLE)\<rparr>"
    and b: "built k2 D (ts @ [t]) f" "kused k2 = insert t (kused k)" "kpages k2 = insert t (kpages k)"
      "Suc (kroom k2) = kroom k"
    and fr: "\<And>a. page_base a \<in> kused k \<and> page_base a \<noteq> D \<Longrightarrow> km_mem k2 a = km_mem k a"
    by (auto simp: Let_def)
  have "length (ts @ [t]) + n = 1024" "n \<le> kroom k2" using Suc.prems(2,3) b(4) by simp_all
  from Suc.IH [OF b(1) this] obtain k' ts' where
    l: "paging_new_4gb_loop k2 D f n (length (ts @ [t])) (of_nat (length (ts @ [t])) * 4194304) = Some k'"
    and r: "built k' D ((ts @ [t]) @ ts') f" "length ts' = n" "kused k' = kused k2 \<union> set ts'"
      "kpages k' = kpages k2 \<union> set ts'" "set ts' \<inter> kused k2 = {}" "kroom k' + n = kroom k2"
      "\<And>a. page_base a \<in> kused k2 \<and> page_base a \<noteq> D \<Longrightarrow> km_mem k' a = km_mem k2 a" by blast
  have "paging_new_4gb_loop k D f (Suc n) (length ts) (of_nat (length ts) * 4194304) = Some k'"
    using l z k2 by (simp add: paging_consts algebra_simps Let_def)
  then show ?case
    using r b fr z(3) by (intro exI [of _ k'] exI [of _ "t # ts'"]) auto
qed

lemma built_empty:
  assumes "kinv k" and "D \<in> kpages k"
  shows "built k D [] f"
  using assms kpages_aligned by (simp add: built_def pd_ok_def)

lemma built_complete_identity:
  assumes "built k D ts f" and "length ts = 1024" and "paging_is_aligned v"
  shows "paging_get (km_mem k) D v = v OR f"
proof -
  note iv = paging_get_indexes_aligned [OF assms(3)]
  have "paging_get (km_mem k) D v = (of_nat (page_dir v * 1024 + page_tab v) * PAGING_PAGE_SIZE) OR f"
    using paging_get_slot [of "km_mem k" D ts v] assms iv(2,3) by (simp add: built_def)
  also have "of_nat (page_dir v * 1024 + page_tab v) * PAGING_PAGE_SIZE = (of_nat (unat v) :: u32)"
    unfolding iv(4) by (simp add: paging_consts)
  finally show ?thesis by simp
qed

lemma kzalloc_small:
  assumes "kinv k" and "0 < kroom k" and "0 < unat sz" and "unat sz \<le> 4096"
  obtains p k' where "kzalloc k sz = Some (p, k')" "p \<noteq> 0" "page_base p = p" "p \<notin> kused k" "kinv k'"
    "kused k' = insert p (kused k)" "kpages k' = insert p (kpages k)" "Suc (kroom k') = kroom k"
    "\<And>a. page_base a \<noteq> p \<Longrightarrow> km_mem k' a = km_mem k a"
  using kh.alloc_page [OF assms] kh.alloc_frame [OF assms] by blast

lemma built_frame:
  assumes "built k D ts f" and "kinv k'" and "kpages k \<subseteq> kpages k'"
    and "\<And>a. page_base a \<in> kused k \<Longrightarrow> km_mem k' a = km_mem k a"
  shows "built k' D ts f"
proof -
  have inv: "kinv k" and sub: "set (D # ts) \<subseteq> kpages k" using assms(1) by (simp_all add: built_def)
  have same: "load32 (km_mem k') (slot q j) = load32 (km_mem k) (slot q j)" if "q \<in> set (D # ts)" "j < 1024" for q j
    using that sub kh.pages_used [of k] kpages_aligned [OF inv] assms(4) by (intro load32_slot_cong) auto
  have len: "length ts \<le> 1024" using assms(1) by (simp add: built_def pd_ok_def)
  have "page_base (load32 (km_mem k') (slot D j)) = ts ! j" if "j < length ts" for j
    using that assms(1) same [of D j] len by (simp add: built_def pd_ok_def)
  moreover have "load32 (km_mem k') (slot (ts ! j) b) = (of_nat (j * 1024 + b) * PAGING_PAGE_SIZE) OR f"
    if "j < length ts" "b < 1024" for j b
    using that assms(1) same [of "ts ! j" b] by (simp add: built_def)
  ultimately show ?thesis using assms sub by (auto simp: built_def pd_ok_def)
qed

lemma paging_new_4gb_space:
  assumes "kinv k" and "1026 \<le> kroom k"
  shows "\<exists>chunk k' ts. paging_new_4gb k flags = Some (chunk, k') \<and> kinv k' \<and> space (km_mem k') chunk ts \<and>
     (\<forall>v. paging_is_aligned v \<longrightarrow> translate (km_mem k') chunk v = v OR ucast flags) \<and>
     kused k' = kused k \<union> set (chunk # load32 (km_mem k') chunk # ts) \<and>
     kpages k' = kpages k \<union> set (chunk # load32 (km_mem k') chunk # ts) \<and>
     kused k \<inter> set (chunk # load32 (km_mem k') chunk # ts) = {} \<and> kroom k' + 1026 = kroom k \<and>
     (\<forall>a. page_base a \<in> kused k \<longrightarrow> km_mem k' a = km_mem k a)"
proof -
  have sz: "0 < unat (4 * PAGING_TOTAL_ENTRIES_PER_TABLE)" "unat (4 * PAGING_TOTAL_ENTRIES_PER_TABLE) \<le> 4096"
    by (simp_all add: paging_consts)
  obtain D k1 where D: "kzalloc k (4 * PAGING_TOTAL_ENTRIES_PER_TABLE) = Some (D, k1)" "D \<noteq> 0" "page_base D = D"
    "D \<notin> kused k" "kinv k1" "kused k1 = insert D (kused k)" "kpages k1 = insert D (kpages k)"
    "Suc (kroom k1) = kroom k" and f1: "\<And>a. page_base a \<noteq> D \<Longrightarrow> km_mem k1 a = km_mem k a"
    using kzalloc_small [OF assms(1) _ sz] assms(2) by auto
  have "built k1 D [] (ucast flags)" by (rule built_empty) (use D in simp_all)
  from paging_new_4gb_loop_built [OF this, of 1024] flags_low(1) D(8) assms(2)
  obtain k2 ts where l: "paging_new_4gb_loop k1 D (ucast flags) 1024 0 0 = Some k2"
    and b: "built k2 D ts (ucast flags)" "length ts = 1024" "kused k2 = kused k1 \<union> set ts"
      "kpages k2 = kpages k1 \<union> set ts" "set ts \<inter> kused k1 = {}" "kroom k2 + 1024 = kroom k1"
    and f2: "\<And>a. page_base a \<in> kused k1 \<Longrightarrow> page_base a \<noteq> D \<Longrightarrow> km_mem k2 a = km_mem k1 a"
    by auto
  have inv2: "kinv k2" using b(1) by (simp add: built_def)
  have "0 < kroom k2" using b(6) D(8) assms(2) by linarith
  then obtain c k3 where c: "kzalloc k2 4 = Some (c, k3)" "c \<noteq> 0" "page_base c = c"
    "c \<notin> kused k2" "kinv k3" "kused k3 = insert c (kused k2)" "kpages k3 = insert c (kpages k2)"
    "Suc (kroom k3) = kroom k2" and f3: "\<And>a. page_base a \<noteq> c \<Longrightarrow> km_mem k3 a = km_mem k2 a"
    using kzalloc_small [OF inv2, of 4] by auto
  define k4 where "k4 = k3\<lparr>km_mem := store32 (km_mem k3) c D\<rparr>"
  have f4: "km_mem k4 a = km_mem k2 a" if "page_base a \<in> kused k2" for a
    using that c(4) f3 store32_slot_frame [OF c(3), of 0 a "km_mem k3" D] by (auto simp: k4_def)
  have Dl: "load32 (km_mem k4) c = D" by (simp add: k4_def load32_store32_same)
  have "kinv k4" "kpages k2 \<subseteq> kpages k4" using c(5,7) by (auto simp: k4_def)
  then have bt: "built k4 D ts (ucast flags)" by (rule built_frame [OF b(1) _ _ f4])
  have "c \<noteq> D" "c \<notin> set ts" using c(4) b(3) D(6) by auto
  then have "space (km_mem k4) c ts" using bt b(2) c(3) Dl by (auto simp: space_def built_def)
  moreover have "translate (km_mem k4) c v = v OR ucast flags" if "paging_is_aligned v" for v
    using built_complete_identity [OF bt b(2) that] by (simp add: translate_def Dl)
  moreover have "km_mem k4 a = km_mem k a" if "page_base a \<in> kused k" for a
    using that f4 f2 f1 b(3) D(4,6) by (metis UnI1 insertI2)
  moreover have "paging_new_4gb k flags = Some (c, k4)"
    using D(1,2) l c(1,2) by (simp add: paging_new_4gb_def k4_def)
  moreover have "kroom k4 + 1026 = kroom k" using b(6) c(8) D(8) by (simp add: k4_def)
  moreover have "kinv k4" using c(5) by (simp add: k4_def)
  moreover have "kused k4 = kused k \<union> set (c # D # ts)" using c(6) b(3) D(6) by (auto simp: k4_def)
  moreover have "kpages k4 = kpages k \<union> set (c # D # ts)" using c(7) b(4) D(7) by (auto simp: k4_def)
  moreover have "kused k \<inter> set (c # D # ts) = {}" using c(4) b(3,5) D(4,6) by auto
  ultimately show ?thesis
    by (intro exI [of _ c] exI [of _ k4] exI [of _ ts]) (simp only: Dl, simp)
qed

section \<open>Releasing an address space\<close>

lemma paging_free_tables_eq:
  assumes "kinv k" and "pd_ok (km_mem k) (load32 (km_mem k) chunk) ts" and "length ts = i + n"
    and "set (drop i ts) \<subseteq> kpages k"
  shows "paging_free_tables k chunk n i = kh.free_all k (drop i ts)"
  using assms
proof (induction n arbitrary: k i)
  case (Suc n)
  let ?D = "load32 (km_mem k) chunk"
  have i: "i < length ts" using Suc.prems(3) by simp
  have d: "drop i ts = ts ! i # drop (Suc i) ts" by (rule Cons_nth_drop_Suc [OF i, symmetric])
  then have "ts ! i \<in> kpages k" using Suc.prems(4) by simp
  from kh.free_page [OF Suc.prems(1) this] obtain k1 where k1: "kfree k (ts ! i) = Some k1" "kinv k1"
    "kpages k1 = kpages k - {ts ! i}" "km_mem k1 = km_mem k" by blast
  have "load32 (km_mem k) (slot ?D i) AND 0xfffff000 = ts ! i" by (rule pd_ok_table(3) [OF Suc.prems(2) i])
  moreover have "distinct (drop i ts)" using Suc.prems(2) by (simp add: pd_ok_def)
  then have "set (drop (Suc i) ts) \<subseteq> kpages k1" using k1(3) Suc.prems(4) unfolding d by auto
  ultimately show ?case using Suc.IH [of k1 "Suc i"] k1 Suc.prems unfolding d by simp
qed simp

lemma paging_free_4gb_effect:
  assumes "kinv k" and "space (km_mem k) chunk ts" and "set (chunk # load32 (km_mem k) chunk # ts) \<subseteq> kpages k"
  shows "\<exists>k'. paging_free_4gb k chunk = Some k' \<and> kinv k' \<and>
     kused k' = kused k - set (chunk # load32 (km_mem k) chunk # ts) \<and>
     kpages k' = kpages k - set (chunk # load32 (km_mem k) chunk # ts) \<and>
     kroom k' = kroom k + 1026 \<and> km_mem k' = km_mem k"
proof -
  let ?D = "load32 (km_mem k) chunk"
  have pd: "pd_ok (km_mem k) ?D ts" "length ts = 1024" "chunk \<notin> set (?D # ts)"
    using assms(2) by (simp_all add: space_def)
  have dist: "distinct (ts @ [?D, chunk])" using pd by (auto simp: pd_ok_def)
  have "paging_free_4gb k chunk = kh.free_all k (ts @ [?D, chunk])"
  proof -
    have app: "kh.free_all k (xs @ ys) = Option.bind (kh.free_all k xs) (\<lambda>k. kh.free_all k ys)" for k xs ys
      by (induction xs arbitrary: k) (simp_all add: Option.bind_assoc)
    from kh.free_all_pages [of k ts] obtain k1 where k1: "kh.free_all k ts = Some k1" "km_mem k1 = km_mem k"
      using assms dist by auto
    have "paging_free_tables k chunk 1024 0 = kh.free_all k ts"
      using paging_free_tables_eq [OF assms(1) pd(1), of 0 1024] pd(2) assms(3) by simp
    then show ?thesis unfolding app using k1 by (simp add: paging_free_4gb_def)
  qed
  moreover have "set (ts @ [?D, chunk]) \<subseteq> kpages k" using assms(3) by auto
  from kh.free_all_pages [OF assms(1) dist this] obtain k' where "kh.free_all k (ts @ [?D, chunk]) = Some k'"
    "kinv k'" "kused k' = kused k - set (ts @ [?D, chunk])" "kpages k' = kpages k - set (ts @ [?D, chunk])"
    "kroom k' = kroom k + length (ts @ [?D, chunk])" "km_mem k' = km_mem k" by blast
  ultimately show ?thesis using pd(2) by auto
qed

section \<open>Properties\<close>

text \<open>C7: \<open>paging_new_4gb\<close> succeeds whenever 1026 blocks of the kernel heap are free. It takes exactly 1026
  blocks that nobody owned (the chunk, the directory, 1024 tables), changes no byte of any block
  in use, and the address space it returns maps every page to itself with the given flags.\<close>
theorem paging_new_4gb_identity:
  assumes "kinv k" and "1026 \<le> kroom k"
  shows "\<exists>chunk k' ts. paging_new_4gb k flags = Some (chunk, k') \<and> kinv k' \<and> space (km_mem k') chunk ts \<and>
     (\<forall>v. paging_is_aligned v \<longrightarrow> paging_get (km_mem k') (load32 (km_mem k') chunk) v = v OR ucast flags) \<and>
     kused k' = kused k \<union> set (chunk # load32 (km_mem k') chunk # ts) \<and>
     kused k \<inter> set (chunk # load32 (km_mem k') chunk # ts) = {} \<and> kroom k' + 1026 = kroom k \<and>
     (\<forall>a. page_base a \<in> kused k \<longrightarrow> km_mem k' a = km_mem k a)"
  using paging_new_4gb_space [OF assms, of flags] unfolding translate_def by blast

definition demo_kmem :: kmem where
  "demo_kmem = \<lparr>km_heap = demo_heap (replicate 1100 0), km_mem = (\<lambda>_. 0)\<rparr>"

lemma demo_kmem_ready: "kinv demo_kmem" "kroom demo_kmem = 1100"
proof -
  have "heap_inv (demo_heap (replicate 1100 0))" by (rule demo_heap_inv) simp_all
  then show "kinv demo_kmem" by (simp add: kinv_def demo_kmem_def demo_heap_def page_base_def)
  show "kroom demo_kmem = 1100" by (simp add: kroom_def demo_kmem_def)
qed

theorem paging_new_4gb_identity_witness:
  "\<exists>chunk k' ts. paging_new_4gb demo_kmem 7 = Some (chunk, k') \<and> kinv k' \<and> space (km_mem k') chunk ts \<and>
     paging_get (km_mem k') (load32 (km_mem k') chunk) 0x400000 = 0x400007 \<and> kroom k' + 1026 = kroom demo_kmem"
proof -
  have "1026 \<le> kroom demo_kmem" by (simp add: demo_kmem_ready)
  from paging_new_4gb_identity [OF demo_kmem_ready(1) this, of 7] obtain chunk k' ts where
    "paging_new_4gb demo_kmem 7 = Some (chunk, k')" "kinv k'" "space (km_mem k') chunk ts"
    "kroom k' + 1026 = kroom demo_kmem" and id: "\<And>v. paging_is_aligned v \<Longrightarrow>
      paging_get (km_mem k') (load32 (km_mem k') chunk) v = v OR ucast (7 :: u8)" by blast
  moreover have "paging_is_aligned 0x400000" by (simp add: paging_is_aligned_def paging_consts)
  from id [OF this] have "paging_get (km_mem k') (load32 (km_mem k') chunk) 0x400000 = 0x400007" by simp
  ultimately show ?thesis by blast
qed

text \<open>C9: an address space can be released completely: \<open>paging_free_4gb\<close> after \<open>paging_new_4gb\<close> returns
  normally, and the heap owns exactly the blocks it owned before, with as many free ones.\<close>
theorem paging_new_free_roundtrip:
  assumes "kinv k" and "1026 \<le> kroom k" and "paging_new_4gb k flags = Some (chunk, k')"
  shows "\<exists>k''. paging_free_4gb k' chunk = Some k'' \<and> kinv k'' \<and> kused k'' = kused k \<and> kroom k'' = kroom k"
proof -
  from paging_new_4gb_space [OF assms(1,2), of flags] assms(3) obtain ts where
    s: "kinv k'" "space (km_mem k') chunk ts" "kused k' = kused k \<union> set (chunk # load32 (km_mem k') chunk # ts)"
      "set (chunk # load32 (km_mem k') chunk # ts) \<subseteq> kpages k'"
      "kused k \<inter> set (chunk # load32 (km_mem k') chunk # ts) = {}" "kroom k' + 1026 = kroom k"
    by auto
  from paging_free_4gb_effect [OF s(1,2,4)] s(3,5,6) show ?thesis by (auto simp del: set_simps) 
qed

theorem paging_new_free_roundtrip_witness:
  "\<exists>chunk k' k''. paging_new_4gb demo_kmem 7 = Some (chunk, k') \<and> paging_free_4gb k' chunk = Some k'' \<and>
     kinv k'' \<and> kused k'' = kused demo_kmem \<and> kroom k'' = kroom demo_kmem"
proof -
  have r: "1026 \<le> kroom demo_kmem" by (simp add: demo_kmem_ready)
  obtain chunk k' where "paging_new_4gb demo_kmem 7 = Some (chunk, k')"
    using paging_new_4gb_space [OF demo_kmem_ready(1) r] by blast
  with paging_new_free_roundtrip [OF demo_kmem_ready(1) r this] show ?thesis by blast
qed

lemma unat_aligned_diff:
  assumes "paging_is_aligned p" and "paging_is_aligned q" and "p \<le> q"
  shows "unat ((q - p) div 4096) * 4096 = unat (q - p)" "unat ((q - p) div 4096) \<le> 1048576"
proof -
  have "unat (q - p) mod 4096 = 0"
    using assms(1,2) by (simp add: aligned_dvd [symmetric] page_aligned_iff [symmetric] aligned_page_base [symmetric])
      (simp add: aligned_dvd)
  then show "unat ((q - p) div 4096) * 4096 = unat (q - p)" by (simp add: unat_div mod_0_imp_dvd)
  show "unat ((q - p) div 4096) \<le> 1048576" using unat_u32_lt [of "q - p"] by (simp add: unat_div)
qed

lemma paging_map_to_effect:
  assumes "space m chunk ts" and "paging_is_aligned virt" and "paging_is_aligned phys"
    and "paging_is_aligned phys_end" and "phys \<le> phys_end"
    and "paging_map_to m chunk virt phys phys_end flags = (res, m')"
  shows "res = 0 \<and> space m' chunk ts \<and> (\<forall>a. page_base a \<notin> set ts \<longrightarrow> m' a = m a) \<and>
    (\<forall>u. paging_is_aligned u \<longrightarrow> translate m' chunk u =
       (if unat (u - virt) < unat (phys_end - phys) then (phys + (u - virt)) OR flags else translate m chunk u))"
proof -
  let ?n = "unat ((phys_end - phys) div 4096)"
  have "\<not> phys_end < phys" using assms(5) by simp
  then have "paging_map_range_loop m chunk virt phys flags ?n 0 = (res, m')"
    using assms(2-4,6) by (simp add: paging_map_to_def paging_map_range_def paging_is_aligned_def paging_consts Let_def)
  from paging_map_range_loop_effect [OF assms(1-3) _ _ this] unat_aligned_diff [OF assms(3-5)]
  show ?thesis by simp
qed

text \<open>C8: \<open>paging_map_to\<close> maps a physical range. With page-aligned arguments and
  \<open>phys \<le> phys_end\<close> it returns 0 and keeps the address space well formed; the pages of the range that
  starts at \<open>virt\<close> now translate to the corresponding pages at \<open>phys\<close> with the given flags, every
  other page translates as before, and no byte outside the page tables changes.\<close>
theorem paging_map_to_maps:
  assumes "space m chunk ts" and "paging_is_aligned virt" and "paging_is_aligned phys"
    and "paging_is_aligned phys_end" and "phys \<le> phys_end"
    and "paging_map_to m chunk virt phys phys_end flags = (res, m')"
  shows "res = 0 \<and> space m' chunk ts \<and> (\<forall>a. page_base a \<notin> set ts \<longrightarrow> m' a = m a) \<and>
    (\<forall>u. paging_is_aligned u \<longrightarrow> translate m' chunk u =
       (if unat (u - virt) < unat (phys_end - phys) then (phys + (u - virt)) OR flags else translate m chunk u))"
  using paging_map_to_effect [OF assms] .

theorem paging_map_to_maps_witness:
  "\<exists>m chunk ts m'. space m chunk ts \<and> paging_map_to m chunk 0x400000 0x2000 0x5000 7 = (0, m') \<and>
     translate m' chunk 0x402000 = 0x4007 \<and> translate m' chunk 0x403000 = 0x403003"
proof -
  have "1026 \<le> kroom demo_kmem" by (simp add: demo_kmem_ready)
  from paging_new_4gb_space [OF demo_kmem_ready(1) this, of 3] obtain m chunk ts where
    s: "space m chunk ts" and id: "\<And>v. paging_is_aligned v \<Longrightarrow> translate m chunk v = v OR ucast (3 :: u8)" by blast
  obtain res m' where r: "paging_map_to m chunk 0x400000 0x2000 0x5000 7 = (res, m')" by fastforce
  have al: "paging_is_aligned 0x400000" "paging_is_aligned 0x2000" "paging_is_aligned 0x5000"
    "paging_is_aligned 0x402000" "paging_is_aligned 0x403000"
    by (simp_all add: paging_is_aligned_def paging_consts)
  from paging_map_to_maps [OF s al(1-3) _ r] al(4,5) id have
    "res = 0" "translate m' chunk 0x402000 = 0x4007" "translate m' chunk 0x403000 = 0x403003" by simp_all
  with s r show ?thesis by blast
qed

text \<open>address translation sees a mapping. After \<open>paging_map\<close> of a page with flags in the low 12 bits,
  \<open>paging_get_physical_address\<close> takes every address of that page to the same offset of the physical page.\<close>
theorem paging_map_physical:
  assumes "space m chunk ts" and "paging_is_aligned virt" and "paging_is_aligned phys" and "page_base flags = 0"
    and "paging_map m chunk virt phys flags = (res, m')" and "unat d < 4096"
  shows "res = 0 \<and> paging_get_physical_address m' (load32 m' chunk) (virt + d) = phys + d"
proof -
  note e = paging_map_effect [OF assms(1-3,5)]
  have v: "page_base virt = virt" "page_base phys = phys" using assms(2,3) by (simp_all add: aligned_page_base)
  have "unat (page_base (virt + d)) = unat virt"
    using page_base_offset [OF v(1) assms(6)] by simp
  moreover have "paging_align_to_lower_page (virt + d) = page_base (virt + d)"
  proof -
    have "page_base w = w - w mod 4096" for w :: u32
      using minus_mod_eq_mult_div [of w 4096]
      by (simp add: page_base_eq push_bit_eq_mult drop_bit_eq_div mult.commute)
    then show ?thesis by (simp add: paging_align_to_lower_page_def paging_consts)
  qed
  ultimately have l: "paging_align_to_lower_page (virt + d) = virt" by (simp only: word_unat_eq_iff)
  have "page_base (phys OR flags) = phys" by (rule page_base_flags [OF v(2) assms(4)])
  then show ?thesis using e(1) e(3) [OF assms(2)] l
    by (simp add: paging_get_physical_address_def translate_def page_base_def Let_def)
qed

theorem paging_map_physical_witness:
  "\<exists>m chunk ts m'. space m chunk ts \<and> paging_map m chunk 0x400000 0x9000 7 = (0, m') \<and>
     paging_get_physical_address m' (load32 m' chunk) (0x400000 + 0x123) = 0x9000 + 0x123"
proof -
  have "1026 \<le> kroom demo_kmem" by (simp add: demo_kmem_ready)
  from paging_new_4gb_space [OF demo_kmem_ready(1) this, of 3] obtain m chunk ts where
    s: "space m chunk ts" by blast
  obtain res m' where r: "paging_map m chunk 0x400000 0x9000 7 = (res, m')" by fastforce
  have al: "paging_is_aligned 0x400000" "paging_is_aligned 0x9000" by (simp_all add: paging_is_aligned_def paging_consts)
  from paging_map_physical [OF s al _ r, of "0x123"] s r show ?thesis by (auto simp: page_base_def)
qed

end
