(* ===== verification/Keyboard.thy ===== *)
theory Keyboard
  imports Prelude
begin

text \<open>
  The keyboard layer, \<^verbatim>\<open>src/src/keyboard/keyboard.c\<close>: the list of drivers and the per-process ring
  buffer of \<^verbatim>\<open>struct keyboard_buffer\<close> (\<^verbatim>\<open>src/src/task/process.h\<close>). \<open>head\<close> and \<open>tail\<close> are never reduced; the
  index is their remainder by the buffer size, an unsigned remainder because of \<open>sizeof\<close>. A zero
  byte marks an empty cell. The locale \<open>bounded_fifo\<close> is the contract a reader of the buffer relies on.
\<close>

section \<open>State and operations\<close>

definition SERPAEOS_KEYBOARD_BUFFER_SIZE :: nat where "SERPAEOS_KEYBOARD_BUFFER_SIZE = 1024"

record keyboard_buffer =
  kb_buffer :: "u8 list"
  kb_tail :: u32
  kb_head :: u32

datatype keyboard = Keyboard (kd_init: "(unit \<Rightarrow> int) option") (kd_name: "u8 list")

definition keyboard_insert :: "keyboard list \<Rightarrow> keyboard \<Rightarrow> int \<times> keyboard list" where
  \<comment> \<open>the linked list from \<open>keyboard_list_head\<close> to \<open>keyboard_list_last\<close> is a list\<close>
  "keyboard_insert keyboards kbd =
     (case kd_init kbd of
        None \<Rightarrow> (- EINVARG, keyboards)
      | Some init \<Rightarrow> (init (), keyboards @ [kbd]))"

definition keyboard_get_tail_index :: "keyboard_buffer \<Rightarrow> nat" where
  "keyboard_get_tail_index kb = unat (kb_tail kb) mod SERPAEOS_KEYBOARD_BUFFER_SIZE"

definition keyboard_backspace :: "keyboard_buffer \<Rightarrow> keyboard_buffer option" where
  "keyboard_backspace kb = do {
     let kb = kb\<lparr>kb_tail := kb_tail kb - 1\<rparr>;
     buf \<leftarrow> wr (kb_buffer kb) (keyboard_get_tail_index kb) 0;
     Some (kb\<lparr>kb_buffer := buf\<rparr>)
   }"

definition keyboard_push :: "keyboard_buffer \<Rightarrow> u8 \<Rightarrow> keyboard_buffer option" where
  \<comment> \<open>on the buffer of the current process; without one the call does nothing\<close>
  "keyboard_push kb c =
     (if c = 0 then Some kb
      else do {
        buf \<leftarrow> wr (kb_buffer kb) (keyboard_get_tail_index kb) c;
        Some (kb\<lparr>kb_buffer := buf, kb_tail := kb_tail kb + 1\<rparr>)
      })"

definition keyboard_pop :: "keyboard_buffer \<Rightarrow> (u8 \<times> keyboard_buffer) option" where
  "keyboard_pop kb = do {
     let real_index = unat (kb_head kb) mod SERPAEOS_KEYBOARD_BUFFER_SIZE;
     c \<leftarrow> rd (kb_buffer kb) real_index;
     if c = 0 then Some (0, kb)
     else do {
       buf \<leftarrow> wr (kb_buffer kb) real_index 0;
       Some (c, kb\<lparr>kb_buffer := buf, kb_head := kb_head kb + 1\<rparr>)
     }
   }"

section \<open>The contract: a bounded queue\<close>

locale bounded_fifo =
  fixes rep :: "'s \<Rightarrow> 'c list \<Rightarrow> bool"
    and cap :: nat
    and ok :: "'c \<Rightarrow> bool"
    and none :: 'c
    and push :: "'s \<Rightarrow> 'c \<Rightarrow> 's option"
    and pop :: "'s \<Rightarrow> ('c \<times> 's) option"
  assumes push_rep: "rep s q \<Longrightarrow> ok c \<Longrightarrow> length q < cap \<Longrightarrow> \<exists>s'. push s c = Some s' \<and> rep s' (q @ [c])"
    and pop_rep: "rep s (c # q) \<Longrightarrow> \<exists>s'. pop s = Some (c, s') \<and> rep s' q"
    and pop_empty: "rep s [] \<Longrightarrow> pop s = Some (none, s)"
begin

fun push_all :: "'s \<Rightarrow> 'c list \<Rightarrow> 's option" where
  "push_all s [] = Some s"
| "push_all s (c # cs) = do { s \<leftarrow> push s c; push_all s cs }"

fun pop_n :: "'s \<Rightarrow> nat \<Rightarrow> ('c list \<times> 's) option" where
  "pop_n s 0 = Some ([], s)"
| "pop_n s (Suc n) = do { (c, s) \<leftarrow> pop s; (cs, s) \<leftarrow> pop_n s n; Some (c # cs, s) }"

lemma push_all_rep:
  assumes "rep s q" and "\<forall>c \<in> set cs. ok c" and "length q + length cs \<le> cap"
  shows "\<exists>s'. push_all s cs = Some s' \<and> rep s' (q @ cs)"
  using assms
proof (induction cs arbitrary: s q)
  case (Cons c cs)
  then obtain s1 where "push s c = Some s1" "rep s1 (q @ [c])" using push_rep [of s q c] by auto
  with Cons.IH [of s1 "q @ [c]"] Cons.prems show ?case by simp
qed simp

lemma pop_n_rep:
  assumes "rep s (cs @ q)"
  shows "\<exists>s'. pop_n s (length cs) = Some (cs, s') \<and> rep s' q"
  using assms
proof (induction cs arbitrary: s)
  case (Cons c cs)
  then obtain s1 where "pop s = Some (c, s1)" "rep s1 (cs @ q)" using pop_rep [of s c "cs @ q"] by auto
  with Cons.IH [of s1] show ?case by auto
qed simp

lemma push_pop_order:
  assumes "rep s q" and "\<forall>c \<in> set cs. ok c" and "length q + length cs \<le> cap"
  shows "\<exists>s' s''. push_all s cs = Some s' \<and> pop_n s' (length q + length cs) = Some (q @ cs, s'') \<and>
                  rep s'' [] \<and> pop s'' = Some (none, s'')"
  using push_all_rep [OF assms] pop_n_rep [of _ "q @ cs" "[]"] pop_empty by fastforce

end

section \<open>The ring buffer is a bounded queue\<close>

definition cell_index :: "u32 \<Rightarrow> nat \<Rightarrow> nat" where
  "cell_index h i = (unat h + i) mod 1024"

definition kb_rep :: "keyboard_buffer \<Rightarrow> u8 list \<Rightarrow> bool" where
  "kb_rep kb q \<longleftrightarrow> length (kb_buffer kb) = 1024 \<and> length q \<le> 1024 \<and> 0 \<notin> set q \<and>
     kb_tail kb = kb_head kb + of_nat (length q) \<and>
     (\<forall>i < 1024. kb_buffer kb ! cell_index (kb_head kb) i = (if i < length q then q ! i else 0))"

lemma cell_index_less [simp]: "cell_index h i < 1024"
  by (simp add: cell_index_def)

lemma cell_index_inj_le:
  assumes "cell_index h i = cell_index h j" and "i \<le> j" and "j < 1024"
  shows "i = j"
proof -
  have "(unat h + j) mod 1024 = (unat h + i) mod 1024" using assms(1) by (simp only: cell_index_def)
  then have "1024 dvd (unat h + j) - (unat h + i)" using mod_eq_dvd_iff_nat assms(2) by (meson add_left_mono)
  then have "1024 dvd j - i" by simp
  moreover have "j - i < 1024" using assms(3) by simp
  ultimately have "j - i = 0" using dvd_imp_le [of 1024 "j - i"] by linarith
  with assms(2) show ?thesis by simp
qed

lemma cell_index_inj:
  assumes "i < 1024" and "j < 1024"
  shows "cell_index h i = cell_index h j \<longleftrightarrow> i = j"
  using cell_index_inj_le assms by (metis nat_le_linear)

lemma index_wraps: "unat (h + of_nat n :: u32) mod 1024 = (unat h + n) mod 1024"
proof -
  have "unat (h + of_nat n) = (unat h + n) mod 2 ^ 32"
    by (simp add: unat_word_ariths unat_of_nat take_bit_eq_mod mod_simps)
  moreover have "(m :: nat) mod 2 ^ 32 mod 1024 = m mod 1024" for m
    by (rule mod_mod_cancel) simp
  ultimately show ?thesis by (simp only:)
qed

lemma cell_index_Suc: "cell_index (h + 1) i = cell_index h (Suc i)"
proof -
  have "cell_index (h + 1) i = (unat (h + of_nat 1) mod 1024 + i) mod 1024"
    by (simp add: cell_index_def mod_simps)
  also have "\<dots> = (unat h + 1 + i) mod 1024" unfolding index_wraps by (simp only: mod_add_left_eq)
  finally show ?thesis by (simp add: cell_index_def)
qed

lemma kb_rep_tail:
  assumes "kb_rep kb q"
  shows "keyboard_get_tail_index kb = cell_index (kb_head kb) (length q)"
  using assms index_wraps by (simp add: kb_rep_def keyboard_get_tail_index_def cell_index_def SERPAEOS_KEYBOARD_BUFFER_SIZE_def)

lemma kb_rep_push:
  assumes rep: "kb_rep kb q" and "c \<noteq> 0" and len: "length q < 1024"
  shows "\<exists>kb'. keyboard_push kb c = Some kb' \<and> kb_rep kb' (q @ [c])"
proof -
  let ?t = "cell_index (kb_head kb) (length q)"
  have buf: "length (kb_buffer kb) = 1024" using rep by (simp add: kb_rep_def)
  have "keyboard_push kb c = Some (kb\<lparr>kb_buffer := (kb_buffer kb)[?t := c], kb_tail := kb_tail kb + 1\<rparr>)"
    using assms buf by (simp add: keyboard_push_def kb_rep_tail [OF rep])
  moreover have "(kb_buffer kb)[?t := c] ! cell_index (kb_head kb) i = (if i < length (q @ [c]) then (q @ [c]) ! i else 0)"
    if "i < 1024" for i
    using that rep len buf cell_index_inj [OF that len, of "kb_head kb"]
    by (auto simp: kb_rep_def nth_list_update nth_append less_Suc_eq)
  ultimately show ?thesis using assms by (auto simp: kb_rep_def)
qed

lemma kb_rep_pop:
  assumes rep: "kb_rep kb (c # q)"
  shows "\<exists>kb'. keyboard_pop kb = Some (c, kb') \<and> kb_rep kb' q"
proof -
  let ?h = "cell_index (kb_head kb) 0"
  have buf: "length (kb_buffer kb) = 1024" and c: "c \<noteq> 0" and cells:
    "\<And>i. i < 1024 \<Longrightarrow> kb_buffer kb ! cell_index (kb_head kb) i = (if i < Suc (length q) then (c # q) ! i else 0)"
    using rep by (auto simp: kb_rep_def)
  have "kb_buffer kb ! ?h = c" using cells [of 0] by simp
  then have "keyboard_pop kb = Some (c, kb\<lparr>kb_buffer := (kb_buffer kb)[?h := 0], kb_head := kb_head kb + 1\<rparr>)"
    using buf c by (simp add: keyboard_pop_def cell_index_def SERPAEOS_KEYBOARD_BUFFER_SIZE_def)
  moreover have "(kb_buffer kb)[?h := 0] ! cell_index (kb_head kb + 1) i = (if i < length q then q ! i else 0)"
    if i: "i < 1024" for i
  proof (cases "i = 1023")
    case True
    have "cell_index (kb_head kb) (Suc i) = ?h" unfolding True by (simp add: cell_index_def)
    then show ?thesis using rep buf True by (simp add: cell_index_Suc kb_rep_def)
  next
    case False
    then have "Suc i < 1024" using i by simp
    then show ?thesis using cell_index_inj [of "Suc i" 0 "kb_head kb"] cells [of "Suc i"] buf
      by (simp add: cell_index_Suc)
  qed
  ultimately show ?thesis using rep by (auto simp: kb_rep_def)
qed

lemma kb_rep_pop_empty:
  assumes "kb_rep kb []"
  shows "keyboard_pop kb = Some (0, kb)"
proof -
  have "kb_buffer kb ! cell_index (kb_head kb) 0 = 0" using assms by (simp add: kb_rep_def)
  then show ?thesis using assms
    by (simp add: kb_rep_def keyboard_pop_def cell_index_def SERPAEOS_KEYBOARD_BUFFER_SIZE_def)
qed

interpretation kb: bounded_fifo kb_rep 1024 "\<lambda>c. c \<noteq> 0" 0 keyboard_push keyboard_pop
  by unfold_locales (use kb_rep_push kb_rep_pop kb_rep_pop_empty in blast)+

section \<open>Properties\<close>

text \<open>C29: the keyboard buffer keeps the order of the keys. From a buffer that holds the characters \<open>q\<close>, pushing
  further characters \<open>cs\<close> and then popping them all returns \<open>q\<close> followed by \<open>cs\<close>, after which the
  buffer is empty and a pop returns 0, as long as at most 1024 characters are waiting, whatever the positions
  of \<open>head\<close> and \<open>tail\<close> and their wrap-around.\<close>
theorem keyboard_keeps_order:
  assumes "kb_rep kb q" and "0 \<notin> set cs" and "length q + length cs \<le> 1024"
  shows "\<exists>kb' kb''. kb.push_all kb cs = Some kb' \<and> kb.pop_n kb' (length q + length cs) = Some (q @ cs, kb'') \<and>
                    kb_rep kb'' [] \<and> keyboard_pop kb'' = Some (0, kb'')"
  by (rule kb.push_pop_order [OF assms(1) _ assms(3)]) (use assms(2) in auto)

definition fresh_buffer :: "u32 \<Rightarrow> keyboard_buffer" where
  "fresh_buffer h = \<lparr>kb_buffer = replicate 1024 0, kb_tail = h, kb_head = h\<rparr>"

lemma fresh_buffer_rep: "kb_rep (fresh_buffer h) []"
  by (simp add: kb_rep_def fresh_buffer_def)

theorem keyboard_keeps_order_witness:
  "\<exists>kb' kb''. kb.push_all (fresh_buffer 0xFFFFFFFF) [104, 105] = Some kb' \<and>
     kb.pop_n kb' (length ([] :: u8 list) + length [104, 105 :: u8]) = Some ([] @ [104, 105], kb'') \<and>
     kb_rep kb'' [] \<and> keyboard_pop kb'' = Some (0, kb'')"
  by (rule keyboard_keeps_order [OF fresh_buffer_rep]) simp_all

text \<open>a full buffer loses keys and order. With 1024 characters waiting, one more push overwrites the
  oldest character, so the next pop returns the newest key first.\<close>
theorem keyboard_full_overwrites:
  assumes "kb_rep kb q" and "length q = 1024" and "c \<noteq> 0"
  shows "\<exists>kb' kb''. keyboard_push kb c = Some kb' \<and> keyboard_pop kb' = Some (c, kb'')"
proof -
  have i: "keyboard_get_tail_index kb = cell_index (kb_head kb) 0"
    using kb_rep_tail [OF assms(1)] assms(2) by (simp add: cell_index_def)
  then show ?thesis using assms(1,3)
    by (simp add: kb_rep_def keyboard_push_def keyboard_pop_def cell_index_def SERPAEOS_KEYBOARD_BUFFER_SIZE_def)
qed

theorem keyboard_full_overwrites_witness:
  "\<exists>kb' kb''. keyboard_push \<lparr>kb_buffer = replicate 1024 97, kb_tail = 1024, kb_head = 0\<rparr> 98 = Some kb' \<and>
              keyboard_pop kb' = Some (98, kb'')"
  by (rule keyboard_full_overwrites [of _ "replicate 1024 97"]) (auto simp: kb_rep_def)

end
