(* ===== verification/Classic.thy ===== *)
theory Classic
  imports Keyboard Kstring
begin

text \<open>
  The PS/2 keyboard driver, \<^verbatim>\<open>src/src/keyboard/classic.c\<close>: the modifier flags, the translation of a scancode
  (one long function, modelled by one definition per group of keys, tried in the order of the C code), and the
  interrupt handler. Calls into other parts of the kernel (acknowledging the interrupt controller, terminating or
  switching the process, the task directory) are recorded as a list of actions in the order they happen.
\<close>

section \<open>State\<close>

record classic_state =
  shift_pressed :: bool
  caps_pressed :: bool
  backspace_pressed :: bool
  alt_pressed :: bool
  ctrl_pressed :: bool
  enter_pressed :: bool
  dir_on :: bool
  superkey_pressed :: bool
  superkey_was_used :: bool
  e0_check :: bool

datatype key_action =
    Outb u16 u8
  | ProcessTerminateCurrent
  | ProcessFlip nat
  | HideDirectory
  | ShowDirectory

type_synonym key_result = "u8 \<times> classic_state \<times> key_action list"

definition ret :: "char \<Rightarrow> classic_state \<Rightarrow> key_result" where
  "ret c s = (of_char c, s, [])"

section \<open>Translation of scancodes\<close>

text \<open>Each group returns \<open>None\<close> when none of its tests applies and the C code goes on to the next one.\<close>

definition classic_number_row :: "u8 \<Rightarrow> classic_state \<Rightarrow> key_result option" where
  "classic_number_row sc s =
    (if sc = 0xE0 then Some (0, s\<lparr>e0_check := True\<rparr>, [])
     else if sc = 0x01 then Some (0x1B, s, [])
     else if sc = 0x02 then Some (ret (if shift_pressed s then CHR ''!'' else CHR ''1'') s)
     else if sc = 0x03 then Some (ret (if shift_pressed s then CHR ''@'' else CHR ''2'') s)
     else if sc = 0x04 then Some (ret (if shift_pressed s then CHR ''#'' else CHR ''3'') s)
     else if sc = 0x05 then Some (ret (if shift_pressed s then CHR ''$'' else CHR ''4'') s)
     else if sc = 0x06 then Some (ret (if shift_pressed s then CHR ''%'' else CHR ''5'') s)
     else if sc = 0x07 then Some (ret (if shift_pressed s then CHR ''^'' else CHR ''6'') s)
     else if sc = 0x08 then Some (ret (if shift_pressed s then CHR ''&'' else CHR ''7'') s)
     else if sc = 0x09 then Some (ret (if shift_pressed s then CHR ''*'' else CHR ''8'') s)
     else if sc = 0x0A then Some (ret (if shift_pressed s then CHR ''('' else CHR ''9'') s)
     else if sc = 0x0B then Some (ret (if shift_pressed s then CHR '')'' else CHR ''0'') s)
     else if sc = 0x0C then Some (ret (if shift_pressed s then CHR ''_'' else CHR ''-'') s)
     else if sc = 0x0D then Some (ret (if shift_pressed s then CHR ''+'' else CHR ''='') s)
     else if sc = 0x0E then Some (8, s\<lparr>backspace_pressed := True\<rparr>, [])
     else if sc = 0x0F then Some (9, s, [])
     else None)"

definition classic_upper_row :: "u8 \<Rightarrow> classic_state \<Rightarrow> key_result option" where
  "classic_upper_row sc s =
    (if sc = 0x10 then
       (if ctrl_pressed s \<and> \<not> shift_pressed s
        then Some (0, s, [Outb 0x20 0x20, ProcessTerminateCurrent])
        else Some (ret (if shift_pressed s \<or> caps_pressed s then CHR ''Q'' else CHR ''q'') s))
     else if sc = 0x11 then Some (ret (if shift_pressed s \<or> caps_pressed s then CHR ''W'' else CHR ''w'') s)
     else if sc = 0x12 then Some (ret (if shift_pressed s \<or> caps_pressed s then CHR ''E'' else CHR ''e'') s)
     else if sc = 0x13 then Some (ret (if shift_pressed s \<or> caps_pressed s then CHR ''R'' else CHR ''r'') s)
     else if sc = 0x14 then Some (ret (if shift_pressed s \<or> caps_pressed s then CHR ''T'' else CHR ''t'') s)
     else if sc = 0x15 then Some (ret (if shift_pressed s \<or> caps_pressed s then CHR ''Y'' else CHR ''y'') s)
     else if sc = 0x16 then Some (ret (if shift_pressed s \<or> caps_pressed s then CHR ''U'' else CHR ''u'') s)
     else if sc = 0x17 then Some (ret (if shift_pressed s \<or> caps_pressed s then CHR ''I'' else CHR ''i'') s)
     else if sc = 0x18 then Some (ret (if shift_pressed s \<or> caps_pressed s then CHR ''O'' else CHR ''o'') s)
     else if sc = 0x19 then Some (ret (if shift_pressed s \<or> caps_pressed s then CHR ''P'' else CHR ''p'') s)
     else if sc = 0x1A then Some (ret (if shift_pressed s then CHR ''{'' else CHR ''['') s)
     else if sc = 0x1B then Some (ret (if shift_pressed s then CHR ''}'' else CHR '']'') s)
     else if sc = 0x1C then Some (13, s\<lparr>enter_pressed := True\<rparr>, [])
     else if sc = 0x1D then Some (0, s\<lparr>ctrl_pressed := True\<rparr>, [])
     else if sc = 0x9D then Some (0, s\<lparr>ctrl_pressed := False\<rparr>, [])
     else None)"

definition classic_home_row :: "u8 \<Rightarrow> classic_state \<Rightarrow> key_result option" where
  \<comment> \<open>\<open>EOF\<close> is -1, which is 0xFF as an \<open>unsigned char\<close>\<close>
  "classic_home_row sc s =
    (if sc = 0x1E then Some (ret (if shift_pressed s \<or> caps_pressed s then CHR ''A'' else CHR ''a'') s)
     else if sc = 0x1F then Some (ret (if shift_pressed s \<or> caps_pressed s then CHR ''S'' else CHR ''s'') s)
     else if sc = 0x20 then
       (if ctrl_pressed s \<and> \<not> shift_pressed s then Some (0xFF, s, [])
        else Some (ret (if shift_pressed s \<or> caps_pressed s then CHR ''D'' else CHR ''d'') s))
     else if sc = 0x21 then Some (ret (if shift_pressed s \<or> caps_pressed s then CHR ''F'' else CHR ''f'') s)
     else if sc = 0x22 then Some (ret (if shift_pressed s \<or> caps_pressed s then CHR ''G'' else CHR ''g'') s)
     else if sc = 0x23 then Some (ret (if shift_pressed s \<or> caps_pressed s then CHR ''H'' else CHR ''h'') s)
     else if sc = 0x24 then Some (ret (if shift_pressed s \<or> caps_pressed s then CHR ''J'' else CHR ''j'') s)
     else if sc = 0x25 then Some (ret (if shift_pressed s \<or> caps_pressed s then CHR ''K'' else CHR ''k'') s)
     else if sc = 0x26 then Some (ret (if shift_pressed s \<or> caps_pressed s then CHR ''L'' else CHR ''l'') s)
     else if sc = 0x27 then Some (ret (if shift_pressed s then CHR '':'' else CHR '';'') s)
     else if sc = 0x28 then Some (ret (if shift_pressed s then CHR ''|'' else CHR 0x27) s)
     else if sc = 0x29 then Some (ret (if shift_pressed s then CHR ''~'' else CHR 0x60) s)
     else if sc = 0x2A \<or> sc = 0x36 then Some (0, s\<lparr>shift_pressed := True\<rparr>, [])
     else None)"

definition classic_lower_row :: "u8 \<Rightarrow> classic_state \<Rightarrow> key_result option" where
  \<comment> \<open>the second test for the shift scancodes is unreachable; the alt key is \<open>classic_alt\<close>, as it does not return\<close>
  "classic_lower_row sc s =
    (if sc = 0x2B then Some (ret (if shift_pressed s then CHR ''|'' else CHR 0x5C) s)
     else if sc = 0x2C then Some (ret (if shift_pressed s \<or> caps_pressed s then CHR ''Z'' else CHR ''z'') s)
     else if sc = 0x2D then Some (ret (if shift_pressed s \<or> caps_pressed s then CHR ''X'' else CHR ''x'') s)
     else if sc = 0x2E then Some (ret (if shift_pressed s \<or> caps_pressed s then CHR ''C'' else CHR ''c'') s)
     else if sc = 0x2F then Some (ret (if shift_pressed s \<or> caps_pressed s then CHR ''V'' else CHR ''v'') s)
     else if sc = 0x30 then Some (ret (if shift_pressed s \<or> caps_pressed s then CHR ''B'' else CHR ''b'') s)
     else if sc = 0x31 then Some (ret (if shift_pressed s \<or> caps_pressed s then CHR ''N'' else CHR ''n'') s)
     else if sc = 0x32 then Some (ret (if shift_pressed s \<or> caps_pressed s then CHR ''M'' else CHR ''m'') s)
     else if sc = 0x33 then Some (ret (if shift_pressed s then CHR ''<'' else CHR '','') s)
     else if sc = 0x34 then Some (ret (if shift_pressed s then CHR ''>'' else CHR ''.'') s)
     else if sc = 0x35 then Some (ret (if shift_pressed s then CHR ''?'' else CHR ''/'') s)
     else if sc = 0x39 then Some (ret CHR '' '' s)
     else if sc = 0x3A then Some (0, s\<lparr>caps_pressed := \<not> caps_pressed s\<rparr>, [])
     else None)"

definition classic_alt :: "u8 \<Rightarrow> classic_state \<Rightarrow> classic_state" where
  "classic_alt sc s = (if sc = 0x38 then s\<lparr>alt_pressed := True\<rparr> else s)"

definition classic_function_keys :: "u8 \<Rightarrow> classic_state \<Rightarrow> key_result option" where
  "classic_function_keys sc s =
    (if sc = 0xAA \<or> sc = 0xB6 then Some (0, s\<lparr>shift_pressed := False\<rparr>, [])
     else if sc = 0x3B then Some (0, s, [Outb 0x20 0x20, ProcessFlip 1])
     else if sc = 0x3C then Some (0, s, [Outb 0x20 0x20, ProcessFlip 2])
     else if sc = 0x3D then Some (0, s, [Outb 0x20 0x20, ProcessFlip 3])
     else if sc = 0x3E then Some (0, s, [Outb 0x20 0x20, ProcessFlip 4])
     else if sc = 0x3F then Some (0, s, [Outb 0x20 0x20, ProcessFlip 5])
     else if sc = 0x40 then Some (0, s, [Outb 0x20 0x20, ProcessFlip 6])
     else if sc = 0x41 then Some (0, s, [Outb 0x20 0x20, ProcessFlip 7])
     else if sc = 0x42 then Some (0, s, [Outb 0x20 0x20, ProcessFlip 8])
     else if sc = 0x43 then Some (0, s, [Outb 0x20 0x20, ProcessFlip 9])
     else if sc = 0x44 then Some (0, s, [Outb 0x20 0x20, ProcessFlip 10])
     else if sc = 0x45 then Some (0, s, [Outb 0x20 0x20, ProcessFlip 11])
     else if sc = 0x46 then Some (0, s, [Outb 0x20 0x20, ProcessFlip 12])
     else if sc = 0x47 \<and> e0_check s then Some (0, s\<lparr>e0_check := False\<rparr>, [Outb 0x20 0x20, ProcessFlip 0])
     else None)"

definition classic_super_key :: "u8 \<Rightarrow> classic_state \<Rightarrow> key_result option" where
  "classic_super_key sc s =
    (if (sc = 0x5B \<or> sc = 0x5C) \<and> e0_check s
     then Some (0, s\<lparr>e0_check := False, superkey_pressed := True\<rparr>, [])
     else if (sc = 0xDB \<or> sc = 0xDC) \<and> e0_check s
     then (let s = s\<lparr>e0_check := False, superkey_pressed := False\<rparr>
           in if \<not> superkey_was_used s
              then (let s = s\<lparr>dir_on := \<not> dir_on s\<rparr>
                    in Some (0, s\<lparr>superkey_was_used := False\<rparr>,
                         [Outb 0x20 0x20, if \<not> dir_on s then HideDirectory else ShowDirectory]))
              else Some (0, s\<lparr>superkey_was_used := False\<rparr>, [Outb 0x20 0x20]))
     else None)"

definition classic_keypad :: "u8 \<Rightarrow> classic_state \<Rightarrow> key_result option" where
  "classic_keypad sc s =
    (if sc = 0x34 then Some (ret CHR ''/'' s)
     else if sc = 0x25 then Some (ret CHR ''*'' s)
     else if sc = 0x4A then Some (ret CHR ''-'' s)
     else if sc = 0x4E then Some (ret CHR ''+'' s)
     else if sc = 0x1C then Some (13, s, [])
     else if sc = 0x53 then Some (ret CHR ''.'' s)
     else if sc = 0x52 then Some (ret CHR ''0'' s)
     else if sc = 0x4F then Some (ret CHR ''1'' s)
     else if sc = 0x50 then Some (if e0_check s then 220 else of_char (CHR ''2''), s\<lparr>e0_check := False\<rparr>, [])
     else if sc = 0x51 then Some (ret CHR ''3'' s)
     else if sc = 0x4B then Some (if e0_check s then 224 else of_char (CHR ''4''), s\<lparr>e0_check := False\<rparr>, [])
     else if sc = 0x4C then Some (ret CHR ''5'' s)
     else if sc = 0x4D then Some (if e0_check s then 223 else of_char (CHR ''6''), s\<lparr>e0_check := False\<rparr>, [])
     else if sc = 0x47 then Some (ret CHR ''7'' s)
     else if sc = 0x48 then Some (if e0_check s then 221 else of_char (CHR ''8''), s\<lparr>e0_check := False\<rparr>, [])
     else if sc = 0x49 then Some (ret CHR ''9'' s)
     else None)"

definition or_else :: "key_result option \<Rightarrow> key_result option \<Rightarrow> key_result option" where
  "or_else a b = (case a of None \<Rightarrow> b | Some r \<Rightarrow> Some r)"

definition classic_keyboard_scancode_to_char :: "u8 \<Rightarrow> classic_state \<Rightarrow> key_result" where
  "classic_keyboard_scancode_to_char sc s =
     (case or_else (classic_number_row sc s) (or_else (classic_upper_row sc s)
             (or_else (classic_home_row sc s) (classic_lower_row sc s))) of
        Some r \<Rightarrow> r
      | None \<Rightarrow>
          (let s = classic_alt sc s
           in case or_else (classic_function_keys sc s) (or_else (classic_super_key sc s) (classic_keypad sc s)) of
                Some r \<Rightarrow> r
              | None \<Rightarrow> (0, s, [])))"

definition classic_keyboard_handle_interrupt ::
  "u8 \<Rightarrow> classic_state \<Rightarrow> keyboard_buffer option \<Rightarrow> (classic_state \<times> keyboard_buffer option \<times> key_action list) option" where
  \<comment> \<open>the first argument is the byte read from the input port, the third the keyboard buffer of the current
      process, if there is one; the page tables of the kernel are loaded on entry, those of the task on exit\<close>
  "classic_keyboard_handle_interrupt sc s kb =
     (case classic_keyboard_scancode_to_char sc s of (c, s, acts) \<Rightarrow>
        if c > 0
        then (case kb of
                None \<Rightarrow> Some (s, None, acts)
              | Some kb \<Rightarrow> do { kb \<leftarrow> keyboard_push kb c; Some (s, Some kb, acts) })
        else Some (s, kb, acts))"

lemmas classic_groups = classic_number_row_def classic_upper_row_def classic_home_row_def
  classic_lower_row_def classic_function_keys_def classic_super_key_def classic_keypad_def classic_alt_def

section \<open>Properties\<close>

definition qwerty :: "(u8 \<times> char) list" where
  \<comment> \<open>reference layout: the scancode of every letter key\<close>
  "qwerty = zip (map of_nat [0x10 ..< 0x1A]) ''qwertyuiop'' @ zip (map of_nat [0x1E ..< 0x27]) ''asdfghjkl''
     @ zip (map of_nat [0x2C ..< 0x33]) ''zxcvbnm''"

lemma qwerty_table: "qwerty = [(0x10, CHR ''q''), (0x11, CHR ''w''), (0x12, CHR ''e''), (0x13, CHR ''r''),
   (0x14, CHR ''t''), (0x15, CHR ''y''), (0x16, CHR ''u''), (0x17, CHR ''i''), (0x18, CHR ''o''), (0x19, CHR ''p''),
   (0x1E, CHR ''a''), (0x1F, CHR ''s''), (0x20, CHR ''d''), (0x21, CHR ''f''), (0x22, CHR ''g''), (0x23, CHR ''h''),
   (0x24, CHR ''j''), (0x25, CHR ''k''), (0x26, CHR ''l''), (0x2C, CHR ''z''), (0x2D, CHR ''x''), (0x2E, CHR ''c''),
   (0x2F, CHR ''v''), (0x30, CHR ''b''), (0x31, CHR ''n''), (0x32, CHR ''m'')]"
  by (simp add: qwerty_def upt_rec)

text \<open>C30: the letter keys follow the QWERTY layout. While ctrl is up, a letter key gives its letter, in upper case
  exactly when shift is down or caps lock is on, and it changes no flag and calls nothing.\<close>
theorem classic_letter_keys:
  assumes "(sc, c) \<in> set qwerty" and "\<not> ctrl_pressed s"
  shows "classic_keyboard_scancode_to_char sc s =
           (if shift_pressed s \<or> caps_pressed s then toupper (of_char c) else of_char c, s, [])"
proof -
  have "\<forall>(sc, c) \<in> set qwerty. classic_keyboard_scancode_to_char sc s =
           (if shift_pressed s \<or> caps_pressed s then toupper (of_char c) else of_char c, s, [])"
    unfolding qwerty_table using assms(2)
    by (simp add: classic_keyboard_scancode_to_char_def classic_groups or_else_def ret_def toupper_def)
  with assms(1) show ?thesis by blast
qed

definition no_keys :: classic_state where
  "no_keys = \<lparr>shift_pressed = False, caps_pressed = False, backspace_pressed = False, alt_pressed = False,
     ctrl_pressed = False, enter_pressed = False, dir_on = False, superkey_pressed = False,
     superkey_was_used = False, e0_check = False\<rparr>"

theorem classic_letter_keys_witness:
  "classic_keyboard_scancode_to_char 0x10 (no_keys\<lparr>caps_pressed := True\<rparr>) = (0x51, no_keys\<lparr>caps_pressed := True\<rparr>, [])"
  using classic_letter_keys [of "0x10" "CHR ''q''" "no_keys\<lparr>caps_pressed := True\<rparr>"]
  by (simp add: qwerty_table toupper_def no_keys_def)

text \<open>releasing a key does nothing by itself. Every scancode with the release bit, except those of ctrl, shift, the
  super key and the E0 prefix, gives no character, changes no flag and calls nothing, although the test for
  the release bit in the interrupt handler is commented out.\<close>
theorem classic_release_ignored:
  assumes "0x80 \<le> sc" and "sc \<notin> {0x9D, 0xAA, 0xB6, 0xDB, 0xDC, 0xE0}"
  shows "classic_keyboard_scancode_to_char sc s = (0, s, []) \<and>
         classic_keyboard_handle_interrupt sc s kb = Some (s, kb, [])"
proof -
  have ne: "sc \<noteq> k" if "k < 0x80" for k using assms(1) that by auto
  have "classic_keyboard_scancode_to_char sc s = (0, s, [])"
    using assms(2) by (simp add: classic_keyboard_scancode_to_char_def classic_groups or_else_def ne)
  then show ?thesis by (simp add: classic_keyboard_handle_interrupt_def)
qed

theorem classic_release_ignored_witness:
  "classic_keyboard_scancode_to_char 0x90 no_keys = (0, no_keys, []) \<and>
   classic_keyboard_handle_interrupt 0x90 no_keys None = Some (no_keys, None, [])"
  by (rule classic_release_ignored) simp_all

definition classic_feed :: "u8 list \<Rightarrow> classic_state \<Rightarrow> classic_state" where
  "classic_feed scs s = fold (\<lambda>sc s. fst (snd (classic_keyboard_scancode_to_char sc s))) scs s"

text \<open>the E0 prefix leaks into later keys. The right ctrl key sends E0 1D and E0 9D; neither branch clears
  \<open>e0_check\<close>, so the next plain keypad 2 (scancode 50) is reported as the arrow key \<open>KEY_DOWN\<close>.\<close>
theorem classic_stale_e0:
  "classic_keyboard_scancode_to_char 0x50 (classic_feed [0xE0, 0x1D, 0xE0, 0x9D] s) =
     (220, s\<lparr>ctrl_pressed := False, e0_check := False\<rparr>, [])"
  by (simp add: classic_feed_def classic_keyboard_scancode_to_char_def classic_groups or_else_def)

end
