(* ===== verification/Pparser.thy ===== *)
theory Pparser
  imports Kheap Kstring
begin

text \<open>
  The path parser, \<^verbatim>\<open>src/src/fs/pparser.c\<close>. A path such as \<open>0:/dir/file\<close> becomes a \<open>path_root\<close> with a
  linked list of parts; every structure and every part string is a heap allocation of its own. A
  structure is modelled as a record that carries its heap address, a linked list as the list of its nodes,
  and the heap is threaded through every call. Reading past the path buffer, writing past the 108 bytes of a part
  and dereferencing a null allocation have no outcome (\<open>None\<close>).
\<close>

section \<open>State and operations\<close>

definition SERPAEOS_MAX_PATH :: nat where "SERPAEOS_MAX_PATH = 108"

record path_part =
  pp_addr :: u32
  pp_str :: u32
  pp_part :: "u8 list"

record path_root =
  pr_addr :: u32
  pr_drive_no :: int
  pr_first :: "path_part list"

definition pathparser_path_valid_format :: "u8 list \<Rightarrow> bool option" where
  "pathparser_path_valid_format filename = do {
     len \<leftarrow> strnlen filename SERPAEOS_MAX_PATH;
     if len < 3 then Some False
     else do {
       c \<leftarrow> rd filename 0;
       if \<not> isdigit c then Some False
       else do { r \<leftarrow> memcmp (drop 1 filename) [58, 47] 2; Some (r = 0) }
     }
   }"

definition pathparser_get_drive_by_path :: "u8 list \<Rightarrow> (int \<times> u8 list) option" where
  \<comment> \<open>the second component is the advanced path pointer\<close>
  "pathparser_get_drive_by_path path = do {
     ok \<leftarrow> pathparser_path_valid_format path;
     if \<not> ok then Some (- EBADPATH, path)
     else do { c \<leftarrow> rd path 0; Some (tonumericdigit c, drop 3 path) }
   }"

definition pathparser_create_root :: "kmem \<Rightarrow> int \<Rightarrow> (path_root \<times> kmem) option" where
  "pathparser_create_root k drive_number = do {
     (a, k) \<leftarrow> kzalloc k 8;
     if a = 0 then None else Some (\<lparr>pr_addr = a, pr_drive_no = drive_number, pr_first = []\<rparr>, k)
   }"

fun path_part_loop :: "u8 list \<Rightarrow> u8 list \<Rightarrow> (u8 list \<times> u8 list) option" where
  \<comment> \<open>the copy loop of \<open>pathparser_get_path_part\<close>: the path left, and what \<open>result_path_part\<close> holds\<close>
  "path_part_loop [] acc = None"
| "path_part_loop (c # path) acc =
     (if c \<noteq> 47 \<and> c \<noteq> 0
      then if length acc < SERPAEOS_MAX_PATH then path_part_loop path (acc @ [c]) else None
      else Some (acc, c # path))"

definition pathparser_get_path_part :: "kmem \<Rightarrow> u8 list \<Rightarrow> ((u32 \<times> u8 list) option \<times> u8 list \<times> kmem) option" where
  "pathparser_get_path_part k path = do {
     (result_path_part, k) \<leftarrow> kzalloc k 108;
     (str, path) \<leftarrow> path_part_loop path [];
     if result_path_part = 0 \<and> str \<noteq> [] then None
     else do {
       c \<leftarrow> rd path 0;
       let path = (if c = 47 then drop 1 path else path);
       if str = []
       then do { k \<leftarrow> kfree k result_path_part; Some (None, path, k) }
       else Some (Some (result_path_part, str), path, k)
     }
   }"

definition pathparser_parse_path_part :: "kmem \<Rightarrow> u8 list \<Rightarrow> (path_part option \<times> u8 list \<times> kmem) option" where
  \<comment> \<open>linking the part behind \<open>last_part\<close> is appending it to the list, which the caller does\<close>
  "pathparser_parse_path_part k path = do {
     (s, path, k) \<leftarrow> pathparser_get_path_part k path;
     case s of
       None \<Rightarrow> Some (None, path, k)
     | Some (p, str) \<Rightarrow> do {
         (a, k) \<leftarrow> kzalloc k 8;
         if a = 0 then None
         else Some (Some \<lparr>pp_addr = a, pp_str = p, pp_part = str\<rparr>, path, k)
       }
   }"

partial_function (option) pathparser_parse_parts ::
  "kmem \<Rightarrow> u8 list \<Rightarrow> path_part list \<Rightarrow> (path_part list \<times> kmem) option" where
  \<comment> \<open>the loop of \<open>pathparser_parse\<close>, with the parts found so far\<close>
  "pathparser_parse_parts k path parts = do {
     (p, path, k) \<leftarrow> pathparser_parse_path_part k path;
     case p of None \<Rightarrow> Some (parts, k) | Some part \<Rightarrow> pathparser_parse_parts k path (parts @ [part])
   }"

definition pathparser_parse :: "kmem \<Rightarrow> u8 list \<Rightarrow> (path_root option \<times> kmem) option" where
  "pathparser_parse k path = do {
     n \<leftarrow> strlen path;
     if n > int SERPAEOS_MAX_PATH then Some (None, k)
     else do {
       (res, tmp_path) \<leftarrow> pathparser_get_drive_by_path path;
       if res < 0 then Some (None, k)
       else do {
         (root, k) \<leftarrow> pathparser_create_root k res;
         (first_part, tmp_path, k) \<leftarrow> pathparser_parse_path_part k tmp_path;
         case first_part of
           None \<Rightarrow> Some (Some root, k)
         | Some part \<Rightarrow> do {
             (parts, k) \<leftarrow> pathparser_parse_parts k tmp_path [part];
             Some (Some (root\<lparr>pr_first := parts\<rparr>), k)
           }
       }
     }
   }"

fun pathparser_free_parts :: "kmem \<Rightarrow> path_part list \<Rightarrow> kmem option" where
  "pathparser_free_parts k [] = Some k"
| "pathparser_free_parts k (part # parts) = do {
     k \<leftarrow> kfree k (pp_str part);
     k \<leftarrow> kfree k (pp_addr part);
     pathparser_free_parts k parts
   }"

definition pathparser_free :: "kmem \<Rightarrow> path_root \<Rightarrow> kmem option" where
  "pathparser_free k root = do {
     k \<leftarrow> pathparser_free_parts k (pr_first root);
     kfree k (pr_addr root)
   }"

definition pathparser_get_last_part :: "path_part list \<Rightarrow> path_part option" where
  "pathparser_get_last_part path = (if path = [] then None else Some (last path))"

section \<open>Reference: components of a path\<close>

function split_slash :: "u8 list \<Rightarrow> u8 list list" where
  "split_slash s = (case dropWhile (\<lambda>c. c \<noteq> 47) s of
       [] \<Rightarrow> [takeWhile (\<lambda>c. c \<noteq> 47) s]
     | _ # r \<Rightarrow> takeWhile (\<lambda>c. c \<noteq> 47) s # split_slash r)"
  by pat_completeness auto
termination
proof (relation "measure length", simp)
  fix s :: "u8 list" and x r
  assume "dropWhile (\<lambda>c. c \<noteq> 47) s = x # r"
  then show "(r, s) \<in> measure length" using length_dropWhile_le [of "\<lambda>c. c \<noteq> 47" s] by simp
qed

declare split_slash.simps [simp del]

definition path_parts :: "u8 list \<Rightarrow> u8 list list" where
  \<comment> \<open>the components up to the first empty one\<close>
  "path_parts s = takeWhile (\<lambda>p. p \<noteq> []) (split_slash s)"

definition valid_path :: "u8 list \<Rightarrow> bool" where
  "valid_path s \<longleftrightarrow> 3 \<le> length s \<and> length s \<le> 108 \<and> isdigit (s ! 0) \<and> s ! 1 = 58 \<and> s ! 2 = 47"

section \<open>One part\<close>

lemma path_part_loop_eq:
  assumes "0 \<notin> set s" and "length acc + length (takeWhile (\<lambda>c. c \<noteq> 47) s) \<le> 108"
  shows "path_part_loop (s @ 0 # r) acc =
     Some (acc @ takeWhile (\<lambda>c. c \<noteq> 47) s, dropWhile (\<lambda>c. c \<noteq> 47) s @ 0 # r)"
  using assms by (induction s arbitrary: acc) (auto simp: SERPAEOS_MAX_PATH_def split: if_splits)

definition same_heap :: "kmem \<Rightarrow> kmem \<Rightarrow> bool" where
  "same_heap k k' \<longleftrightarrow> kinv k' \<and> kused k' = kused k \<and> kpages k' = kpages k \<and> kroom k' = kroom k"

definition grown_by :: "kmem \<Rightarrow> u32 list \<Rightarrow> kmem \<Rightarrow> bool" where
  \<comment> \<open>\<open>k'\<close> owns, beside what \<open>k\<close> owns, exactly the fresh single-block allocations \<open>as\<close>\<close>
  "grown_by k as k' \<longleftrightarrow> kinv k' \<and> distinct as \<and> set as \<inter> kused k = {} \<and> kused k' = kused k \<union> set as \<and>
     kpages k' = kpages k \<union> set as \<and> kroom k' + length as = kroom k"

lemma grown_by_trans:
  assumes "grown_by k as k1" and "grown_by k1 bs k2"
  shows "grown_by k (as @ bs) k2"
  using assms by (auto simp: grown_by_def)

lemma grown_by_same:
  assumes "grown_by k as k1" and "same_heap k1 k2"
  shows "grown_by k as k2"
  using assms by (auto simp: grown_by_def same_heap_def)

lemma grown_by_refl: "kinv k \<Longrightarrow> grown_by k [] k"
  by (simp add: grown_by_def)

lemma kzalloc_grows:
  assumes "kinv k" and "0 < kroom k" and "0 < unat sz" and "unat sz \<le> 4096"
  obtains p k' where "kzalloc k sz = Some (p, k')" "p \<noteq> 0" "grown_by k [p] k'"
  using kh.alloc_page [OF assms] by (auto simp: grown_by_def)

lemma kfree_shrinks:
  assumes "grown_by k [p] k'"
  obtains k'' where "kfree k' p = Some k''" "same_heap k k''"
proof -
  have "kinv k'" "p \<in> kpages k'" using assms by (simp_all add: grown_by_def)
  from kh.free_page [OF this] obtain k'' where "kfree k' p = Some k''" "kinv k''"
    "kused k'' = kused k' - {p}" "kpages k'' = kpages k' - {p}" "kroom k'' = Suc (kroom k')" by blast
  moreover have "p \<notin> kpages k" using assms kh.pages_used by (auto simp: grown_by_def)
  ultimately show ?thesis using that [of k''] assms by (auto simp: grown_by_def same_heap_def)
qed

lemma grown_by_freed:
  assumes "grown_by k as k'" and "set bs = set as" and "distinct bs"
  shows "\<exists>k''. kh.free_all k' bs = Some k'' \<and> kinv k'' \<and> kused k'' = kused k \<and> kroom k'' = kroom k"
proof -
  have "kinv k'" "set bs \<subseteq> kpages k'" using assms by (auto simp: grown_by_def)
  from kh.free_all_pages [OF this(1) assms(3) this(2)] show ?thesis
    using assms by (auto simp: grown_by_def distinct_card [symmetric])
qed

abbreviation after_slash :: "u8 list \<Rightarrow> u8 list" where
  "after_slash s \<equiv> drop 1 (dropWhile (\<lambda>c. c \<noteq> 47) s)"

lemma get_path_part_empty:
  assumes "kinv k" and "0 < kroom k" and "0 \<notin> set s" and "takeWhile (\<lambda>c. c \<noteq> 47) s = []"
  shows "\<exists>path k'. pathparser_get_path_part k (s @ 0 # r) = Some (None, path, k') \<and> same_heap k k'"
proof -
  obtain p k1 where z: "kzalloc k 108 = Some (p, k1)" "p \<noteq> 0" "grown_by k [p] k1"
    using kzalloc_grows [OF assms(1,2), of 108] by auto
  obtain k2 where f: "kfree k1 p = Some k2" "same_heap k k2" using kfree_shrinks [OF z(3)] by blast
  from z f show ?thesis
    using path_part_loop_eq [OF assms(3), of "[]" r] assms(4)
    by (cases "dropWhile (\<lambda>c. c \<noteq> 47) s") (simp_all add: pathparser_get_path_part_def)
qed

lemma dropWhile_slash: "dropWhile (\<lambda>c. c \<noteq> (47 :: u8)) s = x # xs \<Longrightarrow> x = 47"
  using hd_dropWhile [of "\<lambda>c. c \<noteq> 47" s] by auto

lemma get_path_part_some:
  assumes "kinv k" and "0 < kroom k" and "0 \<notin> set s" and "takeWhile (\<lambda>c. c \<noteq> 47) s \<noteq> []" and "length s \<le> 108"
  shows "\<exists>p k'. pathparser_get_path_part k (s @ 0 # r) =
      Some (Some (p, takeWhile (\<lambda>c. c \<noteq> 47) s), after_slash s @ 0 # r, k') \<and> grown_by k [p] k'"
proof -
  obtain p k1 where z: "kzalloc k 108 = Some (p, k1)" "p \<noteq> 0" "grown_by k [p] k1"
    using kzalloc_grows [OF assms(1,2), of 108] by auto
  have "length (takeWhile (\<lambda>c. c \<noteq> 47) s) \<le> 108"
    using length_takeWhile_le [of _ s] assms(5) by (meson le_trans)
  then have "path_part_loop (s @ 0 # r) [] = Some (takeWhile (\<lambda>c. c \<noteq> 47) s, dropWhile (\<lambda>c. c \<noteq> 47) s @ 0 # r)"
    using path_part_loop_eq [OF assms(3), of "[]" r] by simp
  with z assms(4) show ?thesis
    by (cases "dropWhile (\<lambda>c. c \<noteq> 47) s")
      (auto simp: pathparser_get_path_part_def dest: dropWhile_slash simp del: dropWhile_eq_Nil_conv)
qed

section \<open>All parts\<close>

definition part_addrs :: "path_part list \<Rightarrow> u32 list" where
  "part_addrs ps = concat (map (\<lambda>p. [pp_str p, pp_addr p]) ps)"

lemma parse_path_part_none:
  assumes "kinv k" and "0 < kroom k" and "0 \<notin> set s" and "takeWhile (\<lambda>c. c \<noteq> 47) s = []"
  shows "\<exists>path k'. pathparser_parse_path_part k (s @ 0 # r) = Some (None, path, k') \<and> same_heap k k'"
  using get_path_part_empty [OF assms, of r] by (auto simp: pathparser_parse_path_part_def)

lemma parse_path_part_some:
  assumes "kinv k" and "2 \<le> kroom k" and "0 \<notin> set s" and "takeWhile (\<lambda>c. c \<noteq> 47) s \<noteq> []" and "length s \<le> 108"
  shows "\<exists>part k'. pathparser_parse_path_part k (s @ 0 # r) = Some (Some part, after_slash s @ 0 # r, k') \<and>
      pp_part part = takeWhile (\<lambda>c. c \<noteq> 47) s \<and> grown_by k (part_addrs [part]) k'"
proof -
  obtain p k1 where g: "pathparser_get_path_part k (s @ 0 # r) =
      Some (Some (p, takeWhile (\<lambda>c. c \<noteq> 47) s), after_slash s @ 0 # r, k1)" "grown_by k [p] k1"
    using get_path_part_some [OF assms(1) _ assms(3-5), of r] assms(2) by auto
  have "kinv k1" "0 < kroom k1" using g(2) assms(2) by (auto simp: grown_by_def)
  then obtain a k2 where z: "kzalloc k1 8 = Some (a, k2)" "a \<noteq> 0" "grown_by k1 [a] k2"
    using kzalloc_grows [of k1 8] by auto
  have "grown_by k ([p] @ [a]) k2" by (rule grown_by_trans [OF g(2) z(3)])
  with g z show ?thesis by (simp add: pathparser_parse_path_part_def part_addrs_def)
qed

lemma path_parts_rec:
  "path_parts s = (if takeWhile (\<lambda>c. c \<noteq> 47) s = [] then []
     else takeWhile (\<lambda>c. c \<noteq> 47) s # (if 47 \<in> set s then path_parts (after_slash s) else []))"
proof (cases "dropWhile (\<lambda>c. c \<noteq> 47) s")
  case Nil
  then have "47 \<notin> set s" by auto
  with Nil show ?thesis by (subst path_parts_def, subst split_slash.simps) (simp del: dropWhile_eq_Nil_conv)
next
  case (Cons x xs)
  then have "47 \<in> set s" by (metis dropWhile_slash list.set_intros(1) set_dropWhileD)
  with Cons show ?thesis by (subst path_parts_def, subst split_slash.simps) (simp add: path_parts_def)
qed

lemma after_slash_none: "47 \<notin> set s \<Longrightarrow> after_slash s = []"
  by (metis (mono_tags, lifting) drop_Nil dropWhile_eq_Nil_conv)

lemma path_parts_Nil [simp]: "path_parts [] = []"
  by (simp add: path_parts_rec)

lemma path_parts_step:
  "takeWhile (\<lambda>c. c \<noteq> 47) s \<noteq> [] \<Longrightarrow> path_parts s = takeWhile (\<lambda>c. c \<noteq> 47) s # path_parts (after_slash s)"
  by (cases "47 \<in> set s"; subst path_parts_rec) (simp_all only: after_slash_none path_parts_Nil if_False if_True not_False_eq_True)

lemma after_slash_shorter:
  assumes "takeWhile (\<lambda>c. c \<noteq> 47) s \<noteq> []"
  shows "length (after_slash s) < length s" "set (after_slash s) \<subseteq> set s"
proof -
  have "length s = length (takeWhile (\<lambda>c. c \<noteq> 47) s) + length (dropWhile (\<lambda>c. c \<noteq> 47) s)"
    by (metis length_append takeWhile_dropWhile_id)
  then show "length (after_slash s) < length s" using assms by (simp flip: length_greater_0_conv)
  show "set (after_slash s) \<subseteq> set s" by (auto dest: in_set_dropD set_dropWhileD)
qed

lemma parse_parts_ok:
  assumes "kinv k" and "2 * length s + 2 \<le> kroom k" and "0 \<notin> set s" and "length s \<le> 108"
  shows "\<exists>ps k'. pathparser_parse_parts k (s @ 0 # r) parts = Some (parts @ ps, k') \<and>
      map pp_part ps = path_parts s \<and> grown_by k (part_addrs ps) k'"
  using assms
proof (induction "length s" arbitrary: k s parts rule: less_induct)
  case less
  show ?case
  proof (cases "takeWhile (\<lambda>c. c \<noteq> 47) s = []")
    case True
    then obtain path k' where p: "pathparser_parse_path_part k (s @ 0 # r) = Some (None, path, k')" "same_heap k k'"
      using parse_path_part_none [OF less.prems(1) _ less.prems(3), of r] less.prems(2) by auto
    have "path_parts s = []" using True by (subst path_parts_rec) simp
    with p grown_by_same [OF grown_by_refl [OF less.prems(1)] p(2)] show ?thesis
      by (intro exI [of _ "[]"] exI [of _ k']) (simp add: pathparser_parse_parts.simps part_addrs_def)
  next
    case False
    obtain part k1 where p: "pathparser_parse_path_part k (s @ 0 # r) = Some (Some part, after_slash s @ 0 # r, k1)"
      "pp_part part = takeWhile (\<lambda>c. c \<noteq> 47) s" "grown_by k (part_addrs [part]) k1"
      using parse_path_part_some [OF less.prems(1) _ less.prems(3) False less.prems(4), of r] less.prems(2) by auto
    note sh = after_slash_shorter [OF False]
    have "kinv k1" "2 * length (after_slash s) + 2 \<le> kroom k1" "0 \<notin> set (after_slash s)" "length (after_slash s) \<le> 108"
      using p(3) sh less.prems by (auto simp: grown_by_def part_addrs_def)
    from less.hyps [OF sh(1) this, of "parts @ [part]"] obtain ps k2 where
      q: "pathparser_parse_parts k1 (after_slash s @ 0 # r) (parts @ [part]) = Some ((parts @ [part]) @ ps, k2)"
        "map pp_part ps = path_parts (after_slash s)" "grown_by k1 (part_addrs ps) k2" by blast
    have "grown_by k (part_addrs (part # ps)) k2"
      using grown_by_trans [OF p(3) q(3)] by (simp add: part_addrs_def)
    with p q path_parts_step [OF False] show ?thesis
      by (intro exI [of _ "part # ps"] exI [of _ k2]) (simp add: pathparser_parse_parts.simps [of k])
  qed
qed

section \<open>Format check\<close>

lemma length_3D: "3 \<le> length s \<Longrightarrow> \<exists>a b c u. s = a # b # c # u"
  by (metis Suc_le_length_iff numeral_3_eq_3)

lemma valid_format_eq:
  assumes "0 \<notin> set s" and "length s \<le> 108"
  shows "pathparser_path_valid_format (s @ 0 # r) = Some (valid_path s)"
proof -
  have n: "strnlen (s @ 0 # r) SERPAEOS_MAX_PATH = Some (int (length s))"
    using strnlen_terminated [of "s @ 0 # r" 108] assms by (simp add: terminated_def SERPAEOS_MAX_PATH_def)
  show ?thesis
  proof (cases "3 \<le> length s")
    case False
    with n show ?thesis by (simp add: pathparser_path_valid_format_def valid_path_def)
  next
    case True
    then obtain a b c u where "s = a # b # c # u" using length_3D by blast
    with n assms(2) show ?thesis
      by (auto simp: pathparser_path_valid_format_def valid_path_def numeral_2_eq_2)
  qed
qed

lemma valid_path_split:
  assumes "valid_path s"
  shows "drop 3 (s @ 0 # r) = drop 3 s @ 0 # r" "rd (s @ 0 # r) 0 = Some (s ! 0)" "0 \<le> tonumericdigit (s ! 0)"
  using assms length_3D [of s] by (auto simp: valid_path_def isdigit_def tonumericdigit_def nth_append)

lemma pathparser_parse_ok:
  assumes "kinv k" and "0 \<notin> set s" and "valid_path s" and "2 * length s + 2 \<le> kroom k"
  shows "\<exists>root k'. pathparser_parse k (s @ 0 # r) = Some (Some root, k') \<and>
      pr_drive_no root = tonumericdigit (s ! 0) \<and> map pp_part (pr_first root) = path_parts (drop 3 s) \<and>
      grown_by k (pr_addr root # part_addrs (pr_first root)) k'"
proof -
  let ?t = "drop 3 s"
  have len: "3 \<le> length s" "length s \<le> 108" using assms(3) by (simp_all add: valid_path_def)
  have sl: "strlen (s @ 0 # r) = Some (int (length s))"
    using strlen_terminated [of "s @ 0 # r"] assms(2) by (simp add: terminated_def)
  have d: "pathparser_get_drive_by_path (s @ 0 # r) = Some (tonumericdigit (s ! 0), ?t @ 0 # r)"
    using valid_format_eq [OF assms(2) len(2), of r] valid_path_split(1,2) [OF assms(3), of r] assms(3)
    by (simp add: pathparser_get_drive_by_path_def)
  obtain a k1 where z: "kzalloc k 8 = Some (a, k1)" "a \<noteq> 0" "grown_by k [a] k1"
    using kzalloc_grows [OF assms(1), of 8] assms(4) by auto
  have t: "kinv k1" "2 * length ?t + 2 \<le> kroom k1" "0 \<notin> set ?t" "length ?t \<le> 108"
    using z(3) assms(2,4) len by (auto simp: grown_by_def dest: in_set_dropD)
  let ?root = "\<lparr>pr_addr = a, pr_drive_no = tonumericdigit (s ! 0), pr_first = []\<rparr>"
  have root: "pathparser_create_root k (tonumericdigit (s ! 0)) = Some (?root, k1)"
    using z by (simp add: pathparser_create_root_def)
  note base = sl d root valid_path_split(3) [OF assms(3)] len
  show ?thesis
  proof (cases "takeWhile (\<lambda>c. c \<noteq> 47) ?t = []")
    case True
    obtain path k2 where p: "pathparser_parse_path_part k1 (?t @ 0 # r) = Some (None, path, k2)" "same_heap k1 k2"
      using parse_path_part_none [OF t(1) _ t(3) True, of r] t(2) by auto
    have "path_parts ?t = []" using True by (subst path_parts_rec) simp
    then show ?thesis using base p grown_by_same [OF z(3) p(2)]
      by (intro exI [of _ ?root] exI [of _ k2]) (simp add: pathparser_parse_def SERPAEOS_MAX_PATH_def part_addrs_def)
  next
    case False
    obtain part k2 where p: "pathparser_parse_path_part k1 (?t @ 0 # r) = Some (Some part, after_slash ?t @ 0 # r, k2)"
      "pp_part part = takeWhile (\<lambda>c. c \<noteq> 47) ?t" "grown_by k1 (part_addrs [part]) k2"
      using parse_path_part_some [OF t(1) _ t(3) False t(4), of r] t(2) by auto
    note sh = after_slash_shorter [OF False]
    have "kinv k2" "2 * length (after_slash ?t) + 2 \<le> kroom k2" "0 \<notin> set (after_slash ?t)" "length (after_slash ?t) \<le> 108"
      using p(3) sh t by (auto simp: grown_by_def part_addrs_def)
    from parse_parts_ok [OF this, of r "[part]"] obtain ps k3 where
      q: "pathparser_parse_parts k2 (after_slash ?t @ 0 # r) [part] = Some ([part] @ ps, k3)"
        "map pp_part ps = path_parts (after_slash ?t)" "grown_by k2 (part_addrs ps) k3" by blast
    have "grown_by k ([a] @ part_addrs [part] @ part_addrs ps) k3"
      using grown_by_trans [OF z(3) grown_by_trans [OF p(3) q(3)]] .
    then show ?thesis using base p q path_parts_step [OF False]
      by (intro exI [of _ "?root\<lparr>pr_first := part # ps\<rparr>"] exI [of _ k3])
        (simp add: pathparser_parse_def SERPAEOS_MAX_PATH_def part_addrs_def)
  qed
qed

lemma pathparser_free_parts_eq: "pathparser_free_parts k ps = kh.free_all k (part_addrs ps)"
  by (induction ps arbitrary: k) (simp_all add: part_addrs_def)

lemma free_all_append:
  "kh.free_all k (as @ bs) = Option.bind (kh.free_all k as) (\<lambda>k. kh.free_all k bs)"
  by (induction as arbitrary: k) (simp_all add: Option.bind_assoc)

lemma pathparser_free_eq: "pathparser_free k root = kh.free_all k (part_addrs (pr_first root) @ [pr_addr root])"
  by (simp add: pathparser_free_def pathparser_free_parts_eq free_all_append)

section \<open>Properties\<close>

text \<open>C26: the path parser accepts the paths of the form \<open>d:/...\<close> of at most 108 characters. On such a path
  it terminates and returns the drive digit and the components between slashes up to the first empty one,
  in order; it allocates one fresh block for the root and two per part and nothing else.\<close>
theorem pathparser_parse_accepts:
  assumes "kinv k" and "0 \<notin> set s" and "valid_path s" and "2 * length s + 2 \<le> kroom k"
  shows "\<exists>root k'. pathparser_parse k (s @ 0 # r) = Some (Some root, k') \<and>
      pr_drive_no root = tonumericdigit (s ! 0) \<and> map pp_part (pr_first root) = path_parts (drop 3 s) \<and>
      grown_by k (pr_addr root # part_addrs (pr_first root)) k'"
  by (rule pathparser_parse_ok [OF assms])

definition demo_k :: kmem where
  "demo_k = \<lparr>km_heap = demo_heap (replicate 50 0), km_mem = (\<lambda>_. 0)\<rparr>"

lemma demo_k_ready: "kinv demo_k" "kroom demo_k = 50"
proof -
  have "heap_inv (demo_heap (replicate 50 0))" by (rule demo_heap_inv) simp_all
  then show "kinv demo_k" by (simp add: kinv_def demo_k_def demo_heap_def page_base_def)
  show "kroom demo_k = 50" by (simp add: kroom_def demo_k_def)
qed

definition demo_path :: "u8 list" where
  \<comment> \<open>\<open>0:/ab/c\<close>\<close>
  "demo_path = [48, 58, 47, 97, 98, 47, 99]"

lemma demo_path_ok:
  "0 \<notin> set demo_path" "valid_path demo_path" "2 * length demo_path + 2 \<le> kroom demo_k"
  by (simp_all add: demo_path_def valid_path_def demo_k_ready isdigit_def)

theorem pathparser_parse_accepts_witness:
  "\<exists>root k'. pathparser_parse demo_k (demo_path @ 0 # [7]) = Some (Some root, k') \<and>
      pr_drive_no root = 0 \<and> map pp_part (pr_first root) = [[97, 98], [99]] \<and>
      grown_by demo_k (pr_addr root # part_addrs (pr_first root)) k'"
proof -
  have "tonumericdigit (demo_path ! 0) = 0" "path_parts (drop 3 demo_path) = [[97, 98], [99]]"
    by (simp_all add: demo_path_def tonumericdigit_def path_parts_def split_slash.simps)
  with pathparser_parse_accepts [OF demo_k_ready(1) demo_path_ok] show ?thesis by simp
qed

text \<open>a path that is too long or not of the form \<open>d:/...\<close> is refused: the parser returns the null root and
  leaves the heap untouched.\<close>
theorem pathparser_parse_rejects:
  assumes "terminated path" and "\<not> valid_path (cstr path)"
  shows "pathparser_parse k path = Some (None, k)"
proof (cases "length (cstr path) \<le> 108")
  case False
  then show ?thesis using strlen_terminated [OF assms(1)]
    by (simp add: pathparser_parse_def SERPAEOS_MAX_PATH_def)
next
  case True
  obtain r where r: "path = cstr path @ 0 # r"
    using terminated_split [OF assms(1)] by blast
  have "pathparser_path_valid_format path = Some False"
    using valid_format_eq [OF cstr_no_nul True, of r] assms(2) r by simp
  then show ?thesis using strlen_terminated [OF assms(1)] True
    by (simp add: pathparser_parse_def pathparser_get_drive_by_path_def SERPAEOS_MAX_PATH_def EBADPATH_def)
qed

theorem pathparser_parse_rejects_witness:
  "pathparser_parse demo_k [97, 58, 47, 98, 0] = Some (None, demo_k)"
  by (rule pathparser_parse_rejects) (simp_all add: valid_path_def isdigit_def)

text \<open>\<open>pathparser_free\<close> undoes \<open>pathparser_parse\<close>: it returns normally and the heap owns exactly the blocks it owned
  before the path was parsed.\<close>
theorem pathparser_parse_free_roundtrip:
  assumes "kinv k" and "0 \<notin> set s" and "valid_path s" and "2 * length s + 2 \<le> kroom k"
    and "pathparser_parse k (s @ 0 # r) = Some (Some root, k')"
  shows "\<exists>k''. pathparser_free k' root = Some k'' \<and> kinv k'' \<and> kused k'' = kused k \<and> kroom k'' = kroom k"
proof -
  have "grown_by k (pr_addr root # part_addrs (pr_first root)) k'"
    using pathparser_parse_ok [OF assms(1-4), of r] assms(5) by auto
  moreover from this have "distinct (part_addrs (pr_first root) @ [pr_addr root])" by (auto simp: grown_by_def)
  ultimately show ?thesis unfolding pathparser_free_eq by (intro grown_by_freed) auto
qed

theorem pathparser_parse_free_roundtrip_witness:
  "\<exists>root k' k''. pathparser_parse demo_k (demo_path @ 0 # []) = Some (Some root, k') \<and>
     pathparser_free k' root = Some k'' \<and> kinv k'' \<and> kused k'' = kused demo_k \<and> kroom k'' = kroom demo_k"
proof -
  obtain root k' where p: "pathparser_parse demo_k (demo_path @ 0 # []) = Some (Some root, k')"
    using pathparser_parse_ok [OF demo_k_ready(1) demo_path_ok, of "[]"] by blast
  from pathparser_parse_free_roundtrip [OF demo_k_ready(1) demo_path_ok p] p show ?thesis by blast
qed

end
