(* ===== verification/Disk.thy ===== *)
theory Disk
  imports Prelude
begin

text \<open>
  ATA disks: \<^verbatim>\<open>src/src/disk/disk.c\<close>. The ports are the interface to the hardware, which is a parameter: the record
  \<open>port_ops\<close> of the four port instructions, over a state type of their own. The locale \<open>pata_device\<close> states what the layers
  above rely on: transfers of whole sectors between memory and an image. \<open>dk_dev\<close> is unsigned: the compiler's type for
  the enumeration \<open>device_type\<close>, which has no negative enumerator.
\<close>

section \<open>Ports and disks\<close>

record 's port_ops =
  outb :: "u16 \<Rightarrow> u8 \<Rightarrow> 's \<Rightarrow> 's"
  inb :: "u16 \<Rightarrow> 's \<Rightarrow> u8 \<times> 's"
  inw :: "u16 \<Rightarrow> 's \<Rightarrow> u16 \<times> 's"
  outw :: "u16 \<Rightarrow> u16 \<Rightarrow> 's \<Rightarrow> 's"

definition MASTER :: int where "MASTER = 1"
definition SLAVE :: int where "SLAVE = 2"
definition PRIMARY :: int where "PRIMARY = 1"
definition SECONDARY :: int where "SECONDARY = 2"
definition SERPAEOS_DISK_TYPE_PARTITION :: int where "SERPAEOS_DISK_TYPE_PARTITION = 2"
definition UNKNOWN_DEV_TYPE :: int where "UNKNOWN_DEV_TYPE = 0"
definition PATAPI :: int where "PATAPI = 1"
definition SATAPI :: int where "SATAPI = 2"
definition PATA :: int where "PATA = 3"
definition SATA :: int where "SATA = 4"
definition SERPAEOS_MAX_DISKS :: nat where "SERPAEOS_MAX_DISKS = 13"

lemmas disk_consts = MASTER_def SLAVE_def PRIMARY_def SECONDARY_def SERPAEOS_DISK_TYPE_PARTITION_def
  UNKNOWN_DEV_TYPE_def PATAPI_def SATAPI_def PATA_def SATA_def SERPAEOS_MAX_DISKS_def

definition pors :: "int \<Rightarrow> u16" where
  "pors primary_secondary = (if primary_secondary = PRIMARY then 0x1F0 else 0x170)"

record disk =
  dk_type :: int
  dk_sector_size :: int
  dk_dev :: u32
  dk_id :: int
  dk_filesystem :: "nat option"
  dk_master_slave :: int
  dk_primary_secondary :: int
  dk_offset :: u32

definition zero_disk :: disk where
  "zero_disk = \<lparr>dk_type = 0, dk_sector_size = 0, dk_dev = 0, dk_id = 0, dk_filesystem = None,
     dk_master_slave = 0, dk_primary_secondary = 0, dk_offset = 0\<rparr>"

section \<open>Transfers\<close>

fun read_words :: "'s port_ops \<Rightarrow> u16 \<Rightarrow> nat \<Rightarrow> 's \<Rightarrow> u16 list \<times> 's" where
  "read_words ops port 0 s = ([], s)"
| "read_words ops port (Suc n) s =
     (case inw ops port s of (w, s) \<Rightarrow> case read_words ops port n s of (ws, s) \<Rightarrow> (w # ws, s))"

definition word_bytes :: "u16 list \<Rightarrow> u8 list" where
  "word_bytes ws = concat (map (\<lambda>w. [ucast w, ucast (drop_bit 8 w)]) ws)"

fun pata_wait :: "'s port_ops \<Rightarrow> u16 \<Rightarrow> nat \<Rightarrow> u8 \<Rightarrow> 's \<Rightarrow> bool \<times> 's" where
  \<comment> \<open>\<open>while (!(c & 0x08)) { c = inb(...); timer++; if (timer == 0x10000) return -ETIMEDOUT; }\<close>, with
      \<open>0x10000 - timer\<close> as the third argument; \<open>False\<close> is the timeout\<close>
  "pata_wait ops port 0 c s = (False, s)"
| "pata_wait ops port (Suc n) c s =
     (if c AND 0x08 \<noteq> 0 then (True, s)
      else case inb ops port s of (c, s) \<Rightarrow> if n = 0 then (False, s) else pata_wait ops port n c s)"

definition pata_command :: "'s port_ops \<Rightarrow> int \<Rightarrow> bool \<Rightarrow> u32 \<Rightarrow> int \<Rightarrow> u8 \<Rightarrow> 's \<Rightarrow> 's" where
  \<comment> \<open>the six register writes that start a transfer\<close>
  "pata_command ops primary_secondary drive lba n cmd s =
     (let s = outb ops (pors primary_secondary + 6) (ucast (drop_bit 24 lba) OR (if drive then 0xe0 else 0xf0)) s;
          s = outb ops (pors primary_secondary + 2) (word_of_int n) s;
          s = outb ops (pors primary_secondary + 3) (ucast (lba AND 0xff)) s;
          s = outb ops (pors primary_secondary + 4) (ucast (drop_bit 8 lba)) s;
          s = outb ops (pors primary_secondary + 5) (ucast (drop_bit 16 lba)) s
      in outb ops (pors primary_secondary + 7) cmd s)"

fun pata_read_loop :: "'s port_ops \<Rightarrow> int \<Rightarrow> nat \<Rightarrow> u8 list \<Rightarrow> 's \<Rightarrow> int \<times> u8 list \<times> 's" where
  \<comment> \<open>the sectors left, and the bytes stored in \<open>buf\<close> so far\<close>
  "pata_read_loop ops ps 0 out s = (0, out, s)"
| "pata_read_loop ops ps (Suc b) out s =
     (case inb ops (pors ps + 7) s of (c, s) \<Rightarrow>
      case pata_wait ops (pors ps + 7) 0x10000 c s of (ready, s) \<Rightarrow>
        if \<not> ready then (- ETIMEDOUT, out, s)
        else case read_words ops (pors ps) 256 s of (ws, s) \<Rightarrow>
               pata_read_loop ops ps b (out @ word_bytes ws) s)"

definition pata_read_sector :: "'s port_ops \<Rightarrow> 's \<Rightarrow> int \<Rightarrow> bool \<Rightarrow> u32 \<Rightarrow> int \<Rightarrow> int \<times> u8 list \<times> 's" where
  \<comment> \<open>the second component of the result is what was stored in \<open>buf\<close>\<close>
  "pata_read_sector ops s primary_secondary drive lba n =
     pata_read_loop ops primary_secondary (nat n) []
       (pata_command ops primary_secondary drive lba n 0x20 s)"

fun write_words :: "'s port_ops \<Rightarrow> u16 \<Rightarrow> nat \<Rightarrow> u8 list \<Rightarrow> 's \<Rightarrow> (u8 list \<times> 's) option" where
  \<comment> \<open>the result holds the rest of the buffer\<close>
  "write_words ops port 0 buf s = Some (buf, s)"
| "write_words ops port (Suc n) (lo # hi # buf) s =
     write_words ops port n buf (outw ops port (ucast lo OR push_bit 8 (ucast hi)) s)"
| "write_words ops port (Suc n) _ s = None"

fun pata_write_loop :: "'s port_ops \<Rightarrow> int \<Rightarrow> nat \<Rightarrow> u8 list \<Rightarrow> 's \<Rightarrow> (bool \<times> 's) option" where
  "pata_write_loop ops ps 0 buf s = Some (True, s)"
| "pata_write_loop ops ps (Suc b) buf s =
     (case inb ops (pors ps + 7) s of (c, s) \<Rightarrow>
      case pata_wait ops (pors ps + 7) 0x10000 c s of (ready, s) \<Rightarrow>
        if \<not> ready then Some (False, s)
        else do { (buf, s) \<leftarrow> write_words ops (pors ps) 256 buf s; pata_write_loop ops ps b buf s })"

partial_function (option) pata_flush :: "'s port_ops \<Rightarrow> u16 \<Rightarrow> u8 \<Rightarrow> 's \<Rightarrow> 's option" where
  \<comment> \<open>\<open>while (c & 0b10000000) c = inb(...);\<close>: a device that stays busy is waited for forever\<close>
  "pata_flush ops port c s =
     (if c AND 0x80 = 0 then Some s else case inb ops port s of (c, s) \<Rightarrow> pata_flush ops port c s)"

definition pata_write_sector :: "'s port_ops \<Rightarrow> 's \<Rightarrow> int \<Rightarrow> bool \<Rightarrow> u32 \<Rightarrow> int \<Rightarrow> u8 list \<Rightarrow> (int \<times> 's) option" where
  "pata_write_sector ops s primary_secondary drive lba n buf = do {
     (ok, s) \<leftarrow> pata_write_loop ops primary_secondary (nat n) buf
                 (pata_command ops primary_secondary drive lba n 0x30 s);
     if \<not> ok then Some (- ETIMEDOUT, s)
     else do {
       let s = outb ops (pors primary_secondary + 7) 0xE7 s;
       let (c, s) = inb ops (pors primary_secondary + 7) s;
       s \<leftarrow> pata_flush ops (pors primary_secondary + 7) c s;
       Some (0, s)
     }
   }"

definition disk_read_block :: "'s port_ops \<Rightarrow> 's \<Rightarrow> disk \<Rightarrow> u32 \<Rightarrow> int \<Rightarrow> int \<times> u8 list \<times> 's" where
  "disk_read_block ops s idisk lba n =
     (if dk_dev idisk \<le> 0 then (- EINVARG, [], s)
      else pata_read_sector ops s (dk_primary_secondary idisk) (dk_master_slave idisk = MASTER)
             (lba + (if dk_type idisk = SERPAEOS_DISK_TYPE_PARTITION then dk_offset idisk else 0)) n)"

definition disk_write_block :: "'s port_ops \<Rightarrow> 's \<Rightarrow> disk \<Rightarrow> u32 \<Rightarrow> int \<Rightarrow> u8 list \<Rightarrow> (int \<times> 's) option" where
  "disk_write_block ops s idisk lba n buf =
     (if dk_dev idisk \<le> 0 then Some (- EINVARG, s)
      else pata_write_sector ops s (dk_primary_secondary idisk) (dk_master_slave idisk = MASTER)
             (lba + dk_offset idisk) n buf)"

section \<open>Detection\<close>

fun outb_range :: "'s port_ops \<Rightarrow> u16 \<Rightarrow> nat \<Rightarrow> 's \<Rightarrow> 's" where
  \<comment> \<open>write 0 to the given number of consecutive ports\<close>
  "outb_range ops port 0 s = s"
| "outb_range ops port (Suc n) s = outb_range ops (port + 1) n (outb ops port 0 s)"

partial_function (option) wait_not_busy :: "'s port_ops \<Rightarrow> u16 \<Rightarrow> 's \<Rightarrow> 's option" where
  "wait_not_busy ops port s =
     (case inb ops port s of (status, s) \<Rightarrow> if status AND 0x80 \<noteq> 0 then wait_not_busy ops port s else Some s)"

partial_function (option) wait_ready :: "'s port_ops \<Rightarrow> u16 \<Rightarrow> 's \<Rightarrow> 's option" where
  "wait_ready ops port s =
     (case inb ops port s of (status, s) \<Rightarrow>
        if status AND 0x08 = 0 \<and> status AND 1 = 0 then wait_ready ops port s else Some s)"

definition ata_identify :: "'s port_ops \<Rightarrow> 's \<Rightarrow> int \<Rightarrow> int \<Rightarrow> u8 list \<Rightarrow> (int \<times> u8 list \<times> 's) option" where
  \<comment> \<open>the last argument is what the 512-byte buffer holds before\<close>
  "ata_identify ops s master_slave primary_secondary buf =
     (let base = pors primary_secondary;
          s = outb ops (base + 6) (if master_slave = MASTER then 0xA0 else 0xB0) s;
          s = outb_range ops (base + 2) 4 s;
          s = outb ops (base + 7) 0xEC s
      in case inb ops (base + 7) s of (status, s) \<Rightarrow>
         if status = 0 then Some (- ENODISKSPACE, buf, s)
         else do {
           s \<leftarrow> wait_not_busy ops (base + 7) s;
           let (lba_mid, s) = inb ops (base + 4) s;
           let (lba_hi, s) = inb ops (base + 5) s;
           let res = (if lba_hi = 0 \<or> lba_mid = 0 then PATA
                      else if lba_hi = 0xEB \<and> lba_mid = 0x14 then PATAPI
                      else if lba_hi = 0x96 \<and> lba_mid = 0x69 then SATAPI
                      else if lba_hi = 0xC3 \<and> lba_mid = 0x3C then SATA
                      else UNKNOWN_DEV_TYPE);
           s \<leftarrow> wait_ready ops (base + 7) s;
           let (ws, s) = read_words ops base 256 s;
           Some (res, word_bytes ws, s)
         })"

definition upd_disk :: "disk list \<Rightarrow> nat \<Rightarrow> (disk \<Rightarrow> disk) \<Rightarrow> disk list option" where
  "upd_disk disks i f = do { d \<leftarrow> rd disks i; wr disks i (f d) }"

definition init_disk :: "('s \<Rightarrow> disk \<Rightarrow> (nat option \<times> 's) option) \<Rightarrow> disk list \<Rightarrow> nat \<Rightarrow> int \<Rightarrow> int \<Rightarrow> 's \<Rightarrow>
    (disk list \<times> 's) option" where
  \<comment> \<open>the first argument is \<open>fs_resolve\<close>\<close>
  "init_disk resolve disks i pri_sec master_slave s = do {
     d \<leftarrow> rd disks i;
     let d = d\<lparr>dk_id := int i, dk_primary_secondary := pri_sec, dk_master_slave := master_slave,
               dk_sector_size := (if dk_dev d = 3 \<or> dk_dev d = 4 then 512 else 2048)\<rparr>;
     (fs, s) \<leftarrow> resolve s d;
     disks \<leftarrow> wr disks i (d\<lparr>dk_filesystem := fs\<rparr>);
     Some (disks, s)
   }"

definition bootsect_u32 :: "u8 list \<Rightarrow> nat \<Rightarrow> u32 option" where
  "bootsect_u32 bs off = do {
     a \<leftarrow> rd bs off; b \<leftarrow> rd bs (off + 1); c \<leftarrow> rd bs (off + 2); d \<leftarrow> rd bs (off + 3);
     Some (ucast a OR push_bit 8 (ucast b) OR push_bit 16 (ucast c) OR push_bit 24 (ucast d))
   }"

fun probe_partitions :: "('s \<Rightarrow> disk \<Rightarrow> (nat option \<times> 's) option) \<Rightarrow> u8 list \<Rightarrow> int \<Rightarrow> int \<Rightarrow> int \<Rightarrow> nat \<Rightarrow> nat \<Rightarrow> nat \<Rightarrow>
    disk list \<Rightarrow> nat \<Rightarrow> 's \<Rightarrow> (disk list \<times> nat \<times> 's) option" where
  \<comment> \<open>the loop over the four partition entries: iterations left, \<open>i\<close>, \<open>disk_offset\<close>; entry \<open>i\<close> starts at
      \<open>0x1BE + 16 * i\<close> with its \<open>lba\<close> at 8 and its \<open>size\<close> at 12\<close>
  "probe_partitions resolve bs tmp ps ms 0 i off disks partitions_used s = Some (disks, partitions_used, s)"
| "probe_partitions resolve bs tmp ps ms (Suc n) i off disks partitions_used s = do {
     sz \<leftarrow> bootsect_u32 bs (0x1BE + 16 * i + 12);
     if sz = 0 then probe_partitions resolve bs tmp ps ms n (Suc i) off disks partitions_used s
     else do {
       lba \<leftarrow> bootsect_u32 bs (0x1BE + 16 * i + 8);
       disks \<leftarrow> upd_disk disks (i + off)
         (\<lambda>d. d\<lparr>dk_type := SERPAEOS_DISK_TYPE_PARTITION, dk_dev := word_of_int tmp, dk_offset := lba\<rparr>);
       (disks, s) \<leftarrow> init_disk resolve disks (off + i) ps ms s;
       d \<leftarrow> rd disks (off + i);
       if dk_filesystem d \<noteq> None
       then probe_partitions resolve bs tmp ps ms n (Suc i) off disks (Suc partitions_used) s
       else do {
         disks \<leftarrow> upd_disk disks (off + i) (\<lambda>d. d\<lparr>dk_dev := 0\<rparr>);
         probe_partitions resolve bs tmp ps ms n (Suc i) off disks partitions_used s
       }
     }
   }"

definition probe_drive :: "'s port_ops \<Rightarrow> ('s \<Rightarrow> disk \<Rightarrow> (nat option \<times> 's) option) \<Rightarrow> int \<Rightarrow> int \<Rightarrow>
    disk list \<times> nat \<times> u8 list \<times> 's \<Rightarrow> (disk list \<times> nat \<times> u8 list \<times> 's) option" where
  \<comment> \<open>one of the three blocks of \<open>disk_search_and_init\<close>, which differ in the channel and the drive\<close>
  "probe_drive ops resolve ps ms st = (case st of (disks, disk_offset, buf, s) \<Rightarrow> do {
     let disk_offset = Suc disk_offset;
     (tmp, buf, s) \<leftarrow> ata_identify ops s ms ps buf;
     disks \<leftarrow> upd_disk disks disk_offset (\<lambda>d. d\<lparr>dk_dev := word_of_int tmp\<rparr>);
     if word_of_int tmp \<le> (0 :: u32) then Some (disks, disk_offset, buf, s)
     else do {
       (disks, s) \<leftarrow> init_disk resolve disks disk_offset ps ms s;
       d \<leftarrow> rd disks disk_offset;
       if dk_filesystem d \<noteq> None then Some (disks, disk_offset, buf, s)
       else do {
         let (_, bytes, s) = disk_read_block ops s d 0 1;
         let buf = bytes @ drop (length bytes) buf;
         (disks, partitions_used, s) \<leftarrow> probe_partitions resolve buf tmp ps ms 4 0 disk_offset disks 0 s;
         Some (disks, disk_offset + partitions_used, buf, s)
       }
     }
   })"

definition disk_search_and_init :: "'s port_ops \<Rightarrow> ('s \<Rightarrow> disk \<Rightarrow> (nat option \<times> 's) option) \<Rightarrow> u8 list \<Rightarrow> 's \<Rightarrow>
    (disk list \<times> 's) option" where
  \<comment> \<open>the third argument is what the uninitialised buffer on the stack holds\<close>
  "disk_search_and_init ops resolve buf s = do {
     let disks = replicate SERPAEOS_MAX_DISKS zero_disk;
     disks \<leftarrow> upd_disk disks 0 (\<lambda>d. d\<lparr>dk_dev := word_of_int PATA\<rparr>);
     (disks, s) \<leftarrow> init_disk resolve disks 0 PRIMARY MASTER s;
     st \<leftarrow> probe_drive ops resolve PRIMARY SLAVE (disks, 0, buf, s);
     st \<leftarrow> probe_drive ops resolve SECONDARY MASTER st;
     (disks, _, _, s) \<leftarrow> probe_drive ops resolve SECONDARY SLAVE st;
     Some (disks, s)
   }"

definition disk_get :: "disk list \<Rightarrow> int \<Rightarrow> disk option option" where
  \<comment> \<open>the inner option is the returned pointer; a negative index reads in front of the table\<close>
  "disk_get disks index =
     (if index > int SERPAEOS_MAX_DISKS - 1 then Some None
      else if index < 0 then None
      else do { d \<leftarrow> rd disks (nat index); if dk_dev d \<le> 0 then Some None else Some (Some d) })"

section \<open>What the hardware promises\<close>

type_synonym 's image = "'s \<Rightarrow> bool \<Rightarrow> bool \<Rightarrow> nat \<Rightarrow> u8 list"

definition sect :: "'s image \<Rightarrow> 's \<Rightarrow> disk \<Rightarrow> nat \<Rightarrow> u8 list" where
  \<comment> \<open>the sector of a whole disk, or of a partition, counted from its start; an image gives the sectors by
      channel, drive and address\<close>
  "sect img s d l = img s (dk_primary_secondary d = PRIMARY) (dk_master_slave d = MASTER) (unat (dk_offset d) + l)"

definition place :: "disk \<Rightarrow> nat \<Rightarrow> bool \<times> bool \<times> nat" where
  \<comment> \<open>where the hardware keeps sector \<open>l\<close> of the disk or partition: channel, drive and address\<close>
  "place d l = (dk_primary_secondary d = PRIMARY, dk_master_slave d = MASTER, unat (dk_offset d) + l)"

definition usable :: "disk \<Rightarrow> bool" where
  "usable d \<longleftrightarrow> dk_dev d \<noteq> 0 \<and> (dk_type d = SERPAEOS_DISK_TYPE_PARTITION \<or> dk_offset d = 0)"

definition disk_byte :: "'s image \<Rightarrow> 's \<Rightarrow> disk \<Rightarrow> nat \<Rightarrow> u8" where
  "disk_byte img s d p = sect img s d (p div 512) ! (p mod 512)"

definition addressable :: "disk \<Rightarrow> nat \<Rightarrow> bool" where
  \<comment> \<open>an \<open>int\<close> holds the position \<open>p\<close>, and 28-bit addressing reaches its sector\<close>
  "addressable d p \<longleftrightarrow> p < 2 ^ 31 \<and> p div 512 + 1 + unat (dk_offset d) \<le> 2 ^ 28"

locale pata_device =
  fixes ops :: "'s port_ops"
    and good :: "'s \<Rightarrow> bool"
    and img :: "'s image"
  assumes img_length: "good s \<Longrightarrow> length (img s ch dr l) = 512"
    and read_sectors:
      "good s \<Longrightarrow> 0 < n \<Longrightarrow> n < 256 \<Longrightarrow> unat lba + n \<le> 2 ^ 28 \<Longrightarrow>
         \<exists>s'. pata_read_sector ops s ps dr lba (int n) =
                (0, concat (map (img s (ps = PRIMARY) dr) [unat lba ..< unat lba + n]), s') \<and>
              good s' \<and> img s' = img s"
    and write_sectors:
      "good s \<Longrightarrow> 0 < n \<Longrightarrow> n < 256 \<Longrightarrow> unat lba + n \<le> 2 ^ 28 \<Longrightarrow> length buf = 512 * n \<Longrightarrow>
         \<exists>s'. pata_write_sector ops s ps dr lba (int n) buf = Some (0, s') \<and> good s' \<and>
              img s' = (\<lambda>ch' dr' l. if ch' = (ps = PRIMARY) \<and> dr' = dr \<and> unat lba \<le> l \<and> l < unat lba + n
                                    then take 512 (drop (512 * (l - unat lba)) buf) else img s ch' dr' l)"
begin

lemma unat_lba_offset:
  assumes "unat lba + n + unat (dk_offset d) \<le> 2 ^ 28"
  shows "unat (lba + dk_offset d) = unat (dk_offset d) + unat lba"
proof -
  have "unat lba + unat (dk_offset d) < 2 ^ 32" using assms by simp
  then show ?thesis by (simp add: unat_word_ariths)
qed

lemma disk_read_block_sector:
  assumes "good s" and "usable d" and "unat lba + 1 + unat (dk_offset d) \<le> 2 ^ 28"
  shows "\<exists>s'. disk_read_block ops s d lba 1 = (0, sect img s d (unat lba), s') \<and> good s' \<and> img s' = img s"
proof -
  note u = unat_lba_offset [OF assms(3)]
  have *: "lba + (if dk_type d = SERPAEOS_DISK_TYPE_PARTITION then dk_offset d else 0) = lba + dk_offset d"
    using assms(2) by (auto simp: usable_def)
  have "dk_dev d \<noteq> 0" using assms(2) by (simp add: usable_def)
  with read_sectors [OF assms(1), of 1 "lba + dk_offset d" "dk_primary_secondary d" "dk_master_slave d = MASTER"]
  show ?thesis using assms(3) by (simp add: disk_read_block_def * u sect_def)
qed

lemma disk_write_block_image:
  assumes "good s" and "usable d" and "unat lba + 1 + unat (dk_offset d) \<le> 2 ^ 28" and "length buf = 512"
  shows "\<exists>s'. disk_write_block ops s d lba 1 buf = Some (0, s') \<and> good s' \<and>
     (\<forall>l. sect img s' d l = (if l = unat lba then buf else sect img s d l)) \<and>
     (\<forall>ch dr l. (ch, dr, l) \<noteq> place d (unat lba) \<longrightarrow> img s' ch dr l = img s ch dr l)"
proof -
  note u = unat_lba_offset [OF assms(3)]
  have "dk_dev d \<noteq> 0" using assms(2) by (simp add: usable_def)
  with write_sectors [OF assms(1), of 1 "lba + dk_offset d" buf "dk_primary_secondary d" "dk_master_slave d = MASTER"]
  show ?thesis using assms(3,4) by (auto simp: disk_write_block_def u sect_def place_def)
qed

lemma disk_write_block_sector:
  assumes "good s" and "usable d" and "unat lba + 1 + unat (dk_offset d) \<le> 2 ^ 28" and "length buf = 512"
  shows "\<exists>s'. disk_write_block ops s d lba 1 buf = Some (0, s') \<and> good s' \<and>
     (\<forall>l. sect img s' d l = (if l = unat lba then buf else sect img s d l))"
  using disk_write_block_image [OF assms] by blast

end

end
