(* ===== verification/Ata_Drive.thy ===== *)
theory Ata_Drive
  imports Disk
begin

text \<open>
  A reference ATA controller with two channels of two drives each, the hardware that \<^verbatim>\<open>disk.c\<close> talks to
  through its ports: task-file registers, the read and write sector commands, a data port that delivers or takes one
  word at a time. It is not part of the program; it shows that the promises of the locale \<open>pata_device\<close> are
  those of a device which the port sequences of \<^verbatim>\<open>disk.c\<close> drive correctly.
\<close>

section \<open>The controller\<close>

record chan =
  ch_reg :: "nat \<Rightarrow> u8"
  ch_out :: "u16 list"
  ch_in :: "u16 list"
  ch_left :: nat

record ata =
  at_chan :: "bool \<Rightarrow> chan"
  at_img :: "bool \<Rightarrow> bool \<Rightarrow> nat \<Rightarrow> u8 list"

fun pack :: "u8 list \<Rightarrow> u16 list" where
  "pack (lo # hi # r) = (ucast lo OR push_bit 8 (ucast hi)) # pack r"
| "pack _ = []"

definition chan_lba :: "chan \<Rightarrow> nat" where
  "chan_lba c = unat (ucast (ch_reg c 3) OR push_bit 8 (ucast (ch_reg c 4)) OR push_bit 16 (ucast (ch_reg c 5))
     OR push_bit 24 (ucast (ch_reg c 6 AND 0x0F)) :: u32)"

definition chan_count :: "chan \<Rightarrow> nat" where
  "chan_count c = (if ch_reg c 2 = 0 then 256 else unat (ch_reg c 2))"

definition chan_master :: "chan \<Rightarrow> bool" where
  "chan_master c \<longleftrightarrow> \<not> bit (ch_reg c 6) 4"

definition on_chan :: "u16 \<Rightarrow> (bool \<times> nat) option" where
  \<comment> \<open>the channel and the register of a port\<close>
  "on_chan port = (if 0x1F0 \<le> port \<and> port \<le> 0x1F7 then Some (True, unat (port - 0x1F0))
     else if 0x170 \<le> port \<and> port \<le> 0x177 then Some (False, unat (port - 0x170)) else None)"

definition set_chan :: "bool \<Rightarrow> (chan \<Rightarrow> chan) \<Rightarrow> ata \<Rightarrow> ata" where
  "set_chan b f s = s\<lparr>at_chan := (at_chan s)(b := f (at_chan s b))\<rparr>"

definition ata_command :: "bool \<Rightarrow> u8 \<Rightarrow> ata \<Rightarrow> ata" where
  "ata_command b cmd s = (let c = at_chan s b in
     if cmd = 0x20
     then set_chan b (\<lambda>c. c\<lparr>ch_out := pack (concat (map (at_img s b (chan_master c))
                                                     [chan_lba c ..< chan_lba c + chan_count c])), ch_left := 0\<rparr>) s
     else if cmd = 0x30 then set_chan b (\<lambda>c. c\<lparr>ch_in := [], ch_left := 256 * chan_count c, ch_out := []\<rparr>) s
     else s)"

definition ata_outb :: "u16 \<Rightarrow> u8 \<Rightarrow> ata \<Rightarrow> ata" where
  "ata_outb port v s = (case on_chan port of None \<Rightarrow> s
     | Some (b, r) \<Rightarrow> if r = 7 then ata_command b v s
                      else set_chan b (\<lambda>c. c\<lparr>ch_reg := (ch_reg c)(r := v)\<rparr>) s)"

definition ata_inb :: "u16 \<Rightarrow> ata \<Rightarrow> u8 \<times> ata" where
  "ata_inb port s = (case on_chan port of None \<Rightarrow> (0xFF, s)
     | Some (b, r) \<Rightarrow> if r = 7 then (if ch_out (at_chan s b) \<noteq> [] \<or> 0 < ch_left (at_chan s b) then 0x58 else 0x50, s)
                      else (ch_reg (at_chan s b) r, s))"

definition ata_inw :: "u16 \<Rightarrow> ata \<Rightarrow> u16 \<times> ata" where
  "ata_inw port s = (case on_chan port of
       Some (b, r) \<Rightarrow> (case ch_out (at_chan s b) of
            [] \<Rightarrow> (0, s) | w # ws \<Rightarrow> (w, set_chan b (\<lambda>c. c\<lparr>ch_out := ws\<rparr>) s))
     | None \<Rightarrow> (0, s))"

definition ata_commit :: "bool \<Rightarrow> ata \<Rightarrow> ata" where
  "ata_commit b s = (let c = at_chan s b; bytes = word_bytes (ch_in c) in
     s\<lparr>at_img := (\<lambda>b' m l. if b' = b \<and> m = chan_master c \<and> chan_lba c \<le> l \<and> l < chan_lba c + chan_count c
                           then take 512 (drop (512 * (l - chan_lba c)) bytes) else at_img s b' m l)\<rparr>)"

definition ata_outw :: "u16 \<Rightarrow> u16 \<Rightarrow> ata \<Rightarrow> ata" where
  "ata_outw port w s = (case on_chan port of None \<Rightarrow> s
     | Some (b, r) \<Rightarrow>
         if ch_left (at_chan s b) = 0 then s
         else let s = set_chan b (\<lambda>c. c\<lparr>ch_in := ch_in c @ [w], ch_left := ch_left c - 1\<rparr>) s
              in if ch_left (at_chan s b) = 0 then ata_commit b s else s)"

definition ata_ops :: "ata port_ops" where
  "ata_ops = \<lparr>outb = ata_outb, inb = ata_inb, inw = ata_inw, outw = ata_outw\<rparr>"

definition ata_good :: "ata \<Rightarrow> bool" where
  "ata_good s \<longleftrightarrow> (\<forall>b m l. length (at_img s b m l) = 512)"

section \<open>Words and bytes\<close>

lemma word_bytes_pack: "even (length bs) \<Longrightarrow> word_bytes (pack bs) = bs"
proof (induction bs rule: pack.induct)
  case (1 lo hi r)
  have "ucast (ucast lo OR push_bit 8 (ucast hi) :: u16) = lo"
    by (rule bit_word_eqI) (auto simp: bit_simps)
  moreover have "ucast (drop_bit 8 (ucast lo OR push_bit 8 (ucast hi) :: u16)) = hi"
    by (rule bit_word_eqI) (auto simp: bit_simps dest: bit_imp_le_length)
  ultimately show ?case using 1 by (simp add: word_bytes_def)
qed (simp_all add: word_bytes_def)

lemma length_pack: "length (pack bs) = length bs div 2"
  by (induction bs rule: pack.induct) simp_all

lemma length_word_bytes: "length (word_bytes ws) = 2 * length ws"
  by (induction ws) (simp_all add: word_bytes_def)

lemma word_bytes_append: "word_bytes (xs @ ys) = word_bytes xs @ word_bytes ys"
  by (simp add: word_bytes_def)

lemma length_concat_sectors: "(\<And>l. length (f l) = 512) \<Longrightarrow> length (concat (map f xs)) = 512 * length xs"
  by (induction xs) simp_all

section \<open>Ports\<close>

lemma on_chan_simps:
  "on_chan (pors ps) = Some (ps = PRIMARY, 0)" "on_chan (pors ps + 2) = Some (ps = PRIMARY, 2)"
  "on_chan (pors ps + 3) = Some (ps = PRIMARY, 3)" "on_chan (pors ps + 4) = Some (ps = PRIMARY, 4)"
  "on_chan (pors ps + 5) = Some (ps = PRIMARY, 5)" "on_chan (pors ps + 6) = Some (ps = PRIMARY, 6)"
  "on_chan (pors ps + 7) = Some (ps = PRIMARY, 7)"
  by (simp_all add: on_chan_def pors_def)

lemma set_chan_simps [simp]:
  "at_chan (set_chan b f s) b = f (at_chan s b)" "at_img (set_chan b f s) = at_img s"
  by (simp_all add: set_chan_def)

lemma ata_ops_simps [simp]:
  "outb ata_ops = ata_outb" "inb ata_ops = ata_inb" "inw ata_ops = ata_inw" "outw ata_ops = ata_outw"
  by (simp_all add: ata_ops_def)

lemma pata_wait_ready: "c AND 0x08 \<noteq> 0 \<Longrightarrow> 0 < n \<Longrightarrow> pata_wait ops port n c s = (True, s)"
  by (cases n) simp_all

section \<open>A command sets up the transfer\<close>

definition started :: "int \<Rightarrow> bool \<Rightarrow> u32 \<Rightarrow> nat \<Rightarrow> ata \<Rightarrow> ata" where
  \<comment> \<open>the registers before the command byte\<close>
  "started ps dr lba n s = set_chan (ps = PRIMARY) (\<lambda>c. c\<lparr>ch_reg := (ch_reg c)
      (6 := ucast (drop_bit 24 lba) OR (if dr then 0xe0 else 0xf0), 2 := of_nat n, 3 := ucast (lba AND 0xff),
       4 := ucast (drop_bit 8 lba), 5 := ucast (drop_bit 16 lba))\<rparr>) s"

lemma set_chan_set_chan: "set_chan b f (set_chan b g s) = set_chan b (f \<circ> g) s"
  by (simp add: set_chan_def fun_upd_def fun_eq_iff)

lemma set_chan_cong: "f (at_chan s b) = g (at_chan s b) \<Longrightarrow> set_chan b f s = set_chan b g s"
  by (simp add: set_chan_def)

lemma pata_command_eq:
  "pata_command ata_ops ps dr lba (int n) cmd s = ata_command (ps = PRIMARY) cmd (started ps dr lba n s)"
  by (simp add: pata_command_def Let_def ata_outb_def on_chan_simps set_chan_set_chan started_def comp_def)

definition lit_0f :: u8 where "lit_0f = 0x0F"
definition lit_e0 :: u8 where "lit_e0 = 0xe0"
definition lit_f0 :: u8 where "lit_f0 = 0xf0"
definition lit_ff :: u32 where "lit_ff = 0xff"

lemma bit_byte_cases:
  assumes "\<And>i. i < 8 \<Longrightarrow> bit (w :: u8) i \<longleftrightarrow> P i" and "\<And>i. P i \<Longrightarrow> i < 8"
  shows "bit w i \<longleftrightarrow> P i"
  using assms bit_imp_le_length [of w i] by auto

lemma less_8_cases: "i < 8 \<longleftrightarrow> i = 0 \<or> i = 1 \<or> i = 2 \<or> i = 3 \<or> i = 4 \<or> i = 5 \<or> i = 6 \<or> (i :: nat) = 7"
  by auto

lemma bit_lits:
  "bit lit_0f i \<longleftrightarrow> i < 4"
  "bit lit_e0 i \<longleftrightarrow> i = 5 \<or> i = 6 \<or> i = 7"
  "bit lit_f0 i \<longleftrightarrow> i = 4 \<or> i = 5 \<or> i = 6 \<or> i = 7"
proof -
  show "bit lit_0f i \<longleftrightarrow> i < 4" by (rule bit_byte_cases) (auto simp: less_8_cases lit_0f_def)
  show "bit lit_e0 i \<longleftrightarrow> i = 5 \<or> i = 6 \<or> i = 7" by (rule bit_byte_cases) (auto simp: less_8_cases lit_e0_def)
  show "bit lit_f0 i \<longleftrightarrow> i = 4 \<or> i = 5 \<or> i = 6 \<or> i = 7" by (rule bit_byte_cases) (auto simp: less_8_cases lit_f0_def)
qed

lemma bit_lit_ff: "bit lit_ff i \<longleftrightarrow> i < 8"
proof -
  have eq: "lit_ff = mask 8" by (simp add: lit_ff_def mask_eq_exp_minus_1)
  show ?thesis unfolding eq bit_mask_iff by auto
qed

lemmas lits = lit_0f_def [symmetric] lit_e0_def [symmetric] lit_f0_def [symmetric] lit_ff_def [symmetric]

lemma started_chan:
  assumes "unat lba < 2 ^ 28" and "0 < n" and "n < 256"
  shows "chan_lba (at_chan (started ps dr lba n s) (ps = PRIMARY)) = unat lba"
    and "chan_count (at_chan (started ps dr lba n s) (ps = PRIMARY)) = n"
    and "chan_master (at_chan (started ps dr lba n s) (ps = PRIMARY)) = dr"
proof -
  have hi: "\<not> bit lba i" if "28 \<le> i" for i
  proof -
    have "take_bit 28 (unat lba) = unat lba" using assms(1) by (simp add: take_bit_nat_eq_self)
    then have "take_bit 28 lba = lba" by (metis word_unat_eq_iff unsigned_take_bit_eq)
    then show ?thesis using that by (metis bit_take_bit_iff not_le)
  qed
  let ?r6 = "ucast (drop_bit 24 lba) OR (if dr then lit_e0 else lit_f0) :: u8"
  have "(ucast (ucast (lba AND lit_ff) :: u8) OR push_bit 8 (ucast (ucast (drop_bit 8 lba) :: u8)) OR
      push_bit 16 (ucast (ucast (drop_bit 16 lba) :: u8)) OR push_bit 24 (ucast (?r6 AND lit_0f)) :: u32) = lba"
  proof (rule bit_word_eqI)
    fix i assume "i < LENGTH(32)"
    then have i: "i < 32" by simp
    consider "i < 8" | "8 \<le> i" "i < 16" | "16 \<le> i" "i < 24" | "24 \<le> i" "i < 28" | "28 \<le> i" by linarith
    then show "bit (ucast (ucast (lba AND lit_ff) :: u8) OR push_bit 8 (ucast (ucast (drop_bit 8 lba) :: u8)) OR
      push_bit 16 (ucast (ucast (drop_bit 16 lba) :: u8)) OR push_bit 24 (ucast (?r6 AND lit_0f)) :: u32) i = bit lba i"
      by cases (use i hi in \<open>auto simp: bit_simps bit_lits bit_lit_ff\<close>)
  qed
  then show "chan_lba (at_chan (started ps dr lba n s) (ps = PRIMARY)) = unat lba"
    by (cases dr) (simp_all add: chan_lba_def started_def lits)
  have "unat (of_nat n :: u8) = n" using assms(3) by (simp add: unat_of_nat take_bit_nat_eq_self)
  then show "chan_count (at_chan (started ps dr lba n s) (ps = PRIMARY)) = n"
    using assms(2) by (auto simp: chan_count_def started_def)
  have "bit ?r6 4 \<longleftrightarrow> \<not> dr" using hi [of 28] by (simp add: bit_simps bit_lits)
  then show "chan_master (at_chan (started ps dr lba n s) (ps = PRIMARY)) = dr"
    by (cases dr) (simp_all add: chan_master_def started_def lits)
qed

section \<open>Reading\<close>

definition with_out :: "bool \<Rightarrow> u16 list \<Rightarrow> ata \<Rightarrow> ata" where
  "with_out b ws s = set_chan b (\<lambda>c. c\<lparr>ch_out := ws\<rparr>) s"

lemma with_out_simps [simp]:
  "ch_out (at_chan (with_out b ws s) b) = ws" "at_img (with_out b ws s) = at_img s"
  "with_out b ws (with_out b vs s) = with_out b ws s"
  by (simp_all add: with_out_def set_chan_set_chan comp_def)

lemma ata_good_with_out [simp]: "ata_good (with_out b ws s) = ata_good s"
  by (simp add: ata_good_def)

lemma read_words_eq:
  "n \<le> length ws \<Longrightarrow> read_words ata_ops (pors ps) n (with_out (ps = PRIMARY) ws s) =
     (take n ws, with_out (ps = PRIMARY) (drop n ws) s)"
proof (induction n arbitrary: ws)
  case (Suc n)
  then obtain w vs where ws: "ws = w # vs" by (cases ws) auto
  have "inw ata_ops (pors ps) (with_out (ps = PRIMARY) (w # vs) s) = (w, with_out (ps = PRIMARY) vs s)"
    by (simp add: ata_inw_def on_chan_simps) (simp add: with_out_def set_chan_set_chan comp_def)
  with Suc ws show ?case by simp
qed simp

lemma pata_read_loop_eq:
  "length ws = 256 * b \<Longrightarrow> pata_read_loop ata_ops ps b out (with_out (ps = PRIMARY) ws s) =
     (0, out @ word_bytes ws, with_out (ps = PRIMARY) [] s)"
proof (induction b arbitrary: ws out)
  case 0
  then show ?case by (simp add: word_bytes_def)
next
  case (Suc b)
  let ?s = "with_out (ps = PRIMARY) ws s"
  have "ws \<noteq> []" using Suc.prems by auto
  then have i: "ata_inb (pors ps + 7) ?s = (0x58, ?s)" by (simp add: ata_inb_def on_chan_simps)
  have w: "pata_wait ata_ops (pors ps + 7) 0x10000 0x58 ?s = (True, ?s)" by (rule pata_wait_ready) simp_all
  have r: "read_words ata_ops (pors ps) 256 ?s = (take 256 ws, with_out (ps = PRIMARY) (drop 256 ws) s)"
    by (rule read_words_eq) (use Suc.prems in simp)
  have "length (drop 256 ws) = 256 * b" using Suc.prems by simp
  from Suc.IH [OF this] show ?case
    by (simp add: i w r flip: word_bytes_append)
qed

lemma started_good [simp]: "ata_good (started ps dr lba n s) = ata_good s" "at_img (started ps dr lba n s) = at_img s"
  by (simp_all add: started_def ata_good_def)

lemma ata_read:
  assumes "ata_good s" and "0 < n" and "n < 256" and "unat lba + n \<le> 2 ^ 28"
  shows "\<exists>s'. pata_read_sector ata_ops s ps dr lba (int n) =
      (0, concat (map (at_img s (ps = PRIMARY) dr) [unat lba ..< unat lba + n]), s') \<and> ata_good s' \<and> at_img s' = at_img s"
proof -
  let ?bs = "concat (map (at_img s (ps = PRIMARY) dr) [unat lba ..< unat lba + n])"
  let ?s = "set_chan (ps = PRIMARY) (\<lambda>c. c\<lparr>ch_left := 0\<rparr>) (started ps dr lba n s)"
  have lb: "unat lba < 2 ^ 28" using assms(2,4) by simp
  have len: "length ?bs = 512 * n" using assms(1) length_concat_sectors [of "at_img s (ps = PRIMARY) dr"]
    by (simp add: ata_good_def)
  have "pata_command ata_ops ps dr lba (int n) 0x20 s = with_out (ps = PRIMARY) (pack ?bs) ?s"
    unfolding pata_command_eq using started_chan [OF lb assms(2,3), of ps dr s]
    by (simp add: ata_command_def Let_def with_out_def set_chan_set_chan comp_def) (rule set_chan_cong, simp)
  moreover have "length (pack ?bs) = 256 * n" using len by (simp add: length_pack)
  ultimately have "pata_read_sector ata_ops s ps dr lba (int n) =
      (0, word_bytes (pack ?bs), with_out (ps = PRIMARY) [] ?s)"
    using pata_read_loop_eq [of "pack ?bs" n ps "[]" ?s] by (simp add: pata_read_sector_def)
  moreover have "word_bytes (pack ?bs) = ?bs" using len by (intro word_bytes_pack) simp
  moreover have "ata_good (with_out (ps = PRIMARY) [] ?s)" using assms(1) by (simp add: ata_good_def)
  ultimately show ?thesis by auto
qed

section \<open>Writing\<close>

definition with_in :: "bool \<Rightarrow> u16 list \<Rightarrow> nat \<Rightarrow> ata \<Rightarrow> ata" where
  "with_in b ws n s = set_chan b (\<lambda>c. c\<lparr>ch_in := ws, ch_left := n\<rparr>) s"

lemma with_in_simps [simp]:
  "ch_in (at_chan (with_in b ws n s) b) = ws" "ch_left (at_chan (with_in b ws n s) b) = n"
  "at_img (with_in b ws n s) = at_img s"
  by (simp_all add: with_in_def)

lemma ata_outw_eq:
  "ata_outw (pors ps) w (with_in (ps = PRIMARY) ws (Suc n) s) =
     (if n = 0 then ata_commit (ps = PRIMARY) (with_in (ps = PRIMARY) (ws @ [w]) 0 s)
      else with_in (ps = PRIMARY) (ws @ [w]) n s)"
  by (simp add: ata_outw_def on_chan_simps Let_def) (simp add: with_in_def set_chan_set_chan comp_def)

lemma two_more: "length bs = 2 * Suc n \<Longrightarrow> \<exists>lo hi b'. bs = lo # hi # b' \<and> length b' = 2 * n"
  by (cases bs; cases "tl bs") auto

lemma write_words_eq:
  assumes "length bs = 2 * n" and "n < m"
  shows "write_words ata_ops (pors ps) n (bs @ r) (with_in (ps = PRIMARY) ws m s) =
           Some (r, with_in (ps = PRIMARY) (ws @ pack bs) (m - n) s)"
  using assms
proof (induction n arbitrary: bs ws m)
  case (Suc n)
  then obtain lo hi b' where b: "bs = lo # hi # b'" "length b' = 2 * n"
    using two_more [of bs n] by blast
  obtain m' where m: "m = Suc m'" "n < m'" using Suc.prems(2) by (cases m) auto
  with b Suc.IH [OF b(2) m(2)] show ?case by (simp add: ata_outw_eq)
qed simp

lemma write_words_last:
  assumes "length bs = 2 * Suc n"
  shows "write_words ata_ops (pors ps) (Suc n) (bs @ r) (with_in (ps = PRIMARY) ws (Suc n) s) =
           Some (r, ata_commit (ps = PRIMARY) (with_in (ps = PRIMARY) (ws @ pack bs) 0 s))"
  using assms
proof (induction n arbitrary: bs ws)
  case 0
  then obtain lo hi where "bs = [lo, hi]" by (auto simp: length_Suc_conv numeral_2_eq_2)
  then show ?case by (simp add: ata_outw_eq)
next
  case (Suc n)
  then obtain lo hi b' where b: "bs = lo # hi # b'" "length b' = 2 * Suc n"
    using two_more [of bs "Suc n"] by blast
  with Suc.IH [OF b(2)] show ?case by (simp add: ata_outw_eq)
qed

lemma pata_write_loop_eq:
  assumes "length bs = 512 * Suc b"
  shows "pata_write_loop ata_ops ps (Suc b) bs (with_in (ps = PRIMARY) ws (256 * Suc b) s) =
     Some (True, ata_commit (ps = PRIMARY) (with_in (ps = PRIMARY) (ws @ pack bs) 0 s))"
  using assms
proof (induction b arbitrary: bs ws)
  case 0
  let ?s = "with_in (ps = PRIMARY) ws 256 s"
  have i: "ata_inb (pors ps + 7) ?s = (0x58, ?s)" by (simp add: ata_inb_def on_chan_simps)
  have w: "pata_wait ata_ops (pors ps + 7) 0x10000 0x58 ?s = (True, ?s)" by (rule pata_wait_ready) simp_all
  show ?case using write_words_last [of bs 255 ps "[]" ws s] 0 by (simp add: i w)
next
  case (Suc b)
  let ?s = "with_in (ps = PRIMARY) ws (256 * Suc (Suc b)) s"
  have i: "ata_inb (pors ps + 7) ?s = (0x58, ?s)" by (simp add: ata_inb_def on_chan_simps)
  have w: "pata_wait ata_ops (pors ps + 7) 0x10000 0x58 ?s = (True, ?s)" by (rule pata_wait_ready) simp_all
  have l: "length (take 512 bs) = 2 * 256" "length (drop 512 bs) = 512 * Suc b" using Suc.prems by simp_all
  have "write_words ata_ops (pors ps) 256 bs ?s =
      Some (drop 512 bs, with_in (ps = PRIMARY) (ws @ pack (take 512 bs)) (256 * Suc b) s)"
    using write_words_eq [OF l(1), of "256 * Suc (Suc b)" ps "drop 512 bs" ws s] by simp
  moreover have "pack (take 512 bs) @ pack (drop 512 bs) = pack bs"
  proof -
    have "pack (xs @ ys) = pack xs @ pack ys" if "even (length xs)" for xs ys
      using that by (induction xs rule: pack.induct) simp_all
    from this [of "take 512 bs" "drop 512 bs"] l(1) show ?thesis by simp
  qed
  ultimately show ?case using Suc.IH [OF l(2), of "ws @ pack (take 512 bs)"]
    by (simp only: pata_write_loop.simps ata_ops_simps i w prod.case) simp
qed

lemma ata_write:
  assumes "ata_good s" and "0 < n" and "n < 256" and "unat lba + n \<le> 2 ^ 28" and "length buf = 512 * n"
  shows "\<exists>s'. pata_write_sector ata_ops s ps dr lba (int n) buf = Some (0, s') \<and> ata_good s' \<and>
      at_img s' = (\<lambda>ch' dr' l. if ch' = (ps = PRIMARY) \<and> dr' = dr \<and> unat lba \<le> l \<and> l < unat lba + n
                                then take 512 (drop (512 * (l - unat lba)) buf) else at_img s ch' dr' l)"
proof -
  let ?b = "ps = PRIMARY"
  let ?s0 = "started ps dr lba n s"
  let ?s = "set_chan ?b (\<lambda>c. c\<lparr>ch_out := []\<rparr>) ?s0"
  have lb: "unat lba < 2 ^ 28" using assms(2,4) by simp
  note st = started_chan [OF lb assms(2,3), of ps dr s]
  have c: "pata_command ata_ops ps dr lba (int n) 0x30 s = with_in ?b [] (256 * n) ?s"
    unfolding pata_command_eq using st
    by (simp add: ata_command_def Let_def with_in_def set_chan_set_chan comp_def) (rule set_chan_cong, simp)
  obtain b where b: "n = Suc b" using assms(2) by (cases n) auto
  define t where "t = ata_commit ?b (with_in ?b (pack buf) 0 ?s)"
  have loop: "pata_write_loop ata_ops ps n buf (with_in ?b [] (256 * n) ?s) = Some (True, t)"
    using pata_write_loop_eq [of buf b ps "[]" ?s] assms(5) unfolding b t_def by simp
  have wb: "word_bytes (pack buf) = buf" using assms(5) by (intro word_bytes_pack) simp
  have ch: "chan_lba (at_chan (with_in ?b (pack buf) 0 ?s) ?b) = unat lba"
    "chan_count (at_chan (with_in ?b (pack buf) 0 ?s) ?b) = n"
    "chan_master (at_chan (with_in ?b (pack buf) 0 ?s) ?b) = dr"
    using st by (simp_all add: with_in_def chan_lba_def chan_count_def chan_master_def split: if_splits)
  have img: "at_img t = (\<lambda>ch' dr' l. if ch' = ?b \<and> dr' = dr \<and> unat lba \<le> l \<and> l < unat lba + n
      then take 512 (drop (512 * (l - unat lba)) buf) else at_img s ch' dr' l)"
    using ch by (simp add: t_def ata_commit_def Let_def wb fun_eq_iff)
  have "512 \<le> length (drop (512 * (l - unat lba)) buf)" if "unat lba \<le> l" "l < unat lba + n" for l
  proof -
    define j where "j = l - unat lba"
    have "Suc j \<le> n" using that by (simp add: j_def)
    then have "512 * Suc j \<le> length buf" unfolding assms(5) by (rule mult_le_mono2)
    then show ?thesis by (simp add: j_def [symmetric])
  qed
  then have good: "ata_good t" using assms(1) by (auto simp: ata_good_def img)
  have "at_chan t ?b = at_chan (with_in ?b (pack buf) 0 ?s) ?b" by (simp add: t_def ata_commit_def Let_def)
  then have q: "ch_out (at_chan t ?b) = []" "ch_left (at_chan t ?b) = 0" by (simp_all add: with_in_def)
  have "pata_write_sector ata_ops s ps dr lba (int n) buf = Some (0, t)"
    using c loop q
    by (simp add: pata_write_sector_def ata_outb_def ata_command_def ata_inb_def on_chan_simps pata_flush.simps Let_def)
  with good img show ?thesis by blast
qed

interpretation ata: pata_device ata_ops ata_good at_img
proof (unfold_locales, goal_cases)
  case (1 s ch dr l)
  then show ?case by (simp add: ata_good_def)
next
  case (2 s n lba ps dr)
  then show ?case by (rule ata_read)
next
  case (3 s n lba buf ps dr)
  then show ?case by (rule ata_write)
qed

end
