(* ===== verification/Streamer.thy ===== *)
theory Streamer
  imports Disk Kheap Ata_Drive
begin

text \<open>
  Byte streams over a disk: \<^verbatim>\<open>src/src/disk/streamer.c\<close>. A stream reads and writes at a byte position through whole
  sectors. The lemmas in the context of \<open>pata_device\<close> hold for every device that keeps the promises of that locale.
\<close>

section \<open>State and operations\<close>

record disk_stream =
  ds_addr :: u32
  ds_pos :: int
  ds_disk :: disk

definition diskstreamer_new :: "kmem \<Rightarrow> disk list \<Rightarrow> int \<Rightarrow> (disk_stream option \<times> kmem) option" where
  "diskstreamer_new k disks disk_id = do {
     d \<leftarrow> disk_get disks disk_id;
     case d of
       None \<Rightarrow> Some (None, k)
     | Some d \<Rightarrow> do {
         (a, k) \<leftarrow> kzalloc k 8;
         if a = 0 then None else Some (Some \<lparr>ds_addr = a, ds_pos = 0, ds_disk = d\<rparr>, k)
       }
   }"

definition diskstreamer_seek :: "disk_stream \<Rightarrow> int \<Rightarrow> int \<times> disk_stream" where
  "diskstreamer_seek stream pos = (0, stream\<lparr>ds_pos := s32 pos\<rparr>)"

partial_function (option) diskstreamer_read ::
  "'s port_ops \<Rightarrow> 's \<Rightarrow> disk_stream \<Rightarrow> int \<Rightarrow> (int \<times> u8 list \<times> disk_stream \<times> 's) option" where
  \<comment> \<open>the second component of the result is what was stored at \<open>out\<close>; the position and its sums are \<open>int\<close>s\<close>
  "diskstreamer_read ops s stream n =
     (let sector = ds_pos stream sdiv 512;
          offset = ds_pos stream smod 512;
          overflow = s32 (offset + n) \<ge> 512;
          total_to_read = (if overflow then n - (s32 (offset + n) - 512) else n)
      in case disk_read_block ops s (ds_disk stream) (word_of_int sector) 1 of (res, buf, s) \<Rightarrow>
         if res < 0 then Some (res, [], stream, s)
         else if 0 < total_to_read \<and> (offset < 0 \<or> int (length buf) < offset + total_to_read) then None
         else let out = take (nat total_to_read) (drop (nat offset) buf);
                  stream = stream\<lparr>ds_pos := s32 (ds_pos stream + total_to_read)\<rparr>
              in if overflow
                 then do {
                   (res, rest, stream, s) \<leftarrow> diskstreamer_read ops s stream (n - total_to_read);
                   Some (res, out @ rest, stream, s)
                 }
                 else Some (res, out, stream, s))"

definition write_byte :: "'s port_ops \<Rightarrow> 's \<Rightarrow> disk_stream \<Rightarrow> u8 \<Rightarrow> 's option" where
  \<comment> \<open>the results of both transfers are ignored; a read that fails leaves the buffer uninitialised\<close>
  "write_byte ops s stream c =
     (case disk_read_block ops s (ds_disk stream) (word_of_int (ds_pos stream sdiv 512)) 1 of (_, buf, s) \<Rightarrow>
      if ds_pos stream smod 512 < 0 \<or> length buf \<noteq> 512 then None
      else do {
        buf \<leftarrow> wr buf (nat (ds_pos stream smod 512)) c;
        (_, s) \<leftarrow> disk_write_block ops s (ds_disk stream) (word_of_int (ds_pos stream sdiv 512)) 1 buf;
        Some s
      })"

fun diskstreamer_write_loop :: "'s port_ops \<Rightarrow> 's \<Rightarrow> disk_stream \<Rightarrow> u8 list \<Rightarrow> (disk_stream \<times> 's) option" where
  "diskstreamer_write_loop ops s stream [] = Some (stream, s)"
| "diskstreamer_write_loop ops s stream (c # buf) = do {
     s \<leftarrow> write_byte ops s stream c;
     diskstreamer_write_loop ops s (stream\<lparr>ds_pos := s32 (ds_pos stream + 1)\<rparr>) buf
   }"

definition diskstreamer_write ::
  "'s port_ops \<Rightarrow> 's \<Rightarrow> disk_stream \<Rightarrow> u8 list \<Rightarrow> int \<Rightarrow> (int \<times> disk_stream \<times> 's) option" where
  "diskstreamer_write ops s stream buffer n =
     (if int (length buffer) < n then None
      else do {
        (stream, s) \<leftarrow> diskstreamer_write_loop ops s stream (take (nat n) buffer);
        Some (int (nat n), stream, s)
      })"

definition diskstreamer_close :: "kmem \<Rightarrow> disk_stream \<Rightarrow> kmem option" where
  "diskstreamer_close k stream = kfree k (ds_addr stream)"

section \<open>Arithmetic of positions\<close>

lemma sdiv_smod_nat: "int p sdiv 512 = int (p div 512)" "int p smod 512 = int (p mod 512)"
  by (simp_all add: signed_divide_int_def signed_modulo_int_def sgn_if zdiv_int zmod_int)

lemma unat_sector:
  assumes "addressable d p"
  shows "unat (word_of_int (int (p div 512)) :: u32) = p div 512"
  using assms by (simp add: addressable_def unat_of_nat take_bit_nat_eq_self)

lemma addressable_mono: "addressable d p \<Longrightarrow> q \<le> p \<Longrightarrow> addressable d q"
  unfolding addressable_def using div_le_mono [of q p 512] by linarith

lemma addressable_s32:
  assumes "addressable d p"
  shows "s32 (int p) = int p"
  using assms s32_int [of p] by (simp add: addressable_def)

lemma diskstreamer_seek_ok: "addressable d (p + n) \<Longrightarrow> diskstreamer_seek st (int p) = (0, st\<lparr>ds_pos := int p\<rparr>)"
  using addressable_s32 [OF addressable_mono, of d "p + n" p] by (simp add: diskstreamer_seek_def)

lemma addressable_s32_offset:
  assumes "addressable d (p + n)"
  shows "s32 (int (p mod 512) + int n) = int (p mod 512) + int n"
proof -
  have "p mod 512 + n \<le> p + n" by simp
  with assms have "p mod 512 + n < 2 ^ 31" unfolding addressable_def by linarith
  from s32_int [OF this] show ?thesis by simp
qed

lemma map_byte_sector:
  assumes "length (sect img s d (p div 512)) = 512" and "p mod 512 + n \<le> 512"
  shows "map (disk_byte img s d) [p ..< p + n] = take n (drop (p mod 512) (sect img s d (p div 512)))"
proof (rule nth_equalityI)
  fix i assume "i < length (map (disk_byte img s d) [p ..< p + n])"
  then have i: "i < n" by simp
  have "p + i = p div 512 * 512 + (p mod 512 + i)" by simp
  moreover have "p mod 512 + i < 512" using i assms(2) by simp
  ultimately have "(p + i) div 512 = p div 512" "(p + i) mod 512 = p mod 512 + i"
    by (metis div_mult_self3 div_less add.right_neutral add.commute zero_neq_numeral, metis mod_mult_self3 mod_less)
  then show "map (disk_byte img s d) [p ..< p + n] ! i = take n (drop (p mod 512) (sect img s d (p div 512))) ! i"
    using i assms by (simp add: disk_byte_def)
qed (use assms in simp)

section \<open>Streams on a device\<close>

context pata_device
begin

lemma sect_length: "good s \<Longrightarrow> length (sect img s d l) = 512"
  by (simp add: sect_def img_length)

lemma read_sector_at:
  assumes "good s" and "usable d" and "addressable d p"
  shows "\<exists>s'. disk_read_block ops s d (word_of_int (int (p div 512))) 1 = (0, sect img s d (p div 512), s') \<and>
     good s' \<and> img s' = img s"
  using disk_read_block_sector [OF assms(1,2), of "word_of_int (int (p div 512))"] unat_sector [OF assms(3)] assms(3)
  by (simp add: addressable_def)

lemma same_image_bytes: "img s' = img s \<Longrightarrow> disk_byte img s' d = disk_byte img s d"
  by (simp add: disk_byte_def sect_def fun_eq_iff)

lemma diskstreamer_read_ok:
  assumes "good s" and "usable (ds_disk st)" and "ds_pos st = int p" and "addressable (ds_disk st) (p + n)"
  shows "\<exists>s'. diskstreamer_read ops s st (int n) =
      Some (0, map (disk_byte img s (ds_disk st)) [p ..< p + n], st\<lparr>ds_pos := int (p + n)\<rparr>, s') \<and>
      good s' \<and> img s' = img s"
  using assms
proof (induction n arbitrary: s st p rule: less_induct)
  case (less n)
  let ?d = "ds_disk st"
  have ad: "addressable ?d p" using addressable_mono [OF less.prems(4)] by simp
  obtain s1 where s1: "disk_read_block ops s ?d (word_of_int (int (p div 512))) 1 = (0, sect img s ?d (p div 512), s1)"
    "good s1" "img s1 = img s" using read_sector_at [OF less.prems(1,2) ad] by blast
  note len = sect_length [OF less.prems(1), of ?d "p div 512"]
  note so = addressable_s32_offset [OF less.prems(4)]
  have sn: "s32 (int p + int m) = int p + int m" if "m \<le> n" for m
    using addressable_s32 [OF addressable_mono [OF less.prems(4)], of "p + m"] that by simp
  show ?case
  proof (cases "512 \<le> p mod 512 + n")
    case False
    then have "map (disk_byte img s ?d) [p ..< p + n] = take n (drop (p mod 512) (sect img s ?d (p div 512)))"
      using map_byte_sector [OF len, of n] by simp
    with False s1 len show ?thesis
      by (simp add: diskstreamer_read.simps [of ops s] less.prems(3) sdiv_smod_nat Let_def so sn)
  next
    case True
    define m where "m = 512 - p mod 512"
    have m: "0 < m" "m \<le> n" "p mod 512 + m = 512" using True by (simp_all add: m_def)
    have "\<exists>s'. diskstreamer_read ops s1 (st\<lparr>ds_pos := int (p + m)\<rparr>) (int (n - m)) =
      Some (0, map (disk_byte img s1 ?d) [p + m ..< p + m + (n - m)], st\<lparr>ds_pos := int (p + m + (n - m))\<rparr>, s') \<and>
      good s' \<and> img s' = img s1"
      using less.IH [of "n - m" s1 "st\<lparr>ds_pos := int (p + m)\<rparr>" "p + m"] m s1 less.prems by simp
    then obtain s2 where s2: "diskstreamer_read ops s1 (st\<lparr>ds_pos := int (p + m)\<rparr>) (int n - int m) =
      Some (0, map (disk_byte img s ?d) [p + m ..< p + n], st\<lparr>ds_pos := int (p + n)\<rparr>, s2)" "good s2" "img s2 = img s"
      using m s1(3) same_image_bytes [OF s1(3)] by (auto simp: of_nat_diff)
    have seg: "map (disk_byte img s ?d) [p ..< p + m] = take m (drop (p mod 512) (sect img s ?d (p div 512)))"
      using map_byte_sector [OF len, of m] m by simp
    have sp: "[p ..< p + n] = [p ..< p + m] @ [p + m ..< p + n]" using m(2) upt_add_eq_append [of p "p + m" "n - m"] by simp
    have t: "int n - (int (p mod 512) + int n - 512) = int m" using m by simp
    show ?thesis
      using s1(1) s2 True len m unfolding sp map_append seg
      by (subst diskstreamer_read.simps)
        (simp add: less.prems(3) sdiv_smod_nat Let_def so sn t of_nat_mod [symmetric] del: of_nat_mod)
  qed
qed

lemma write_byte_ok:
  assumes "good s" and "usable (ds_disk st)" and "ds_pos st = int p" and "addressable (ds_disk st) p"
  shows "\<exists>s'. write_byte ops s st c = Some s' \<and> good s' \<and>
     (\<forall>q. disk_byte img s' (ds_disk st) q = (if q = p then c else disk_byte img s (ds_disk st) q)) \<and>
     (\<forall>ch dr l. (ch, dr, l) \<noteq> place (ds_disk st) (p div 512) \<longrightarrow> img s' ch dr l = img s ch dr l)"
proof -
  let ?d = "ds_disk st" and ?w = "word_of_int (int (p div 512)) :: u32"
  obtain s1 where s1: "disk_read_block ops s ?d ?w 1 = (0, sect img s ?d (p div 512), s1)" "good s1" "img s1 = img s"
    using read_sector_at [OF assms(1,2,4)] by blast
  note len = sect_length [OF assms(1), of ?d "p div 512"]
  let ?buf = "(sect img s ?d (p div 512))[p mod 512 := c]"
  have "unat ?w + 1 + unat (dk_offset ?d) \<le> 2 ^ 28" using assms(4) unat_sector [OF assms(4)] by (simp add: addressable_def)
  from disk_write_block_image [OF s1(2) assms(2) this, of ?buf] len
  obtain s2 where s2: "disk_write_block ops s1 ?d ?w 1 ?buf = Some (0, s2)" "good s2"
    "\<And>l. sect img s2 ?d l = (if l = p div 512 then ?buf else sect img s1 ?d l)"
    "\<And>ch dr l. (ch, dr, l) \<noteq> place ?d (p div 512) \<longrightarrow> img s2 ch dr l = img s1 ch dr l"
    using unat_sector [OF assms(4)] by auto
  have "disk_byte img s2 ?d q = (if q = p then c else disk_byte img s ?d q)" for q
  proof -
    have "q = p \<longleftrightarrow> q div 512 = p div 512 \<and> q mod 512 = p mod 512" by (metis div_mult_mod_eq)
    moreover have "sect img s1 ?d l = sect img s ?d l" for l using s1(3) by (simp add: sect_def)
    ultimately show ?thesis using len by (auto simp: disk_byte_def s2(3))
  qed
  moreover have "write_byte ops s st c = Some s2"
    using s1(1) s2(1) len by (simp add: write_byte_def assms(3) sdiv_smod_nat)
  ultimately show ?thesis using s2(2,4) s1(3) by simp
qed

lemma diskstreamer_write_loop_ok:
  assumes "good s" and "usable (ds_disk st)" and "ds_pos st = int p" and "addressable (ds_disk st) (p + length buf)"
  shows "\<exists>s'. diskstreamer_write_loop ops s st buf = Some (st\<lparr>ds_pos := int (p + length buf)\<rparr>, s') \<and> good s' \<and>
     (\<forall>q. disk_byte img s' (ds_disk st) q =
        (if p \<le> q \<and> q < p + length buf then buf ! (q - p) else disk_byte img s (ds_disk st) q)) \<and>
     (\<forall>ch dr l. (ch, dr, l) \<notin> (\<lambda>q. place (ds_disk st) (q div 512)) ` {p ..< p + length buf} \<longrightarrow>
        img s' ch dr l = img s ch dr l)"
  using assms
proof (induction buf arbitrary: s st p)
  case Nil
  then show ?case by (intro exI [of _ s]) auto
next
  case (Cons c buf)
  have "addressable (ds_disk st) p" using addressable_mono [OF Cons.prems(4)] by simp
  from write_byte_ok [OF Cons.prems(1-3) this] obtain s1 where s1: "write_byte ops s st c = Some s1" "good s1"
    "\<And>q. disk_byte img s1 (ds_disk st) q = (if q = p then c else disk_byte img s (ds_disk st) q)"
    "\<And>ch dr l. (ch, dr, l) \<noteq> place (ds_disk st) (p div 512) \<Longrightarrow> img s1 ch dr l = img s ch dr l" by blast
  let ?st = "st\<lparr>ds_pos := s32 (ds_pos st + 1)\<rparr>"
  have "usable (ds_disk ?st)" "ds_pos ?st = int (Suc p)" "addressable (ds_disk ?st) (Suc p + length buf)"
    using Cons.prems addressable_s32 [OF addressable_mono [OF Cons.prems(4)], of "Suc p"] by (simp_all add: add.commute)
  from Cons.IH [OF s1(2) this] obtain s2 where s2:
    "diskstreamer_write_loop ops s1 ?st buf = Some (?st\<lparr>ds_pos := int (Suc p + length buf)\<rparr>, s2)" "good s2"
    "\<And>q. disk_byte img s2 (ds_disk st) q =
       (if Suc p \<le> q \<and> q < Suc p + length buf then buf ! (q - Suc p) else disk_byte img s1 (ds_disk st) q)"
    "\<And>ch dr l. (ch, dr, l) \<notin> (\<lambda>q. place (ds_disk st) (q div 512)) ` {Suc p ..< Suc p + length buf} \<Longrightarrow>
       img s2 ch dr l = img s1 ch dr l" by auto
  have "disk_byte img s2 (ds_disk st) q =
      (if p \<le> q \<and> q < p + length (c # buf) then (c # buf) ! (q - p) else disk_byte img s (ds_disk st) q)" for q
    using s1(3) [of q] s2(3) [of q] by (auto simp: nth_Cons' Suc_le_eq)
  moreover have "img s2 ch dr l = img s ch dr l"
    if "(ch, dr, l) \<notin> (\<lambda>q. place (ds_disk st) (q div 512)) ` {p ..< p + length (c # buf)}" for ch dr l
  proof -
    have "{p ..< p + length (c # buf)} = insert p {Suc p ..< Suc p + length buf}" by auto
    with that s1(4) s2(4) show ?thesis by simp
  qed
  ultimately show ?case using s1(1) s2(1,2) by (simp del: image_insert)
qed

lemma diskstreamer_write_ok:
  assumes "good s" and "usable (ds_disk st)" and "ds_pos st = int p" and "addressable (ds_disk st) (p + length buf)"
  shows "\<exists>s'. diskstreamer_write ops s st buf (int (length buf)) =
        Some (int (length buf), st\<lparr>ds_pos := int (p + length buf)\<rparr>, s') \<and> good s' \<and>
     (\<forall>q. disk_byte img s' (ds_disk st) q =
        (if p \<le> q \<and> q < p + length buf then buf ! (q - p) else disk_byte img s (ds_disk st) q)) \<and>
     (\<forall>ch dr l. (ch, dr, l) \<notin> (\<lambda>q. place (ds_disk st) (q div 512)) ` {p ..< p + length buf} \<longrightarrow>
        img s' ch dr l = img s ch dr l)"
  using diskstreamer_write_loop_ok [OF assms] unfolding diskstreamer_write_def by force

end

section \<open>Properties\<close>

text \<open>a stream reads the bytes of the disk. On every device that keeps its promises, \<open>diskstreamer_read\<close> terminates and
  returns 0, delivers exactly the bytes at the stream's position, however they straddle sectors, advances the
  position by their number, and leaves the disk as it was.\<close>
theorem diskstreamer_read_bytes:
  assumes "pata_device ops good img" and "good s" and "usable (ds_disk st)" and "ds_pos st = int p"
    and "addressable (ds_disk st) (p + n)"
  shows "\<exists>s'. diskstreamer_read ops s st (int n) =
      Some (0, map (disk_byte img s (ds_disk st)) [p ..< p + n], st\<lparr>ds_pos := int (p + n)\<rparr>, s') \<and>
      good s' \<and> img s' = img s"
  by (rule pata_device.diskstreamer_read_ok [OF assms])

definition demo_disk :: disk where
  "demo_disk = zero_disk\<lparr>dk_dev := 3, dk_primary_secondary := PRIMARY, dk_master_slave := MASTER\<rparr>"

definition demo_ata :: ata where
  \<comment> \<open>every byte of sector \<open>l\<close> is \<open>l\<close>\<close>
  "demo_ata = \<lparr>at_chan = (\<lambda>_. \<lparr>ch_reg = (\<lambda>_. 0), ch_out = [], ch_in = [], ch_left = 0\<rparr>),
     at_img = (\<lambda>_ _ l. replicate 512 (of_nat l))\<rparr>"

lemma demo_ata_ready: "ata_good demo_ata" "usable demo_disk" "addressable demo_disk 4096"
  by (simp_all add: ata_good_def demo_ata_def usable_def demo_disk_def addressable_def zero_disk_def)

theorem diskstreamer_read_bytes_witness:
  "\<exists>s'. diskstreamer_read ata_ops demo_ata \<lparr>ds_addr = 0, ds_pos = 510, ds_disk = demo_disk\<rparr> 4 =
     Some (0, [0, 0, 1, 1], \<lparr>ds_addr = 0, ds_pos = 514, ds_disk = demo_disk\<rparr>, s') \<and> ata_good s' \<and> at_img s' = at_img demo_ata"
proof -
  let ?st = "\<lparr>ds_addr = 0, ds_pos = 510, ds_disk = demo_disk\<rparr>"
  have u: "usable (ds_disk ?st)" "ds_pos ?st = int 510" "addressable (ds_disk ?st) (510 + 4)"
    using demo_ata_ready addressable_mono [OF demo_ata_ready(3), of 514] by simp_all
  have "map (disk_byte at_img demo_ata demo_disk) [510 ..< 510 + 4] = [0, 0, 1, 1]"
    by (simp add: upt_rec disk_byte_def sect_def demo_ata_def demo_disk_def zero_disk_def)
  with diskstreamer_read_bytes [OF ata.pata_device_axioms demo_ata_ready(1) u] show ?thesis by simp
qed

text \<open>C25: what a stream writes is what it reads back. On every device that keeps its promises, and while the
  positions stay below 2 GB and within 28-bit addressing, \<open>diskstreamer_write\<close> changes exactly the bytes at the
  stream's position to those of the buffer: every other byte of the disk or partition is kept, and so is every sector
  of every drive that holds none of the written positions. After seeking back to the old position
  \<open>diskstreamer_read\<close> returns the buffer, leaves the stream behind it and changes no sector.\<close>
theorem diskstreamer_write_read_roundtrip:
  assumes "pata_device ops good img" and "good s" and "usable (ds_disk st)" and "ds_pos st = int p"
    and "addressable (ds_disk st) (p + length buf)"
  shows "\<exists>st' s' st'' s''. diskstreamer_write ops s st buf (int (length buf)) = Some (int (length buf), st', s') \<and>
      (\<forall>q. disk_byte img s' (ds_disk st) q =
         (if p \<le> q \<and> q < p + length buf then buf ! (q - p) else disk_byte img s (ds_disk st) q)) \<and>
      (\<forall>ch dr l. (ch, dr, l) \<notin> (\<lambda>q. place (ds_disk st) (q div 512)) ` {p ..< p + length buf} \<longrightarrow>
         img s' ch dr l = img s ch dr l) \<and>
      diskstreamer_read ops s' (snd (diskstreamer_seek st' (int p))) (int (length buf)) = Some (0, buf, st'', s'') \<and>
      ds_pos st'' = int (p + length buf) \<and> img s'' = img s'"
proof -
  from pata_device.diskstreamer_write_ok [OF assms] obtain s' where w:
    "diskstreamer_write ops s st buf (int (length buf)) = Some (int (length buf), st\<lparr>ds_pos := int (p + length buf)\<rparr>, s')"
    "good s'" "\<And>q. disk_byte img s' (ds_disk st) q =
         (if p \<le> q \<and> q < p + length buf then buf ! (q - p) else disk_byte img s (ds_disk st) q)"
    "\<forall>ch dr l. (ch, dr, l) \<notin> (\<lambda>q. place (ds_disk st) (q div 512)) ` {p ..< p + length buf} \<longrightarrow>
         img s' ch dr l = img s ch dr l" by blast
  let ?st = "st\<lparr>ds_pos := int p\<rparr>"
  have "usable (ds_disk ?st)" "ds_pos ?st = int p" "addressable (ds_disk ?st) (p + length buf)" using assms by simp_all
  from pata_device.diskstreamer_read_ok [OF assms(1) w(2) this] obtain s'' where
    "diskstreamer_read ops s' ?st (int (length buf)) =
      Some (0, map (disk_byte img s' (ds_disk st)) [p ..< p + length buf], ?st\<lparr>ds_pos := int (p + length buf)\<rparr>, s'')"
      "img s'' = img s'"
    by auto
  moreover have "map (disk_byte img s' (ds_disk st)) [p ..< p + length buf] = buf"
    by (rule nth_equalityI) (simp_all add: w(3))
  moreover have "s32 (int p) = int p" using addressable_s32 [OF addressable_mono [OF assms(5)], of p] by simp
  ultimately show ?thesis using w(1,3,4) by (simp add: diskstreamer_seek_def)
qed

theorem diskstreamer_write_read_roundtrip_witness:
  "\<exists>st' s' st'' s''. diskstreamer_write ata_ops demo_ata \<lparr>ds_addr = 0, ds_pos = 511, ds_disk = demo_disk\<rparr> [7, 8] 2 =
       Some (2, st', s') \<and>
     diskstreamer_read ata_ops s' (snd (diskstreamer_seek st' 511)) 2 = Some (0, [7, 8], st'', s'')"
proof -
  let ?st = "\<lparr>ds_addr = 0, ds_pos = 511, ds_disk = demo_disk\<rparr>"
  have u: "usable (ds_disk ?st)" "ds_pos ?st = int 511" "addressable (ds_disk ?st) (511 + length [7, 8 :: u8])"
    using demo_ata_ready addressable_mono [OF demo_ata_ready(3), of 513] by simp_all
  from diskstreamer_write_read_roundtrip [OF ata.pata_device_axioms demo_ata_ready(1) u] show ?thesis by auto
qed

end
