(* ===== verification/Rtc.thy ===== *)
theory Rtc
  imports Disk
begin

text \<open>
  The system clock, \<^verbatim>\<open>src/src/time/time.c\<close>: reading the CMOS clock through its two ports. The ports are the parameter \<open>'s port_ops\<close>
  of the disk driver. \<open>century_register\<close> is the constant 0, so the code that reads a century is never reached; the local
  variable \<open>century\<close> is then never assigned and its value is an argument of the model. Waiting loops that need not end are partial functions.
\<close>

section \<open>Operations\<close>

record date_time =
  dt_seconds :: u8
  dt_minutes :: u8
  dt_hours :: u8
  dt_day :: u8
  dt_month :: u8
  dt_year :: u32
  dt_century :: u8

definition CENTRAL :: int where "CENTRAL = - 6"
definition TIMEZONE :: u8 where "TIMEZONE = word_of_int CENTRAL"
definition RELEASE_YEAR :: u32 where "RELEASE_YEAR = 2023"

definition cmod_get_update_in_progress_flag :: "'s port_ops \<Rightarrow> 's \<Rightarrow> bool \<times> 's" where
  "cmod_get_update_in_progress_flag ops s =
     (case inb ops 0x71 (outb ops 0x70 0x0A s) of (v, s) \<Rightarrow> (v AND 0x80 \<noteq> 0, s))"

definition cmos_get_RTC_reg :: "'s port_ops \<Rightarrow> u8 \<Rightarrow> 's \<Rightarrow> u8 \<times> 's" where
  "cmos_get_RTC_reg ops reg s = inb ops 0x71 (outb ops 0x70 reg s)"

partial_function (option) wait_update :: "'s port_ops \<Rightarrow> 's \<Rightarrow> 's option" where
  "wait_update ops s =
     (case cmod_get_update_in_progress_flag ops s of (busy, s) \<Rightarrow> if busy then wait_update ops s else Some s)"

definition read_registers :: "'s port_ops \<Rightarrow> date_time \<Rightarrow> 's \<Rightarrow> date_time \<times> 's" where
  \<comment> \<open>the six assignments to \<open>now\<close>\<close>
  "read_registers ops now s =
     (case cmos_get_RTC_reg ops 0 s of (sec, s) \<Rightarrow>
      case cmos_get_RTC_reg ops 2 s of (mins, s) \<Rightarrow>
      case cmos_get_RTC_reg ops 4 s of (hours, s) \<Rightarrow>
      case cmos_get_RTC_reg ops 7 s of (day, s) \<Rightarrow>
      case cmos_get_RTC_reg ops 8 s of (month, s) \<Rightarrow>
      case cmos_get_RTC_reg ops 9 s of (year, s) \<Rightarrow>
        (now\<lparr>dt_seconds := sec, dt_minutes := mins, dt_hours := hours + TIMEZONE, dt_day := day,
             dt_month := month, dt_year := ucast year\<rparr>, s))"

definition conditions :: "date_time \<Rightarrow> date_time \<Rightarrow> u8 \<Rightarrow> bool" where
  "conditions last_time now century \<longleftrightarrow>
     dt_seconds last_time \<noteq> dt_seconds now \<or> dt_minutes last_time \<noteq> dt_minutes now \<or> dt_hours last_time \<noteq> dt_hours now \<or>
     dt_day last_time \<noteq> dt_day now \<or> dt_month last_time \<noteq> dt_month now \<or> dt_year last_time \<noteq> dt_year now \<or>
     dt_century last_time \<noteq> century"

partial_function (option) read_until_stable :: "'s port_ops \<Rightarrow> u8 \<Rightarrow> date_time \<Rightarrow> 's \<Rightarrow> (date_time \<times> 's) option" where
  "read_until_stable ops century now s = do {
     let last_time = now;
     s \<leftarrow> wait_update ops s;
     let (now, s) = read_registers ops now s;
     if conditions last_time now century then read_until_stable ops century now s else Some (now, s)
   }"

definition bcd :: "u8 \<Rightarrow> u8" where
  "bcd v = (v AND 0x0F) + (v div 16) * 10"

definition decode_bcd :: "date_time \<Rightarrow> date_time" where
  "decode_bcd now = now\<lparr>dt_seconds := bcd (dt_seconds now), dt_minutes := bcd (dt_minutes now),
     dt_hours := (((dt_hours now AND 0x0F) + ((dt_hours now AND 0x70) div 16) * 10) OR (dt_hours now AND 0x80)) + TIMEZONE,
     dt_day := bcd (dt_day now), dt_month := bcd (dt_month now),
     dt_year := (dt_year now AND 0x0F) + (dt_year now div 16) * 10\<rparr>"

definition decode_12_hours :: "date_time \<Rightarrow> date_time" where
  "decode_12_hours now = now\<lparr>dt_hours := ((dt_hours now AND 0x7F) + 12) mod 24 + TIMEZONE\<rparr>"

definition add_century :: "date_time \<Rightarrow> date_time" where
  "add_century now =
     (let year = dt_year now + (RELEASE_YEAR div 100) * 100
      in now\<lparr>dt_year := if year < RELEASE_YEAR then year + 100 else year\<rparr>)"

definition cmos_read_RTC :: "'s port_ops \<Rightarrow> u8 \<Rightarrow> date_time \<Rightarrow> 's \<Rightarrow> (date_time \<times> 's) option" where
  "cmos_read_RTC ops century now s = do {
     s \<leftarrow> wait_update ops s;
     let (now, s) = read_registers ops now s;
     (now, s) \<leftarrow> read_until_stable ops century now s;
     let (registerB, s) = cmos_get_RTC_reg ops 0xB s;
     let now = (if registerB AND 4 = 0 then decode_bcd now else now);
     let now = (if registerB AND 2 = 0 \<and> dt_hours now AND 0x80 \<noteq> 0 then decode_12_hours now else now);
     Some (add_century now, s)
   }"

section \<open>A clock whose registers do not change\<close>

definition still_clock :: "'s port_ops \<Rightarrow> ('s \<Rightarrow> bool) \<Rightarrow> (u8 \<Rightarrow> u8) \<Rightarrow> bool" where
  \<comment> \<open>register \<open>r\<close> always reads \<open>R r\<close> after it was selected, and no update is in progress\<close>
  "still_clock ops good R \<longleftrightarrow> R 0x0A AND 0x80 = 0 \<and>
     (\<forall>s r. good s \<longrightarrow> (\<exists>s'. inb ops 0x71 (outb ops 0x70 r s) = (R r, s') \<and> good s'))"

definition registers_of :: "(u8 \<Rightarrow> u8) \<Rightarrow> date_time \<Rightarrow> date_time" where
  "registers_of R now = now\<lparr>dt_seconds := R 0, dt_minutes := R 2, dt_hours := R 4 + TIMEZONE, dt_day := R 7,
     dt_month := R 8, dt_year := ucast (R 9)\<rparr>"

lemma clock_reg:
  assumes "still_clock ops good R" and "good s"
  obtains s' where "cmos_get_RTC_reg ops r s = (R r, s')" "good s'"
  using assms by (force simp: still_clock_def cmos_get_RTC_reg_def)

lemma clock_wait:
  assumes "still_clock ops good R" and "good s"
  obtains s' where "wait_update ops s = Some s'" "good s'"
proof -
  from clock_reg [OF assms, of "0x0A"] obtain s' where "inb ops 0x71 (outb ops 0x70 0x0A s) = (R 0x0A, s')" "good s'"
    by (auto simp: cmos_get_RTC_reg_def)
  moreover have "R 0x0A AND 0x80 = 0" using assms(1) by (simp add: still_clock_def)
  ultimately show ?thesis using that by (subst (asm) wait_update.simps) (simp add: cmod_get_update_in_progress_flag_def)
qed

lemma clock_registers:
  assumes "still_clock ops good R" and "good s"
  obtains s' where "read_registers ops now s = (registers_of R now, s')" "good s'"
proof -
  note reg = clock_reg [OF assms(1)]
  from reg [OF assms(2), of 0] obtain s1 where 1: "cmos_get_RTC_reg ops 0 s = (R 0, s1)" "good s1" .
  from reg [OF 1(2), of 2] obtain s2 where 2: "cmos_get_RTC_reg ops 2 s1 = (R 2, s2)" "good s2" .
  from reg [OF 2(2), of 4] obtain s3 where 3: "cmos_get_RTC_reg ops 4 s2 = (R 4, s3)" "good s3" .
  from reg [OF 3(2), of 7] obtain s4 where 4: "cmos_get_RTC_reg ops 7 s3 = (R 7, s4)" "good s4" .
  from reg [OF 4(2), of 8] obtain s5 where 5: "cmos_get_RTC_reg ops 8 s4 = (R 8, s5)" "good s5" .
  from reg [OF 5(2), of 9] obtain s6 where "cmos_get_RTC_reg ops 9 s5 = (R 9, s6)" "good s6" .
  with 1 2 3 4 5 show ?thesis using that by (simp add: read_registers_def registers_of_def)
qed

lemma registers_idem: "registers_of R (registers_of R now) = registers_of R now" "dt_century (registers_of R now) = dt_century now"
  by (simp_all add: registers_of_def)

lemma clock_stable:
  assumes "still_clock ops good R" and "good s" and "century = dt_century now" and "now = registers_of R now0"
  obtains s' where "read_until_stable ops century now s = Some (now, s')" "good s'"
proof -
  obtain s1 where 1: "wait_update ops s = Some s1" "good s1" using clock_wait [OF assms(1,2)] .
  obtain s2 where 2: "read_registers ops now s1 = (registers_of R now, s2)" "good s2" using clock_registers [OF assms(1) 1(2)] .
  have "registers_of R now = now" using assms(4) by (simp add: registers_idem)
  then show ?thesis using 1 2 that assms(3) by (subst (asm) read_until_stable.simps) (simp add: conditions_def)
qed

lemma read_until_stable_diverges:
  assumes "still_clock ops good R" and "century \<noteq> dt_century now" and "good s"
  shows "read_until_stable ops century now s = None"
proof (rule ccontr)
  assume "read_until_stable ops century now s \<noteq> None"
  then obtain r where "read_until_stable ops century now s = Some r" by auto
  then have "ops = ops \<longrightarrow> century = century \<longrightarrow> good s \<longrightarrow> century \<noteq> dt_century now \<longrightarrow> False"
  proof (rule read_until_stable.raw_induct [where P = "\<lambda>ops' c now s r. ops' = ops \<longrightarrow> c = century \<longrightarrow> good s \<longrightarrow> c \<noteq> dt_century now \<longrightarrow> False", rotated])
    fix f ops' c now s r
    assume IH: "\<And>ops' c now s r. f ops' c now s = Some r \<Longrightarrow> ops' = ops \<longrightarrow> c = century \<longrightarrow> good s \<longrightarrow> c \<noteq> dt_century now \<longrightarrow> False"
      and run: "do { let last_time = now; s \<leftarrow> wait_update ops' s; let (now, s) = read_registers ops' now s;
          if conditions last_time now c then f ops' c now s else Some (now, s) } = Some r"
    show "ops' = ops \<longrightarrow> c = century \<longrightarrow> good s \<longrightarrow> c \<noteq> dt_century now \<longrightarrow> False"
    proof (intro impI)
      assume *: "ops' = ops" "c = century" "good s" "c \<noteq> dt_century now"
      obtain s1 where 1: "wait_update ops s = Some s1" "good s1" using clock_wait [OF assms(1) *(3)] .
      obtain s2 where 2: "read_registers ops now s1 = (registers_of R now, s2)" "good s2" using clock_registers [OF assms(1) 1(2)] .
      have "conditions now (registers_of R now) c" using *(4) by (simp add: conditions_def)
      then have "f ops c (registers_of R now) s2 = Some r" using run 1 2 *(1) by simp
      from IH [OF this] 2(2) * show False by (simp add: registers_idem)
    qed
  qed
  with assms show False by blast
qed

section \<open>Properties\<close>

definition digits :: "nat \<Rightarrow> u8" where
  \<comment> \<open>a number below 100 in binary coded decimal\<close>
  "digits n = of_nat (16 * (n div 10) + n mod 10)"

lemma bcd_digits: "n < 100 \<Longrightarrow> bcd (digits n) = of_nat n" "n < 100 \<Longrightarrow> (ucast (digits n) AND 0x0F) + (ucast (digits n) div 16) * 10 = (of_nat n :: u32)"
proof -
  have "\<forall>n \<in> set [0 ..< 100]. bcd (digits n) = of_nat n \<and> (ucast (digits n) AND 0x0F) + (ucast (digits n) div 16) * 10 = (of_nat n :: u32)"
    by code_simp
  then show "n < 100 \<Longrightarrow> bcd (digits n) = of_nat n" "n < 100 \<Longrightarrow> (ucast (digits n) AND 0x0F) + (ucast (digits n) div 16) * 10 = (of_nat n :: u32)" by auto
qed

text \<open>C32: reading the clock ends and decodes the date. When the clock is not in the middle of an update, counts in binary coded decimal, and the
  unassigned variable \<open>century\<close> happens to equal the century stored so far, \<open>cmos_read_RTC\<close> returns; seconds, minutes, day and
  month are the numbers the digits stand for, and the year is the first one from 2023 on that ends in the two digits of the clock.\<close>
theorem cmos_read_RTC_date:
  assumes "still_clock ops good R" and "good s" and "century = dt_century now" and "R 0xB AND 4 = 0"
    and "R 0 = digits sec" and "R 2 = digits mi" and "R 7 = digits day" and "R 8 = digits month" and "R 9 = digits yy"
    and "sec < 60" and "mi < 60" and "day < 32" and "month < 13" and "yy < 100"
  shows "\<exists>now' s'. cmos_read_RTC ops century now s = Some (now', s') \<and> good s' \<and> dt_seconds now' = of_nat sec \<and>
     dt_minutes now' = of_nat mi \<and> dt_day now' = of_nat day \<and> dt_month now' = of_nat month \<and>
     dt_year now' = of_nat (if yy < 23 then 2100 + yy else 2000 + yy)"
proof -
  let ?n = "registers_of R now"
  obtain s1 where 1: "wait_update ops s = Some s1" "good s1" using clock_wait [OF assms(1,2)] .
  obtain s2 where 2: "read_registers ops now s1 = (?n, s2)" "good s2" using clock_registers [OF assms(1) 1(2)] .
  obtain s3 where 3: "read_until_stable ops century ?n s2 = Some (?n, s3)" "good s3"
    using clock_stable [OF assms(1) 2(2), of century ?n now] assms(3) by (auto simp: registers_idem)
  obtain s4 where 4: "cmos_get_RTC_reg ops 0xB s3 = (R 0xB, s4)" "good s4" using clock_reg [OF assms(1) 3(2)] .
  let ?d = "decode_bcd ?n"
  let ?h = "if R 0xB AND 2 = 0 \<and> dt_hours ?d AND 0x80 \<noteq> 0 then decode_12_hours ?d else ?d"
  have run: "cmos_read_RTC ops century now s = Some (add_century ?h, s4)"
    using 1 2 3 4 assms(4) by (simp add: cmos_read_RTC_def Let_def)
  have h: "dt_seconds ?h = of_nat sec" "dt_minutes ?h = of_nat mi" "dt_day ?h = of_nat day" "dt_month ?h = of_nat month"
    "dt_year ?h = of_nat yy"
    using assms(5-14) by (simp_all add: decode_bcd_def decode_12_hours_def registers_of_def bcd_digits)
  have "unat (of_nat (2000 + yy) :: u32) = 2000 + yy" 
    using assms(14) by (simp only: unat_of_nat) (simp add: take_bit_nat_eq_self)
  moreover have "(of_nat yy + 2000 :: u32) = of_nat (2000 + yy)" by simp
  ultimately have "(of_nat yy + 2000 :: u32) < 2023 \<longleftrightarrow> yy < 23" by (simp only: word_less_nat_alt) simp
  then have "dt_year (add_century ?h) = of_nat (if yy < 23 then 2100 + yy else 2000 + yy)"
    using h(5) by (simp add: add_century_def Let_def RELEASE_YEAR_def)
  moreover have "dt_seconds (add_century ?h) = dt_seconds ?h" "dt_minutes (add_century ?h) = dt_minutes ?h"
    "dt_day (add_century ?h) = dt_day ?h" "dt_month (add_century ?h) = dt_month ?h" by (simp_all add: add_century_def Let_def)
  ultimately show ?thesis using run h 4(2) by simp
qed

definition demo_clock :: "(u8 \<Rightarrow> u8) \<Rightarrow> u8 port_ops" where
  \<comment> \<open>a clock chip whose state is the selected register\<close>
  "demo_clock R = \<lparr>outb = (\<lambda>p v s. if p = 0x70 then v else s), inb = (\<lambda>p s. (R s, s)), inw = (\<lambda>p s. (0, s)), outw = (\<lambda>p v s. s)\<rparr>"

definition demo_regs :: "u8 \<Rightarrow> u8" where
  "demo_regs r = (if r = 0 then 0x59 else if r = 2 then 0x30 else if r = 7 then 0x24 else if r = 8 then 0x12 else if r = 9 then 0x23 else 0)"

lemma demo_clock_still: "still_clock (demo_clock demo_regs) (\<lambda>_. True) demo_regs"
  by (simp add: still_clock_def demo_clock_def demo_regs_def)

abbreviation demo_date :: date_time where
  "demo_date \<equiv> \<lparr>dt_seconds = 0, dt_minutes = 0, dt_hours = 0, dt_day = 0, dt_month = 0, dt_year = 0, dt_century = 0\<rparr>"

theorem cmos_read_RTC_date_witness:
  "\<exists>now' s'. cmos_read_RTC (demo_clock demo_regs) 0 demo_date 0 = Some (now', s') \<and> dt_seconds now' = 59 \<and> dt_day now' = 24 \<and>
     dt_month now' = 12 \<and> dt_year now' = 2023"
  using cmos_read_RTC_date [OF demo_clock_still, where s = 0 and century = 0 and now = demo_date and sec = 59 and mi = 30 and day = 24 and month = 12 and yy = 23]
  by (auto simp: demo_regs_def digits_def)

text \<open>C33: reading the clock can hang the kernel. The loop that waits for two equal readings also compares the stored century with the local
  variable \<open>century\<close>, which is never assigned because \<open>century_register\<close> is 0; when that variable happens to hold any other value the loop never
  ends, although the clock does not change.\<close>
theorem cmos_read_RTC_hangs:
  assumes "still_clock ops good R" and "good s" and "century \<noteq> dt_century now"
  shows "cmos_read_RTC ops century now s = None"
proof -
  obtain s1 where 1: "wait_update ops s = Some s1" "good s1" using clock_wait [OF assms(1,2)] .
  obtain s2 where 2: "read_registers ops now s1 = (registers_of R now, s2)" "good s2" using clock_registers [OF assms(1) 1(2)] .
  from read_until_stable_diverges [OF assms(1) _ 2(2)] assms(3) 1 2 show ?thesis
    by (simp add: cmos_read_RTC_def registers_idem)
qed

theorem cmos_read_RTC_hangs_witness: "cmos_read_RTC (demo_clock demo_regs) 20 demo_date 0 = None"
  using cmos_read_RTC_hangs [OF demo_clock_still, where s = 0 and century = 20 and now = demo_date] by simp

end
