(* ===== verification/Fat16.thy ===== *)
theory Fat16
  imports Streamer Rtc Kstring Pparser
begin

text \<open>
  The FAT16 file system, reading side: \<^verbatim>\<open>src/src/fs/fat/fat16.c\<close> with the structures and macros of
  \<^verbatim>\<open>fat16_common.h\<close>. The state \<open>fs\<close> holds the device, the kernel heap and the file system's private data, whose three streams are
  shared by all operations. Packed structures are read from and written to their bytes on the disk; a heap object is a
  record that carries its address. A pointer to a freed directory, which \<open>fat16_load_fat_directory\<close> can
  return, is the value \<open>Dangling\<close>; using it has no outcome.
\<close>

section \<open>Structures\<close>

record fat_header =
  h_sectors_per_cluster :: u8
  h_reserved_sectors :: u16
  h_fat_copies :: u8
  h_root_dir_entries :: u16
  h_sectors_per_fat :: u16
  h_sectors_big :: u32
  h_signature :: u8

definition fat_header_of_bytes :: "u8 list \<Rightarrow> fat_header" where
  \<comment> \<open>the packed structure \<open>fat_h\<close>, 62 bytes\<close>
  "fat_header_of_bytes bs = \<lparr>h_sectors_per_cluster = bs ! 13, h_reserved_sectors = le16 bs 14, h_fat_copies = bs ! 16,
     h_root_dir_entries = le16 bs 17, h_sectors_per_fat = le16 bs 22, h_sectors_big = le32 bs 32, h_signature = bs ! 38\<rparr>"

record fat_directory_item =
  di_filename :: "u8 list"
  di_ext :: "u8 list"
  di_attribute :: u8
  di_reserved :: u8
  di_creation_tenths :: u8
  di_creation_time :: u16
  di_creation_date :: u16
  di_last_access :: u16
  di_high_first_cluster :: u16
  di_last_mod_time :: u16
  di_last_mod_date :: u16
  di_low_first_cluster :: u16
  di_filesize :: u32

definition item_of_bytes :: "u8 list \<Rightarrow> fat_directory_item" where
  "item_of_bytes bs = \<lparr>di_filename = take 8 bs, di_ext = take 3 (drop 8 bs), di_attribute = bs ! 11, di_reserved = bs ! 12,
     di_creation_tenths = bs ! 13, di_creation_time = le16 bs 14, di_creation_date = le16 bs 16, di_last_access = le16 bs 18,
     di_high_first_cluster = le16 bs 20, di_last_mod_time = le16 bs 22, di_last_mod_date = le16 bs 24,
     di_low_first_cluster = le16 bs 26, di_filesize = le32 bs 28\<rparr>"

definition bytes_of_item :: "fat_directory_item \<Rightarrow> u8 list" where
  "bytes_of_item i = di_filename i @ di_ext i @ [di_attribute i, di_reserved i, di_creation_tenths i]
     @ bytes16 (di_creation_time i) @ bytes16 (di_creation_date i) @ bytes16 (di_last_access i)
     @ bytes16 (di_high_first_cluster i) @ bytes16 (di_last_mod_time i) @ bytes16 (di_last_mod_date i)
     @ bytes16 (di_low_first_cluster i) @ bytes32 (di_filesize i)"

record fat_directory =
  fd_addr :: u32
  fd_item_addr :: u32
  fd_item :: "fat_directory_item list"
  fd_total :: int
  fd_sector_pos :: int
  fd_ending_sector_pos :: int

datatype dir_ptr = Null | Dangling | Dir fat_directory

datatype fat_item =
    FileItem (fi_addr: u32) (fi_item_addr: u32) (fi_item: fat_directory_item)
  | DirItem (fi_addr: u32) (fi_directory: dir_ptr)

record fat_private =
  fp_addr :: u32
  fp_header :: fat_header
  fp_root_directory :: fat_directory
  fp_cluster_read_stream :: "disk_stream option"
  fp_fat_read_stream :: "disk_stream option"
  fp_directory_stream :: "disk_stream option"

record 's fs =
  f_dev :: 's
  f_k :: kmem
  f_private :: fat_private

record fat_file_descriptor =
  fdesc_addr :: u32
  fdesc_path :: "path_part list"
  fdesc_item :: fat_item
  fdesc_pos :: u32
  fdesc_mode :: u8

section \<open>Macros\<close>

definition fat16_sector_to_absolute :: "disk \<Rightarrow> int \<Rightarrow> int" where
  "fat16_sector_to_absolute d sector = s32 (sector * dk_sector_size d)"

definition fat16_get_first_cluster :: "fat_directory_item \<Rightarrow> int" where
  "fat16_get_first_cluster item = s32 (uint (di_high_first_cluster item) * 65536 + uint (di_low_first_cluster item))"

definition fat16_cluster_to_sector :: "fat_private \<Rightarrow> int \<Rightarrow> int" where
  "fat16_cluster_to_sector p cluster =
     fd_ending_sector_pos (fp_root_directory p) + (cluster - 2) * uint (h_sectors_per_cluster (fp_header p))"

definition size_of_cluster_bytes :: "disk \<Rightarrow> fat_private \<Rightarrow> int" where
  "size_of_cluster_bytes d p = uint (h_sectors_per_cluster (fp_header p)) * dk_sector_size d"

section \<open>Streams of the file system\<close>

definition fat_stream_read :: "'s port_ops \<Rightarrow> 's fs \<Rightarrow> int \<Rightarrow> int \<Rightarrow> (int \<times> u8 list \<times> 's fs) option" where
  \<comment> \<open>seek and read on \<open>fat_read_stream\<close>; a null stream is dereferenced\<close>
  "fat_stream_read ops f pos n = do {
     st \<leftarrow> fp_fat_read_stream (f_private f);
     (res, bs, st, dev) \<leftarrow> diskstreamer_read ops (f_dev f) (snd (diskstreamer_seek st pos)) n;
     Some (res, bs, f\<lparr>f_dev := dev, f_private := (f_private f)\<lparr>fp_fat_read_stream := Some st\<rparr>\<rparr>)
   }"

definition cluster_stream_read :: "'s port_ops \<Rightarrow> 's fs \<Rightarrow> int \<Rightarrow> int \<Rightarrow> (int \<times> u8 list \<times> 's fs) option" where
  "cluster_stream_read ops f pos n = do {
     st \<leftarrow> fp_cluster_read_stream (f_private f);
     (res, bs, st, dev) \<leftarrow> diskstreamer_read ops (f_dev f) (snd (diskstreamer_seek st pos)) n;
     Some (res, bs, f\<lparr>f_dev := dev, f_private := (f_private f)\<lparr>fp_cluster_read_stream := Some st\<rparr>\<rparr>)
   }"

definition directory_stream_seek :: "'s fs \<Rightarrow> int \<Rightarrow> 's fs option" where
  "directory_stream_seek f pos = do {
     st \<leftarrow> fp_directory_stream (f_private f);
     Some (f\<lparr>f_private := (f_private f)\<lparr>fp_directory_stream := Some (snd (diskstreamer_seek st pos))\<rparr>\<rparr>)
   }"

definition directory_stream_read :: "'s port_ops \<Rightarrow> 's fs \<Rightarrow> int \<Rightarrow> (int \<times> u8 list \<times> 's fs) option" where
  "directory_stream_read ops f n = do {
     st \<leftarrow> fp_directory_stream (f_private f);
     (res, bs, st, dev) \<leftarrow> diskstreamer_read ops (f_dev f) st n;
     Some (res, bs, f\<lparr>f_dev := dev, f_private := (f_private f)\<lparr>fp_directory_stream := Some st\<rparr>\<rparr>)
   }"

section \<open>Directories\<close>

partial_function (option) count_items :: "'s port_ops \<Rightarrow> 's fs \<Rightarrow> int \<Rightarrow> (int \<times> 's fs) option" where
  \<comment> \<open>the loop of \<open>fat16_get_total_items_for_directory\<close>, which ends at the first free entry\<close>
  "count_items ops f i = do {
     (res, bs, f) \<leftarrow> directory_stream_read ops f 32;
     if res \<noteq> SERPAEOS_ALL_OK then Some (- EIO, f)
     else if bs ! 0 = 0 then Some (i, f)
     else if bs ! 0 = 0xE5 then count_items ops f i
     else count_items ops f (i + 1)
   }"

definition fat16_get_total_items_for_directory :: "'s port_ops \<Rightarrow> disk \<Rightarrow> 's fs \<Rightarrow> int \<Rightarrow> (int \<times> 's fs) option" where
  "fat16_get_total_items_for_directory ops d f directory_start_sector = do {
     f \<leftarrow> directory_stream_seek f (s32 (directory_start_sector * dk_sector_size d));
     count_items ops f 0
   }"

definition items_of_bytes :: "u8 list \<Rightarrow> fat_directory_item list" where
  "items_of_bytes bs = map (\<lambda>i. item_of_bytes (take 32 (drop (32 * i) bs))) [0 ..< length bs div 32]"

definition fat16_get_root_directory :: "'s port_ops \<Rightarrow> disk \<Rightarrow> 's fs \<Rightarrow> (int \<times> 's fs) option" where
  \<comment> \<open>fills \<open>root_directory\<close> of the private data\<close>
  "fat16_get_root_directory ops d f = do {
     let h = fp_header (f_private f);
     let root_dir_sector_pos = uint (h_fat_copies h) * uint (h_sectors_per_fat h) + uint (h_reserved_sectors h);
     let root_dir_size = uint (h_root_dir_entries h) * 32;
     (total_items, f) \<leftarrow> fat16_get_total_items_for_directory ops d f root_dir_sector_pos;
     (a, k) \<leftarrow> kzalloc (f_k f) (word_of_int root_dir_size);
     let f = f\<lparr>f_k := k\<rparr>;
     if a = 0 then Some (- ENOMEM, f)
     else do {
       f \<leftarrow> directory_stream_seek f (fat16_sector_to_absolute d root_dir_sector_pos);
       (res, bs, f) \<leftarrow> directory_stream_read ops f root_dir_size;
       if res \<noteq> SERPAEOS_ALL_OK
       then do { k \<leftarrow> kfree (f_k f) a; Some (- EIO, f\<lparr>f_k := k\<rparr>) }
       else let dir = \<lparr>fd_addr = fd_addr (fp_root_directory (f_private f)), fd_item_addr = a, fd_item = items_of_bytes bs,
                       fd_total = total_items, fd_sector_pos = root_dir_sector_pos,
                       fd_ending_sector_pos = root_dir_sector_pos + root_dir_size sdiv dk_sector_size d\<rparr>
            in Some (0, f\<lparr>f_private := (f_private f)\<lparr>fp_root_directory := dir\<rparr>\<rparr>)
     }
   }"

section \<open>Names\<close>

fun fat16_to_proper_string :: "u8 list \<Rightarrow> u8 list \<Rightarrow> nat \<Rightarrow> u8 list option" where
  \<comment> \<open>what the loop appends at \<open>*out\<close>: the bytes of \<open>in\<close> left, those copied, and \<open>size - 1 - i\<close>\<close>
  "fat16_to_proper_string [] acc m = None"
| "fat16_to_proper_string (c # inp) acc m =
     (if c \<noteq> 0 \<and> c \<noteq> 0x20
      then case m of 0 \<Rightarrow> Some (acc @ [c]) | Suc m' \<Rightarrow> fat16_to_proper_string inp (acc @ [c]) m'
      else Some acc)"

definition fat16_get_full_relative_filename :: "fat_directory_item \<Rightarrow> nat \<Rightarrow> u8 list option" where
  \<comment> \<open>what \<open>out\<close> holds, a buffer of \<open>max_len\<close> bytes that is cleared first\<close>
  "fat16_get_full_relative_filename item max_len = do {
     name \<leftarrow> fat16_to_proper_string (di_filename item) [] 7;
     e \<leftarrow> rd (di_ext item) 0;
     full \<leftarrow> (if e \<noteq> 0 \<and> e \<noteq> 0x20
             then do { ext \<leftarrow> fat16_to_proper_string (di_ext item) [] 2; Some (name @ 46 # ext) }
             else Some name);
     if length full < max_len then Some (full @ replicate (max_len - length full) 0) else None
   }"

section \<open>Items\<close>

definition fat16_clone_directory_item :: "kmem \<Rightarrow> fat_directory_item \<Rightarrow> int \<Rightarrow> ((u32 \<times> fat_directory_item) option \<times> kmem) option" where
  "fat16_clone_directory_item k item n =
     (if n < 32 then Some (None, k)
      else do { (a, k) \<leftarrow> kzalloc k (word_of_int n); if a = 0 then Some (None, k) else Some (Some (a, item), k) })"

section \<open>The allocation table\<close>

definition fat16_get_fat_entry :: "'s port_ops \<Rightarrow> disk \<Rightarrow> 's fs \<Rightarrow> int \<Rightarrow> (int \<times> 's fs) option" where
  "fat16_get_fat_entry ops d f cluster =
     (if fp_fat_read_stream (f_private f) = None then Some (- 1, f)
      else do {
        let fat_table_position = uint (h_reserved_sectors (fp_header (f_private f))) * dk_sector_size d;
        (res, bs, f) \<leftarrow> fat_stream_read ops f (s32 (fat_table_position + cluster * 2)) 2;
        if res < 0 then Some (res, f) else Some (uint (le16 bs 0), f)
      })"

fun cluster_for_offset_loop :: "'s port_ops \<Rightarrow> disk \<Rightarrow> nat \<Rightarrow> int \<Rightarrow> 's fs \<Rightarrow> (int \<times> 's fs) option" where
  \<comment> \<open>the iterations left and \<open>cluster_to_use\<close>\<close>
  "cluster_for_offset_loop ops d 0 cluster_to_use f = Some (cluster_to_use, f)"
| "cluster_for_offset_loop ops d (Suc n) cluster_to_use f = do {
     (entry, f) \<leftarrow> fat16_get_fat_entry ops d f cluster_to_use;
     if entry = 0xFF8 \<or> entry = 0xFFF then Some (- EIO, f)
     else if entry = 0xFFF7 then Some (- EIO, f)
     else if entry = 0xFF0 \<or> entry = 0xFF6 then Some (- EIO, f)
     else if entry = 0 then Some (- EIO, f)
     else cluster_for_offset_loop ops d n entry f
   }"

definition fat16_get_cluster_for_offset :: "'s port_ops \<Rightarrow> disk \<Rightarrow> 's fs \<Rightarrow> int \<Rightarrow> int \<Rightarrow> (int \<times> 's fs) option" where
  "fat16_get_cluster_for_offset ops d f starting_cluster offset =
     (if size_of_cluster_bytes d (f_private f) = 0 then None
      else cluster_for_offset_loop ops d (nat (offset sdiv size_of_cluster_bytes d (f_private f))) starting_cluster f)"

partial_function (option) fat16_read_internal_from_stream ::
  "'s port_ops \<Rightarrow> disk \<Rightarrow> 's fs \<Rightarrow> int \<Rightarrow> int \<Rightarrow> int \<Rightarrow> (int \<times> u8 list \<times> 's fs) option" where
  \<comment> \<open>on the cluster stream; the second component of the result is what was stored at \<open>out\<close>\<close>
  "fat16_read_internal_from_stream ops d f cluster offset n = do {
     (cluster_to_use, f) \<leftarrow> fat16_get_cluster_for_offset ops d f cluster offset;
     if cluster_to_use < 0 then Some (cluster_to_use, [], f)
     else do {
       let cs = size_of_cluster_bytes d (f_private f);
       let starting_sector = fat16_cluster_to_sector (f_private f) cluster_to_use;
       let starting_pos = s32 (starting_sector * dk_sector_size d + offset smod cs);
       let total_to_read = (if n > cs then cs else n);
       (res, out, f) \<leftarrow> cluster_stream_read ops f starting_pos total_to_read;
       if res \<noteq> SERPAEOS_ALL_OK then Some (res, out, f)
       else if n - total_to_read > 0
       then do {
         (res, rest, f) \<leftarrow> fat16_read_internal_from_stream ops d f cluster (offset + total_to_read) (n - total_to_read);
         Some (res, out @ rest, f)
       }
       else Some (res, out, f)
     }
   }"

definition fat16_read_internal :: "'s port_ops \<Rightarrow> disk \<Rightarrow> 's fs \<Rightarrow> int \<Rightarrow> int \<Rightarrow> int \<Rightarrow> (int \<times> u8 list \<times> 's fs) option" where
  "fat16_read_internal ops d f starting_cluster offset n =
     fat16_read_internal_from_stream ops d f starting_cluster offset n"

section \<open>Looking up a path\<close>

definition fat16_free_directory :: "kmem \<Rightarrow> dir_ptr \<Rightarrow> kmem option" where
  "fat16_free_directory k p =
     (case p of
        Null \<Rightarrow> Some k
      | Dangling \<Rightarrow> None
      | Dir directory \<Rightarrow> do {
          k \<leftarrow> (if fd_item_addr directory \<noteq> 0 then kfree k (fd_item_addr directory) else Some k);
          kfree k (fd_addr directory)
        })"

definition fat16_fat_item_free :: "kmem \<Rightarrow> fat_item \<Rightarrow> kmem option" where
  "fat16_fat_item_free k item = do {
     k \<leftarrow> (case item of
             DirItem a p \<Rightarrow> fat16_free_directory k p
           | FileItem a ia i \<Rightarrow> kfree k ia);
     kfree k (fi_addr item)
   }"

definition FAT_FILE_READ_ONLY :: u8 where "FAT_FILE_READ_ONLY = 0x01"
definition FAT_FILE_SUBDIRECTORY :: u8 where "FAT_FILE_SUBDIRECTORY = 0x10"

definition empty_directory :: "u32 \<Rightarrow> fat_directory" where
  "empty_directory a = \<lparr>fd_addr = a, fd_item_addr = 0, fd_item = [], fd_total = 0, fd_sector_pos = 0, fd_ending_sector_pos = 0\<rparr>"

definition fat16_load_fat_directory :: "'s port_ops \<Rightarrow> disk \<Rightarrow> 's fs \<Rightarrow> fat_directory_item \<Rightarrow> (dir_ptr \<times> 's fs) option" where
  \<comment> \<open>on every error the directory is freed and its pointer returned all the same\<close>
  "fat16_load_fat_directory ops d f item =
     (if di_attribute item AND FAT_FILE_SUBDIRECTORY = 0 then Some (Null, f)
      else do {
        (a, k) \<leftarrow> kzalloc (f_k f) 16;
        let f = f\<lparr>f_k := k\<rparr>;
        if a = 0 then Some (Null, f)
        else do {
          let cluster = fat16_get_first_cluster item;
          let cluster_sector = fat16_cluster_to_sector (f_private f) cluster;
          (total_items, f) \<leftarrow> fat16_get_total_items_for_directory ops d f cluster_sector;
          let directory_size = total_items * 32;
          (ia, k) \<leftarrow> kzalloc (f_k f) (word_of_int directory_size);
          let f = f\<lparr>f_k := k\<rparr>;
          let dir = (empty_directory a)\<lparr>fd_item_addr := ia, fd_total := total_items\<rparr>;
          if ia = 0
          then do { k \<leftarrow> fat16_free_directory (f_k f) (Dir dir); Some (Dangling, f\<lparr>f_k := k\<rparr>) }
          else do {
            (res, bs, f) \<leftarrow> fat16_read_internal ops d f cluster 0 directory_size;
            if res \<noteq> SERPAEOS_ALL_OK
            then do { k \<leftarrow> fat16_free_directory (f_k f) (Dir dir); Some (Dangling, f\<lparr>f_k := k\<rparr>) }
            else Some (Dir (dir\<lparr>fd_item := items_of_bytes bs, fd_sector_pos := cluster_sector\<rparr>), f)
          }
        }
      })"

definition fat16_new_fat_item_for_directory_item ::
  "'s port_ops \<Rightarrow> disk \<Rightarrow> 's fs \<Rightarrow> fat_directory_item \<Rightarrow> (fat_item option \<times> 's fs) option" where
  \<comment> \<open>a clone that could not be allocated leaves a null item, which every caller dereferences\<close>
  "fat16_new_fat_item_for_directory_item ops d f item = do {
     (a, k) \<leftarrow> kzalloc (f_k f) 8;
     let f = f\<lparr>f_k := k\<rparr>;
     if a = 0 then Some (None, f)
     else if di_attribute item AND FAT_FILE_SUBDIRECTORY \<noteq> 0
     then do { (p, f) \<leftarrow> fat16_load_fat_directory ops d f item; Some (Some (DirItem a p), f) }
     else do {
       (c, k) \<leftarrow> fat16_clone_directory_item (f_k f) item 32;
       let f = f\<lparr>f_k := k\<rparr>;
       case c of None \<Rightarrow> None | Some (ia, i) \<Rightarrow> Some (Some (FileItem a ia i), f)
     }
   }"

fun find_entry_index :: "fat_directory_item list \<Rightarrow> u8 list \<Rightarrow> nat \<Rightarrow> nat \<Rightarrow> nat option option" where
  \<comment> \<open>the loop over the entries of a directory: iterations left and \<open>i\<close>\<close>
  "find_entry_index items name 0 i = Some None"
| "find_entry_index items name (Suc n) i = do {
     item \<leftarrow> rd items i;
     tmp_filename \<leftarrow> fat16_get_full_relative_filename item 108;
     r \<leftarrow> istrncmp tmp_filename name 108;
     if r = 0 then Some (Some i) else find_entry_index items name n (Suc i)
   }"

definition fat16_find_item_in_directory ::
  "'s port_ops \<Rightarrow> disk \<Rightarrow> 's fs \<Rightarrow> dir_ptr \<Rightarrow> u8 list \<Rightarrow> (fat_item option \<times> 's fs) option" where
  "fat16_find_item_in_directory ops d f p name =
     (case p of
        Null \<Rightarrow> None
      | Dangling \<Rightarrow> None
      | Dir directory \<Rightarrow> do {
          r \<leftarrow> find_entry_index (fd_item directory) name (nat (fd_total directory)) 0;
          case r of
            None \<Rightarrow> Some (None, f)
          | Some i \<Rightarrow> do { item \<leftarrow> rd (fd_item directory) i; fat16_new_fat_item_for_directory_item ops d f item }
        })"

definition fat16_find_entry_in_directory :: "fat_directory \<Rightarrow> u8 list \<Rightarrow> fat_directory_item option option" where
  "fat16_find_entry_in_directory dir name = do {
     r \<leftarrow> find_entry_index (fd_item dir) name (nat (fd_total dir)) 0;
     case r of None \<Rightarrow> Some None | Some i \<Rightarrow> map_option Some (rd (fd_item dir) i)
   }"

fun directory_entry_loop ::
  "'s port_ops \<Rightarrow> disk \<Rightarrow> 's fs \<Rightarrow> fat_item option \<Rightarrow> path_part list \<Rightarrow> (fat_item option \<times> 's fs) option" where
  \<comment> \<open>the loop of \<open>fat16_get_directory_entry\<close> over the parts behind the first; a null \<open>current_item\<close> is
      dereferenced when parts are left\<close>
  "directory_entry_loop ops d f current_item [] = Some (current_item, f)"
| "directory_entry_loop ops d f None (part # parts) = None"
| "directory_entry_loop ops d f (Some (FileItem a ia i)) (part # parts) = Some (None, f)"
| "directory_entry_loop ops d f (Some (DirItem a p)) (part # parts) = do {
     (tmp_item, f) \<leftarrow> fat16_find_item_in_directory ops d f p (pp_part part @ [0]);
     k \<leftarrow> fat16_fat_item_free (f_k f) (DirItem a p);
     directory_entry_loop ops d (f\<lparr>f_k := k\<rparr>) tmp_item parts
   }"

definition fat16_get_directory_entry ::
  "'s port_ops \<Rightarrow> disk \<Rightarrow> 's fs \<Rightarrow> path_part list \<Rightarrow> (fat_item option \<times> 's fs) option" where
  "fat16_get_directory_entry ops d f path =
     (case path of
        [] \<Rightarrow> None
      | part # parts \<Rightarrow> do {
          (root_item, f) \<leftarrow> fat16_find_item_in_directory ops d f (Dir (fp_root_directory (f_private f))) (pp_part part @ [0]);
          case root_item of
            None \<Rightarrow> Some (None, f)
          | Some item \<Rightarrow> directory_entry_loop ops d f (Some item) parts
        })"

definition fat16_get_parent_dir ::
  "'s port_ops \<Rightarrow> disk \<Rightarrow> 's fs \<Rightarrow> path_part list \<Rightarrow> (fat_item option \<times> 's fs) option" where
  \<comment> \<open>the list of parts is cut before its last one for the lookup and restored afterwards\<close>
  "fat16_get_parent_dir ops d f path =
     (case path of
        [] \<Rightarrow> Some (None, f)
      | [part] \<Rightarrow> do {
          (a, k) \<leftarrow> kzalloc (f_k f) 8;
          if a = 0 then None
          else Some (Some (DirItem a (Dir (fp_root_directory (f_private f)))), f\<lparr>f_k := k\<rparr>)
        }
      | _ \<Rightarrow> fat16_get_directory_entry ops d f (butlast path))"

section \<open>Descriptors\<close>

definition fat16_free_file_descriptor :: "kmem \<Rightarrow> fat_file_descriptor \<Rightarrow> kmem option" where
  "fat16_free_file_descriptor k desc = do {
     k \<leftarrow> fat16_fat_item_free k (fdesc_item desc);
     kfree k (fdesc_addr desc)
   }"

definition fat16_close :: "kmem \<Rightarrow> fat_file_descriptor \<Rightarrow> (int \<times> kmem) option" where
  "fat16_close k desc = do {
     (a, k) \<leftarrow> kzalloc k 8;
     if a = 0 then None
     else do {
       k \<leftarrow> pathparser_free k \<lparr>pr_addr = a, pr_drive_no = 0, pr_first = fdesc_path desc\<rparr>;
       k \<leftarrow> fat16_free_file_descriptor k desc;
       Some (0, k)
     }
   }"

definition fat16_ftell :: "fat_file_descriptor \<Rightarrow> int" where
  "fat16_ftell desc = sint (fdesc_pos desc)"

record filestat =
  st_flags :: u32
  st_filesize :: u32
  st_creation :: date_time
  st_last_access :: date_time

definition uninit_stat :: filestat where
  \<comment> \<open>stands for the unknown contents of a local \<open>file_stat\<close>; its callers read no field that the call has not set\<close>
  "uninit_stat =
     (let d = \<lparr>dt_seconds = 0, dt_minutes = 0, dt_hours = 0, dt_day = 0, dt_month = 0, dt_year = 0, dt_century = 0\<rparr>
      in \<lparr>st_flags = 0, st_filesize = 0, st_creation = d, st_last_access = d\<rparr>)"

definition fat16_stat :: "fat_file_descriptor \<Rightarrow> filestat \<Rightarrow> int \<times> filestat" where
  "fat16_stat descriptor stat =
     (case fdesc_item descriptor of
        DirItem a p \<Rightarrow> (- EINVARG, stat)
      | FileItem a ia ritem \<Rightarrow>
          (0, stat\<lparr>st_filesize := di_filesize ritem,
                   st_flags := (if di_attribute ritem AND FAT_FILE_READ_ONLY \<noteq> 0 then 1 else 0),
                   st_creation := (st_creation stat)\<lparr>
                     dt_seconds := ucast (di_creation_time ritem AND 0x1F) * 2,
                     dt_minutes := ucast (drop_bit 5 (di_creation_time ritem) AND 0x3F),
                     dt_hours := ucast (drop_bit 11 (di_creation_time ritem)),
                     dt_day := ucast (di_creation_date ritem AND 0x1F),
                     dt_month := ucast (drop_bit 5 (di_creation_date ritem) AND 0x0F),
                     dt_year := 1980 + ucast (drop_bit 9 (di_creation_date ritem))\<rparr>\<rparr>))"

fun fat16_read_loop ::
  "'s port_ops \<Rightarrow> disk \<Rightarrow> 's fs \<Rightarrow> fat_directory_item \<Rightarrow> int \<Rightarrow> nat \<Rightarrow> int \<Rightarrow> (int \<times> int \<times> u8 list \<times> 's fs) option" where
  \<comment> \<open>the iterations left and \<open>offset\<close>; the result is \<open>res\<close>, the last \<open>offset\<close> and the bytes stored\<close>
  "fat16_read_loop ops d f item sz 0 offset = Some (0, offset, [], f)"
| "fat16_read_loop ops d f item sz (Suc n) offset = do {
     (res, out, f) \<leftarrow> fat16_read_internal ops d f (fat16_get_first_cluster item) offset sz;
     if res < 0 then Some (res, offset, out, f)
     else do {
       (res', offset, rest, f) \<leftarrow> fat16_read_loop ops d f item sz n (offset + sz);
       Some (if n = 0 then res else res', offset, out @ rest, f)
     }
   }"

definition fat16_read ::
  "'s port_ops \<Rightarrow> disk \<Rightarrow> 's fs \<Rightarrow> fat_file_descriptor \<Rightarrow> u32 \<Rightarrow> u32 \<Rightarrow>
     (int \<times> u8 list \<times> fat_file_descriptor \<times> 's fs) option" where
  "fat16_read ops d f desc sz nmemb =
     (case fdesc_item desc of
        DirItem a p \<Rightarrow> None
      | FileItem a ia item \<Rightarrow> do {
          (res, offset, out, f) \<leftarrow> fat16_read_loop ops d f item (sint sz) (unat nmemb) (sint (fdesc_pos desc));
          Some (res, out, if res < 0 then desc else desc\<lparr>fdesc_pos := word_of_int offset\<rparr>, f)
        })"

definition SEEK_SET :: u32 where "SEEK_SET = 0"
definition SEEK_CUR :: u32 where "SEEK_CUR = 1"
definition SEEK_END :: u32 where "SEEK_END = 2"
definition SEEK_NEG :: u32 where "SEEK_NEG = 3"

lemmas seek_modes = SEEK_SET_def SEEK_CUR_def SEEK_END_def SEEK_NEG_def

definition fat16_seek :: "fat_file_descriptor \<Rightarrow> u32 \<Rightarrow> u32 \<Rightarrow> int \<times> fat_file_descriptor" where
  "fat16_seek desc offset seek_mode =
     (case fdesc_item desc of
        DirItem a p \<Rightarrow> (- EINVARG, desc)
      | FileItem a ia ritem \<Rightarrow>
          if offset \<ge> di_filesize ritem then (- EIO, desc)
          else if seek_mode = SEEK_SET then (0, desc\<lparr>fdesc_pos := offset\<rparr>)
          else if seek_mode = SEEK_END then (0, desc\<lparr>fdesc_pos := di_filesize ritem - offset\<rparr>)
          else if seek_mode = SEEK_CUR then (0, desc\<lparr>fdesc_pos := fdesc_pos desc + offset\<rparr>)
          else if seek_mode = SEEK_NEG then (0, desc\<lparr>fdesc_pos := fdesc_pos desc - offset\<rparr>)
          else (- EINVARG, desc))"

section \<open>Mounting\<close>

definition zero_header :: fat_header where
  "zero_header = \<lparr>h_sectors_per_cluster = 0, h_reserved_sectors = 0, h_fat_copies = 0, h_root_dir_entries = 0,
     h_sectors_per_fat = 0, h_sectors_big = 0, h_signature = 0\<rparr>"

definition fat16_init_private :: "kmem \<Rightarrow> disk list \<Rightarrow> disk \<Rightarrow> u32 \<Rightarrow> (fat_private \<times> kmem) option" where
  \<comment> \<open>the member \<open>root_directory\<close> lies 64 bytes into the structure\<close>
  "fat16_init_private k disks d a = do {
     (s1, k) \<leftarrow> diskstreamer_new k disks (dk_id d);
     (s2, k) \<leftarrow> diskstreamer_new k disks (dk_id d);
     (s3, k) \<leftarrow> diskstreamer_new k disks (dk_id d);
     Some (\<lparr>fp_addr = a, fp_header = zero_header, fp_root_directory = empty_directory (a + 64),
            fp_cluster_read_stream = s1, fp_fat_read_stream = s2, fp_directory_stream = s3\<rparr>, k)
   }"

definition fat16_resolve :: "'s port_ops \<Rightarrow> disk list \<Rightarrow> disk \<Rightarrow> 's \<Rightarrow> kmem \<Rightarrow> (int \<times> fat_private option \<times> 's \<times> kmem) option" where
  \<comment> \<open>the second component of the result is \<open>disk->fs_private\<close>; the three streams of a disk that is not
      FAT16 are not closed\<close>
  "fat16_resolve ops disks d dev k = do {
     (a, k) \<leftarrow> kzalloc k 92;
     if a = 0 then None
     else do {
       (p, k) \<leftarrow> fat16_init_private k disks d a;
       (stream, k) \<leftarrow> diskstreamer_new k disks (dk_id d);
       case stream of
         None \<Rightarrow> do { k \<leftarrow> kfree k a; Some (- ENOMEM, None, dev, k) }
       | Some st \<Rightarrow> do {
           (res, bs, st, dev) \<leftarrow> diskstreamer_read ops dev st 62;
           (res, p, dev, k) \<leftarrow>
             (if res \<noteq> SERPAEOS_ALL_OK then Some (- EIO, p, dev, k)
              else let p = p\<lparr>fp_header := fat_header_of_bytes bs\<rparr>
                   in if h_signature (fp_header p) \<noteq> 0x29 then Some (- ENOTUS, p, dev, k)
                      else do {
                        (r, f) \<leftarrow> fat16_get_root_directory ops d \<lparr>f_dev = dev, f_k = k, f_private = p\<rparr>;
                        Some (if r \<noteq> SERPAEOS_ALL_OK then - EIO else 0, f_private f, f_dev f, f_k f)
                      });
           k \<leftarrow> diskstreamer_close k st;
           if res < 0 then do { k \<leftarrow> kfree k a; Some (res, None, dev, k) }
           else Some (res, Some p, dev, k)
         }
     }
   }"

section \<open>What is on the disk\<close>

definition mounted :: "('s \<Rightarrow> bool) \<Rightarrow> disk \<Rightarrow> 's fs \<Rightarrow> bool" where
  \<comment> \<open>the file system has its three streams on the disk \<open>d\<close>, with a sane geometry\<close>
  "mounted good d f \<longleftrightarrow> good (f_dev f) \<and> usable d \<and> dk_sector_size d = 512 \<and>
     map_option ds_disk (fp_fat_read_stream (f_private f)) = Some d \<and>
     map_option ds_disk (fp_cluster_read_stream (f_private f)) = Some d \<and>
     map_option ds_disk (fp_directory_stream (f_private f)) = Some d \<and>
     0 < unat (h_sectors_per_cluster (fp_header (f_private f))) \<and>
     0 \<le> fd_ending_sector_pos (fp_root_directory (f_private f))"

definition unchanged :: "'s image \<Rightarrow> 's fs \<Rightarrow> 's fs \<Rightarrow> bool" where
  \<comment> \<open>only stream positions and the state of the device other than its data may differ\<close>
  "unchanged img f f' \<longleftrightarrow> img (f_dev f') = img (f_dev f) \<and> f_k f' = f_k f \<and>
     fp_header (f_private f') = fp_header (f_private f) \<and>
     fp_root_directory (f_private f') = fp_root_directory (f_private f) \<and> fp_addr (f_private f') = fp_addr (f_private f)"

definition cluster_bytes :: "'s fs \<Rightarrow> nat" where
  "cluster_bytes f = unat (h_sectors_per_cluster (fp_header (f_private f))) * 512"

definition fat_pos :: "'s fs \<Rightarrow> nat \<Rightarrow> nat" where
  "fat_pos f c = unat (h_reserved_sectors (fp_header (f_private f))) * 512 + c * 2"

definition fat_at :: "'s image \<Rightarrow> disk \<Rightarrow> 's fs \<Rightarrow> nat \<Rightarrow> nat" where
  "fat_at img d f c = unat (le16 [disk_byte img (f_dev f) d (fat_pos f c), disk_byte img (f_dev f) d (fat_pos f c + 1)] 0)"

definition data_pos :: "'s fs \<Rightarrow> nat \<Rightarrow> nat" where
  \<comment> \<open>the position of the first byte of a cluster\<close>
  "data_pos f c = (nat (fd_ending_sector_pos (fp_root_directory (f_private f))) +
     (c - 2) * unat (h_sectors_per_cluster (fp_header (f_private f)))) * 512"

definition stops_walk :: "nat \<Rightarrow> bool" where
  "stops_walk e \<longleftrightarrow> e \<in> {0xFF8, 0xFFF, 0xFFF7, 0xFF0, 0xFF6, 0}"

fun walk :: "(nat \<Rightarrow> nat) \<Rightarrow> nat \<Rightarrow> nat \<Rightarrow> nat option" where
  \<comment> \<open>follow so many links of a chain\<close>
  "walk fat 0 c = Some c"
| "walk fat (Suc n) c = (if stops_walk (fat c) then None else walk fat n (fat c))"

definition file_byte :: "'s image \<Rightarrow> disk \<Rightarrow> 's fs \<Rightarrow> nat \<Rightarrow> nat \<Rightarrow> u8" where
  \<comment> \<open>byte \<open>i\<close> of the file whose chain starts at \<open>c\<close>\<close>
  "file_byte img d f c i =
     disk_byte img (f_dev f) d (data_pos f (the (walk (fat_at img d f) (i div cluster_bytes f) c)) + i mod cluster_bytes f)"

definition on_disk :: "'s image \<Rightarrow> disk \<Rightarrow> 's fs \<Rightarrow> nat \<Rightarrow> nat \<Rightarrow> bool" where
  \<comment> \<open>the chain from \<open>c\<close> is long enough for byte \<open>i\<close>, and that byte lies in the reach of the driver\<close>
  "on_disk img d f c i \<longleftrightarrow> (\<exists>c'. walk (fat_at img d f) (i div cluster_bytes f) c = Some c' \<and> 2 \<le> c' \<and> c' < 65536 \<and>
     data_pos f c' + cluster_bytes f < 2 ^ 31 \<and> addressable d (data_pos f c' + cluster_bytes f))"

definition fat_reachable :: "disk \<Rightarrow> 's fs \<Rightarrow> bool" where
  "fat_reachable d f \<longleftrightarrow> addressable d (fat_pos f 65536)"

lemma unchanged_refl: "unchanged img f f"
  by (simp add: unchanged_def)

lemma unchanged_trans: "unchanged img f g \<Longrightarrow> unchanged img g h \<Longrightarrow> unchanged img f h"
  by (simp add: unchanged_def)

lemma unchanged_views:
  assumes "unchanged img f g"
  shows "cluster_bytes g = cluster_bytes f" "fat_pos g = fat_pos f" "fat_at img d g = fat_at img d f"
    "data_pos g = data_pos f" "file_byte img d g = file_byte img d f" "on_disk img d g = on_disk img d f"
    "fat_reachable d g = fat_reachable d f"
    "size_of_cluster_bytes d (f_private g) = size_of_cluster_bytes d (f_private f)"
    "fat16_cluster_to_sector (f_private g) = fat16_cluster_to_sector (f_private f)"
proof -
  have b: "disk_byte img (f_dev g) = disk_byte img (f_dev f)"
    using assms by (simp add: unchanged_def disk_byte_def sect_def fun_eq_iff)
  show c: "cluster_bytes g = cluster_bytes f" and p: "fat_pos g = fat_pos f"
    and "size_of_cluster_bytes d (f_private g) = size_of_cluster_bytes d (f_private f)"
    and "fat16_cluster_to_sector (f_private g) = fat16_cluster_to_sector (f_private f)"
    and dp: "data_pos g = data_pos f"
    using assms
    by (simp_all add: unchanged_def cluster_bytes_def fat_pos_def fun_eq_iff size_of_cluster_bytes_def
        fat16_cluster_to_sector_def data_pos_def)
  show a: "fat_at img d g = fat_at img d f" by (simp add: fat_at_def fun_eq_iff b p)
  show "file_byte img d g = file_byte img d f" by (simp add: file_byte_def fun_eq_iff a b c dp)
  show "on_disk img d g = on_disk img d f" by (simp add: on_disk_def fun_eq_iff a c dp)
  show "fat_reachable d g = fat_reachable d f" by (simp add: fat_reachable_def p)
qed

context pata_device
begin

lemma fat_stream_read_ok:
  assumes "mounted good d f" and "addressable d (p + n)"
  shows "\<exists>f'. fat_stream_read ops f (int p) (int n) = Some (0, map (disk_byte img (f_dev f) d) [p ..< p + n], f') \<and>
     mounted good d f' \<and> unchanged img f f'"
proof -
  obtain st where st: "fp_fat_read_stream (f_private f) = Some st" "ds_disk st = d"
    using assms(1) by (auto simp: mounted_def)
  let ?st = "st\<lparr>ds_pos := int p\<rparr>"
  have g: "good (f_dev f)" "usable (ds_disk ?st)" "ds_pos ?st = int p" "addressable (ds_disk ?st) (p + n)"
    using assms st by (simp_all add: mounted_def)
  from diskstreamer_read_ok [OF g] obtain s' where
    "diskstreamer_read ops (f_dev f) ?st (int n) =
       Some (0, map (disk_byte img (f_dev f) d) [p ..< p + n], ?st\<lparr>ds_pos := int (p + n)\<rparr>, s')" "good s'" "img s' = img (f_dev f)"
    using st by auto
  with st assms(1) show ?thesis
    by (auto simp: fat_stream_read_def diskstreamer_seek_ok [OF assms(2)] mounted_def unchanged_def)
qed

lemma cluster_stream_read_ok:
  assumes "mounted good d f" and "addressable d (p + n)"
  shows "\<exists>f'. cluster_stream_read ops f (int p) (int n) = Some (0, map (disk_byte img (f_dev f) d) [p ..< p + n], f') \<and>
     mounted good d f' \<and> unchanged img f f'"
proof -
  obtain st where st: "fp_cluster_read_stream (f_private f) = Some st" "ds_disk st = d"
    using assms(1) by (auto simp: mounted_def)
  let ?st = "st\<lparr>ds_pos := int p\<rparr>"
  have g: "good (f_dev f)" "usable (ds_disk ?st)" "ds_pos ?st = int p" "addressable (ds_disk ?st) (p + n)"
    using assms st by (simp_all add: mounted_def)
  from diskstreamer_read_ok [OF g] obtain s' where
    "diskstreamer_read ops (f_dev f) ?st (int n) =
       Some (0, map (disk_byte img (f_dev f) d) [p ..< p + n], ?st\<lparr>ds_pos := int (p + n)\<rparr>, s')" "good s'" "img s' = img (f_dev f)"
    using st by auto
  with st assms(1) show ?thesis
    by (auto simp: cluster_stream_read_def diskstreamer_seek_ok [OF assms(2)] mounted_def unchanged_def)
qed

lemma fat_pos_small: "c < 65536 \<Longrightarrow> fat_pos f c + 2 \<le> fat_pos f 65536 \<and> fat_pos f c < 2 ^ 31"
  using unat_u16_lt [of "h_reserved_sectors (fp_header (f_private f))"] by (simp add: fat_pos_def)

lemma fat16_get_fat_entry_ok:
  assumes "mounted good d f" and "fat_reachable d f" and "c < 65536"
  shows "\<exists>f'. fat16_get_fat_entry ops d f (int c) = Some (int (fat_at img d f c), f') \<and>
     mounted good d f' \<and> unchanged img f f'"
proof -
  note small = fat_pos_small [OF assms(3), of f]
  have "addressable d (fat_pos f c + 2)"
    using addressable_mono assms(2) small by (auto simp: fat_reachable_def)
  from fat_stream_read_ok [OF assms(1) this] obtain f' where
    r: "fat_stream_read ops f (int (fat_pos f c)) (int 2) =
      Some (0, map (disk_byte img (f_dev f) d) [fat_pos f c ..< fat_pos f c + 2], f')" "mounted good d f'" "unchanged img f f'"
    by blast
  have "s32 (uint (h_reserved_sectors (fp_header (f_private f))) * dk_sector_size d + int c * 2) = int (fat_pos f c)"
  proof -
    have "uint (h_reserved_sectors (fp_header (f_private f))) * dk_sector_size d + int c * 2 = int (fat_pos f c)"
      using assms(1) by (simp add: fat_pos_def mounted_def)
    then show ?thesis using s32_int small by simp
  qed
  moreover have "[fat_pos f c ..< fat_pos f c + 2] = [fat_pos f c, fat_pos f c + 1]" by (simp add: upt_rec)
  ultimately show ?thesis using r assms(1)
    by (auto simp: fat16_get_fat_entry_def mounted_def fat_at_def)
qed

lemma cluster_for_offset_loop_ok:
  assumes "mounted good d f" and "fat_reachable d f" and "c < 65536"
  shows "\<exists>f'. cluster_for_offset_loop ops d n (int c) f =
      Some (case walk (fat_at img d f) n c of None \<Rightarrow> - EIO | Some c' \<Rightarrow> int c', f') \<and>
     mounted good d f' \<and> unchanged img f f'"
  using assms
proof (induction n arbitrary: f c)
  case 0
  then show ?case by (auto intro: unchanged_refl)
next
  case (Suc n)
  obtain f1 where f1: "fat16_get_fat_entry ops d f (int c) = Some (int (fat_at img d f c), f1)"
    "mounted good d f1" "unchanged img f f1" using fat16_get_fat_entry_ok [OF Suc.prems] by blast
  note u = unchanged_views [OF f1(3)]
  let ?e = "fat_at img d f c"
  have e: "?e < 65536" unfolding fat_at_def by (rule unat_u16_lt)
  show ?case
  proof (cases "stops_walk ?e")
    case True
    then show ?thesis using f1 by (auto simp: stops_walk_def)
  next
    case False
    from Suc.IH [OF f1(2) _ e] Suc.prems(2) obtain f2 where f2:
      "cluster_for_offset_loop ops d n (int ?e) f1 = Some (case walk (fat_at img d f) n ?e of None \<Rightarrow> - EIO | Some c' \<Rightarrow> int c', f2)"
      "mounted good d f2" "unchanged img f1 f2" by (auto simp: u)
    with False f1 unchanged_trans [OF f1(3) f2(3)] show ?thesis by (auto simp: stops_walk_def)
  qed
qed

lemma size_of_cluster_bytes_nat:
  "mounted good d f \<Longrightarrow> size_of_cluster_bytes d (f_private f) = int (cluster_bytes f) \<and> 0 < cluster_bytes f"
  by (auto simp: mounted_def size_of_cluster_bytes_def cluster_bytes_def)

lemma sdiv_smod_int: "int a sdiv int b = int (a div b)" "int a smod int b = int (a mod b)"
  by (simp_all add: signed_divide_int_def signed_modulo_int_def sgn_if zdiv_int zmod_int)

lemma fat16_get_cluster_for_offset_ok:
  assumes "mounted good d f" and "fat_reachable d f" and "c < 65536"
  shows "\<exists>f'. fat16_get_cluster_for_offset ops d f (int c) (int i) =
      Some (case walk (fat_at img d f) (i div cluster_bytes f) c of None \<Rightarrow> - EIO | Some c' \<Rightarrow> int c', f') \<and>
     mounted good d f' \<and> unchanged img f f'"
proof -
  note cs = size_of_cluster_bytes_nat [OF assms(1)]
  have "nat (int i sdiv size_of_cluster_bytes d (f_private f)) = i div cluster_bytes f"
    using cs by (simp add: sdiv_smod_int)
  then show ?thesis using cluster_for_offset_loop_ok [OF assms] cs
    by (simp add: fat16_get_cluster_for_offset_def)
qed

lemma data_pos_int:
  assumes "mounted good d f" and "2 \<le> c"
  shows "fat16_cluster_to_sector (f_private f) (int c) * dk_sector_size d = int (data_pos f c)"
  using assms by (simp add: mounted_def fat16_cluster_to_sector_def data_pos_def of_nat_diff)

lemma map_file_bytes:
  assumes "on_disk img d f c i" and "walk (fat_at img d f) (i div cluster_bytes f) c = Some c'"
    and "i mod cluster_bytes f + n \<le> cluster_bytes f"
  shows "map (file_byte img d f c) [i ..< i + n] =
     map (disk_byte img (f_dev f) d) [data_pos f c' + i mod cluster_bytes f ..< data_pos f c' + i mod cluster_bytes f + n]"
proof (rule nth_equalityI)
  let ?cs = "cluster_bytes f"
  fix j assume "j < length (map (file_byte img d f c) [i ..< i + n])"
  then have j: "j < n" by simp
  have lt: "i mod ?cs + j < ?cs" using j assms(3) by simp
  then have pos: "0 < ?cs" by simp
  have "i + j = i div ?cs * ?cs + (i mod ?cs + j)" by simp
  then have "(i + j) div ?cs = i div ?cs" "(i + j) mod ?cs = i mod ?cs + j"
    using lt pos by (metis add.right_neutral div_less div_mult_self3 less_numeral_extra(3), metis lt mod_less mod_mult_self3)
  then show "map (file_byte img d f c) [i ..< i + n] ! j =
      map (disk_byte img (f_dev f) d) [data_pos f c' + i mod ?cs ..< data_pos f c' + i mod ?cs + n] ! j"
    using j assms(2) by (simp add: file_byte_def add.assoc)
qed simp

text \<open>One step of the read: a piece that lies in one cluster.\<close>

lemma read_piece:
  assumes "mounted good d f" and "fat_reachable d f" and "c < 65536" and "on_disk img d f c i"
    and "i mod cluster_bytes f + n \<le> cluster_bytes f"
  shows "\<exists>c' f1 f2. fat16_get_cluster_for_offset ops d f (int c) (int i) = Some (int c', f1) \<and>
    mounted good d f1 \<and> unchanged img f f1 \<and>
    cluster_stream_read ops f1 (s32 (fat16_cluster_to_sector (f_private f1) (int c') * dk_sector_size d +
        int i smod size_of_cluster_bytes d (f_private f1))) (int n) = Some (0, map (file_byte img d f c) [i ..< i + n], f2) \<and>
    mounted good d f2 \<and> unchanged img f f2"
proof -
  let ?cs = "cluster_bytes f"
  obtain c' where c': "walk (fat_at img d f) (i div ?cs) c = Some c'" "2 \<le> c'"
    "data_pos f c' + ?cs < 2 ^ 31" "addressable d (data_pos f c' + ?cs)"
    using assms(4) by (auto simp: on_disk_def)
  obtain f1 where f1: "fat16_get_cluster_for_offset ops d f (int c) (int i) = Some (int c', f1)"
    "mounted good d f1" "unchanged img f f1"
    using fat16_get_cluster_for_offset_ok [OF assms(1-3), of i] c'(1) by auto
  note u = unchanged_views [OF f1(3)]
  let ?p = "data_pos f c' + i mod ?cs"
  have "fat16_cluster_to_sector (f_private f1) (int c') * dk_sector_size d + int i smod size_of_cluster_bytes d (f_private f1) = int ?p"
    using data_pos_int [OF f1(2) c'(2)] size_of_cluster_bytes_nat [OF f1(2)] by (simp add: u sdiv_smod_int)
  moreover have "i mod ?cs < ?cs" using size_of_cluster_bytes_nat [OF assms(1)] by simp
  then have "?p < 2 ^ 31" using c'(3) by linarith
  ultimately have pos: "s32 (fat16_cluster_to_sector (f_private f1) (int c') * dk_sector_size d +
      int i smod size_of_cluster_bytes d (f_private f1)) = int ?p"
    by (simp only: s32_int)
  have "?p + n \<le> data_pos f c' + ?cs" using assms(5) by linarith
  then have "addressable d (?p + n)" by (rule addressable_mono [OF c'(4)])
  from cluster_stream_read_ok [OF f1(2) this] obtain f2 where
    f2: "cluster_stream_read ops f1 (int ?p) (int n) = Some (0, map (disk_byte img (f_dev f1) d) [?p ..< ?p + n], f2)"
      "mounted good d f2" "unchanged img f1 f2" by blast
  have "disk_byte img (f_dev f1) d = disk_byte img (f_dev f) d"
    by (rule same_image_bytes) (use f1(3) in \<open>simp add: unchanged_def\<close>)
  then have "map (disk_byte img (f_dev f1) d) [?p ..< ?p + n] = map (file_byte img d f c) [i ..< i + n]"
    using map_file_bytes [OF assms(4) c'(1) assms(5)] by simp
  with f2(1) pos have "cluster_stream_read ops f1 (s32 (fat16_cluster_to_sector (f_private f1) (int c') * dk_sector_size d +
      int i smod size_of_cluster_bytes d (f_private f1))) (int n) = Some (0, map (file_byte img d f c) [i ..< i + n], f2)"
    by (simp only:)
  with f1 f2(2) unchanged_trans [OF f1(3) f2(3)] show ?thesis by blast
qed

lemma fat16_read_one_piece:
  assumes "mounted good d f" and "fat_reachable d f" and "c < 65536" and "on_disk img d f c i"
    and "i mod cluster_bytes f + n \<le> cluster_bytes f"
  shows "\<exists>f'. fat16_read_internal ops d f (int c) (int i) (int n) = Some (0, map (file_byte img d f c) [i ..< i + n], f') \<and>
     mounted good d f' \<and> unchanged img f f'"
proof -
  from read_piece [OF assms] obtain c' f1 f2 where r:
    "fat16_get_cluster_for_offset ops d f (int c) (int i) = Some (int c', f1)" "mounted good d f1" "unchanged img f f1"
    "cluster_stream_read ops f1 (s32 (fat16_cluster_to_sector (f_private f1) (int c') * dk_sector_size d +
        int i smod size_of_cluster_bytes d (f_private f1))) (int n) = Some (0, map (file_byte img d f c) [i ..< i + n], f2)"
    "mounted good d f2" "unchanged img f f2" by blast
  have "\<not> int n > size_of_cluster_bytes d (f_private f1)"
    using size_of_cluster_bytes_nat [OF r(2)] unchanged_views(1) [OF r(3)] assms(5) by simp
  then show ?thesis using r(1,4,5,6)
    by (simp add: fat16_read_internal_def fat16_read_internal_from_stream.simps [of ops d f] SERPAEOS_ALL_OK_def Let_def)
qed

lemma fat16_read_aligned:
  assumes "mounted good d f" and "fat_reachable d f" and "c < 65536" and "i mod cluster_bytes f = 0"
    and "\<forall>j. i \<le> j \<and> j < i + n \<longrightarrow> on_disk img d f c j" and "0 < n"
  shows "\<exists>f'. fat16_read_internal ops d f (int c) (int i) (int n) = Some (0, map (file_byte img d f c) [i ..< i + n], f') \<and>
     mounted good d f' \<and> unchanged img f f'"
  using assms
proof (induction n arbitrary: f i rule: less_induct)
  case (less n)
  let ?cs = "cluster_bytes f"
  have od: "on_disk img d f c i" using less.prems(5,6) by simp
  show ?case
  proof (cases "n \<le> ?cs")
    case True
    then show ?thesis using fat16_read_one_piece [OF less.prems(1-3) od, of n] less.prems(4) by simp
  next
    case False
    have pos: "0 < ?cs" using size_of_cluster_bytes_nat [OF less.prems(1)] by simp
    from read_piece [OF less.prems(1-3) od, of ?cs] less.prems(4) obtain c' f1 f2 where r:
      "fat16_get_cluster_for_offset ops d f (int c) (int i) = Some (int c', f1)" "mounted good d f1" "unchanged img f f1"
      "cluster_stream_read ops f1 (s32 (fat16_cluster_to_sector (f_private f1) (int c') * dk_sector_size d +
          int i smod size_of_cluster_bytes d (f_private f1))) (int ?cs) = Some (0, map (file_byte img d f c) [i ..< i + ?cs], f2)"
      "mounted good d f2" "unchanged img f f2" by auto
    note u2 = unchanged_views [OF r(6)]
    have cs1: "size_of_cluster_bytes d (f_private f1) = int ?cs"
      using size_of_cluster_bytes_nat [OF r(2)] unchanged_views(1) [OF r(3)] by simp
    have "(i + ?cs) mod ?cs = 0" using less.prems(4) by simp
    moreover have "\<forall>j. i + ?cs \<le> j \<and> j < i + ?cs + (n - ?cs) \<longrightarrow> on_disk img d f c j" using less.prems(5) False by auto
    moreover have "0 < n - ?cs" "n - ?cs < n" using False pos by simp_all
    ultimately obtain f3 where f3: "fat16_read_internal ops d f2 (int c) (int (i + ?cs)) (int (n - ?cs)) =
        Some (0, map (file_byte img d f c) [i + ?cs ..< i + ?cs + (n - ?cs)], f3)" "mounted good d f3" "unchanged img f2 f3"
      using less.IH [of "n - ?cs" f2 "i + ?cs"] r(5) less.prems(2,3) by (auto simp: u2)
    have sp: "[i ..< i + n] = [i ..< i + ?cs] @ [i + ?cs ..< i + n]"
      using False upt_add_eq_append [of i "i + ?cs" "n - ?cs"] by simp
    have "fat16_read_internal_from_stream ops d f2 (int c) (int i + int ?cs) (int n - int ?cs) =
        Some (0, map (file_byte img d f c) [i + ?cs ..< i + n], f3)"
      using f3(1) False by (simp add: fat16_read_internal_def of_nat_diff)
    then have "fat16_read_internal ops d f (int c) (int i) (int n) = Some (0, map (file_byte img d f c) [i ..< i + n], f3)"
      unfolding fat16_read_internal_def
      using r(1,4) cs1 False by (subst fat16_read_internal_from_stream.simps) (simp add: SERPAEOS_ALL_OK_def Let_def sp)
    then show ?thesis using f3(2) unchanged_trans [OF r(6) f3(3)] by blast
  qed
qed

lemma fat16_read_straddles:
  assumes "mounted good d f" and "fat_reachable d f" and "c < 65536" and "on_disk img d f c i" and "n \<le> cluster_bytes f"
    and "walk (fat_at img d f) (i div cluster_bytes f) c = Some c'" and "addressable d (data_pos f c' + 2 * cluster_bytes f)"
  shows "\<exists>f'. fat16_read_internal ops d f (int c) (int i) (int n) =
      Some (0, map (disk_byte img (f_dev f) d)
                 [data_pos f c' + i mod cluster_bytes f ..< data_pos f c' + i mod cluster_bytes f + n], f') \<and>
     mounted good d f' \<and> unchanged img f f'"
proof -
  let ?cs = "cluster_bytes f"
  let ?p = "data_pos f c' + i mod ?cs"
  have c': "2 \<le> c'" "data_pos f c' + ?cs < 2 ^ 31" using assms(4,6) by (auto simp: on_disk_def)
  obtain f1 where f1: "fat16_get_cluster_for_offset ops d f (int c) (int i) = Some (int c', f1)"
    "mounted good d f1" "unchanged img f f1"
    using fat16_get_cluster_for_offset_ok [OF assms(1-3), of i] assms(6) by auto
  note u = unchanged_views [OF f1(3)]
  have cs1: "size_of_cluster_bytes d (f_private f1) = int ?cs" using size_of_cluster_bytes_nat [OF f1(2)] u(1) by simp
  have lt: "i mod ?cs < ?cs" using size_of_cluster_bytes_nat [OF assms(1)] by simp
  have "fat16_cluster_to_sector (f_private f1) (int c') * dk_sector_size d + int i smod int ?cs = int ?p"
    using data_pos_int [OF f1(2) c'(1)] by (simp add: u sdiv_smod_int)
  moreover have "?p < 2 ^ 31" using c'(2) lt by linarith
  ultimately have pos: "s32 (fat16_cluster_to_sector (f_private f1) (int c') * dk_sector_size d + int i smod int ?cs) = int ?p"
    by (simp only: s32_int)
  have "?p + n \<le> data_pos f c' + 2 * ?cs" using assms(5) lt by linarith
  then have "addressable d (?p + n)" by (rule addressable_mono [OF assms(7)])
  from cluster_stream_read_ok [OF f1(2) this] obtain f2 where
    f2: "cluster_stream_read ops f1 (int ?p) (int n) = Some (0, map (disk_byte img (f_dev f1) d) [?p ..< ?p + n], f2)"
      "mounted good d f2" "unchanged img f1 f2" by blast
  have b: "disk_byte img (f_dev f1) d = disk_byte img (f_dev f) d"
    by (rule same_image_bytes) (use f1(3) in \<open>simp add: unchanged_def\<close>)
  have "fat16_read_internal ops d f (int c) (int i) (int n) = Some (0, map (disk_byte img (f_dev f) d) [?p ..< ?p + n], f2)"
    unfolding fat16_read_internal_def
    using f1(1) f2(1) assms(5) by (subst fat16_read_internal_from_stream.simps) (simp add: SERPAEOS_ALL_OK_def Let_def cs1 pos b)
  then show ?thesis using f2(2) unchanged_trans [OF f1(3) f2(3)] by blast
qed

end

lemma fat16_read_once:
  assumes "fdesc_item desc = FileItem a ia item" and "fat16_get_first_cluster item = int c" and "unat (fdesc_pos desc) = i"
    and "i + n < 2 ^ 31" and "fat16_read_internal ops d f (int c) (int i) (int n) = Some (0, out, f')"
  shows "fat16_read ops d f desc (of_nat n) 1 = Some (0, out, desc\<lparr>fdesc_pos := of_nat (i + n)\<rparr>, f')"
proof -
  have "sint (fdesc_pos desc) = int i" using assms(3,4) sint_small [of "fdesc_pos desc"] by simp
  moreover have "n < 2 ^ 31" using assms(4) by simp
  then have "sint (of_nat n :: u32) = int n"
    using sint_small [of "of_nat n"] unat_of_nat_small [of n] by simp
  ultimately show ?thesis using assms(1,2,5) by (simp add: fat16_read_def)
qed

section \<open>Properties of reading\<close>

text \<open>reading a FAT16 file delivers its contents. On every device that keeps its promises, with the position at the start of a
  cluster (or the bytes asked for inside one cluster) and a chain that is long enough, \<open>fat16_read\<close> returns the bytes
  found by following the cluster chain, advances the position, and leaves the disk as it was.\<close>
theorem fat16_read_contents:
  assumes "pata_device ops good img" and "mounted good d f" and "fat_reachable d f"
    and "fdesc_item desc = FileItem a ia item" and "fat16_get_first_cluster item = int c" and "c < 65536"
    and "unat (fdesc_pos desc) = i" and "i + n < 2 ^ 31" and "0 < n"
    and "i mod cluster_bytes f = 0 \<or> i mod cluster_bytes f + n \<le> cluster_bytes f"
    and "\<forall>j. i \<le> j \<and> j < i + n \<longrightarrow> on_disk img d f c j"
  shows "\<exists>f'. fat16_read ops d f desc (of_nat n) 1 =
       Some (0, map (file_byte img d f c) [i ..< i + n], desc\<lparr>fdesc_pos := of_nat (i + n)\<rparr>, f') \<and>
     mounted good d f' \<and> unchanged img f f'"
proof -
  have od: "on_disk img d f c i" using assms(9,11) by simp
  have "\<exists>f'. fat16_read_internal ops d f (int c) (int i) (int n) = Some (0, map (file_byte img d f c) [i ..< i + n], f') \<and>
     mounted good d f' \<and> unchanged img f f'"
    using assms(10) pata_device.fat16_read_aligned [OF assms(1-3,6) _ assms(11,9)]
      pata_device.fat16_read_one_piece [OF assms(1-3,6) od, of n] by fast
  then show ?thesis using fat16_read_once [OF assms(4,5,7,8)] by blast
qed

definition demo_fat :: "u8 list" where
  \<comment> \<open>a table in which the file at cluster 2 goes on at cluster 4, its last\<close>
  "demo_fat = [0, 0, 0, 0, 4, 0, 0, 0, 0xFF, 0xFF] @ replicate 502 0"

definition demo_drive :: ata where
  \<comment> \<open>sector 1 holds the table; every other sector is filled with its number\<close>
  "demo_drive = demo_ata\<lparr>at_img := (\<lambda>_ _ l. if l = 1 then demo_fat else replicate 512 (of_nat l))\<rparr>"

definition demo_stream :: disk_stream where
  "demo_stream = \<lparr>ds_addr = 0, ds_pos = 0, ds_disk = demo_disk\<lparr>dk_sector_size := 512\<rparr>\<rparr>"

definition demo_fs :: "ata fs" where
  "demo_fs = \<lparr>f_dev = demo_drive, f_k = demo_k, f_private = \<lparr>fp_addr = 0,
     fp_header = zero_header\<lparr>h_sectors_per_cluster := 1, h_reserved_sectors := 1\<rparr>,
     fp_root_directory = (empty_directory 0)\<lparr>fd_ending_sector_pos := 3\<rparr>,
     fp_cluster_read_stream = Some demo_stream, fp_fat_read_stream = Some demo_stream,
     fp_directory_stream = Some demo_stream\<rparr>\<rparr>"

abbreviation demo_dsk :: disk where "demo_dsk \<equiv> demo_disk\<lparr>dk_sector_size := 512\<rparr>"

definition demo_file :: fat_directory_item where
  "demo_file = \<lparr>di_filename = [65, 32, 32, 32, 32, 32, 32, 32], di_ext = [84, 88, 84], di_attribute = 0, di_reserved = 0,
     di_creation_tenths = 0, di_creation_time = 0, di_creation_date = 0, di_last_access = 0, di_high_first_cluster = 0,
     di_last_mod_time = 0, di_last_mod_date = 0, di_low_first_cluster = 2, di_filesize = 1024\<rparr>"

definition demo_desc :: "u32 \<Rightarrow> fat_file_descriptor" where
  "demo_desc p = \<lparr>fdesc_addr = 0, fdesc_path = [], fdesc_item = FileItem 0 0 demo_file, fdesc_pos = p, fdesc_mode = 3\<rparr>"

lemma demo_fs_mounted: "mounted ata_good demo_dsk demo_fs" "fat_reachable demo_dsk demo_fs" "cluster_bytes demo_fs = 512"
proof -
  have "ata_good demo_drive" by (simp add: ata_good_def demo_drive_def demo_fat_def)
  moreover have "usable demo_dsk" by (simp add: usable_def demo_disk_def zero_disk_def)
  ultimately show "mounted ata_good demo_dsk demo_fs"
    by (simp add: mounted_def demo_fs_def demo_stream_def zero_header_def empty_directory_def)
  show "fat_reachable demo_dsk demo_fs"
    by (simp add: fat_reachable_def fat_pos_def demo_fs_def zero_header_def addressable_def demo_disk_def zero_disk_def)
  show "cluster_bytes demo_fs = 512" by (simp add: cluster_bytes_def demo_fs_def zero_header_def)
qed

lemma demo_byte:
  "disk_byte at_img (f_dev demo_fs) demo_dsk p = (if p div 512 = 1 then demo_fat ! (p mod 512) else of_nat (p div 512))"
  by (simp add: disk_byte_def sect_def demo_fs_def demo_drive_def demo_disk_def zero_disk_def)

lemma demo_data_pos: "data_pos demo_fs c = (3 + (c - 2)) * 512"
  by (simp add: data_pos_def demo_fs_def zero_header_def empty_directory_def)

lemma demo_walk: "walk (fat_at at_img demo_dsk demo_fs) (Suc 0) 2 = Some 4" "walk (fat_at at_img demo_dsk demo_fs) 0 2 = Some 2"
proof -
  have "fat_pos demo_fs 2 = 516" by (simp add: fat_pos_def demo_fs_def zero_header_def)
  then have "fat_at at_img demo_dsk demo_fs 2 = 4"
    by (simp add: fat_at_def demo_byte le16_def demo_fat_def nth_append nth_Cons')
  then show "walk (fat_at at_img demo_dsk demo_fs) (Suc 0) 2 = Some 4" by (simp add: stops_walk_def)
qed simp

lemma demo_on_disk: "i < 1024 \<Longrightarrow> on_disk at_img demo_dsk demo_fs 2 i"
proof -
  assume "i < 1024"
  then have "i div 512 = 0 \<or> i div 512 = Suc 0" by auto
  then show ?thesis
    using demo_walk by (auto simp: on_disk_def demo_fs_mounted(3) demo_data_pos addressable_def demo_disk_def zero_disk_def)
qed

lemma demo_first_cluster: "fdesc_item (demo_desc p) = FileItem 0 0 demo_file" "fat16_get_first_cluster demo_file = int 2"
  by (simp_all add: demo_desc_def fat16_get_first_cluster_def demo_file_def s32_id)

theorem fat16_read_contents_witness:
  "\<exists>f'. fat16_read ata_ops demo_dsk demo_fs (demo_desc 512) (of_nat 3) 1 = Some (0, [5, 5, 5], demo_desc 515, f') \<and>
     unchanged at_img demo_fs f'"
proof -
  have "\<forall>j. 512 \<le> j \<and> j < 512 + 3 \<longrightarrow> on_disk at_img demo_dsk demo_fs 2 j" using demo_on_disk by simp
  moreover have "map (file_byte at_img demo_dsk demo_fs 2) [512 ..< 512 + 3] = [5, 5, 5]"
    using demo_walk by (simp add: upt_rec file_byte_def demo_fs_mounted(3) demo_data_pos demo_byte)
  moreover have "demo_desc 512\<lparr>fdesc_pos := of_nat (512 + 3)\<rparr> = demo_desc 515" by (simp add: demo_desc_def)
  ultimately show ?thesis
    using fat16_read_contents [OF ata.pata_device_axioms demo_fs_mounted(1,2) demo_first_cluster, of 512 512 3]
    by (auto simp: demo_fs_mounted(3) demo_desc_def)
qed

text \<open>a read that starts inside a cluster and runs past its end ignores the chain: \<open>fat16_read\<close> returns the bytes that follow on
  the disk, of whatever cluster comes next there, instead of those of the next cluster of the file.\<close>
theorem fat16_read_leaves_chain:
  assumes "pata_device ops good img" and "mounted good d f" and "fat_reachable d f"
    and "fdesc_item desc = FileItem a ia item" and "fat16_get_first_cluster item = int c" and "c < 65536"
    and "unat (fdesc_pos desc) = i" and "i + n < 2 ^ 31" and "on_disk img d f c i" and "n \<le> cluster_bytes f"
    and "walk (fat_at img d f) (i div cluster_bytes f) c = Some c'" and "addressable d (data_pos f c' + 2 * cluster_bytes f)"
  shows "\<exists>f'. fat16_read ops d f desc (of_nat n) 1 =
       Some (0, map (disk_byte img (f_dev f) d)
                  [data_pos f c' + i mod cluster_bytes f ..< data_pos f c' + i mod cluster_bytes f + n],
             desc\<lparr>fdesc_pos := of_nat (i + n)\<rparr>, f')"
  using pata_device.fat16_read_straddles [OF assms(1-3,6,9-12)] fat16_read_once [OF assms(4,5,7,8)] by blast

theorem fat16_read_leaves_chain_witness:
  "\<exists>f'. fat16_read ata_ops demo_dsk demo_fs (demo_desc 510) (of_nat 4) 1 = Some (0, [3, 3, 4, 4], demo_desc 514, f') \<and>
     map (file_byte at_img demo_dsk demo_fs 2) [510 ..< 514] = [3, 3, 5, 5]"
proof -
  have "map (file_byte at_img demo_dsk demo_fs 2) [510 ..< 514] = [3, 3, 5, 5]"
    using demo_walk by (simp add: upt_rec file_byte_def demo_fs_mounted(3) demo_data_pos demo_byte)
  moreover have "map (disk_byte at_img (f_dev demo_fs) demo_dsk) [2046 ..< 2050] = [3, 3, 4, 4]"
    by (simp add: upt_rec demo_byte)
  moreover have "demo_desc 510\<lparr>fdesc_pos := of_nat (510 + 4)\<rparr> = demo_desc 514" by (simp add: demo_desc_def)
  moreover have "addressable demo_dsk (data_pos demo_fs 2 + 2 * cluster_bytes demo_fs)"
    by (simp add: demo_data_pos demo_fs_mounted(3) addressable_def demo_disk_def zero_disk_def)
  ultimately show ?thesis
    using fat16_read_leaves_chain [OF ata.pata_device_axioms demo_fs_mounted(1,2) demo_first_cluster, of 510 510 4 2]
      demo_on_disk [of 510] demo_walk(2)
    by (simp add: demo_fs_mounted(3) demo_data_pos demo_desc_def)
qed

text \<open>the end of a chain is not recognised when seeking in it. The kernel ends its chains with \<open>0xFFFF\<close> and treats every
  entry from \<open>0xFFF8\<close> as an end when writing, but \<open>fat16_get_cluster_for_offset\<close> compares with the 12-bit values; an offset in the
  cluster behind the last one yields the end mark itself as a cluster number instead of an error.\<close>
theorem fat16_walks_past_end:
  assumes "pata_device ops good img" and "mounted good d f" and "fat_reachable d f" and "c < 65536"
    and "fat_at img d f c = e" and "0xFFF8 \<le> e" and "i div cluster_bytes f = 1"
  shows "\<exists>f'. fat16_get_cluster_for_offset ops d f (int c) (int i) = Some (int e, f')"
proof -
  have "walk (fat_at img d f) (i div cluster_bytes f) c = Some e"
    using assms(5-7) by (simp add: stops_walk_def)
  then show ?thesis using pata_device.fat16_get_cluster_for_offset_ok [OF assms(1-4), of i] by auto
qed

theorem fat16_walks_past_end_witness:
  "\<exists>f'. fat16_get_cluster_for_offset ata_ops demo_dsk demo_fs (int 4) (int 512) = Some (int 0xFFFF, f')"
proof -
  have "fat_pos demo_fs 4 = 520" by (simp add: fat_pos_def demo_fs_def zero_header_def)
  then have "fat_at at_img demo_dsk demo_fs 4 = 0xFFFF"
    by (simp add: fat_at_def demo_byte le16_def demo_fat_def nth_append nth_Cons')
  from fat16_walks_past_end [OF ata.pata_device_axioms demo_fs_mounted(1,2) _ this, of 512] show ?thesis
    by (simp add: demo_fs_mounted(3))
qed

definition item_shape :: "fat_directory_item \<Rightarrow> bool" where
  "item_shape i \<longleftrightarrow> length (di_filename i) = 8 \<and> length (di_ext i) = 3"

lemma le16_at: "le16 (p @ bytes16 v @ r) (length p) = v"
  using le16_append [of p "bytes16 v @ r" 0] le16_bytes16 [of v r] by simp

lemma le32_at: "le32 (p @ bytes32 v @ r) (length p) = v"
proof -
  have "le32 (p @ bs) (length p) = le32 bs 0" for bs
    using le16_append [of p bs 0] le16_append [of p bs 2] by (simp add: le32_def numeral_2_eq_2)
  then show ?thesis by (simp add: le32_bytes32)
qed

lemma le16_at': "le16 (p @ bytes16 v @ r) n = v" if "length p = n"
  using le16_at that by blast

text \<open>a directory entry survives the disk. The 32 bytes written for an entry read back as the same entry.\<close>
theorem directory_item_roundtrip:
  assumes "item_shape i"
  shows "length (bytes_of_item i) = 32 \<and> item_of_bytes (bytes_of_item i @ r) = i"
proof -
  obtain n e where ne: "di_filename i = n" "di_ext i = e" "length n = 8" "length e = 3"
    using assms by (auto simp: item_shape_def)
  let ?h = "n @ e @ [di_attribute i, di_reserved i, di_creation_tenths i]"
  let ?c = "bytes16 (di_creation_time i)" and ?d = "bytes16 (di_creation_date i)" and ?a = "bytes16 (di_last_access i)"
    and ?hi = "bytes16 (di_high_first_cluster i)" and ?t = "bytes16 (di_last_mod_time i)"
    and ?m = "bytes16 (di_last_mod_date i)" and ?lo = "bytes16 (di_low_first_cluster i)" and ?s = "bytes32 (di_filesize i)"
  let ?b = "bytes_of_item i @ r"
  have b: "?b = ?h @ ?c @ ?d @ ?a @ ?hi @ ?t @ ?m @ ?lo @ ?s @ r" using ne by (simp add: bytes_of_item_def)
  have "le16 ?b 14 = di_creation_time i" unfolding b by (rule le16_at') (simp add: ne)
  moreover have "le16 ?b 16 = di_creation_date i"
    using le16_at' [of "?h @ ?c" 16 "di_creation_date i"] unfolding b by (simp add: ne)
  moreover have "le16 ?b 18 = di_last_access i"
    using le16_at' [of "?h @ ?c @ ?d" 18 "di_last_access i"] unfolding b by (simp add: ne)
  moreover have "le16 ?b 20 = di_high_first_cluster i"
    using le16_at' [of "?h @ ?c @ ?d @ ?a" 20 "di_high_first_cluster i"] unfolding b by (simp add: ne)
  moreover have "le16 ?b 22 = di_last_mod_time i"
    using le16_at' [of "?h @ ?c @ ?d @ ?a @ ?hi" 22 "di_last_mod_time i"] unfolding b by (simp add: ne)
  moreover have "le16 ?b 24 = di_last_mod_date i"
    using le16_at' [of "?h @ ?c @ ?d @ ?a @ ?hi @ ?t" 24 "di_last_mod_date i"] unfolding b by (simp add: ne)
  moreover have "le16 ?b 26 = di_low_first_cluster i"
    using le16_at' [of "?h @ ?c @ ?d @ ?a @ ?hi @ ?t @ ?m" 26 "di_low_first_cluster i"] unfolding b by (simp add: ne)
  moreover have "le32 ?b 28 = di_filesize i"
    using le32_at [of "?h @ ?c @ ?d @ ?a @ ?hi @ ?t @ ?m @ ?lo" "di_filesize i" r] unfolding b by (simp add: ne)
  moreover have "take 8 ?b = n" "take 3 (drop 8 ?b) = e" "?b ! 11 = di_attribute i" "?b ! 12 = di_reserved i"
    "?b ! 13 = di_creation_tenths i"
    unfolding b by (simp_all add: ne nth_append)
  ultimately have "item_of_bytes ?b = i" unfolding item_of_bytes_def by (simp add: ne(1,2) [symmetric])
  moreover have "length (bytes_of_item i) = 32" using ne by (simp add: bytes_of_item_def)
  ultimately show ?thesis by simp
qed

theorem directory_item_roundtrip_witness:
  "length (bytes_of_item demo_file) = 32 \<and> item_of_bytes (bytes_of_item demo_file @ [1]) = demo_file"
  by (rule directory_item_roundtrip) (simp add: item_shape_def demo_file_def)

end
