(* ===== verification/Vfs.thy ===== *)
theory Vfs
  imports Pparser Disk
begin

text \<open>
  The virtual file system: \<^verbatim>\<open>src/src/fs/file.c\<close>. A file system is the record of functions that \<^verbatim>\<open>struct filesystem\<close> is;
  they act on the kernel heap and on a state \<open>'w\<close> of their own (device, private data). A \<open>void *\<close> of a file system is an address;
  \<open>ISERR\<close> reads it as a signed number. File descriptors are numbered from 1; slot \<open>i\<close> of the table holds descriptor \<open>i + 1\<close>.
\<close>

section \<open>State\<close>

definition SERPAEOS_MAX_FILESYSTEMS :: nat where "SERPAEOS_MAX_FILESYSTEMS = 12"
definition SERPAEOS_MAX_FILE_DESCRIPTORS :: nat where "SERPAEOS_MAX_FILE_DESCRIPTORS = 512"

definition FILE_MODE_READ :: u8 where "FILE_MODE_READ = 1"
definition FILE_MODE_WRITE :: u8 where "FILE_MODE_WRITE = 2"
definition FILE_MODE_APPEND :: u8 where "FILE_MODE_APPEND = 4"
definition FILE_MODE_INVALID :: u8 where "FILE_MODE_INVALID = 0"

lemmas file_modes = FILE_MODE_READ_def FILE_MODE_WRITE_def FILE_MODE_APPEND_def FILE_MODE_INVALID_def

record ('w, 'st) filesystem =
  fsys_resolve :: "disk \<Rightarrow> kmem \<times> 'w \<Rightarrow> (int \<times> kmem \<times> 'w) option"
  fsys_open :: "disk \<Rightarrow> path_part list \<Rightarrow> u8 \<Rightarrow> kmem \<times> 'w \<Rightarrow> (u32 \<times> kmem \<times> 'w) option"
  fsys_read :: "disk \<Rightarrow> u32 \<Rightarrow> u32 \<Rightarrow> u32 \<Rightarrow> kmem \<times> 'w \<Rightarrow> (int \<times> u8 list \<times> kmem \<times> 'w) option"
  fsys_seek :: "u32 \<Rightarrow> u32 \<Rightarrow> u32 \<Rightarrow> kmem \<times> 'w \<Rightarrow> (int \<times> kmem \<times> 'w) option"
  fsys_stat :: "disk \<Rightarrow> u32 \<Rightarrow> 'st \<Rightarrow> kmem \<times> 'w \<Rightarrow> (int \<times> 'st \<times> kmem \<times> 'w) option"
  fsys_close :: "u32 \<Rightarrow> kmem \<times> 'w \<Rightarrow> (int \<times> kmem \<times> 'w) option"
  fsys_write :: "disk \<Rightarrow> u32 \<Rightarrow> u8 list \<Rightarrow> int \<Rightarrow> kmem \<times> 'w \<Rightarrow> (int \<times> kmem \<times> 'w) option"
  fsys_delete :: "disk \<Rightarrow> u32 \<Rightarrow> kmem \<times> 'w \<Rightarrow> (int \<times> kmem \<times> 'w) option"
  fsys_ftell :: "u32 \<Rightarrow> kmem \<times> 'w \<Rightarrow> int option"

record file_descriptor =
  fl_addr :: u32
  fl_index :: int
  fl_filesystem :: nat
  fl_private :: u32
  fl_disk :: disk
  fl_mode :: u8

record ('w, 'st) vfs =
  v_k :: kmem
  v_world :: 'w
  v_filesystems :: "('w, 'st) filesystem option list"
  v_descs :: "file_descriptor option list"
  v_disks :: "disk list"

definition iserr :: "u32 \<Rightarrow> bool" where
  "iserr v \<longleftrightarrow> sint v < 0"

section \<open>File systems\<close>

definition fs_get_free_filesystem :: "('w, 'st) vfs \<Rightarrow> nat option" where
  "fs_get_free_filesystem v = scan (\<lambda>x. x = None) 0 (v_filesystems v)"

definition fs_insert_filesystem :: "('w, 'st) vfs \<Rightarrow> ('w, 'st) filesystem \<Rightarrow> ('w, 'st) vfs option" where
  \<comment> \<open>a full table ends in \<open>while (1);\<close>\<close>
  "fs_insert_filesystem v filesystem =
     (case fs_get_free_filesystem v of
        None \<Rightarrow> None
      | Some i \<Rightarrow> Some (v\<lparr>v_filesystems := (v_filesystems v)[i := Some filesystem]\<rparr>))"

definition fs_load :: "('w, 'st) filesystem \<Rightarrow> ('w, 'st) filesystem \<Rightarrow> ('w, 'st) vfs \<Rightarrow> ('w, 'st) vfs option" where
  \<comment> \<open>with \<open>fs_static_load\<close>; the first two arguments are \<open>fat16_init()\<close> and \<open>fat32_init()\<close>\<close>
  "fs_load fat16 fat32 v = do {
     v \<leftarrow> fs_insert_filesystem (v\<lparr>v_filesystems := replicate SERPAEOS_MAX_FILESYSTEMS None\<rparr>) fat16;
     fs_insert_filesystem v fat32
   }"

definition fs_init :: "('w, 'st) filesystem \<Rightarrow> ('w, 'st) filesystem \<Rightarrow> ('w, 'st) vfs \<Rightarrow> ('w, 'st) vfs option" where
  "fs_init fat16 fat32 v =
     fs_load fat16 fat32 (v\<lparr>v_descs := replicate SERPAEOS_MAX_FILE_DESCRIPTORS None\<rparr>)"

fun fs_resolve_loop :: "('w, 'st) filesystem option list \<Rightarrow> nat \<Rightarrow> disk \<Rightarrow> kmem \<times> 'w \<Rightarrow> (nat option \<times> kmem \<times> 'w) option" where
  "fs_resolve_loop [] i d w = Some (None, w)"
| "fs_resolve_loop (None # fss) i d w = fs_resolve_loop fss (Suc i) d w"
| "fs_resolve_loop (Some fs # fss) i d w = do {
     (r, w) \<leftarrow> fsys_resolve fs d w;
     if r = 0 then Some (Some i, w) else fs_resolve_loop fss (Suc i) d w
   }"

definition fs_resolve :: "('w, 'st) vfs \<Rightarrow> disk \<Rightarrow> (nat option \<times> ('w, 'st) vfs) option" where
  \<comment> \<open>the message for a disk without a file system is part of the boot sequence\<close>
  "fs_resolve v d = do {
     (i, k, w) \<leftarrow> fs_resolve_loop (v_filesystems v) 0 d (v_k v, v_world v);
     Some (i, v\<lparr>v_k := k, v_world := w\<rparr>)
   }"

section \<open>Descriptors\<close>

definition file_free_descriptor :: "('w, 'st) vfs \<Rightarrow> file_descriptor \<Rightarrow> ('w, 'st) vfs option" where
  "file_free_descriptor v desc = do {
     ds \<leftarrow> (if fl_index desc < 1 then None else wr (v_descs v) (nat (fl_index desc - 1)) None);
     k \<leftarrow> kfree (v_k v) (fl_addr desc);
     Some (v\<lparr>v_descs := ds, v_k := k\<rparr>)
   }"

definition zero_descriptor :: file_descriptor where
  "zero_descriptor = \<lparr>fl_addr = 0, fl_index = 0, fl_filesystem = 0, fl_private = 0, fl_disk = zero_disk, fl_mode = 0\<rparr>"

definition file_new_descriptor :: "('w, 'st) vfs \<Rightarrow> (int \<times> file_descriptor \<times> ('w, 'st) vfs) option" where
  "file_new_descriptor v =
     (case scan (\<lambda>x. x = None) 0 (v_descs v) of
        None \<Rightarrow> Some (- ENOMEM, zero_descriptor, v)
      | Some i \<Rightarrow> do {
          (a, k) \<leftarrow> kzalloc (v_k v) 20;
          if a = 0 then None
          else let desc = zero_descriptor\<lparr>fl_addr := a, fl_index := int i + 1\<rparr>
               in Some (0, desc, v\<lparr>v_descs := (v_descs v)[i := Some desc], v_k := k\<rparr>)
        })"

definition file_get_descriptor :: "('w, 'st) vfs \<Rightarrow> int \<Rightarrow> file_descriptor option option" where
  "file_get_descriptor v fd =
     (if fd \<le> 0 \<or> fd \<ge> int SERPAEOS_MAX_FILE_DESCRIPTORS then Some None
      else rd (v_descs v) (nat (fd - 1)))"

fun file_get_mode_by_string :: "u8 list \<Rightarrow> u8 option" where
  "file_get_mode_by_string [] = None"
| "file_get_mode_by_string (c # str) =
     (if c = 0 then Some FILE_MODE_INVALID
      else do {
        mode \<leftarrow> file_get_mode_by_string str;
        Some (mode OR (if c = 114 \<or> c = 82 then FILE_MODE_READ
                       else if c = 119 \<or> c = 87 then FILE_MODE_WRITE
                       else if c = 97 \<or> c = 65 then FILE_MODE_APPEND else 0))
      })"

section \<open>Directory descriptors\<close>

definition SERPAEOS_MAX_DIRECTORY_DESCRIPTORS :: nat where "SERPAEOS_MAX_DIRECTORY_DESCRIPTORS = 512"

record dir_entry =
  de_name :: "u8 list"
  de_type :: int

record directory_descriptor =
  dd_addr :: u32
  dd_index :: int
  dd_filesystem :: "nat option"
  dd_count :: int
  dd_entries :: "dir_entry list option"

type_synonym dir_table = "directory_descriptor option list"

definition directory_free_descriptor :: "kmem \<Rightarrow> dir_table \<Rightarrow> directory_descriptor \<Rightarrow> (kmem \<times> dir_table) option" where
  "directory_free_descriptor k ds desc = do {
     ds \<leftarrow> (if dd_index desc < 1 then None else wr ds (nat (dd_index desc - 1)) None);
     k \<leftarrow> kfree k (dd_addr desc);
     Some (k, ds)
   }"

definition directory_new_descriptor :: "kmem \<Rightarrow> dir_table \<Rightarrow> (int \<times> directory_descriptor option \<times> kmem \<times> dir_table) option" where
  \<comment> \<open>the second component is what was stored at \<open>desc_out\<close>, if anything was\<close>
  "directory_new_descriptor k ds =
     (case scan (\<lambda>x. x = None) 0 ds of
        None \<Rightarrow> Some (- ENOMEM, None, k, ds)
      | Some i \<Rightarrow> do {
          (a, k) \<leftarrow> kzalloc k 16;
          if a = 0 then None
          else let desc = \<lparr>dd_addr = a, dd_index = int i + 1, dd_filesystem = None, dd_count = 0, dd_entries = None\<rparr>
               in Some (0, Some desc, k, ds[i := Some desc])
        })"

definition directory_get_descriptor :: "dir_table \<Rightarrow> int \<Rightarrow> directory_descriptor option option" where
  "directory_get_descriptor ds dd =
     (if dd \<le> 0 \<or> dd \<ge> int SERPAEOS_MAX_DIRECTORY_DESCRIPTORS then Some None else rd ds (nat (dd - 1)))"

section \<open>Operations on files\<close>

definition desc_filesystem :: "('w, 'st) vfs \<Rightarrow> nat \<Rightarrow> ('w, 'st) filesystem option" where
  "desc_filesystem v i = do { o' \<leftarrow> rd (v_filesystems v) i; o' }"

definition fopen_fail :: "('w, 'st) vfs \<Rightarrow> path_root option \<Rightarrow> u32 \<Rightarrow> int \<Rightarrow> (int \<times> ('w, 'st) vfs) option" where
  \<comment> \<open>the code behind the label \<open>out\<close> for a negative \<open>res\<close>\<close>
  "fopen_fail v root_path priv res = do {
     k \<leftarrow> (case root_path of None \<Rightarrow> Some (v_k v) | Some r \<Rightarrow> pathparser_free (v_k v) r);
     k \<leftarrow> (if priv \<noteq> 0 then kfree k priv else Some k);
     Some (res, v\<lparr>v_k := k\<rparr>)
   }"

definition fopen :: "('w, 'st) vfs \<Rightarrow> u8 list \<Rightarrow> u8 list \<Rightarrow> (int \<times> ('w, 'st) vfs) option" where
  "fopen v filename mode_str = do {
     (root, k) \<leftarrow> pathparser_parse (v_k v) filename;
     let v = v\<lparr>v_k := k\<rparr>;
     case root of
       None \<Rightarrow> fopen_fail v None 0 (- EINVARG)
     | Some root_path \<Rightarrow>
         if pr_first root_path = [] then fopen_fail v (Some root_path) 0 (- EINVARG)
         else do {
           d \<leftarrow> disk_get (v_disks v) (pr_drive_no root_path);
           case d of
             None \<Rightarrow> fopen_fail v (Some root_path) 0 (- EIO)
           | Some disk \<Rightarrow>
               (case dk_filesystem disk of
                  None \<Rightarrow> fopen_fail v (Some root_path) 0 (- EIO)
                | Some fsi \<Rightarrow> do {
                    mode \<leftarrow> file_get_mode_by_string mode_str;
                    if mode = FILE_MODE_INVALID then fopen_fail v (Some root_path) 0 (- EINVARG)
                    else do {
                      fs \<leftarrow> desc_filesystem v fsi;
                      (priv, k, w) \<leftarrow> fsys_open fs disk (pr_first root_path) mode (v_k v, v_world v);
                      let v = v\<lparr>v_k := k, v_world := w\<rparr>;
                      if iserr priv then fopen_fail v (Some root_path) priv (sint priv)
                      else do {
                        (res, desc, v) \<leftarrow> file_new_descriptor v;
                        if res < 0 then fopen_fail v (Some root_path) priv res
                        else do {
                          let desc = desc\<lparr>fl_filesystem := fsi, fl_private := priv, fl_disk := disk, fl_mode := mode\<rparr>;
                          ds \<leftarrow> wr (v_descs v) (nat (fl_index desc - 1)) (Some desc);
                          k \<leftarrow> kfree (v_k v) (pr_addr root_path);
                          Some (fl_index desc, v\<lparr>v_descs := ds, v_k := k\<rparr>)
                        }
                      }
                    }
                  })
         }
   }"

definition fstat :: "('w, 'st) vfs \<Rightarrow> int \<Rightarrow> 'st \<Rightarrow> (int \<times> 'st \<times> ('w, 'st) vfs) option" where
  \<comment> \<open>\<open>stat\<close> and the second component are what the caller's structure holds before and afterwards\<close>
  "fstat v fd stat = do {
     d \<leftarrow> file_get_descriptor v fd;
     case d of
       None \<Rightarrow> Some (- EIO, stat, v)
     | Some desc \<Rightarrow> do {
         fs \<leftarrow> desc_filesystem v (fl_filesystem desc);
         (res, stat, k, w) \<leftarrow> fsys_stat fs (fl_disk desc) (fl_private desc) stat (v_k v, v_world v);
         Some (res, stat, v\<lparr>v_k := k, v_world := w\<rparr>)
       }
   }"

definition fclose :: "('w, 'st) vfs \<Rightarrow> int \<Rightarrow> (int \<times> ('w, 'st) vfs) option" where
  "fclose v fd = do {
     d \<leftarrow> file_get_descriptor v fd;
     case d of
       None \<Rightarrow> Some (- EIO, v)
     | Some desc \<Rightarrow> do {
         fs \<leftarrow> desc_filesystem v (fl_filesystem desc);
         (res, k, w) \<leftarrow> fsys_close fs (fl_private desc) (v_k v, v_world v);
         let v = v\<lparr>v_k := k, v_world := w\<rparr>;
         if res = SERPAEOS_ALL_OK
         then do { v \<leftarrow> file_free_descriptor v desc; Some (res, v) }
         else Some (res, v)
       }
   }"

definition fseek :: "('w, 'st) vfs \<Rightarrow> int \<Rightarrow> int \<Rightarrow> u32 \<Rightarrow> (int \<times> ('w, 'st) vfs) option" where
  "fseek v fd offset whence = do {
     d \<leftarrow> file_get_descriptor v fd;
     case d of
       None \<Rightarrow> Some (- EIO, v)
     | Some desc \<Rightarrow> do {
         fs \<leftarrow> desc_filesystem v (fl_filesystem desc);
         (res, k, w) \<leftarrow> fsys_seek fs (fl_private desc) (word_of_int offset) whence (v_k v, v_world v);
         Some (res, v\<lparr>v_k := k, v_world := w\<rparr>)
       }
   }"

definition fread :: "('w, 'st) vfs \<Rightarrow> int \<Rightarrow> int \<Rightarrow> (int \<times> u8 list \<times> ('w, 'st) vfs) option" where
  "fread v fd sz =
     (if sz = 0 \<or> fd < 1 then Some (- EINVARG, [], v)
      else do {
        d \<leftarrow> file_get_descriptor v fd;
        case d of
          None \<Rightarrow> Some (- EINVARG, [], v)
        | Some desc \<Rightarrow> do {
            fs \<leftarrow> desc_filesystem v (fl_filesystem desc);
            (res, bs, k, w) \<leftarrow> fsys_read fs (fl_disk desc) (fl_private desc) (word_of_int sz) 1 (v_k v, v_world v);
            Some (res, bs, v\<lparr>v_k := k, v_world := w\<rparr>)
          }
      })"

definition fwrite :: "('w, 'st) vfs \<Rightarrow> int \<Rightarrow> u8 list option \<Rightarrow> int \<Rightarrow> (int \<times> ('w, 'st) vfs) option" where
  \<comment> \<open>a null buffer is \<open>None\<close>\<close>
  "fwrite v fd buf sz =
     (if fd \<le> 0 \<or> buf = None \<or> sz = 0 then Some (- EINVARG, v)
      else do {
        d \<leftarrow> file_get_descriptor v fd;
        case d of
          None \<Rightarrow> Some (- EINVARG, v)
        | Some desc \<Rightarrow> do {
            fs \<leftarrow> desc_filesystem v (fl_filesystem desc);
            (res, k, w) \<leftarrow> fsys_write fs (fl_disk desc) (fl_private desc) (the buf) sz (v_k v, v_world v);
            Some (res, v\<lparr>v_k := k, v_world := w\<rparr>)
          }
      })"

definition ftell :: "('w, 'st) vfs \<Rightarrow> int \<Rightarrow> int option" where
  "ftell v fd =
     (if fd \<le> 0 then Some (- EINVARG)
      else do {
        d \<leftarrow> file_get_descriptor v fd;
        case d of
          None \<Rightarrow> Some (- EINVARG)
        | Some desc \<Rightarrow> do {
            fs \<leftarrow> desc_filesystem v (fl_filesystem desc);
            fsys_ftell fs (fl_private desc) (v_k v, v_world v)
          }
      })"

definition fdelete :: "('w, 'st) vfs \<Rightarrow> int \<Rightarrow> (int \<times> ('w, 'st) vfs) option" where
  "fdelete v fd =
     (if fd < 1 then Some (- EINVARG, v)
      else do {
        d \<leftarrow> file_get_descriptor v fd;
        case d of
          None \<Rightarrow> Some (- EINVARG, v)
        | Some desc \<Rightarrow> do {
            fs \<leftarrow> desc_filesystem v (fl_filesystem desc);
            (res, k, w) \<leftarrow> fsys_delete fs (fl_disk desc) (fl_private desc) (v_k v, v_world v);
            v \<leftarrow> file_free_descriptor (v\<lparr>v_k := k, v_world := w\<rparr>) desc;
            Some (res, v)
          }
      })"

section \<open>Opening\<close>

lemma kroom_pos_page:
  assumes "kinv k" and "0 < kroom k" and "0 < unat sz" and "unat sz \<le> 4096" and "p \<in> kpages k"
  shows "\<exists>a k1 k2. kzalloc k sz = Some (a, k1) \<and> a \<noteq> 0 \<and> a \<notin> kused k \<and> kfree k1 p = Some k2 \<and> kinv k2 \<and>
     kused k2 = insert a (kused k) - {p} \<and> kroom k2 = kroom k"
proof -
  from kh.alloc_page [OF assms(1-4)] obtain a k1 where a: "kzalloc k sz = Some (a, k1)" "a \<noteq> 0" "a \<notin> kused k" "kinv k1"
    "kused k1 = insert a (kused k)" "kpages k1 = insert a (kpages k)" "Suc (kroom k1) = kroom k" by blast
  then have "p \<in> kpages k1" using assms(5) by simp
  from kh.free_page [OF a(4) this] a show ?thesis by auto
qed

text \<open>C27: \<open>fopen\<close> takes the lowest free descriptor. When the path parses, the disk and its file system exist, the mode is valid and the file
  system opens the file, \<open>fopen\<close> returns the number of the first free slot, stores the descriptor there and changes no other slot; the heap
  gains the descriptor and loses the path root. The new descriptor is found under its number, except for
  number 512, which \<open>file_get_descriptor\<close> refuses: a file opened in the last slot can never be used or closed.\<close>
theorem fopen_takes_first_slot:
  assumes "pathparser_parse (v_k v) filename = Some (Some root, k1)" and "pr_first root \<noteq> []"
    and "disk_get (v_disks v) (pr_drive_no root) = Some (Some d)" and "dk_filesystem d = Some fsi"
    and "file_get_mode_by_string mode_str = Some mode" and "mode \<noteq> FILE_MODE_INVALID"
    and "desc_filesystem v fsi = Some fs" and "fsys_open fs d (pr_first root) mode (k1, v_world v) = Some (priv, k2, w)"
    and "\<not> iserr priv" and "kinv k2" and "0 < kroom k2" and "pr_addr root \<in> kpages k2"
    and "length (v_descs v) = 512" and "scan (\<lambda>x. x = None) 0 (v_descs v) = Some i"
  shows "\<exists>a v'. fopen v filename mode_str = Some (int i + 1, v') \<and> a \<notin> kused k2 \<and>
     (let desc = \<lparr>fl_addr = a, fl_index = int i + 1, fl_filesystem = fsi, fl_private = priv, fl_disk = d, fl_mode = mode\<rparr>
      in v_descs v' = (v_descs v)[i := Some desc] \<and>
         file_get_descriptor v' (int i + 1) = Some (if i < 511 then Some desc else None)) \<and>
     kused (v_k v') = insert a (kused k2) - {pr_addr root} \<and> kroom (v_k v') = kroom k2"
proof -
  have i: "i < 512" using scan0_bound [OF assms(14)] assms(13) by simp
  obtain a k3 k4 where k: "kzalloc k2 20 = Some (a, k3)" "a \<noteq> 0" "a \<notin> kused k2" "kfree k3 (pr_addr root) = Some k4"
    "kused k4 = insert a (kused k2) - {pr_addr root}" "kroom k4 = kroom k2"
    using kroom_pos_page [OF assms(10,11) _ _ assms(12), of 20] by auto
  let ?desc = "\<lparr>fl_addr = a, fl_index = int i + 1, fl_filesystem = fsi, fl_private = priv, fl_disk = d, fl_mode = mode\<rparr>"
  let ?v' = "v\<lparr>v_k := k4, v_world := w, v_descs := (v_descs v)[i := Some ?desc]\<rparr>"
  have "fopen v filename mode_str = Some (int i + 1, ?v')"
    using assms i k by (simp add: fopen_def desc_filesystem_def file_new_descriptor_def zero_descriptor_def Let_def)
  moreover have "file_get_descriptor ?v' (int i + 1) = Some (if i < 511 then Some ?desc else None)"
    using i assms(13) by (simp add: file_get_descriptor_def SERPAEOS_MAX_FILE_DESCRIPTORS_def)
  ultimately show ?thesis using k by (intro exI [of _ a] exI [of _ ?v']) simp
qed

definition demo_fsys :: "u32 \<Rightarrow> (unit, unit) filesystem" where
  \<comment> \<open>a file system whose \<open>open\<close> always returns the same pointer\<close>
  "demo_fsys p = \<lparr>fsys_resolve = (\<lambda>d (k, w). Some (0, k, w)), fsys_open = (\<lambda>d path m (k, w). Some (p, k, w)),
     fsys_read = (\<lambda>d p n m (k, w). Some (0, [], k, w)), fsys_seek = (\<lambda>p o' m (k, w). Some (0, k, w)),
     fsys_stat = (\<lambda>d p st (k, w). Some (0, (), k, w)), fsys_close = (\<lambda>p (k, w). Some (0, k, w)),
     fsys_write = (\<lambda>d p b n (k, w). Some (0, k, w)), fsys_delete = (\<lambda>d p (k, w). Some (0, k, w)),
     fsys_ftell = (\<lambda>p w. Some 0)\<rparr>"

definition demo_fsdisk :: disk where
  "demo_fsdisk = zero_disk\<lparr>dk_dev := 3, dk_filesystem := Some 0\<rparr>"

definition demo_vfs :: "u32 \<Rightarrow> (unit, unit) vfs" where
  "demo_vfs p = \<lparr>v_k = demo_k, v_world = (), v_filesystems = [Some (demo_fsys p)], v_descs = replicate 512 None,
     v_disks = [demo_fsdisk]\<rparr>"

lemma demo_vfs_parts:
  "v_k (demo_vfs p) = demo_k" "disk_get (v_disks (demo_vfs p)) 0 = Some (Some demo_fsdisk)" "dk_filesystem demo_fsdisk = Some 0"
  "file_get_mode_by_string [114, 0] = Some 1" "desc_filesystem (demo_vfs p) 0 = Some (demo_fsys p)"
  "fsys_open (demo_fsys p) d path m (k, u) = Some (p, k, u)" "length (v_descs (demo_vfs p)) = 512"
  "scan (\<lambda>x. x = None) 0 (v_descs (demo_vfs p)) = Some 0"
proof -
  show "scan (\<lambda>x. x = None) 0 (v_descs (demo_vfs p)) = Some 0" by (simp add: scan0_Some demo_vfs_def)
qed (simp_all add: demo_vfs_def disk_get_def demo_fsdisk_def SERPAEOS_MAX_DISKS_def file_modes desc_filesystem_def
    demo_fsys_def word_gt_0)

lemma demo_parse:
  obtains root k1 where "pathparser_parse demo_k (demo_path @ 0 # []) = Some (Some root, k1)" "length (pr_first root) = 2"
    "pr_drive_no root = 0" "grown_by demo_k (pr_addr root # part_addrs (pr_first root)) k1"
proof -
  have parts: "tonumericdigit (demo_path ! 0) = 0" "path_parts (drop 3 demo_path) = [[97, 98], [99]]"
    by (simp_all add: demo_path_def tonumericdigit_def path_parts_def split_slash.simps)
  from pathparser_parse_ok [OF demo_k_ready(1) demo_path_ok, of "[]"] obtain root k1 where
    r: "pathparser_parse demo_k (demo_path @ 0 # []) = Some (Some root, k1)" "pr_drive_no root = tonumericdigit (demo_path ! 0)"
    "map pp_part (pr_first root) = path_parts (drop 3 demo_path)"
    "grown_by demo_k (pr_addr root # part_addrs (pr_first root)) k1" by blast
  have "length (pr_first root) = 2" using arg_cong [OF r(3), of length] unfolding parts by simp
  with r(1,2,4) parts(1) show ?thesis using that by simp
qed

lemma part_addrs_length: "length (part_addrs ps) = 2 * length ps"
  by (induction ps) (simp_all add: part_addrs_def)

theorem fopen_takes_first_slot_witness:
  "\<exists>v'. fopen (demo_vfs 0x5000) (demo_path @ 0 # []) [114, 0] = Some (1, v')"
proof -
  obtain root k1 where r: "pathparser_parse demo_k (demo_path @ 0 # []) = Some (Some root, k1)" "length (pr_first root) = 2"
    "pr_drive_no root = 0" "grown_by demo_k (pr_addr root # part_addrs (pr_first root)) k1" by (rule demo_parse)
  have ne: "pr_first root \<noteq> []" using r(2) by auto
  have k1: "kinv k1" "0 < kroom k1" "pr_addr root \<in> kpages k1"
    using r(2,4) demo_k_ready(2) by (auto simp: grown_by_def part_addrs_length)
  have p: "pathparser_parse (v_k (demo_vfs 0x5000)) (demo_path @ 0 # []) = Some (Some root, k1)"
    "disk_get (v_disks (demo_vfs 0x5000)) (pr_drive_no root) = Some (Some demo_fsdisk)"
    using r(1,3) demo_vfs_parts(1,2) by simp_all
  have m: "(1 :: u8) \<noteq> FILE_MODE_INVALID" "\<not> iserr 0x5000" by (simp_all add: file_modes iserr_def)
  from fopen_takes_first_slot [OF p(1) ne p(2) demo_vfs_parts(3,4) m(1) demo_vfs_parts(5) demo_vfs_parts(6) m(2) k1
      demo_vfs_parts(7,8)]
  show ?thesis by auto
qed

text \<open>a failed open frees its error code. When the file system's \<open>open\<close> returns an error, such as \<open>-EIO\<close> for a missing file, \<open>fopen\<close>
  passes that number to \<open>kfree\<close> as if it were a block, which writes in front of the heap's status table.\<close>
theorem fopen_error_frees_error_code:
  assumes "pathparser_parse (v_k v) filename = Some (Some root, k1)" and "pr_first root \<noteq> []"
    and "disk_get (v_disks v) (pr_drive_no root) = Some (Some d)" and "dk_filesystem d = Some fsi"
    and "file_get_mode_by_string mode_str = Some mode" and "mode \<noteq> FILE_MODE_INVALID"
    and "desc_filesystem v fsi = Some fs"
    and "fsys_open fs d (pr_first root) mode (k1, v_world v) = Some (- of_nat e, k2, w)" and "0 < e" and "e < 100"
    and "pathparser_free k2 root = Some k3" and "kinv k3" and "0 < kroom k3"
  shows "fopen v filename mode_str = None"
proof -
  have "0 < length (entries_of (km_heap k3))" using assms(13) by (auto simp: kroom_def)
  moreover have "length (entries_of (km_heap k3)) = unat (ht_total (hp_table (km_heap k3)))"
    using assms(12) by (simp add: kinv_def heap_inv_def)
  ultimately have "1 \<le> unat (ht_total (hp_table (km_heap k3)))" by linarith
  then have sa: "unat (hp_saddr (km_heap k3)) + e < 2 ^ 31"
    using assms(10,12) unfolding kinv_def heap_inv_def by linarith
  have "unat (of_nat e :: u32) = e" using assms(10) unat_of_nat_small [of e] by simp
  then have s: "sint (- of_nat e :: u32) = - int e" using sint_minus_small [of "of_nat e"] assms(10) by simp
  then have "iserr (- of_nat e)" using assms(9) by (simp add: iserr_def)
  moreover have "(- of_nat e :: u32) \<noteq> 0" using s assms(9) by fastforce
  moreover have "kfree k3 (- of_nat e) = None"
    using heap_free_below [of "km_heap k3" e] assms(10,12) sa by (simp add: kfree_def kinv_def)
  ultimately show ?thesis
    using assms(1-8,11) by (simp add: fopen_def fopen_fail_def desc_filesystem_def Let_def)
qed

theorem fopen_error_frees_error_code_witness:
  "fopen (demo_vfs (- of_nat 1)) (demo_path @ 0 # []) [114, 0] = None"
proof -
  obtain root k1 where r: "pathparser_parse demo_k (demo_path @ 0 # []) = Some (Some root, k1)" "length (pr_first root) = 2"
    "pr_drive_no root = 0" "grown_by demo_k (pr_addr root # part_addrs (pr_first root)) k1" by (rule demo_parse)
  have ne: "pr_first root \<noteq> []" using r(2) by auto
  have "distinct (part_addrs (pr_first root) @ [pr_addr root])" using r(4) by (auto simp: grown_by_def)
  from grown_by_freed [OF r(4) _ this] obtain k3 where k3: "pathparser_free k1 root = Some k3" "kinv k3" "0 < kroom k3"
    using demo_k_ready(2) by (auto simp: pathparser_free_eq)
  have p: "pathparser_parse (v_k (demo_vfs (- of_nat 1))) (demo_path @ 0 # []) = Some (Some root, k1)"
    "disk_get (v_disks (demo_vfs (- of_nat 1))) (pr_drive_no root) = Some (Some demo_fsdisk)"
    using r(1,3) demo_vfs_parts(1,2) by simp_all
  have m: "(1 :: u8) \<noteq> FILE_MODE_INVALID" by (simp add: file_modes)
  show ?thesis
    by (rule fopen_error_frees_error_code [OF p(1) ne p(2) demo_vfs_parts(3,4) m demo_vfs_parts(5) demo_vfs_parts(6) _ _ k3]) simp_all
qed

end
