(* ===== verification/Task.thy ===== *)
theory Task
  imports Paging
begin

text \<open>
  The scheduler, \<^verbatim>\<open>src/src/task/task.c\<close> with the structures of \<^verbatim>\<open>task.h\<close>. A \<open>struct task\<close> is a block of the
  kernel heap and its fields are read and written in physical memory at the offsets the compiler gives
  them, so a freed structure keeps its bytes until its block is handed out again, as in the kernel. The
  globals \<open>current_task\<close>, \<open>task_head\<close> and \<open>task_tail\<close> and the loaded page directory are the fields of \<open>sched\<close>.

  \<open>user_registers\<close> and \<open>kernel_registers\<close> load segment registers and have no counterpart here. \<open>task_return\<close>
  leaves the kernel for good: an operation that ends in it returns the address of the saved registers that
  it restores. A \<open>panic\<close> is \<open>None\<close>.
\<close>

named_theorems layout \<open>offsets of the fields of kernel structures\<close>

section \<open>Structures\<close>

record registers =
  r_edi :: u32
  r_esi :: u32
  r_ebp :: u32
  r_ebx :: u32
  r_edx :: u32
  r_ecx :: u32
  r_eax :: u32
  r_ip :: u32
  r_cs :: u32
  r_flags :: u32
  r_esp :: u32
  r_ss :: u32

record interrupt_frame =
  i_edi :: u32
  i_esi :: u32
  i_ebp :: u32
  i_reserved :: u32
  i_ebx :: u32
  i_edx :: u32
  i_ecx :: u32
  i_eax :: u32
  i_ip :: u32
  i_cs :: u32
  i_flags :: u32
  i_esp :: u32
  i_ss :: u32

text \<open>Offsets in 32-bit words. \<open>registers\<close> takes the words 1 to 12, \<open>main_task\<close> is the first byte of word 14.\<close>

definition task_page_directory :: nat where [layout]: "task_page_directory = 0"
definition task_registers :: nat where [layout]: "task_registers = 1"
definition task_ip :: nat where [layout]: "task_ip = 8"
definition task_cs :: nat where [layout]: "task_cs = 9"
definition task_esp :: nat where [layout]: "task_esp = 11"
definition task_ss :: nat where [layout]: "task_ss = 12"
definition task_process :: nat where [layout]: "task_process = 13"
definition task_main_task :: nat where [layout]: "task_main_task = 14"
definition task_next_ptr :: nat where [layout]: "task_next_ptr = 15"
definition task_prev_ptr :: nat where [layout]: "task_prev_ptr = 16"
definition sizeof_task :: u32 where [layout]: "sizeof_task = 68"

text \<open>The fields of \<open>struct process\<close>, \<open>struct elf_file\<close> and \<open>struct elf_header\<close> that the scheduler reads, as byte offsets.\<close>

definition process_currently_hosting :: u32 where [layout]: "process_currently_hosting = 4"
definition process_task :: u32 where [layout]: "process_task = 124"
definition process_filetype :: u32 where [layout]: "process_filetype = 8320"
definition process_ptr :: u32 where [layout]: "process_ptr = 8324"
definition elf_file_memory :: u32 where [layout]: "elf_file_memory = 112"
definition elf_e_entry :: u32 where [layout]: "elf_e_entry = 24"

definition PROCESS_FILETYPE_ELF :: u8 where "PROCESS_FILETYPE_ELF = 0"
definition SERPAEOS_PROGRAM_VIRTUAL_ADDRESS :: u32 where "SERPAEOS_PROGRAM_VIRTUAL_ADDRESS = 0x400000"
definition SERPAEOS_PROGRAM_VIRTUAL_STACK_ADDRESS_START :: u32 where "SERPAEOS_PROGRAM_VIRTUAL_STACK_ADDRESS_START = 0x3FF000"
definition USER_DATA_SEGMENT :: u32 where "USER_DATA_SEGMENT = 0x23"
definition USER_CODE_SEGMENT :: u32 where "USER_CODE_SEGMENT = 0x1b"

record sched =
  sc_k :: kmem
  sc_paging :: paging_regs
  current_task :: u32
  task_head :: u32
  task_tail :: u32
  kernel_chunk :: u32

abbreviation sc_mem :: "sched \<Rightarrow> mem" where "sc_mem s \<equiv> km_mem (sc_k s)"

abbreviation with_mem :: "sched \<Rightarrow> mem \<Rightarrow> sched" where
  "with_mem s m \<equiv> s\<lparr>sc_k := (sc_k s)\<lparr>km_mem := m\<rparr>\<rparr>"

definition fld :: "mem \<Rightarrow> u32 \<Rightarrow> nat \<Rightarrow> u32" where
  "fld m p i = load32 m (slot p i)"

definition set_fld :: "u32 \<Rightarrow> nat \<Rightarrow> u32 \<Rightarrow> sched \<Rightarrow> sched" where
  "set_fld p i v s = with_mem s (store32 (sc_mem s) (slot p i) v)"

definition main_task :: "mem \<Rightarrow> u32 \<Rightarrow> bool" where
  "main_task m p \<longleftrightarrow> m (slot p task_main_task) \<noteq> 0"

definition set_main_task :: "u32 \<Rightarrow> bool \<Rightarrow> sched \<Rightarrow> sched" where
  "set_main_task p b s = with_mem s ((sc_mem s)(slot p task_main_task := if b then 1 else 0))"

definition on_kmem :: "(kmem \<Rightarrow> ('a \<times> kmem) option) \<Rightarrow> sched \<Rightarrow> ('a \<times> sched) option" where
  "on_kmem f s = do { (x, k) \<leftarrow> f (sc_k s); Some (x, s\<lparr>sc_k := k\<rparr>) }"

definition sched_kfree :: "u32 \<Rightarrow> sched \<Rightarrow> sched option" where
  "sched_kfree p s = do { k \<leftarrow> kfree (sc_k s) p; Some (s\<lparr>sc_k := k\<rparr>) }"

section \<open>Switching\<close>

definition task_switch :: "u32 \<Rightarrow> sched \<Rightarrow> sched" where
  "task_switch task s =
     (let s = s\<lparr>current_task := task\<rparr>
      in s\<lparr>sc_paging := paging_switch (sc_mem s) (sc_paging s) (fld (sc_mem s) task task_page_directory)\<rparr>)"

definition kernel_page :: "sched \<Rightarrow> sched" where
  "kernel_page s = s\<lparr>sc_paging := paging_switch (sc_mem s) (sc_paging s) (kernel_chunk s)\<rparr>"

definition task_page :: "sched \<Rightarrow> sched" where
  "task_page s = task_switch (current_task s) s"

definition task_page_task :: "u32 \<Rightarrow> sched \<Rightarrow> sched" where
  "task_page_task task s =
     s\<lparr>sc_paging := paging_switch (sc_mem s) (sc_paging s) (fld (sc_mem s) task task_page_directory)\<rparr>"

definition task_run_first_ever_task :: "sched \<Rightarrow> (u32 \<times> sched) option" where
  "task_run_first_ever_task s =
     (if current_task s = 0 then None
      else let s = task_switch (task_head s) s in Some (slot (task_head s) task_registers, s))"

definition task_save_state :: "u32 \<Rightarrow> interrupt_frame \<Rightarrow> sched \<Rightarrow> sched" where
  "task_save_state task frame s =
     (let s = set_fld task task_ip (i_ip frame) s;
          s = set_fld task task_cs (i_cs frame) s;
          s = set_fld task 10 (i_flags frame) s;
          s = set_fld task task_esp (i_esp frame) s;
          s = set_fld task task_ss (i_ss frame) s;
          s = set_fld task 7 (i_eax frame) s;
          s = set_fld task 3 (i_ebp frame) s;
          s = set_fld task 4 (i_ebx frame) s;
          s = set_fld task 6 (i_ecx frame) s;
          s = set_fld task 1 (i_edi frame) s;
          s = set_fld task 5 (i_edx frame) s;
          s = set_fld task 2 (i_esi frame) s
      in s)"

definition task_current_save_state :: "interrupt_frame \<Rightarrow> sched \<Rightarrow> sched option" where
  "task_current_save_state frame s =
     (if current_task s = 0 then None else Some (task_save_state (current_task s) frame s))"

section \<open>The task list\<close>

definition task_get_next :: "sched \<Rightarrow> u32" where
  "task_get_next s =
     (if fld (sc_mem s) (current_task s) task_next_ptr = 0 then task_head s
      else fld (sc_mem s) (current_task s) task_next_ptr)"

definition task_list_remove :: "u32 \<Rightarrow> sched \<Rightarrow> sched" where
  "task_list_remove task s =
     (let s = if fld (sc_mem s) task task_prev_ptr \<noteq> 0
              then set_fld (fld (sc_mem s) task task_prev_ptr) task_next_ptr (fld (sc_mem s) task task_next_ptr) s
              else s;
          s = if task = task_head s then s\<lparr>task_head := fld (sc_mem s) task task_next_ptr\<rparr> else s;
          s = if task = task_tail s then s\<lparr>task_tail := fld (sc_mem s) task task_prev_ptr\<rparr> else s
      in if task = current_task s then s\<lparr>current_task := task_get_next s\<rparr> else s)"

definition task_free :: "u32 \<Rightarrow> sched \<Rightarrow> (int \<times> sched) option" where
  "task_free task s = do {
     s \<leftarrow> (if main_task (sc_mem s) task
          then do { k \<leftarrow> paging_free_4gb (sc_k s) (fld (sc_mem s) task task_page_directory); Some (s\<lparr>sc_k := k\<rparr>) }
          else Some s);
     let s = task_list_remove task s;
     s \<leftarrow> sched_kfree task s;
     Some (0, s)
   }"

partial_function (option) task_free_all_loop :: "u32 \<Rightarrow> u32 \<Rightarrow> sched \<Rightarrow> sched option" where
  "task_free_all_loop process current s =
     (if current = 0 then Some s
      else do {
        s \<leftarrow> (if fld (sc_mem s) current task_process = process
             then do { (_, s) \<leftarrow> task_free current s; Some s } else Some s);
        task_free_all_loop process (fld (sc_mem s) current task_next_ptr) s
      })"

definition task_free_all_for_process :: "u32 \<Rightarrow> sched \<Rightarrow> sched option" where
  "task_free_all_for_process process s = task_free_all_loop process (task_head s) s"

definition append_task :: "u32 \<Rightarrow> sched \<Rightarrow> sched" where
  \<comment> \<open>the end of \<open>task_new\<close>: the first task becomes head, tail and current, a later one goes behind the tail\<close>
  "append_task task s =
     (if task_head s = 0 then s\<lparr>task_head := task, task_tail := task, current_task := task\<rparr>
      else let s = set_fld (task_tail s) task_next_ptr task s;
               s = set_fld task task_prev_ptr (task_tail s) s
           in s\<lparr>task_tail := task\<rparr>)"

definition clear_task :: "u32 \<Rightarrow> sched \<Rightarrow> sched" where
  "clear_task task s = with_mem s (memset_at (sc_mem s) task 0 (unat sizeof_task))"

definition start_registers :: "u32 \<Rightarrow> u32 \<Rightarrow> sched \<Rightarrow> sched" where
  "start_registers task ip s =
     (let s = set_fld task task_ip ip s;
          s = set_fld task task_ss USER_DATA_SEGMENT s;
          s = set_fld task task_cs USER_CODE_SEGMENT s
      in set_fld task task_esp SERPAEOS_PROGRAM_VIRTUAL_STACK_ADDRESS_START s)"

definition entry_point :: "mem \<Rightarrow> u32 \<Rightarrow> u32" where
  "entry_point m process =
     (if m (process + process_filetype) = PROCESS_FILETYPE_ELF
      then load32 m (load32 m (load32 m (process + process_ptr) + elf_file_memory) + elf_e_entry)
      else SERPAEOS_PROGRAM_VIRTUAL_ADDRESS)"

definition task_init :: "u32 \<Rightarrow> u32 \<Rightarrow> sched \<Rightarrow> (int \<times> sched) option" where
  \<comment> \<open>the flags are \<open>PAGING_IS_PRESENT | PAGING_ACCESS_FROM_ALL\<close>\<close>
  "task_init task process s = do {
     let s = clear_task task s;
     (page_directory, s) \<leftarrow> on_kmem (\<lambda>k. paging_new_4gb k 5) s;
     let s = set_fld task task_page_directory page_directory s;
     if page_directory = 0 then Some (- EIO, s)
     else do {
       let s = start_registers task (entry_point (sc_mem s) process) s;
       let s = set_fld task task_process process s;
       Some (0, set_main_task task True s)
     }
   }"

definition task_error :: "int \<Rightarrow> u32 \<Rightarrow> sched \<Rightarrow> (u32 \<times> sched) option" where
  \<comment> \<open>the label \<open>out\<close> with a negative \<open>res\<close>\<close>
  "task_error res task s = do { (_, s) \<leftarrow> task_free task s; Some (word_of_int res, s) }"

definition task_new :: "u32 \<Rightarrow> sched \<Rightarrow> (u32 \<times> sched) option" where
  "task_new process s = do {
     (task, s) \<leftarrow> on_kmem (\<lambda>k. kzalloc k sizeof_task) s;
     if task = 0 then task_error (- ENOMEM) task s
     else do {
       (res, s) \<leftarrow> task_init task process s;
       if res \<noteq> 0 then task_error res task s
       else Some (task, append_task task s)
     }
   }"

definition task_add_to_process :: "u32 \<Rightarrow> u32 \<Rightarrow> sched \<Rightarrow> (u32 \<times> sched) option" where
  "task_add_to_process process addr s = do {
     (task, s) \<leftarrow> on_kmem (\<lambda>k. kzalloc k sizeof_task) s;
     if task = 0 then task_error (- ENOMEM) task s
     else do {
       let s = clear_task task s;
       let page_directory = fld (sc_mem s) (load32 (sc_mem s) (process + process_task)) task_page_directory;
       let s = set_fld task task_page_directory page_directory s;
       if page_directory = 0 then task_error (- EIO) task s
       else do {
         let s = start_registers task addr s;
         let s = set_fld task task_process process s;
         if task_head s = 0 then Some (task, append_task task s)
         else Some (task, set_main_task task False (append_task task s))
       }
     }
   }"

partial_function (option) task_get_main_loop :: "u32 \<Rightarrow> u32 \<Rightarrow> sched \<Rightarrow> u32 option" where
  "task_get_main_loop p res s =
     (if fld (sc_mem s) res task_process = p \<and> main_task (sc_mem s) res then Some res
      else let res = fld (sc_mem s) res task_next_ptr
           in if res \<noteq> task_head s then task_get_main_loop p res s else Some 0)"

definition task_get_main_task :: "u32 \<Rightarrow> sched \<Rightarrow> u32 option" where
  "task_get_main_task p s = task_get_main_loop p (task_head s) s"

definition task_duplicate :: "u32 \<Rightarrow> sched \<Rightarrow> (u32 \<times> sched) option" where
  "task_duplicate task s = do {
     (new, s) \<leftarrow> on_kmem (\<lambda>k. kzalloc k sizeof_task) s;
     if new = 0 then Some (0, s)
     else do {
       let s = with_mem s (memcpy_at (sc_mem s) new task (unat sizeof_task));
       let s = set_fld (task_tail s) task_next_ptr new s;
       let s = set_fld new task_prev_ptr (task_tail s) s;
       Some (new, s\<lparr>task_tail := new\<rparr>)
     }
   }"

partial_function (option) task_duplicate_all_loop :: "u32 \<Rightarrow> u32 \<Rightarrow> u32 \<Rightarrow> sched \<Rightarrow> (bool \<times> sched) option" where
  \<comment> \<open>the flag is \<open>False\<close> when the loop left for the label \<open>fail\<close>\<close>
  "task_duplicate_all_loop p owner current s =
     (if current = 0 then Some (True, s)
      else if fld (sc_mem s) current task_process = p
      then do {
        (tmp, s) \<leftarrow> task_duplicate current s;
        if tmp = 0 then Some (False, s)
        else do {
          let s = set_fld tmp task_process owner s;
          task_duplicate_all_loop p owner (fld (sc_mem s) current task_next_ptr) s
        }
      }
      else task_duplicate_all_loop p owner (fld (sc_mem s) current task_next_ptr) s)"

definition task_duplicate_all_for_process :: "u32 \<Rightarrow> u32 \<Rightarrow> sched \<Rightarrow> (u32 \<times> sched) option" where
  "task_duplicate_all_for_process p owner s =
     (if p = 0 \<or> owner = 0 then Some (0, s)
      else do {
        (ok, s) \<leftarrow> task_duplicate_all_loop p owner (task_head s) s;
        if ok then do { t \<leftarrow> task_get_main_task owner s; Some (t, s) }
        else do { s \<leftarrow> task_free_all_for_process owner s; Some (0, s) }
      })"

section \<open>Scheduling\<close>

definition asleep :: "mem \<Rightarrow> u32 \<Rightarrow> bool" where
  "asleep m task \<longleftrightarrow> m (fld m task task_process + process_currently_hosting) \<noteq> 0"

partial_function (option) next_awake :: "mem \<Rightarrow> u32 \<Rightarrow> u32 option" where
  "next_awake m next_task =
     (if next_task = 0 then Some 0
      else if \<not> asleep m next_task then Some next_task
      else next_awake m (fld m next_task task_next_ptr))"

definition task_next :: "sched \<Rightarrow> (u32 \<times> sched) option" where
  "task_next s = do {
     next_task \<leftarrow> next_awake (sc_mem s) (task_get_next s);
     if next_task = 0 then None
     else Some (slot next_task task_registers, task_switch next_task s)
   }"

section \<open>Memory of a task\<close>

text \<open>
  A kernel access through a task's page directory goes through the page table entry of its address: a page
  without the present bit faults, and the access has no outcome.
\<close>

definition mmu :: "mem \<Rightarrow> u32 \<Rightarrow> u32 \<Rightarrow> u32 option" where
  "mmu m directory v =
     (let e = paging_get m directory (paging_align_to_lower_page v)
      in if bit e 0 then Some ((e AND 0xfffff000) + (v - paging_align_to_lower_page v)) else None)"

definition vload8 :: "mem \<Rightarrow> u32 \<Rightarrow> u32 \<Rightarrow> u8 option" where
  "vload8 m directory v = do { p \<leftarrow> mmu m directory v; Some (m p) }"

definition vstore8 :: "mem \<Rightarrow> u32 \<Rightarrow> u32 \<Rightarrow> u8 \<Rightarrow> mem option" where
  "vstore8 m directory v c = do { p \<leftarrow> mmu m directory v; Some (m(p := c)) }"

definition vload32 :: "mem \<Rightarrow> u32 \<Rightarrow> u32 \<Rightarrow> u32 option" where
  "vload32 m directory v = do {
     b0 \<leftarrow> vload8 m directory v; b1 \<leftarrow> vload8 m directory (v + 1);
     b2 \<leftarrow> vload8 m directory (v + 2); b3 \<leftarrow> vload8 m directory (v + 3);
     Some (le32 [b0, b1, b2, b3] 0)
   }"

definition vstore32 :: "mem \<Rightarrow> u32 \<Rightarrow> u32 \<Rightarrow> u32 \<Rightarrow> mem option" where
  "vstore32 m directory v x = do {
     m \<leftarrow> vstore8 m directory v (bytes32 x ! 0); m \<leftarrow> vstore8 m directory (v + 1) (bytes32 x ! 1);
     m \<leftarrow> vstore8 m directory (v + 2) (bytes32 x ! 2); vstore8 m directory (v + 3) (bytes32 x ! 3)
   }"

fun strncpy_virtual :: "mem \<Rightarrow> u32 \<Rightarrow> u32 \<Rightarrow> u32 \<Rightarrow> nat \<Rightarrow> mem option" where
  \<comment> \<open>\<open>strncpy\<close> while a task's directory is loaded; the last argument is the iterations left\<close>
  "strncpy_virtual m directory dest src 0 = vstore8 m directory dest 0"
| "strncpy_virtual m directory dest src (Suc n) = do {
     c \<leftarrow> vload8 m directory src;
     if c = 0 then vstore8 m directory dest 0
     else do { m \<leftarrow> vstore8 m directory dest c; strncpy_virtual m directory (dest + 1) (src + 1) n }
   }"

fun strncpy_at :: "mem \<Rightarrow> u32 \<Rightarrow> u32 \<Rightarrow> nat \<Rightarrow> mem" where
  "strncpy_at m dest src 0 = m(dest := 0)"
| "strncpy_at m dest src (Suc n) =
     (if m src = 0 then m(dest := 0) else strncpy_at (m(dest := m src)) (dest + 1) (src + 1) n)"

definition copy_string_from_task :: "u32 \<Rightarrow> u32 \<Rightarrow> u32 \<Rightarrow> int \<Rightarrow> sched \<Rightarrow> (int \<times> sched) option" where
  "copy_string_from_task task virtual phys max_len s =
     (if sint PAGING_PAGE_SIZE \<le> max_len then Some (- EINVARG, s)
      else do {
        (tmp, s) \<leftarrow> on_kmem (\<lambda>k. kzalloc k (word_of_int max_len)) s;
        if tmp = 0 then Some (- ENOMEM, s)
        else do {
          let chunk = fld (sc_mem s) task task_page_directory;
          let task_directory = load32 (sc_mem s) chunk;
          let old_entry = paging_get (sc_mem s) task_directory tmp;
          let s = with_mem s (snd (paging_map (sc_mem s) chunk tmp tmp 7));
          let s = s\<lparr>sc_paging := paging_switch (sc_mem s) (sc_paging s) chunk\<rparr>;
          m \<leftarrow> strncpy_virtual (sc_mem s) (cr3 (sc_paging s)) tmp virtual (nat (max_len - 1));
          let s = kernel_page (with_mem s m);
          let r = paging_set (sc_mem s) task_directory tmp old_entry;
          let s = with_mem s (snd r);
          if fst r < 0 then do { s \<leftarrow> sched_kfree tmp s; Some (- EIO, s) }
          else do {
            let s = with_mem s (strncpy_at (sc_mem s) phys tmp (nat (max_len - 1)));
            s \<leftarrow> sched_kfree tmp s;
            Some (fst r, s)
          }
        }
      })"

definition task_get_stack_item :: "u32 \<Rightarrow> int \<Rightarrow> sched \<Rightarrow> (u32 \<times> sched) option" where
  "task_get_stack_item task index s = do {
     let sp_ptr = fld (sc_mem s) task task_esp;
     let s = task_page_task task s;
     result \<leftarrow> vload32 (sc_mem s) (cr3 (sc_paging s)) (sp_ptr + 4 * word_of_int index);
     Some (result, kernel_page s)
   }"

definition task_push_stack_item :: "u32 \<Rightarrow> u32 \<Rightarrow> sched \<Rightarrow> sched option" where
  "task_push_stack_item task val s = do {
     let sp = fld (sc_mem s) task task_esp;
     let s = task_page_task task s;
     m \<leftarrow> vstore32 (sc_mem s) (cr3 (sc_paging s)) sp val;
     let s = kernel_page (with_mem s m);
     Some (set_fld task task_esp (fld (sc_mem s) task task_esp - 4) s)
   }"

definition task_virtual_address_to_physical :: "u32 \<Rightarrow> u32 \<Rightarrow> sched \<Rightarrow> u32" where
  "task_virtual_address_to_physical task virt s =
     paging_get_physical_address (sc_mem s) (load32 (sc_mem s) (fld (sc_mem s) task task_page_directory)) virt"

section \<open>Fields\<close>

lemma fld_set_fld [mem_simps]:
  assumes "page_base p = p" and "page_base q = q" and "i < 1024" and "j < 1024"
  shows "fld (sc_mem (set_fld p i v s)) q j = (if p = q \<and> i = j then v else fld (sc_mem s) q j)"
  using load32_store32_slot [OF assms] by (simp add: fld_def set_fld_def)

lemma set_fld_view [simp]:
  "kinv (sc_k (set_fld p i v s)) = kinv (sc_k s)" "kused (sc_k (set_fld p i v s)) = kused (sc_k s)"
  "kpages (sc_k (set_fld p i v s)) = kpages (sc_k s)" "kroom (sc_k (set_fld p i v s)) = kroom (sc_k s)"
  "task_head (set_fld p i v s) = task_head s" "task_tail (set_fld p i v s) = task_tail s"
  "current_task (set_fld p i v s) = current_task s" "kernel_chunk (set_fld p i v s) = kernel_chunk s"
  "sc_paging (set_fld p i v s) = sc_paging s" "km_heap (sc_k (set_fld p i v s)) = km_heap (sc_k s)"
  by (simp_all add: set_fld_def)

lemma set_main_task_view [simp]:
  "kinv (sc_k (set_main_task p b s)) = kinv (sc_k s)" "kused (sc_k (set_main_task p b s)) = kused (sc_k s)"
  "kpages (sc_k (set_main_task p b s)) = kpages (sc_k s)" "kroom (sc_k (set_main_task p b s)) = kroom (sc_k s)"
  "task_head (set_main_task p b s) = task_head s" "task_tail (set_main_task p b s) = task_tail s"
  "current_task (set_main_task p b s) = current_task s" "kernel_chunk (set_main_task p b s) = kernel_chunk s"
  "sc_paging (set_main_task p b s) = sc_paging s" "km_heap (sc_k (set_main_task p b s)) = km_heap (sc_k s)"
  by (simp_all add: set_main_task_def)

lemma set_fld_frame:
  assumes "page_base p = p" and "i < 1024" and "page_base a \<noteq> p"
  shows "sc_mem (set_fld p i v s) a = sc_mem s a"
  using store32_slot_frame [OF assms] by (simp add: set_fld_def)

lemma set_main_task_frame:
  assumes "page_base p = p" and "page_base a \<noteq> p"
  shows "sc_mem (set_main_task p b s) a = sc_mem s a"
  using slot_page(2) [OF assms(1), of 14] assms(2) by (auto simp: set_main_task_def layout)

lemma fld_cong:
  assumes "page_base q = q" and "j < 1024" and "\<And>a. page_base a = q \<Longrightarrow> m' a = m a"
  shows "fld m' q j = fld m q j"
  unfolding fld_def by (rule load32_slot_cong [OF assms])

lemma store_byte_fld:
  assumes "page_base p = p" and "page_base q = q" and "i < 1024" and "j < 1024" and "p \<noteq> q \<or> i \<noteq> j"
  shows "fld (m(slot p i := b)) q j = fld m q j"
proof -
  have "slot p i \<noteq> slot q j" using slot_eq_iff [OF assms(1-4)] assms(5) by blast
  from aligned_cells_disjoint [OF slot_page(3) [OF assms(1,3)] slot_page(3) [OF assms(2,4)] this, of 0]
  have "slot p i \<noteq> slot q j + of_nat c" if "c < 4" for c using that by auto
  from this [of 0] this [of 1] this [of 2] this [of 3] show ?thesis
    unfolding fld_def by (intro load32_cong) (auto simp: fun_upd_apply)
qed

lemma store_fld_byte:
  assumes "page_base p = p" and "page_base q = q" and "i < 1024" and "j < 1024" and "p \<noteq> q \<or> i \<noteq> j"
  shows "store32 m (slot p i) v (slot q j) = m (slot q j)"
proof -
  have "slot p i \<noteq> slot q j" using slot_eq_iff [OF assms(1-4)] assms(5) by blast
  from aligned_cells_disjoint [OF slot_page(3) [OF assms(1,3)] slot_page(3) [OF assms(2,4)] this, of _ 0]
  have "slot p i + of_nat c \<noteq> slot q j" if "c < 4" for c using that by auto
  from this [of 0] this [of 1] this [of 2] this [of 3] show ?thesis by (auto simp: store32_def)
qed

lemma main_task_set_fld [mem_simps]:
  assumes "page_base p = p" and "page_base q = q" and "i < 1024" and "p \<noteq> q \<or> i \<noteq> task_main_task"
  shows "main_task (sc_mem (set_fld p i v s)) q = main_task (sc_mem s) q"
  using store_fld_byte [OF assms(1,2,3), of task_main_task] assms(4)
  by (simp add: main_task_def set_fld_def layout)

lemma fld_set_main_task [mem_simps]:
  assumes "page_base p = p" and "page_base q = q" and "j < 1024" and "p \<noteq> q \<or> j \<noteq> task_main_task"
  shows "fld (sc_mem (set_main_task p b s)) q j = fld (sc_mem s) q j"
  using store_byte_fld [OF assms(1,2), of task_main_task j] assms(3,4)
  by (auto simp: set_main_task_def layout)

lemma main_task_set_main_task [mem_simps]: "main_task (sc_mem (set_main_task p b s)) p = b"
  by (simp add: main_task_def set_main_task_def)

section \<open>The list the links describe\<close>

fun lseg :: "mem \<Rightarrow> u32 \<Rightarrow> u32 list \<Rightarrow> u32 \<Rightarrow> bool" where
  \<comment> \<open>the \<open>next\<close> links lead from \<open>p\<close> over the tasks \<open>xs\<close> to \<open>q\<close>\<close>
  "lseg m p [] q \<longleftrightarrow> p = q"
| "lseg m p (x # xs) q \<longleftrightarrow> p = x \<and> x \<noteq> 0 \<and> lseg m (fld m x task_next_ptr) xs q"

fun backs :: "mem \<Rightarrow> u32 \<Rightarrow> u32 list \<Rightarrow> bool" where
  \<comment> \<open>the \<open>prev\<close> links of \<open>xs\<close> lead back to \<open>p\<close>\<close>
  "backs m p [] \<longleftrightarrow> True"
| "backs m p (x # xs) \<longleftrightarrow> fld m x task_prev_ptr = p \<and> backs m x xs"

definition last_or_null :: "u32 list \<Rightarrow> u32" where
  "last_or_null xs = (if xs = [] then 0 else last xs)"

definition tlist :: "sched \<Rightarrow> u32 list \<Rightarrow> bool" where
  \<comment> \<open>the tasks \<open>xs\<close> form a doubly linked list of heap blocks and the current task is one of them\<close>
  "tlist s xs \<longleftrightarrow> kinv (sc_k s) \<and> distinct xs \<and> set xs \<subseteq> kpages (sc_k s) \<and>
     lseg (sc_mem s) (task_head s) xs 0 \<and> backs (sc_mem s) 0 xs \<and> task_tail s = last_or_null xs \<and>
     (xs = [] \<longrightarrow> current_task s = 0) \<and> (xs \<noteq> [] \<longrightarrow> current_task s \<in> set xs)"

lemma lseg_cong:
  assumes "\<And>x. x \<in> set xs \<Longrightarrow> fld m' x task_next_ptr = fld m x task_next_ptr"
  shows "lseg m' p xs q = lseg m p xs q"
  using assms by (induction xs arbitrary: p) auto

lemma backs_cong:
  assumes "\<And>x. x \<in> set xs \<Longrightarrow> fld m' x task_prev_ptr = fld m x task_prev_ptr"
  shows "backs m' p xs = backs m p xs"
  using assms by (induction xs arbitrary: p) auto

lemma lseg_append: "lseg m p (xs @ ys) q \<longleftrightarrow> (\<exists>r. lseg m p xs r \<and> lseg m r ys q)"
  by (induction xs arbitrary: p) auto

lemma backs_append: "backs m p (xs @ ys) \<longleftrightarrow> backs m p xs \<and> backs m (last (p # xs)) ys"
  by (induction xs arbitrary: p) auto

lemma lseg_nonnull: "lseg m p xs q \<Longrightarrow> 0 \<notin> set xs"
  by (induction xs arbitrary: p) auto

lemma lseg_hd: "lseg m p xs q \<Longrightarrow> p = hd (xs @ [q])"
  by (cases xs) auto

lemma lseg_relink:
  assumes "lseg m p (xs @ [x]) r" and "x \<notin> set xs" and "fld m' x task_next_ptr = q"
    and "\<And>y. y \<in> set xs \<Longrightarrow> fld m' y task_next_ptr = fld m y task_next_ptr"
  shows "lseg m' p (xs @ [x]) q"
  using assms lseg_cong [of xs m' m] by (auto simp: lseg_append)

lemma lseg_next:
  assumes "lseg m p xs 0" and "i < length xs"
  shows "fld m (xs ! i) task_next_ptr = (if Suc i < length xs then xs ! Suc i else 0)"
proof -
  have "lseg m p (take i xs @ xs ! i # drop (Suc i) xs) 0" using assms by (simp add: id_take_nth_drop [symmetric])
  then have "lseg m (fld m (xs ! i) task_next_ptr) (drop (Suc i) xs) 0" by (auto simp: lseg_append)
  from lseg_hd [OF this] show ?thesis using assms(2) by (auto simp: hd_append hd_drop_conv_nth)
qed

section \<open>Picking the next task\<close>

lemma next_awake_eq:
  assumes "lseg m p xs 0"
  shows "next_awake m p = Some (case filter (\<lambda>t. \<not> asleep m t) xs of [] \<Rightarrow> 0 | t # _ \<Rightarrow> t)"
  using assms
proof (induction xs arbitrary: p)
  case Nil
  then show ?case by (subst next_awake.simps) simp
next
  case (Cons x xs)
  then show ?case by (subst next_awake.simps) auto
qed

lemma lseg_drop:
  assumes "lseg m p xs 0" and "i < length xs"
  shows "lseg m (xs ! i) (drop i xs) 0"
proof -
  have "lseg m p (take i xs @ xs ! i # drop (Suc i) xs) 0" using assms by (simp add: id_take_nth_drop [symmetric])
  then have "lseg m (xs ! i) (xs ! i # drop (Suc i) xs) 0" by (auto simp: lseg_append)
  then show ?thesis by (simp only: Cons_nth_drop_Suc [OF assms(2)])
qed

text \<open>C11: the scheduler looks for a task that is not asleep behind the current one, in list order, and from the head only when
  the current task is the last of the list. It switches to the first it finds, loading its page directory and restoring its
  registers; when every task behind the current one is asleep the kernel panics, also when tasks in front of it, or
  the current task itself, could run.\<close>
theorem task_next_picks:
  assumes "lseg (sc_mem s) (task_head s) xs 0" and "i < length xs" and "current_task s = xs ! i"
    and "rest = (if Suc i < length xs then drop (Suc i) xs else xs)"
  shows "case filter (\<lambda>t. \<not> asleep (sc_mem s) t) rest of
      [] \<Rightarrow> task_next s = None
    | t # _ \<Rightarrow> (\<exists>s'. task_next s = Some (slot t task_registers, s') \<and> current_task s' = t \<and> sc_mem s' = sc_mem s \<and>
                 cr3 (sc_paging s') = load32 (sc_mem s) (fld (sc_mem s) t task_page_directory))"
proof -
  have rest: "lseg (sc_mem s) (task_get_next s) rest 0"
  proof (cases "Suc i < length xs")
    case True
    have "xs ! Suc i \<noteq> 0" using lseg_nonnull [OF assms(1)] True by (metis nth_mem)
    then show ?thesis using True lseg_next [OF assms(1,2)] lseg_drop [OF assms(1) True] assms(3,4)
      by (simp add: task_get_next_def)
  next
    case False
    then show ?thesis using lseg_next [OF assms(1,2)] assms by (simp add: task_get_next_def)
  qed
  note n = next_awake_eq [OF this]
  show ?thesis
  proof (cases "filter (\<lambda>t. \<not> asleep (sc_mem s) t) rest")
    case Nil
    then show ?thesis using n by (simp add: task_next_def)
  next
    case (Cons t ts)
    then have "t \<in> set rest" by (metis filter_eq_ConsD in_set_conv_decomp)
    then have "t \<noteq> 0" using lseg_nonnull [OF rest] by auto
    then show ?thesis using n Cons by (simp add: task_next_def task_switch_def paging_switch_def Let_def)
  qed
qed

section \<open>Removing tasks\<close>

definition released :: "sched \<Rightarrow> u32 set \<Rightarrow> sched \<Rightarrow> bool" where
  \<comment> \<open>from \<open>s\<close> to \<open>s'\<close> exactly the blocks \<open>ps\<close> went back to the heap\<close>
  "released s ps s' \<longleftrightarrow> kinv (sc_k s') \<and> kused (sc_k s') = kused (sc_k s) - ps \<and> kpages (sc_k s') = kpages (sc_k s) - ps \<and>
     kroom (sc_k s') = kroom (sc_k s) + card ps"

definition owns_space :: "sched \<Rightarrow> u32 \<Rightarrow> u32 list \<Rightarrow> bool" where
  \<comment> \<open>the address space of a task: its chunk, directory and page tables are the heap blocks \<open>ps\<close>\<close>
  "owns_space s t ps \<longleftrightarrow> (let chunk = fld (sc_mem s) t task_page_directory in
     \<exists>ts. space (sc_mem s) chunk ts \<and> ps = chunk # load32 (sc_mem s) chunk # ts \<and> set ps \<subseteq> kpages (sc_k s))"

definition task_blocks :: "sched \<Rightarrow> u32 \<Rightarrow> u32 list \<Rightarrow> bool" where
  \<comment> \<open>the blocks that go with a task: its address space when it is the main task of its process, and none otherwise\<close>
  "task_blocks s t ps \<longleftrightarrow> (if main_task (sc_mem s) t then owns_space s t ps else ps = [])"

lemma space_distinct: "space m chunk ts \<Longrightarrow> distinct (chunk # load32 m chunk # ts)"
  by (auto simp: space_def pd_ok_def)

lemma sched_kfree_page:
  assumes "kinv (sc_k s)" and "t \<in> kpages (sc_k s)"
  shows "\<exists>k. sched_kfree t s = Some (s\<lparr>sc_k := k\<rparr>) \<and> released s {t} (s\<lparr>sc_k := k\<rparr>) \<and> km_mem k = sc_mem s"
  using kh.free_page [OF assms] by (auto simp: sched_kfree_def released_def)

lemma task_blocks_free:
  assumes "kinv (sc_k s)" and "task_blocks s t ps"
  shows "\<exists>k. (if main_task (sc_mem s) t
          then do { k \<leftarrow> paging_free_4gb (sc_k s) (fld (sc_mem s) t task_page_directory); Some (s\<lparr>sc_k := k\<rparr>) }
          else Some s) = Some (s\<lparr>sc_k := k\<rparr>) \<and> released s (set ps) (s\<lparr>sc_k := k\<rparr>) \<and> km_mem k = sc_mem s"
proof (cases "main_task (sc_mem s) t")
  case True
  let ?c = "fld (sc_mem s) t task_page_directory"
  from True assms(2) obtain ts where ts: "space (sc_mem s) ?c ts" "ps = ?c # load32 (sc_mem s) ?c # ts"
    "set ps \<subseteq> kpages (sc_k s)" by (auto simp: task_blocks_def owns_space_def Let_def)
  have "length ts = 1024" using ts(1) by (simp add: space_def)
  then have "card (set ps) = 1026" using space_distinct [OF ts(1)] ts(2) by (simp only: distinct_card) simp
  with paging_free_4gb_effect [OF assms(1) ts(1)] ts(2,3) True show ?thesis
    by (auto simp del: set_simps simp: released_def)
next
  case False
  then show ?thesis using assms by (intro exI [of _ "sc_k s"]) (simp add: task_blocks_def released_def)
qed

lemma task_list_remove_view [simp]:
  "kinv (sc_k (task_list_remove t s)) = kinv (sc_k s)" "kused (sc_k (task_list_remove t s)) = kused (sc_k s)"
  "kpages (sc_k (task_list_remove t s)) = kpages (sc_k s)" "kroom (sc_k (task_list_remove t s)) = kroom (sc_k s)"
  by (simp_all add: task_list_remove_def Let_def)

lemma task_list_remove_mem:
  "sc_mem (task_list_remove t s) =
     (let p = fld (sc_mem s) t task_prev_ptr
      in if p \<noteq> 0 then sc_mem (set_fld p task_next_ptr (fld (sc_mem s) t task_next_ptr) s) else sc_mem s)"
  by (simp add: task_list_remove_def Let_def)

lemma tlist_at:
  assumes "tlist s (ys @ t # zs)"
  shows "t \<noteq> 0" "page_base t = t" "fld (sc_mem s) t task_prev_ptr = last (0 # ys)"
    "fld (sc_mem s) t task_next_ptr = hd (zs @ [0])" "lseg (sc_mem s) (hd (zs @ [0])) zs 0"
    "lseg (sc_mem s) (task_head s) ys t" "t = task_tail s \<longleftrightarrow> zs = []" "t = task_head s \<longleftrightarrow> ys = []"
proof -
  have l: "lseg (sc_mem s) (task_head s) (ys @ t # zs) 0" and d: "distinct (ys @ t # zs)"
    using assms by (simp_all add: tlist_def)
  then have s: "lseg (sc_mem s) (task_head s) ys t" "lseg (sc_mem s) (fld (sc_mem s) t task_next_ptr) zs 0"
    by (auto simp: lseg_append)
  show "t \<noteq> 0" using lseg_nonnull [OF l] by auto
  show "page_base t = t" using assms kpages_aligned by (auto simp: tlist_def)
  show "fld (sc_mem s) t task_prev_ptr = last (0 # ys)" using assms by (simp add: tlist_def backs_append)
  show n: "fld (sc_mem s) t task_next_ptr = hd (zs @ [0])" by (rule lseg_hd [OF s(2)])
  show "lseg (sc_mem s) (hd (zs @ [0])) zs 0" using s(2) n by simp
  show "lseg (sc_mem s) (task_head s) ys t" by (rule s)
  show "t = task_tail s \<longleftrightarrow> zs = []" using assms d by (auto simp: tlist_def last_or_null_def)
  show "t = task_head s \<longleftrightarrow> ys = []" using lseg_hd [OF s(1)] d by (cases ys) auto
qed

lemma tlist_pages:
  assumes "tlist s xs" and "x \<in> set xs"
  shows "page_base x = x" "x \<noteq> 0" "x \<in> kpages (sc_k s)"
  using assms kpages_aligned [of "sc_k s" x] lseg_nonnull [of "sc_mem s" "task_head s" xs 0] by (auto simp: tlist_def)

lemma task_list_remove_links:
  assumes tl: "tlist s (ys @ t # zs)"
  shows "lseg (sc_mem (task_list_remove t s)) (task_head (task_list_remove t s)) (ys @ zs) 0"
    and "task_tail (task_list_remove t s) = last_or_null (ys @ zs)"
    and "current_task (task_list_remove t s) = (if t = current_task s then hd (zs @ ys @ [0]) else current_task s)"
proof -
  note at = tlist_at [OF tl] and pg = tlist_pages [OF tl]
  let ?n = "hd (zs @ [0])" and ?s' = "task_list_remove t s"
  have dist: "distinct (ys @ t # zs)" using tl by (simp add: tlist_def)
  have "lseg (sc_mem ?s') (task_head ?s') (ys @ zs) 0 \<and> task_tail ?s' = last_or_null (ys @ zs) \<and>
     current_task ?s' = (if t = current_task s then hd (zs @ ys @ [0]) else current_task s)"
  proof (cases ys rule: rev_cases)
    case Nil
    have "fld (sc_mem s) t task_prev_ptr = 0" "task_head s = t" using at(3,8) Nil by simp_all
    moreover have "task_tail s = (if zs = [] then t else last zs)" using tl by (simp add: last_or_null_def tlist_def)
    moreover have "?n = 0 \<longleftrightarrow> zs = []" "zs \<noteq> [] \<Longrightarrow> last zs \<noteq> t" using pg dist by (auto simp: hd_append)
    ultimately show ?thesis using at(4,5) Nil
      by (cases "zs = []"; cases "current_task s = t") (simp_all add: task_list_remove_def Let_def task_get_next_def last_or_null_def hd_append)
  next
    case (snoc ws x)
    have x: "x \<noteq> 0" "page_base x = x" "x \<noteq> t" "x \<notin> set ws" "x \<notin> set zs"
      using pg [of x] dist snoc by auto
    have fl: "fld (sc_mem (set_fld x task_next_ptr ?n s)) q i = (if x = q \<and> i = task_next_ptr then ?n else fld (sc_mem s) q i)"
      if "page_base q = q" "i < 1024" for q i
      using fld_set_fld [OF x(2) that(1) _ that(2), of task_next_ptr ?n s] by (simp add: layout)
    let ?m = "sc_mem (set_fld x task_next_ptr ?n s)"
    have "lseg ?m (task_head s) (ws @ [x]) ?n"
      by (rule lseg_relink [of "sc_mem s" _ _ _ t]) (use at(6) snoc x fl pg in \<open>auto simp: layout\<close>)
    moreover have "lseg ?m ?n zs 0"
      using at(5) x(5) by (subst lseg_cong [where m = "sc_mem s"]) (use fl pg in \<open>auto simp: layout\<close>)
    ultimately have "lseg ?m (task_head s) (ys @ zs) 0" unfolding snoc lseg_append by blast
    moreover have "fld ?m t task_next_ptr = ?n" "fld ?m t task_prev_ptr = x"
      using fl [OF at(2)] at(3,4) x(3) snoc by (simp_all add: layout)
    moreover have "hd (ys @ [0]) = task_head s" using lseg_hd [OF at(6)] snoc by (cases ws) auto
    moreover have "fld (sc_mem s) t task_prev_ptr = x" "t \<noteq> task_head s" using at(3,8) snoc by simp_all
    moreover have "last_or_null (ys @ zs) = (if zs = [] then x else last zs)" "task_tail s = (if zs = [] then t else last zs)"
      using tl snoc by (simp_all add: last_or_null_def tlist_def)
    moreover have "?n = 0 \<longleftrightarrow> zs = []" "zs \<noteq> [] \<Longrightarrow> last zs \<noteq> t" using pg dist by (auto simp: hd_append)
    ultimately show ?thesis using at(4) x(1)
      by (cases "zs = []"; cases "current_task s = t") (simp_all add: task_list_remove_def Let_def task_get_next_def hd_append)
  qed
  then show "lseg (sc_mem ?s') (task_head ?s') (ys @ zs) 0" "task_tail ?s' = last_or_null (ys @ zs)"
    "current_task ?s' = (if t = current_task s then hd (zs @ ys @ [0]) else current_task s)" by blast+
qed

lemma released_trans:
  assumes "released s A s1" and "released s1 B s2" and "finite A" and "finite B" and "A \<inter> B = {}"
  shows "released s (A \<union> B) s2"
  using assms by (auto simp: released_def card_Un_disjoint)

lemma task_free_step:
  assumes "kinv (sc_k s)" and "t \<in> kpages (sc_k s)" and "task_blocks s t ps" and "t \<notin> set ps"
  obtains k1 k2 where "km_mem k1 = sc_mem s" "released s (set ps) (s\<lparr>sc_k := k1\<rparr>)"
    "km_mem k2 = sc_mem (task_list_remove t (s\<lparr>sc_k := k1\<rparr>))"
    "task_free t s = Some (0, (task_list_remove t (s\<lparr>sc_k := k1\<rparr>))\<lparr>sc_k := k2\<rparr>)"
    "released s (insert t (set ps)) ((task_list_remove t (s\<lparr>sc_k := k1\<rparr>))\<lparr>sc_k := k2\<rparr>)"
proof -
  from task_blocks_free [OF assms(1,3)] obtain k1 where k1: "(if main_task (sc_mem s) t
          then do { k \<leftarrow> paging_free_4gb (sc_k s) (fld (sc_mem s) t task_page_directory); Some (s\<lparr>sc_k := k\<rparr>) }
          else Some s) = Some (s\<lparr>sc_k := k1\<rparr>)" "released s (set ps) (s\<lparr>sc_k := k1\<rparr>)" "km_mem k1 = sc_mem s" by blast
  let ?r = "task_list_remove t (s\<lparr>sc_k := k1\<rparr>)"
  have "kinv (sc_k ?r)" "t \<in> kpages (sc_k ?r)" using k1(2) assms(2,4) by (simp_all add: released_def)
  from sched_kfree_page [OF this] obtain k2 where k2: "sched_kfree t ?r = Some (?r\<lparr>sc_k := k2\<rparr>)"
    "released ?r {t} (?r\<lparr>sc_k := k2\<rparr>)" "km_mem k2 = sc_mem ?r" by blast
  have "released s (set ps) ?r" using k1(2) by (simp add: released_def)
  from released_trans [OF this k2(2)] assms(4) have "released s (insert t (set ps)) (?r\<lparr>sc_k := k2\<rparr>)" by simp
  moreover have "task_free t s = Some (0, ?r\<lparr>sc_k := k2\<rparr>)" unfolding task_free_def using k1(1) k2(1) by (simp only: Let_def bind.bind_lunit)
  ultimately show ?thesis using that [OF k1(3,2) k2(3)] by blast
qed

lemma tlist_released:
  assumes "tlist s xs" and "released s ps (s\<lparr>sc_k := k\<rparr>)" and "km_mem k = sc_mem s" and "ps \<inter> set xs = {}"
  shows "tlist (s\<lparr>sc_k := k\<rparr>) xs"
  using assms by (auto simp: tlist_def released_def)

definition relinked :: "sched \<Rightarrow> u32 \<Rightarrow> sched \<Rightarrow> bool" where
  \<comment> \<open>no field of a structure that starts a page changed, except the \<open>next\<close> link of \<open>x\<close>\<close>
  "relinked s x s' \<longleftrightarrow> (\<forall>q i. page_base q = q \<and> i < 1024 \<and> (q \<noteq> x \<or> i \<noteq> task_next_ptr) \<longrightarrow>
       fld (sc_mem s') q i = fld (sc_mem s) q i) \<and>
     (\<forall>q. page_base q = q \<longrightarrow> main_task (sc_mem s') q = main_task (sc_mem s) q)"

lemma relinkedD:
  assumes "relinked s x s'" and "page_base q = q"
  shows "i < 1024 \<Longrightarrow> q \<noteq> x \<or> i \<noteq> task_next_ptr \<Longrightarrow> fld (sc_mem s') q i = fld (sc_mem s) q i"
    and "main_task (sc_mem s') q = main_task (sc_mem s) q"
  using assms by (auto simp: relinked_def)

lemma task_list_remove_relinked:
  assumes "fld (sc_mem s) t task_prev_ptr = x" and "x \<noteq> 0 \<longrightarrow> page_base x = x"
  shows "relinked s x (task_list_remove t s)"
  using fld_set_fld [of x _ task_next_ptr _ "fld (sc_mem s) t task_next_ptr" s]
    main_task_set_fld [of x _ task_next_ptr "fld (sc_mem s) t task_next_ptr" s] assms
  by (auto simp: relinked_def task_list_remove_mem Let_def layout)

lemma task_free_effect:
  assumes "tlist s (ys @ t # zs)" and "task_blocks s t ps" and "set ps \<inter> set (ys @ t # zs) = {}"
  obtains s' where "task_free t s = Some (0, s')" "released s (insert t (set ps)) s'"
    "lseg (sc_mem s') (task_head s') (ys @ zs) 0" "task_tail s' = last_or_null (ys @ zs)"
    "current_task s' = (if t = current_task s then hd (zs @ ys @ [0]) else current_task s)"
    "relinked s (last (0 # ys)) s'"
proof -
  have "kinv (sc_k s)" "t \<in> kpages (sc_k s)" "t \<notin> set ps" using assms(1,3) by (auto simp: tlist_def)
  from task_free_step [OF this(1,2) assms(2) this(3)] obtain k1 k2 where
    k: "km_mem k1 = sc_mem s" "released s (set ps) (s\<lparr>sc_k := k1\<rparr>)" "km_mem k2 = sc_mem (task_list_remove t (s\<lparr>sc_k := k1\<rparr>))"
    "task_free t s = Some (0, (task_list_remove t (s\<lparr>sc_k := k1\<rparr>))\<lparr>sc_k := k2\<rparr>)"
    "released s (insert t (set ps)) ((task_list_remove t (s\<lparr>sc_k := k1\<rparr>))\<lparr>sc_k := k2\<rparr>)" by blast
  have tl: "tlist (s\<lparr>sc_k := k1\<rparr>) (ys @ t # zs)" by (rule tlist_released [OF assms(1) k(2,1) assms(3)])
  have "last (0 # ys) \<noteq> 0 \<longrightarrow> page_base (last (0 # ys)) = last (0 # ys)"
    using tlist_pages(1) [OF assms(1), of "last ys"] by auto
  from task_list_remove_relinked [OF tlist_at(3) [OF tl] this]
  have "relinked s (last (0 # ys)) ((task_list_remove t (s\<lparr>sc_k := k1\<rparr>))\<lparr>sc_k := k2\<rparr>)"
    using k(1,3) by (simp add: relinked_def)
  then show ?thesis by (intro that [OF k(4,5)]) (use task_list_remove_links [OF tl] k(3) in simp_all)
qed

text \<open>C12: freeing a task of a well-formed list takes exactly that task out of it. \<open>task_free\<close> returns 0; the block of the task and, for the
  main task of a process, the blocks of its address space go back to the heap and nothing else does; the \<open>next\<close> links now describe the list
  without the task, the tail is its last element, and if the task was the current one its successor becomes current,
  or the head when it had none.\<close>
theorem task_free_unlinks:
  assumes "tlist s (ys @ t # zs)" and "task_blocks s t ps" and "set ps \<inter> set (ys @ t # zs) = {}"
  shows "\<exists>s'. task_free t s = Some (0, s') \<and> released s (insert t (set ps)) s' \<and>
     lseg (sc_mem s') (task_head s') (ys @ zs) 0 \<and> task_tail s' = last_or_null (ys @ zs) \<and>
     current_task s' = (if t = current_task s then hd (zs @ ys @ [0]) else current_task s)"
  using task_free_effect [OF assms] by blast

lemma task_free_stale:
  \<comment> \<open>the \<open>prev\<close> link of \<open>u\<close> leads to a block \<open>t\<close> that is no longer in the list\<close>
  assumes "kinv (sc_k s)" and "u \<in> kpages (sc_k s)" and "\<not> main_task (sc_mem s) u"
    and "fld (sc_mem s) u task_prev_ptr = t" and "t \<noteq> 0" and "page_base t = t" and "u \<noteq> task_head s"
    and "lseg (sc_mem s) (task_head s) xs 0" and "t \<notin> set xs" and "\<forall>x \<in> set xs. page_base x = x"
  obtains s' where "task_free u s = Some (0, s')" "released s {u} s'" "lseg (sc_mem s') (task_head s') xs 0"
    "relinked s t s'"
proof -
  have "task_blocks s u []" using assms(3) by (simp add: task_blocks_def)
  from task_free_step [OF assms(1,2) this, simplified] obtain k1 k2 where
    k: "km_mem k1 = sc_mem s" "km_mem k2 = sc_mem (task_list_remove u (s\<lparr>sc_k := k1\<rparr>))"
    "task_free u s = Some (0, (task_list_remove u (s\<lparr>sc_k := k1\<rparr>))\<lparr>sc_k := k2\<rparr>)"
    "released s {u} ((task_list_remove u (s\<lparr>sc_k := k1\<rparr>))\<lparr>sc_k := k2\<rparr>)" by blast
  define s' where "s' = (task_list_remove u (s\<lparr>sc_k := k1\<rparr>))\<lparr>sc_k := k2\<rparr>"
  have rl: "relinked s t s'"
    using task_list_remove_relinked [of "s\<lparr>sc_k := k1\<rparr>" u t] assms(4,6) k(1,2) by (simp add: s'_def relinked_def)
  have "task_head s' = task_head s" using assms(7) by (simp add: s'_def task_list_remove_def Let_def)
  moreover have "lseg (sc_mem s') (task_head s) xs 0 = lseg (sc_mem s) (task_head s) xs 0"
    using assms(9,10) by (intro lseg_cong relinkedD(1) [OF rl]) (auto simp: layout)
  ultimately show ?thesis using that [of s'] k(3,4) rl assms(8) by (simp add: s'_def)
qed

lemma task_free_all_skip:
  assumes "lseg (sc_mem s) c xs q" and "\<And>x. x \<in> set xs \<Longrightarrow> fld (sc_mem s) x task_process \<noteq> p"
  shows "task_free_all_loop p c s = task_free_all_loop p q s"
  using assms
proof (induction xs arbitrary: c)
  case (Cons x xs)
  then show ?case by (subst task_free_all_loop.simps) auto
qed simp

lemma task_free_all_take:
  assumes "c \<noteq> 0" and "fld (sc_mem s) c task_process = p" and "task_free c s = Some (r, s')"
  shows "task_free_all_loop p c s = task_free_all_loop p (fld (sc_mem s') c task_next_ptr) s'"
  using assms by (subst task_free_all_loop.simps) auto

text \<open>\<open>task_list_remove\<close> never repairs the \<open>prev\<close> link of the task behind the removed one, so a later removal of that task goes wrong.
  When a process with two neighbouring tasks ends, \<open>task_free_all_for_process\<close> gives both blocks back to the heap, but the
  second one stays in the list: the links from the head still lead through a freed block.\<close>
theorem task_free_all_leaves_freed:
  assumes "tlist s (ys @ x # t # u # zs)" and "task_blocks s t ps" and "set ps \<inter> set (ys @ x # t # u # zs) = {}"
    and "\<not> main_task (sc_mem s) u" and "fld (sc_mem s) t task_process = p" and "fld (sc_mem s) u task_process = p"
    and "\<forall>w \<in> set (ys @ x # zs). fld (sc_mem s) w task_process \<noteq> p"
  shows "\<exists>s'. task_free_all_for_process p s = Some s' \<and> t \<notin> kused (sc_k s') \<and> u \<notin> kused (sc_k s') \<and>
     lseg (sc_mem s') (task_head s') (ys @ x # u # zs) 0"
proof -
  have tl: "tlist s ((ys @ [x]) @ t # u # zs)" and tl2: "tlist s ((ys @ [x, t]) @ u # zs)" using assms(1) by simp_all
  note pg = tlist_pages [OF assms(1)]
  have dist: "distinct (ys @ x # t # u # zs)" using assms(1) by (simp add: tlist_def)
  obtain s1 where s1: "task_free t s = Some (0, s1)" "released s (insert t (set ps)) s1"
    "lseg (sc_mem s1) (task_head s1) (ys @ x # u # zs) 0" and r1: "relinked s x s1"
    using task_free_effect [OF tl assms(2), simplified, OF assms(3) [simplified]] by blast
  note fl1 = relinkedD(1) [OF r1] and pu = pg(1) [of u, simplified]
  have pv: "fld (sc_mem s1) u task_prev_ptr = t" using fl1 [OF pu] tlist_at(3) [OF tl2] by (simp add: layout)
  have inv1: "kinv (sc_k s1)" "u \<in> kpages (sc_k s1)" using s1(2) assms(1,3) dist by (auto simp: released_def tlist_def)
  have hd1: "u \<noteq> task_head s1" using lseg_hd [OF s1(3)] dist by (cases ys) auto
  have t1: "t \<noteq> 0" "page_base t = t" "t \<notin> set (ys @ x # u # zs)" "\<not> main_task (sc_mem s1) u"
    "\<forall>w \<in> set (ys @ x # u # zs). page_base w = w" using pg relinkedD(2) [OF r1 pu] assms(4) dist by auto
  obtain s2 where s2: "task_free u s1 = Some (0, s2)" "released s1 {u} s2" "lseg (sc_mem s2) (task_head s2) (ys @ x # u # zs) 0"
    and r2: "relinked s1 t s2"
    using task_free_stale [OF inv1 t1(4) pv t1(1,2) hd1 s1(3) t1(3,5)] by blast
  have pr: "fld (sc_mem s2) w task_process = fld (sc_mem s) w task_process" if "w \<in> set zs" for w
    using that fl1 [of w task_process] relinkedD(1) [OF r2, of w task_process] pg [of w] by (simp add: layout)
  have n1: "fld (sc_mem s1) t task_next_ptr = u" using fl1 [of t task_next_ptr] tlist_at(4) [OF tl] t1(2) dist by (auto simp: layout)
  have z2: "lseg (sc_mem s2) (fld (sc_mem s2) u task_next_ptr) zs 0" using s2(3) by (auto simp: lseg_append)
  have "task_free_all_loop p (task_head s) s = task_free_all_loop p t s"
    by (rule task_free_all_skip [OF tlist_at(6) [OF tl]]) (use assms(7) in auto)
  also have "\<dots> = task_free_all_loop p u s1" using task_free_all_take [OF t1(1) assms(5) s1(1)] n1 by simp
  also have "\<dots> = task_free_all_loop p (fld (sc_mem s2) u task_next_ptr) s2"
    by (rule task_free_all_take [OF _ _ s2(1)]) (use pg [of u] fl1 [of u task_process] assms(6) in \<open>simp_all add: layout\<close>)
  also have "\<dots> = task_free_all_loop p 0 s2"
    by (rule task_free_all_skip [OF z2]) (use pr assms(7) in auto)
  also have "\<dots> = Some s2" by (subst task_free_all_loop.simps) simp
  finally have "task_free_all_for_process p s = Some s2" by (simp add: task_free_all_for_process_def)
  then show ?thesis using s2(2,3) s1(2) by (auto simp: released_def)
qed

section \<open>Creating tasks\<close>

lemma space_cong:
  assumes "space m chunk ts" and "\<And>a. page_base a \<in> set (chunk # load32 m chunk # ts) \<Longrightarrow> m' a = m a"
  shows "load32 m' chunk = load32 m chunk" "space m' chunk ts"
    "paging_is_aligned v \<Longrightarrow> translate m' chunk v = translate m chunk v"
proof -
  let ?D = "load32 m chunk"
  have pd: "pd_ok m ?D ts" "length ts = 1024" "page_base chunk = chunk" using assms(1) by (simp_all add: space_def)
  then have al: "\<forall>p \<in> set (?D # ts). page_base p = p" by (simp add: pd_ok_def)
  have cell: "load32 m' (slot q j) = load32 m (slot q j)" if "q \<in> set (chunk # ?D # ts)" "j < 1024" for q j
    using that al pd(3) assms(2) by (intro load32_slot_cong) auto
  show D: "load32 m' chunk = ?D" using cell [of chunk 0] by simp
  have pd': "pd_ok m' ?D ts" using pd cell [of ?D] by (simp add: pd_ok_def)
  then show "space m' chunk ts" using assms(1) by (simp add: space_def D)
  show "translate m' chunk v = translate m chunk v" if "paging_is_aligned v"
    unfolding translate_def D using paging_get_slot [OF pd(1,2) that] paging_get_slot [OF pd' pd(2) that]
      cell [of "ts ! page_dir v" "page_tab v"] paging_get_indexes_aligned [OF that] pd(2) by simp
qed

lemma clear_task_effect:
  assumes "page_base t = t"
  shows "page_base a \<noteq> t \<Longrightarrow> sc_mem (clear_task t s) a = sc_mem s a"
    and "i < 17 \<Longrightarrow> fld (sc_mem (clear_task t s)) t i = 0"
proof -
  have m: "sc_mem (clear_task t s) a = (if unat (a - t) < 68 then 0 else sc_mem s a)" for a
    by (simp add: clear_task_def memset_at_apply layout)
  show "sc_mem (clear_task t s) a = sc_mem s a" if "page_base a \<noteq> t"
    using in_page_iff [OF assms, of a] that m by simp
  have z: "sc_mem (clear_task t s) (slot t i + of_nat c) = 0" if "i < 17" "c < 4" for c
  proof -
    have "slot t i + of_nat c - t = (of_nat (4 * i + c) :: u32)" by simp
    then have "unat (slot t i + of_nat c - t) = 4 * i + c" using that by (simp only: unat_of_nat) (simp add: take_bit_nat_eq_self)
    then show ?thesis using m that by simp
  qed
  show "fld (sc_mem (clear_task t s)) t i = 0" if "i < 17"
    using z [OF that, of 0] z [OF that, of 1] z [OF that, of 2] z [OF that, of 3] by (simp add: fld_def load32_def)
qed

lemma clear_task_view [simp]:
  "kinv (sc_k (clear_task t s)) = kinv (sc_k s)" "kused (sc_k (clear_task t s)) = kused (sc_k s)"
  "kpages (sc_k (clear_task t s)) = kpages (sc_k s)" "kroom (sc_k (clear_task t s)) = kroom (sc_k s)"
  "task_head (clear_task t s) = task_head s" "task_tail (clear_task t s) = task_tail s"
  "current_task (clear_task t s) = current_task s"
  by (simp_all add: clear_task_def)

definition same_lists :: "sched \<Rightarrow> sched \<Rightarrow> bool" where
  "same_lists s s' \<longleftrightarrow> task_head s' = task_head s \<and> task_tail s' = task_tail s \<and> current_task s' = current_task s"

definition ready_task :: "sched \<Rightarrow> u32 \<Rightarrow> u32 \<Rightarrow> u32 \<Rightarrow> u32 list \<Rightarrow> bool" where
  \<comment> \<open>a main task that starts at \<open>ip\<close> in an address space of its own, with blocks \<open>ps\<close>, that maps every page to itself for reading\<close>
  "ready_task s t process ip ps \<longleftrightarrow> main_task (sc_mem s) t \<and> fld (sc_mem s) t task_process = process \<and>
     fld (sc_mem s) t task_ip = ip \<and> fld (sc_mem s) t task_cs = USER_CODE_SEGMENT \<and> fld (sc_mem s) t task_ss = USER_DATA_SEGMENT \<and>
     fld (sc_mem s) t task_esp = SERPAEOS_PROGRAM_VIRTUAL_STACK_ADDRESS_START \<and> owns_space s t ps \<and>
     (\<forall>v. paging_is_aligned v \<longrightarrow> translate (sc_mem s) (fld (sc_mem s) t task_page_directory) v = v OR 5)"

lemma paging_new_4gb_nonnull: "paging_new_4gb k flags = Some (c, k') \<Longrightarrow> c \<noteq> 0"
  by (auto simp: paging_new_4gb_def split: Option.bind_splits if_splits)

definition fill_task :: "u32 \<Rightarrow> u32 \<Rightarrow> u32 \<Rightarrow> u32 \<Rightarrow> sched \<Rightarrow> sched" where
  "fill_task t c p ip s = set_main_task t True (set_fld t task_process p (start_registers t ip (set_fld t task_page_directory c s)))"

lemma fill_task_effect:
  assumes "page_base t = t"
  shows "page_base a \<noteq> t \<Longrightarrow> sc_mem (fill_task t c p ip s) a = sc_mem s a"
    and "main_task (sc_mem (fill_task t c p ip s)) t"
    and "i < 1024 \<Longrightarrow> i \<noteq> task_main_task \<Longrightarrow> fld (sc_mem (fill_task t c p ip s)) t i =
      (if i = task_page_directory then c else if i = task_process then p else if i = task_ip then ip
       else if i = task_cs then USER_CODE_SEGMENT else if i = task_ss then USER_DATA_SEGMENT
       else if i = task_esp then SERPAEOS_PROGRAM_VIRTUAL_STACK_ADDRESS_START else fld (sc_mem s) t i)"
    and "same_lists s (fill_task t c p ip s)" and "km_heap (sc_k (fill_task t c p ip s)) = km_heap (sc_k s)"
  unfolding fill_task_def start_registers_def Let_def
  using assms by (simp_all add: mem_simps set_fld_frame set_main_task_frame layout same_lists_def)

lemma heap_view:
  "km_heap k = km_heap k' \<Longrightarrow> kinv k = kinv k'" "km_heap k = km_heap k' \<Longrightarrow> kused k = kused k'"
  "km_heap k = km_heap k' \<Longrightarrow> kpages k = kpages k'" "km_heap k = km_heap k' \<Longrightarrow> kroom k = kroom k'"
  by (simp_all add: kinv_def kused_def kpages_def kroom_def block_addr_def)

lemma task_init_effect:
  assumes "kinv (sc_k s)" and "t \<in> kpages (sc_k s)" and "1026 \<le> kroom (sc_k s)"
    and ep: "\<And>m. (\<And>a. page_base a \<in> kused (sc_k s) - {t} \<Longrightarrow> m a = sc_mem s a) \<Longrightarrow> entry_point m p = ip"
  obtains s' ps where "task_init t p s = Some (0, s')" "kinv (sc_k s')" "kused (sc_k s') = kused (sc_k s) \<union> set ps"
    "kpages (sc_k s') = kpages (sc_k s) \<union> set ps" "kused (sc_k s) \<inter> set ps = {}" "kroom (sc_k s') + 1026 = kroom (sc_k s)"
    "\<And>a. page_base a \<in> kused (sc_k s) - {t} \<Longrightarrow> sc_mem s' a = sc_mem s a" "same_lists s s'"
    "ready_task s' t p ip ps" "fld (sc_mem s') t task_next_ptr = 0" "fld (sc_mem s') t task_prev_ptr = 0"
proof -
  have tp: "page_base t = t" "t \<in> kused (sc_k s)" using kpages_aligned [OF assms(1,2)] assms(2) kh.pages_used by auto
  let ?s1 = "clear_task t s"
  from paging_new_4gb_space [of "sc_k ?s1" 5] assms(1,3) obtain c k2 ts where
    new: "paging_new_4gb (sc_k ?s1) 5 = Some (c, k2)" "kinv k2" "space (km_mem k2) c ts"
    "\<forall>v. paging_is_aligned v \<longrightarrow> translate (km_mem k2) c v = v OR ucast (5 :: u8)"
    "kused k2 = kused (sc_k s) \<union> set (c # load32 (km_mem k2) c # ts)"
    "kpages k2 = kpages (sc_k s) \<union> set (c # load32 (km_mem k2) c # ts)"
    "kused (sc_k s) \<inter> set (c # load32 (km_mem k2) c # ts) = {}" "kroom k2 + 1026 = kroom (sc_k s)"
    "\<forall>a. page_base a \<in> kused (sc_k s) \<longrightarrow> km_mem k2 a = sc_mem ?s1 a" by auto
  let ?s3 = "?s1\<lparr>sc_k := k2\<rparr>" and ?ps = "c # load32 (km_mem k2) c # ts"
  define s' where "s' = fill_task t c p ip ?s3"
  note fill = fill_task_effect [OF tp(1), where c = c and p = p and ip = ip and s = ?s3, folded s'_def]
  have fr3: "sc_mem ?s3 a = sc_mem s a" if "page_base a \<in> kused (sc_k s) - {t}" for a
    using that new(9) clear_task_effect(1) [OF tp(1)] by simp
  have "entry_point (sc_mem (set_fld t task_page_directory c ?s3)) p = ip"
    using fr3 set_fld_frame [OF tp(1), of task_page_directory] by (intro ep) (simp add: layout)
  then have run: "task_init t p s = Some (0, s')"
    using new(1) paging_new_4gb_nonnull [OF new(1)] by (simp add: task_init_def on_kmem_def s'_def fill_task_def)
  have z: "fld (sc_mem ?s3) t i = 0" if "i < 17" for i
    using fld_cong [OF tp(1), of i "km_mem k2" "sc_mem ?s1"] clear_task_effect(2) [OF tp(1) that] new(9) tp(2) that by simp
  have nt: "t \<notin> set ?ps" using new(7) tp(2) by blast
  then have "sc_mem s' a = km_mem k2 a" if "page_base a \<in> set ?ps" for a using fill(1) that by (metis sched.select_convs(1) sched.surjective sched.update_convs(1))
  note sp = space_cong [OF new(3) this]
  have heap: "kinv (sc_k s')" "kused (sc_k s') = kused k2" "kpages (sc_k s') = kpages k2" "kroom (sc_k s') = kroom k2"
    using heap_view [of "sc_k s'" k2] fill(5) new(2) by simp_all
  have "ready_task s' t p ip ?ps"
    using fill(2,3) sp new(4,6) heap(3) by (simp add: ready_task_def layout owns_space_def) blast
  moreover have "fld (sc_mem s') t task_next_ptr = 0" "fld (sc_mem s') t task_prev_ptr = 0"
    using fill(3) z by (simp_all add: layout)
  ultimately show ?thesis
    using that [OF run heap(1), of ?ps] heap new(5-8) fr3 fill(1,4) by (simp add: same_lists_def)
qed

definition in_use :: "kmem \<Rightarrow> u32 \<Rightarrow> bool" where
  \<comment> \<open>the 32-bit word at an address lies in blocks of the heap that are in use\<close>
  "in_use k a \<longleftrightarrow> (\<forall>i \<in> {0, 1, 2, 3}. page_base (a + i) \<in> kused k)"

definition entry_in_use :: "kmem \<Rightarrow> u32 \<Rightarrow> bool" where
  \<comment> \<open>everything \<open>task_init\<close> reads to find the entry point of the program of a process lies in blocks in use\<close>
  "entry_in_use k p \<longleftrightarrow> (let m = km_mem k; f = load32 m (p + process_ptr); e = load32 m (f + elf_file_memory) in
     page_base (p + process_filetype) \<in> kused k \<and>
     (m (p + process_filetype) = PROCESS_FILETYPE_ELF \<longrightarrow>
        in_use k (p + process_ptr) \<and> in_use k (f + elf_file_memory) \<and> in_use k (e + elf_e_entry)))"

lemma in_use_load:
  assumes "in_use k a" and "\<And>a. page_base a \<in> kused k \<Longrightarrow> m a = km_mem k a"
  shows "load32 m a = load32 (km_mem k) a"
  using assms by (intro load32_cong) (auto simp: in_use_def)

lemma entry_point_stable:
  assumes "entry_in_use k p" and "\<And>a. page_base a \<in> kused k \<Longrightarrow> m a = km_mem k a"
  shows "entry_point m p = entry_point (km_mem k) p"
  using assms in_use_load [OF _ assms(2)] by (simp add: entry_point_def entry_in_use_def Let_def)

lemma append_task_tlist:
  assumes "tlist s xs" and "same_lists s s1" and "kinv (sc_k s1)" and "kpages (sc_k s) \<subseteq> kpages (sc_k s1)"
    and fr: "\<And>a. page_base a \<in> kused (sc_k s) \<Longrightarrow> sc_mem s1 a = sc_mem s a"
    and "t \<in> kpages (sc_k s1)" and "t \<noteq> 0" and "t \<notin> set xs"
    and "fld (sc_mem s1) t task_next_ptr = 0" and "fld (sc_mem s1) t task_prev_ptr = 0"
  shows "tlist (append_task t s1) (xs @ [t])"
    and "current_task (append_task t s1) = (if xs = [] then t else current_task s)"
proof -
  have tp: "page_base t = t" by (rule kpages_aligned [OF assms(3,6)])
  have fl: "fld (sc_mem s1) x i = fld (sc_mem s) x i" if "x \<in> set xs" "i < 1024" for x i
    using tlist_pages [OF assms(1) that(1)] that kh.pages_used by (intro fld_cong fr) auto
  have l1: "lseg (sc_mem s1) (task_head s) xs 0" "backs (sc_mem s1) 0 xs"
    using assms(1) lseg_cong [of xs "sc_mem s1" "sc_mem s"] backs_cong [of xs "sc_mem s1" "sc_mem s"] fl
    by (auto simp: tlist_def layout)
  have "tlist (append_task t s1) (xs @ [t]) \<and> current_task (append_task t s1) = (if xs = [] then t else current_task s)"
  proof (cases xs rule: rev_cases)
    case Nil
    then show ?thesis using assms by (auto simp: tlist_def append_task_def same_lists_def last_or_null_def)
  next
    case (snoc ws x)
    have x: "page_base x = x" "x \<noteq> t" "x \<notin> set ws" "task_tail s1 = x" "x \<noteq> 0"
      using tlist_pages [OF assms(1), of x] assms(1,2,8) snoc by (auto simp: tlist_def same_lists_def last_or_null_def)
    let ?s3 = "set_fld t task_prev_ptr x (set_fld x task_next_ptr t s1)"
    have f3: "fld (sc_mem ?s3) q i = (if q = t \<and> i = task_prev_ptr then x else if q = x \<and> i = task_next_ptr then t else fld (sc_mem s1) q i)"
      if "page_base q = q" "i < 1024" for q i
      using fld_set_fld [OF tp that(1), of task_prev_ptr i] fld_set_fld [OF x(1) that(1), of task_next_ptr i] that(2)
      by (auto simp: layout)
    note pg = tlist_pages(1) [OF assms(1)]
    have "lseg (sc_mem ?s3) (task_head s) (ws @ [x]) t"
      by (rule lseg_relink [of "sc_mem s1" _ _ _ 0]) (use l1(1) snoc x assms(8) f3 pg in \<open>auto simp: layout\<close>)
    moreover have "fld (sc_mem ?s3) t task_next_ptr = 0" "fld (sc_mem ?s3) t task_prev_ptr = x"
      using f3 [OF tp] assms(9) x(2) by (simp_all add: layout)
    ultimately have "lseg (sc_mem ?s3) (task_head s) (xs @ [t]) 0" unfolding snoc lseg_append using assms(7) by auto
    moreover have "backs (sc_mem ?s3) 0 xs"
      using l1(2) by (subst backs_cong [where m = "sc_mem s1"]) (use f3 pg assms(8) in \<open>auto simp: layout\<close>)
    then have "backs (sc_mem ?s3) 0 (xs @ [t])" using \<open>fld (sc_mem ?s3) t task_prev_ptr = x\<close> snoc by (simp add: backs_append)
    moreover have "task_head s1 \<noteq> 0" using lseg_hd [OF l1(1)] lseg_nonnull [OF l1(1)] assms(2) snoc
      by (cases ws) (auto simp: same_lists_def)
    then have "append_task t s1 = ?s3\<lparr>task_tail := t\<rparr>" using x(4) by (simp add: append_task_def Let_def)
    ultimately show ?thesis using assms snoc by (auto simp: tlist_def same_lists_def last_or_null_def)
  qed
  then show "tlist (append_task t s1) (xs @ [t])" "current_task (append_task t s1) = (if xs = [] then t else current_task s)"
    by blast+
qed

lemma append_task_view [simp]:
  "kinv (sc_k (append_task t s)) = kinv (sc_k s)" "kused (sc_k (append_task t s)) = kused (sc_k s)"
  "kpages (sc_k (append_task t s)) = kpages (sc_k s)" "kroom (sc_k (append_task t s)) = kroom (sc_k s)"
  by (simp_all add: append_task_def Let_def)

lemma append_task_ready:
  assumes "ready_task s t p ip ps" and "page_base t = t" and "t \<notin> set ps"
    and "task_head s \<noteq> 0 \<longrightarrow> page_base (task_tail s) = task_tail s \<and> task_tail s \<noteq> t \<and> task_tail s \<notin> set ps"
  shows "ready_task (append_task t s) t p ip ps"
proof (cases "task_head s = 0")
  case True
  then show ?thesis using assms(1) by (simp add: ready_task_def owns_space_def append_task_def)
next
  case False
  let ?s = "append_task t s" and ?c = "fld (sc_mem s) t task_page_directory"
  have tail: "page_base (task_tail s) = task_tail s" "task_tail s \<noteq> t" "task_tail s \<notin> set ps" using assms(4) False by auto
  have f: "fld (sc_mem ?s) t i = fld (sc_mem s) t i" if "i < 1024" "i \<noteq> task_prev_ptr" for i
    using that False assms(2) tail by (simp add: append_task_def Let_def mem_simps layout)
  have m: "main_task (sc_mem ?s) t = main_task (sc_mem s) t"
    using False assms(2) tail by (simp add: append_task_def Let_def mem_simps layout)
  have fr: "sc_mem ?s a = sc_mem s a" if "page_base a \<in> set ps" for a
  proof -
    have "page_base a \<noteq> t" "page_base a \<noteq> task_tail s" using that assms(3) tail(3) by auto
    then show ?thesis using False assms(2) tail(1) by (simp add: append_task_def Let_def set_fld_frame layout)
  qed
  obtain ts where ts: "space (sc_mem s) ?c ts" "ps = ?c # load32 (sc_mem s) ?c # ts" "set ps \<subseteq> kpages (sc_k s)"
    using assms(1) by (auto simp: ready_task_def owns_space_def Let_def)
  note sp = space_cong [OF ts(1), of "sc_mem ?s", folded ts(2), OF fr]
  have "owns_space ?s t ps" unfolding owns_space_def Let_def
    using sp(1,2) ts f [of task_page_directory] by (intro exI [of _ ts]) (simp add: layout)
  then show ?thesis using assms(1) f m sp(3) by (simp add: ready_task_def layout)
qed

text \<open>C10: \<open>task_new\<close> makes a runnable task. With 1027 free blocks it returns a new block and puts it at the end of the task list, which stays
  a well-formed doubly linked list; the first task of the system becomes the current one. The task belongs to the process,
  starts at the entry point of its program (of the ELF header, or the fixed load address for a flat binary) with the user segments and stack,
  and has an address space of its own that maps every page to itself without write access; besides its own block and those of that
  space no block changes hands.\<close>
theorem task_new_appends:
  assumes "tlist s xs" and "1027 \<le> kroom (sc_k s)" and "entry_in_use (sc_k s) p"
  shows "\<exists>t s' ps. task_new p s = Some (t, s') \<and> t \<notin> kused (sc_k s) \<and> tlist s' (xs @ [t]) \<and>
     current_task s' = (if xs = [] then t else current_task s) \<and> ready_task s' t p (entry_point (sc_mem s) p) ps \<and>
     kused (sc_k s') = kused (sc_k s) \<union> insert t (set ps) \<and> kused (sc_k s) \<inter> insert t (set ps) = {}"
proof -
  have inv: "kinv (sc_k s)" using assms(1) by (simp add: tlist_def)
  obtain t k1 where z: "kzalloc (sc_k s) sizeof_task = Some (t, k1)" "t \<noteq> 0" "page_base t = t" "t \<notin> kused (sc_k s)" "kinv k1"
    "kused k1 = insert t (kused (sc_k s))" "kpages k1 = insert t (kpages (sc_k s))" "Suc (kroom k1) = kroom (sc_k s)"
    and fr1: "\<And>a. page_base a \<noteq> t \<Longrightarrow> km_mem k1 a = sc_mem s a"
    using kzalloc_small [OF inv, of sizeof_task] assms(2) by (auto simp: layout)
  let ?s1 = "s\<lparr>sc_k := k1\<rparr>"
  have fr: "km_mem k1 a = sc_mem s a" if "page_base a \<in> kused (sc_k s)" for a by (rule fr1) (use that z(4) in auto)
  have ep: "entry_point m p = entry_point (sc_mem s) p" if "\<And>a. page_base a \<in> kused (sc_k ?s1) - {t} \<Longrightarrow> m a = sc_mem ?s1 a" for m
    using that fr z(4,6) by (intro entry_point_stable [OF assms(3)]) auto
  have "kinv (sc_k ?s1)" "t \<in> kpages (sc_k ?s1)" "1026 \<le> kroom (sc_k ?s1)" using z assms(2) by simp_all
  from task_init_effect [OF this ep] obtain s2 ps where i: "task_init t p ?s1 = Some (0, s2)" "kinv (sc_k s2)"
    "kused (sc_k s2) = kused (sc_k ?s1) \<union> set ps" "kpages (sc_k s2) = kpages (sc_k ?s1) \<union> set ps" "kused (sc_k ?s1) \<inter> set ps = {}"
    and fr2: "\<And>a. page_base a \<in> kused (sc_k ?s1) - {t} \<Longrightarrow> sc_mem s2 a = sc_mem ?s1 a" and j: "same_lists ?s1 s2"
    "ready_task s2 t p (entry_point (sc_mem s) p) ps" "fld (sc_mem s2) t task_next_ptr = 0" "fld (sc_mem s2) t task_prev_ptr = 0"
    by metis
  have xs: "set xs \<subseteq> kused (sc_k s)" using assms(1) kh.pages_used by (auto simp: tlist_def)
  have "tlist (append_task t s2) (xs @ [t])" "current_task (append_task t s2) = (if xs = [] then t else current_task s)"
    by (rule append_task_tlist [OF assms(1) _ i(2) _ _ _ z(2) _ j(3,4)];
        use j(1) i(4) z xs fr fr2 in \<open>auto simp: same_lists_def\<close>)+
  moreover have "ready_task (append_task t s2) t p (entry_point (sc_mem s) p) ps"
  proof (rule append_task_ready [OF j(2) z(3)])
    show "t \<notin> set ps" using i(5) z(6) by auto
    have "task_tail s = last xs \<and> last xs \<in> set xs" if "task_head s \<noteq> 0" using that assms(1)
      by (cases "xs = []") (auto simp: tlist_def last_or_null_def)
    then show "task_head s2 \<noteq> 0 \<longrightarrow> page_base (task_tail s2) = task_tail s2 \<and> task_tail s2 \<noteq> t \<and> task_tail s2 \<notin> set ps"
      using j(1) tlist_pages(1) [OF assms(1)] xs z(4,6) i(5) by (auto simp: same_lists_def)
  qed
  moreover have "task_new p s = Some (t, append_task t s2)" using z(1,2) i(1) by (simp add: task_new_def on_kmem_def)
  moreover have "kused (sc_k (append_task t s2)) = kused (sc_k s) \<union> insert t (set ps)"
    "kused (sc_k s) \<inter> insert t (set ps) = {}" using i(3,5) z(4,6) by auto
  ultimately show ?thesis by blast
qed

section \<open>Examples\<close>

definition demo_sched :: sched where
  \<comment> \<open>four tasks in the first four blocks of the heap, the middle two of one process; a flat binary is marked in the first block\<close>
  "demo_sched =
     set_fld 0x01003000 task_prev_ptr 0x01002000 (set_fld 0x01003000 task_process 0x6000
     (set_fld 0x01002000 task_next_ptr 0x01003000 (set_fld 0x01002000 task_prev_ptr 0x01001000 (set_fld 0x01002000 task_process 0x5000
     (set_fld 0x01001000 task_next_ptr 0x01002000 (set_fld 0x01001000 task_prev_ptr 0x01000000 (set_fld 0x01001000 task_process 0x5000
     (set_fld 0x01000000 task_next_ptr 0x01001000 (set_fld 0x01000000 task_process 0x6000
     \<lparr>sc_k = \<lparr>km_heap = demo_heap (replicate 4 0x41 @ replicate 1100 0), km_mem = (\<lambda>_. 0)(0x01000080 := 1)\<rparr>,
      sc_paging = \<lparr>cr3 = 0, current_directory = 0\<rparr>, current_task = 0x01000000, task_head = 0x01000000,
      task_tail = 0x01003000, kernel_chunk = 0\<rparr>)))))))))"

abbreviation demo_tasks :: "u32 list" where "demo_tasks \<equiv> [0x01000000, 0x01001000, 0x01002000, 0x01003000]"

lemma demo_heap_tasks:
  "kinv (sc_k demo_sched)" "set demo_tasks \<subseteq> kpages (sc_k demo_sched)" "kroom (sc_k demo_sched) = 1100"
proof -
  let ?h = "demo_heap (replicate 4 0x41 @ replicate 1100 0)"
  have h: "km_heap (sc_k demo_sched) = ?h" by (simp add: demo_sched_def)
  have "heap_inv ?h" by (rule demo_heap_inv) auto
  then show "kinv (sc_k demo_sched)" by (simp add: kinv_def h) (simp add: demo_heap_def page_base_def)
  show "kroom (sc_k demo_sched) = 1100" by (simp add: kroom_def h)
  have "block_addr (sc_k demo_sched) j \<in> kpages (sc_k demo_sched)" if "j < 4" for j
    using that by (auto simp: kpages_def h nth_append)
  from this [of 0] this [of 1] this [of 2] this [of 3]
  show "set demo_tasks \<subseteq> kpages (sc_k demo_sched)" by (simp add: block_addr_def heap_block_to_address_def h demo_heap_def heap_consts)
qed

lemma demo_pages: "page_base 0x01000000 = 0x01000000" "page_base 0x01001000 = 0x01001000"
  "page_base 0x01002000 = 0x01002000" "page_base 0x01003000 = 0x01003000"
  by (simp_all add: page_base_def)

lemma demo_globals: "task_head demo_sched = 0x01000000" "task_tail demo_sched = 0x01003000" "current_task demo_sched = 0x01000000"
  by (simp_all add: demo_sched_def)

lemma demo_fields:
  "map (\<lambda>t. fld (sc_mem demo_sched) t task_next_ptr) demo_tasks = [0x01001000, 0x01002000, 0x01003000, 0]"
  "map (\<lambda>t. fld (sc_mem demo_sched) t task_prev_ptr) demo_tasks = [0, 0x01000000, 0x01001000, 0x01002000]"
  "map (\<lambda>t. fld (sc_mem demo_sched) t task_process) demo_tasks = [0x6000, 0x5000, 0x5000, 0x6000]"
  by (simp_all add: demo_sched_def fld_set_fld demo_pages layout) (simp_all add: fld_def load32_def)

lemma demo_mem: "sc_mem demo_sched (0x01000080) = 1" "sc_mem demo_sched (0x01002038) = 0" "sc_mem demo_sched (0x01001038) = 0"
  by (simp_all add: demo_sched_def set_fld_def layout store32_def)

lemma demo_tlist: "tlist demo_sched demo_tasks"
  using demo_heap_tasks demo_fields by (simp add: tlist_def demo_globals last_or_null_def)

lemma demo_threads: "task_blocks demo_sched 0x01001000 []" "\<not> main_task (sc_mem demo_sched) 0x01002000"
  using demo_mem by (simp_all add: task_blocks_def main_task_def layout)

theorem task_free_unlinks_witness:
  "\<exists>s'. task_free 0x01001000 demo_sched = Some (0, s') \<and>
     lseg (sc_mem s') (task_head s') [0x01000000, 0x01002000, 0x01003000] 0 \<and> current_task s' = 0x01000000"
  using task_free_unlinks [of demo_sched "[0x01000000]" "0x01001000" "[0x01002000, 0x01003000]" "[]"] demo_tlist demo_threads
  by (auto simp: demo_globals)

theorem task_free_all_leaves_freed_witness:
  "\<exists>s'. task_free_all_for_process 0x5000 demo_sched = Some s' \<and> 0x01002000 \<notin> kused (sc_k s') \<and>
     lseg (sc_mem s') (task_head s') [0x01000000, 0x01002000, 0x01003000] 0"
  using task_free_all_leaves_freed [of demo_sched "[]" "0x01000000" "0x01001000" "0x01002000" "[0x01003000]" "[]" "0x5000"]
    demo_tlist demo_threads demo_fields by auto

theorem task_next_picks_witness:
  "\<exists>s'. task_next demo_sched = Some (0x01001004, s') \<and> current_task s' = 0x01001000"
proof -
  have "\<not> asleep (sc_mem demo_sched) 0x01001000"
    using demo_fields(3) by (simp add: asleep_def layout) (simp add: demo_sched_def set_fld_def layout store32_def)
  then show ?thesis
    using task_next_picks [of demo_sched demo_tasks 0 "[0x01001000, 0x01002000, 0x01003000]"] demo_tlist
    by (auto simp: tlist_def demo_globals layout)
qed

theorem task_new_appends_witness:
  "\<exists>t s' ps. task_new 0x00FFE000 demo_sched = Some (t, s') \<and> tlist s' (demo_tasks @ [t]) \<and>
     ready_task s' t 0x00FFE000 0x400000 ps"
proof -
  have "page_base 0x01000080 = 0x01000000" by (simp add: page_base_def)
  moreover have "0x01000000 \<in> kused (sc_k demo_sched)" using demo_heap_tasks(2) kh.pages_used by auto
  ultimately have "entry_in_use (sc_k demo_sched) 0x00FFE000"
    using demo_mem(1) by (simp add: entry_in_use_def layout PROCESS_FILETYPE_ELF_def Let_def)
  moreover have "entry_point (sc_mem demo_sched) 0x00FFE000 = 0x400000"
    using demo_mem(1) by (simp add: entry_point_def layout PROCESS_FILETYPE_ELF_def SERPAEOS_PROGRAM_VIRTUAL_ADDRESS_def)
  ultimately show ?thesis using task_new_appends [OF demo_tlist, of "0x00FFE000"] demo_heap_tasks(3) by auto
qed

end
