(* ===== verification/Terminal.thy ===== *)
theory Terminal
  imports Physmem Kstring
begin

text \<open>
  The text console, \<^verbatim>\<open>src/src/graphics/graphics.c\<close>. The 80 by 25 screen is the memory at \<open>0xB8000\<close>, two bytes per cell
  (character, attribute); \<open>video_mem\<close>, \<open>terminal_row\<close> and \<open>terminal_col\<close> are the globals of that file. No access is
  checked, as in the code: a write outside the screen changes other memory. A call of \<open>beep\<close> only touches the speaker
  ports; it is counted. The experimental graphics mode at the end of the file is covered by \<open>rgb\<close>, \<open>draw_pixel\<close> and
  \<open>clear_screen\<close> over the fields of the VBE block.
\<close>

section \<open>Operations\<close>

definition VGA_WIDTH :: nat where "VGA_WIDTH = 80"
definition VGA_HEIGHT :: nat where "VGA_HEIGHT = 25"

lemmas vga_consts = VGA_WIDTH_def VGA_HEIGHT_def

record terminal =
  t_mem :: mem
  video_mem :: u32
  terminal_row :: u16
  terminal_col :: u16
  t_beeps :: nat

definition get_attribute :: "terminal \<Rightarrow> u16 \<Rightarrow> u16 \<Rightarrow> u8" where
  "get_attribute t x y = t_mem t (0xb8000 + of_nat (1 + (unat y * VGA_WIDTH + unat x) * 2))"

definition terminal_get_attr :: "terminal \<Rightarrow> u8" where
  "terminal_get_attr t = get_attribute t (terminal_col t) (terminal_row t)"

definition terminal_make_char :: "u8 \<Rightarrow> u8 \<Rightarrow> u16" where
  \<comment> \<open>both arguments have type \<open>char\<close>, which is signed: they are extended to \<open>int\<close> with their sign\<close>
  "terminal_make_char c colour = ucast (push_bit 8 (scast colour) OR scast c :: u32)"

definition terminal_putchar :: "int \<Rightarrow> int \<Rightarrow> u8 \<Rightarrow> u8 \<Rightarrow> terminal \<Rightarrow> terminal" where
  "terminal_putchar x y c colour t =
     t\<lparr>t_mem := store16 (t_mem t) (video_mem t + word_of_int (2 * (y * int VGA_WIDTH + x))) (terminal_make_char c colour)\<rparr>"

fun copy_rows :: "mem \<Rightarrow> u32 \<Rightarrow> nat \<Rightarrow> nat \<Rightarrow> mem" where
  \<comment> \<open>the first loop of \<open>scroll_down\<close>: iterations left and \<open>i\<close>\<close>
  "copy_rows m v 0 i = m"
| "copy_rows m v (Suc n) i = copy_rows (memcpy_at m (v + of_nat (2 * ((i - 1) * 80))) (v + of_nat (2 * (i * 80))) (VGA_WIDTH * 2)) v n (Suc i)"

fun blank_row :: "nat \<Rightarrow> nat \<Rightarrow> terminal \<Rightarrow> terminal" where
  "blank_row 0 i t = t"
| "blank_row (Suc n) i t =
     blank_row n (Suc i) (terminal_putchar (int i) 24 32 (get_attribute t (terminal_col t) (terminal_row t)) t)"

definition scroll_down :: "terminal \<Rightarrow> terminal" where
  "scroll_down t = blank_row VGA_WIDTH 0 (t\<lparr>t_mem := copy_rows (t_mem t) (video_mem t) (VGA_HEIGHT - 1) 1\<rparr>)"

definition line_feed :: "terminal \<Rightarrow> terminal" where
  "line_feed t = (if terminal_row t = 24 then scroll_down t else t\<lparr>terminal_row := terminal_row t + 1\<rparr>)"

definition put_and_advance :: "u8 \<Rightarrow> u8 \<Rightarrow> terminal \<Rightarrow> terminal" where
  \<comment> \<open>the end of \<open>terminal_writechar\<close>, which every printable character reaches\<close>
  "put_and_advance c colour t =
     (let t = (if terminal_col t = 79 \<and> terminal_row t = 24 then scroll_down t else t);
          t = terminal_putchar (uint (terminal_col t)) (uint (terminal_row t)) c colour t;
          t = t\<lparr>terminal_col := terminal_col t + 1\<rparr>
      in if unat (terminal_col t) \<ge> VGA_WIDTH
         then t\<lparr>terminal_col := 0, terminal_row := terminal_row t + 1\<rparr> else t)"

definition terminal_backspace :: "terminal \<Rightarrow> terminal" where
  \<comment> \<open>the calls \<open>terminal_writechar(' ', 15)\<close> reach the end of that function directly\<close>
  "terminal_backspace t =
     (if terminal_row t = 0 \<and> terminal_col t = 0 then t
      else if terminal_col t \<le> 0
      then let t = t\<lparr>terminal_row := terminal_row t - 1, terminal_col := 79\<rparr>;
               t = put_and_advance 32 15 t
           in t\<lparr>terminal_row := terminal_row t - 1, terminal_col := 79\<rparr>
      else let t = t\<lparr>terminal_col := terminal_col t - 1\<rparr>;
               t = put_and_advance 32 15 t
           in t\<lparr>terminal_col := terminal_col t - 1\<rparr>)"

definition terminal_writechar :: "u8 \<Rightarrow> u8 \<Rightarrow> terminal \<Rightarrow> terminal" where
  "terminal_writechar c colour t =
     (if (c = 10 \<or> c = 13) \<and> unat (terminal_row t) < VGA_HEIGHT
      then (line_feed t)\<lparr>terminal_col := 0\<rparr>
      else if c = 12 \<and> unat (terminal_row t) < VGA_HEIGHT then line_feed t
      else if c = 7 then t\<lparr>t_beeps := Suc (t_beeps t)\<rparr>
      else if c = 8 then terminal_backspace t
      else if c = 9
      then put_and_advance c colour (t\<lparr>terminal_col := if terminal_col t = 75 then 79 else terminal_col t + 4\<rparr>)
      else put_and_advance c colour t)"

definition get_cursor :: "terminal \<Rightarrow> u16 \<times> u16" where
  "get_cursor t = (terminal_col t, terminal_row t)"

definition set_cursor :: "u16 \<Rightarrow> u16 \<Rightarrow> terminal \<Rightarrow> terminal" where
  "set_cursor x y t =
     (let x = (if unat x \<ge> VGA_WIDTH then of_nat (VGA_WIDTH - 1) else x);
          y = (if unat y \<ge> VGA_HEIGHT then of_nat (VGA_HEIGHT - 1) else y)
      in t\<lparr>terminal_col := x, terminal_row := y\<rparr>)"

definition graphics_put :: "u8 \<Rightarrow> int \<Rightarrow> int \<Rightarrow> terminal \<Rightarrow> terminal" where
  "graphics_put c x y t =
     t\<lparr>t_mem := (t_mem t)(0xb8000 + word_of_int (1 + (y * int VGA_WIDTH + x) * 2) := c)\<rparr>"

fun draw_line_loop :: "u8 \<Rightarrow> int \<Rightarrow> nat \<Rightarrow> nat \<Rightarrow> terminal \<Rightarrow> terminal" where
  "draw_line_loop c y 0 i t = t"
| "draw_line_loop c y (Suc n) i t = draw_line_loop c y n (Suc i) (graphics_put c (int i) y t)"

definition graphics_draw_line :: "u8 \<Rightarrow> int \<Rightarrow> terminal \<Rightarrow> terminal" where
  "graphics_draw_line c y t = draw_line_loop c y VGA_WIDTH 0 t"

fun draw_collumn_loop :: "u8 \<Rightarrow> int \<Rightarrow> nat \<Rightarrow> nat \<Rightarrow> terminal \<Rightarrow> terminal" where
  "draw_collumn_loop c x 0 i t = t"
| "draw_collumn_loop c x (Suc n) i t = draw_collumn_loop c x n (Suc i) (graphics_put c x (int i) t)"

definition graphics_draw_collumn :: "u8 \<Rightarrow> int \<Rightarrow> terminal \<Rightarrow> terminal" where
  "graphics_draw_collumn c x t = draw_collumn_loop c x VGA_HEIGHT 0 t"

fun clear_line :: "nat \<Rightarrow> nat \<Rightarrow> nat \<Rightarrow> terminal \<Rightarrow> terminal" where
  \<comment> \<open>the inner loop of \<open>clrscr\<close> in row \<open>y\<close>\<close>
  "clear_line y 0 x t = t"
| "clear_line y (Suc n) x t =
     clear_line y n (Suc x) (terminal_putchar (int x) (int y) 32 (get_attribute t (terminal_col t) (terminal_row t)) t)"

fun clear_rows :: "u8 \<Rightarrow> nat \<Rightarrow> nat \<Rightarrow> terminal \<Rightarrow> terminal" where
  "clear_rows c 0 y t = t"
| "clear_rows c (Suc n) y t = clear_rows c n (Suc y) (clear_line y VGA_WIDTH 0 (graphics_draw_line c (int y) t))"

definition clrscr :: "u8 \<Rightarrow> terminal \<Rightarrow> terminal" where
  "clrscr c t = set_cursor 0 0 (clear_rows c VGA_HEIGHT 0 t)"

definition terminal_initialize :: "terminal \<Rightarrow> terminal" where
  "terminal_initialize t = clrscr 15 (t\<lparr>video_mem := 0xB8000, terminal_row := 0, terminal_col := 0\<rparr>)"

fun print_chars :: "u8 list \<Rightarrow> terminal \<Rightarrow> terminal" where
  "print_chars [] t = t"
| "print_chars (c # cs) t = print_chars cs (terminal_writechar c (get_attribute t (terminal_col t) (terminal_row t)) t)"

definition print :: "u8 list \<Rightarrow> terminal \<Rightarrow> terminal option" where
  "print str t = do {
     len \<leftarrow> strlen str;
     Some (print_chars (take (nat len) str) t)
   }"

subsection \<open>The experimental graphics mode\<close>

record VBE_info_block =
  x_resolution :: u16
  y_resolution :: u16
  screen_ptr :: u32

definition rgb :: "u8 \<Rightarrow> u8 \<Rightarrow> u8 \<Rightarrow> u16" where
  "rgb r g b = (let r = r div 3; g = g div 2; b = b div 3
     in push_bit 11 (ucast r) OR push_bit 5 (ucast g) OR ucast b)"

definition draw_pixel :: "VBE_info_block \<Rightarrow> int \<Rightarrow> int \<Rightarrow> u16 \<Rightarrow> mem \<Rightarrow> mem" where
  "draw_pixel vbe x y colour m =
     store16 m (screen_ptr vbe + 2 * word_of_int (y * uint (x_resolution vbe) + x)) colour"

fun clear_pixels :: "VBE_info_block \<Rightarrow> int \<Rightarrow> u16 \<Rightarrow> nat \<Rightarrow> nat \<Rightarrow> mem \<Rightarrow> mem" where
  "clear_pixels vbe y colour 0 x m = m"
| "clear_pixels vbe y colour (Suc n) x m = clear_pixels vbe y colour n (Suc x) (draw_pixel vbe (int x) y colour m)"

fun clear_pixel_rows :: "VBE_info_block \<Rightarrow> u16 \<Rightarrow> nat \<Rightarrow> nat \<Rightarrow> mem \<Rightarrow> mem" where
  "clear_pixel_rows vbe colour 0 y m = m"
| "clear_pixel_rows vbe colour (Suc n) y m =
     clear_pixel_rows vbe colour n (Suc y) (clear_pixels vbe (int y) colour (unat (x_resolution vbe)) 0 m)"

definition clear_screen :: "VBE_info_block \<Rightarrow> u16 \<Rightarrow> mem \<Rightarrow> mem" where
  "clear_screen vbe colour m = clear_pixel_rows vbe colour (unat (y_resolution vbe)) 0 m"

section \<open>Writes on the screen\<close>

definition in_video :: "u32 \<Rightarrow> bool" where
  "in_video a \<longleftrightarrow> unat (a - 0xb8000) < 4000"

definition only_video :: "mem \<Rightarrow> mem \<Rightarrow> bool" where
  "only_video m m' \<longleftrightarrow> (\<forall>a. \<not> in_video a \<longrightarrow> m' a = m a)"

lemma only_video_refl [simp]: "only_video m m" by (simp add: only_video_def)

lemma only_video_trans [trans]: "only_video m m1 \<Longrightarrow> only_video m1 m2 \<Longrightarrow> only_video m m2"
  by (simp add: only_video_def)

lemma video_offset:
  assumes "k < 4000" shows "unat (of_nat k :: u32) = k" "in_video (0xb8000 + of_nat k)"
proof -
  show "unat (of_nat k :: u32) = k" using assms by (simp add: unat_of_nat take_bit_nat_eq_self)
  then show "in_video (0xb8000 + of_nat k)" using assms by (simp add: in_video_def)
qed

lemma store16_video:
  assumes "i < 2000"
  shows "only_video m (store16 m (0xb8000 + of_nat (2 * i)) v)"
proof -
  have "in_video (0xb8000 + of_nat (2 * i))" "in_video (0xb8000 + of_nat (2 * i) + 1)"
    using video_offset(2) [of "2 * i"] video_offset(2) [of "2 * i + 1"] assms by (simp_all add: ac_simps)
  then show ?thesis by (auto simp: only_video_def store16_def)
qed

definition on_screen :: "terminal \<Rightarrow> bool" where
  "on_screen t \<longleftrightarrow> video_mem t = 0xb8000 \<and> unat (terminal_row t) < 25 \<and> unat (terminal_col t) < 80"

lemma cell_offset: "word_of_int (2 * (int y * 80 + int x)) = (of_nat (2 * (y * 80 + x)) :: u32)"
  by simp

lemma putchar_video:
  assumes "video_mem t = 0xb8000" and "x < 80" and "y < 25"
  shows "only_video (t_mem t) (t_mem (terminal_putchar (int x) (int y) c col t))"
proof -
  have "y * 80 + x < 2000" using assms by simp
  from store16_video [OF this] show ?thesis
    unfolding terminal_putchar_def vga_consts using assms(1) cell_offset [of y x] by simp
qed

lemma putchar_view [simp]:
  "video_mem (terminal_putchar x y c col t) = video_mem t" "terminal_row (terminal_putchar x y c col t) = terminal_row t"
  "terminal_col (terminal_putchar x y c col t) = terminal_col t" "t_beeps (terminal_putchar x y c col t) = t_beeps t"
  by (simp_all add: terminal_putchar_def)

lemma memcpy_at_frame: "n \<le> unat (a - d) \<Longrightarrow> memcpy_at m d s n a = m a"
proof (induction n arbitrary: m d s)
  case (Suc n)
  have "a \<noteq> d" using Suc.prems by auto
  then have "a - d \<noteq> 0" by simp
  then have "Suc (unat (a - d - 1)) = unat (a - d)"
    using unat_minus_one [of "a - d"] Suc.prems by linarith
  then have "n \<le> unat (a - (d + 1))" using Suc.prems by (simp add: diff_diff_eq)
  from Suc.IH [OF this] \<open>a \<noteq> d\<close> show ?case by simp
qed simp

lemma memcpy_at_video:
  assumes "k + n \<le> 4000" and "0 < n"
  shows "only_video m (memcpy_at m (0xb8000 + of_nat k) s n)"
  unfolding only_video_def
proof (intro allI impI memcpy_at_frame)
  fix a :: u32 assume a: "\<not> in_video a"
  have k: "unat (of_nat k :: u32) = k" using video_offset assms by simp
  show "n \<le> unat (a - (0xb8000 + of_nat k))"
  proof (rule ccontr)
    assume lt: "\<not> ?thesis"
    have "unat (a - (0xb8000 + of_nat k) + of_nat k) = unat (a - (0xb8000 + of_nat k)) + k"
      using lt k assms by (subst unat_add_lem [THEN iffD1]) auto
    moreover have "a - (0xb8000 + of_nat k) + of_nat k = a - 0xb8000" by simp
    ultimately have "unat (a - 0xb8000) < 4000" using lt assms by simp
    with a show False by (simp add: in_video_def)
  qed
qed

lemma copy_rows_video:
  assumes "1 \<le> i" and "i + n \<le> 25"
  shows "only_video m (copy_rows m 0xb8000 n i)"
  using assms
proof (induction n arbitrary: m i)
  case (Suc n)
  have "2 * ((i - 1) * 80) + 160 \<le> 4000" using Suc.prems by simp
  from memcpy_at_video [OF this] have "only_video m (memcpy_at m (0xb8000 + of_nat (2 * ((i - 1) * 80))) (0xb8000 + of_nat (2 * (i * 80))) (VGA_WIDTH * 2))"
    by (simp add: vga_consts)
  also have "only_video \<dots> (copy_rows m 0xb8000 (Suc n) i)" using Suc by simp
  finally show ?case .
qed simp

lemma blank_row_video:
  assumes "video_mem t = 0xb8000" and "i + n \<le> 80"
  shows "only_video (t_mem t) (t_mem (blank_row n i t)) \<and> video_mem (blank_row n i t) = video_mem t \<and>
     terminal_row (blank_row n i t) = terminal_row t \<and> terminal_col (blank_row n i t) = terminal_col t"
  using assms
proof (induction n arbitrary: t i)
  case (Suc n)
  let ?t = "terminal_putchar (int i) 24 32 (get_attribute t (terminal_col t) (terminal_row t)) t"
  have "only_video (t_mem t) (t_mem ?t)" using putchar_video [of t i 24] Suc.prems by simp
  moreover have "only_video (t_mem ?t) (t_mem (blank_row n (Suc i) ?t)) \<and> video_mem (blank_row n (Suc i) ?t) = video_mem ?t \<and>
     terminal_row (blank_row n (Suc i) ?t) = terminal_row ?t \<and> terminal_col (blank_row n (Suc i) ?t) = terminal_col ?t"
    using Suc.prems by (intro Suc.IH) simp_all
  ultimately show ?case using only_video_trans by auto
qed simp

lemma scroll_down_video:
  assumes "video_mem t = 0xb8000"
  shows "only_video (t_mem t) (t_mem (scroll_down t))" "video_mem (scroll_down t) = 0xb8000"
    "terminal_row (scroll_down t) = terminal_row t" "terminal_col (scroll_down t) = terminal_col t"
proof -
  let ?t = "t\<lparr>t_mem := copy_rows (t_mem t) (video_mem t) (VGA_HEIGHT - 1) 1\<rparr>"
  note b = blank_row_video [of ?t 0 VGA_WIDTH]
  have "only_video (t_mem t) (t_mem ?t)" using copy_rows_video [of 1 24] assms by (simp add: vga_consts)
  then show "only_video (t_mem t) (t_mem (scroll_down t))" using b assms only_video_trans
    by (auto simp: scroll_down_def vga_consts)
  show "video_mem (scroll_down t) = 0xb8000" "terminal_row (scroll_down t) = terminal_row t"
    "terminal_col (scroll_down t) = terminal_col t" using b assms by (auto simp: scroll_down_def vga_consts)
qed

lemma unat_succ16: "unat (w :: u16) < 65535 \<Longrightarrow> unat (w + 1) = Suc (unat w)"
  by (simp add: unat_word_ariths)

lemma unat_pred16: "w \<noteq> 0 \<Longrightarrow> Suc (unat ((w :: u16) - 1)) = unat w"
  using unat_minus_one [of w] unat_gt_0 [of w] by simp

lemma put_and_advance_effect:
  assumes "on_screen t"
  shows "only_video (t_mem t) (t_mem (put_and_advance c colour t))" "video_mem (put_and_advance c colour t) = 0xb8000"
    "unat (terminal_row (put_and_advance c colour t)) = (if terminal_col t = 79 then Suc (unat (terminal_row t)) else unat (terminal_row t))"
    "unat (terminal_col (put_and_advance c colour t)) = (if terminal_col t = 79 then 0 else Suc (unat (terminal_col t)))"
proof -
  define s where "s = (if terminal_col t = 79 \<and> terminal_row t = 24 then scroll_down t else t)"
  have t: "video_mem t = 0xb8000" "unat (terminal_row t) < 25" "unat (terminal_col t) < 80"
    using assms by (simp_all add: on_screen_def)
  have s: "only_video (t_mem t) (t_mem s)" "video_mem s = 0xb8000" "terminal_row s = terminal_row t" "terminal_col s = terminal_col t"
    using scroll_down_video [OF t(1)] t(1) by (simp_all add: s_def)
  define p where "p = terminal_putchar (uint (terminal_col s)) (uint (terminal_row s)) c colour s"
  have "only_video (t_mem s) (t_mem p)"
    using putchar_video [OF s(2) t(3,2), of c colour] s(3,4) by (simp add: p_def)
  with s(1) have m: "only_video (t_mem t) (t_mem p)" by (rule only_video_trans)
  have eq: "put_and_advance c colour t = (let q = p\<lparr>terminal_col := terminal_col p + 1\<rparr> in
      if unat (terminal_col q) \<ge> VGA_WIDTH then q\<lparr>terminal_col := 0, terminal_row := terminal_row q + 1\<rparr> else q)"
    by (simp add: put_and_advance_def p_def s_def Let_def)
  have c79: "terminal_col t = 79 \<longleftrightarrow> unat (terminal_col t) = 79" by (simp add: word_unat_eq_iff)
  have p: "video_mem p = 0xb8000" "terminal_row p = terminal_row t" "terminal_col p = terminal_col t" using s by (simp_all add: p_def)
  have col: "unat (terminal_col t + 1) = Suc (unat (terminal_col t))" "unat (terminal_row t + 1) = Suc (unat (terminal_row t))"
    using t by (simp_all add: unat_succ16)
  show "only_video (t_mem t) (t_mem (put_and_advance c colour t))" "video_mem (put_and_advance c colour t) = 0xb8000"
    using m p(1) by (simp_all add: eq Let_def)
  show "unat (terminal_row (put_and_advance c colour t)) = (if terminal_col t = 79 then Suc (unat (terminal_row t)) else unat (terminal_row t))"
    "unat (terminal_col (put_and_advance c colour t)) = (if terminal_col t = 79 then 0 else Suc (unat (terminal_col t)))"
    unfolding c79 eq Let_def using col t(3) p by (simp_all add: vga_consts)
qed

lemma line_feed_effect:
  assumes "on_screen t"
  shows "only_video (t_mem t) (t_mem (line_feed t))" "on_screen (line_feed t)" "terminal_col (line_feed t) = terminal_col t"
proof -
  have t: "video_mem t = 0xb8000" "unat (terminal_row t) < 25" "unat (terminal_col t) < 80"
    using assms by (simp_all add: on_screen_def)
  have "terminal_row t \<noteq> 24 \<Longrightarrow> unat (terminal_row t) < 24" using t(2) by (simp add: word_unat_eq_iff)
  then show "only_video (t_mem t) (t_mem (line_feed t))" "on_screen (line_feed t)" "terminal_col (line_feed t) = terminal_col t"
    using scroll_down_video [OF t(1)] t by (auto simp: line_feed_def on_screen_def unat_succ16)
qed

lemma terminal_backspace_effect:
  assumes "on_screen t"
  shows "only_video (t_mem t) (t_mem (terminal_backspace t)) \<and> on_screen (terminal_backspace t)"
proof (cases "terminal_col t = 0")
  case True
  show ?thesis
  proof (cases "terminal_row t = 0")
    case False
    let ?u = "t\<lparr>terminal_row := terminal_row t - 1, terminal_col := 79\<rparr>"
    have r: "Suc (unat (terminal_row t - 1)) = unat (terminal_row t)" using False by (rule unat_pred16)
    then have u: "on_screen ?u" using assms by (simp add: on_screen_def)
    note e = put_and_advance_effect [OF u, of 32 15]
    have row: "terminal_row (put_and_advance 32 15 ?u) = terminal_row t" using e(3) r by (simp add: word_unat_eq_iff)
    have "terminal_backspace t = (put_and_advance 32 15 ?u)\<lparr>terminal_row := terminal_row (put_and_advance 32 15 ?u) - 1, terminal_col := 79\<rparr>"
      using True False by (simp add: terminal_backspace_def Let_def)
    then show ?thesis using e(1,2) row r assms by (simp add: on_screen_def)
  qed (use True assms in \<open>simp add: terminal_backspace_def\<close>)
next
  case False
  let ?u = "t\<lparr>terminal_col := terminal_col t - 1\<rparr>"
  have c: "Suc (unat (terminal_col t - 1)) = unat (terminal_col t)" using False by (rule unat_pred16)
  then have u: "on_screen ?u" and n: "terminal_col t - 1 \<noteq> 79" using assms by (auto simp: on_screen_def)
  note e = put_and_advance_effect [OF u, of 32 15]
  have "terminal_col (put_and_advance 32 15 ?u) = terminal_col t" using e(4) c n by (simp add: word_unat_eq_iff)
  moreover have "terminal_backspace t = (put_and_advance 32 15 ?u)\<lparr>terminal_col := terminal_col (put_and_advance 32 15 ?u) - 1\<rparr>"
    using False by (simp add: terminal_backspace_def Let_def)
  ultimately show ?thesis using e(1-3) n c assms by (simp add: on_screen_def)
qed

section \<open>Properties\<close>

definition fits :: "u8 \<Rightarrow> terminal \<Rightarrow> bool" where
  \<comment> \<open>a printable character does not go to the last cell of the screen, and a tab stays in its row\<close>
  "fits c t \<longleftrightarrow> (c \<notin> {7, 8, 9, 10, 12, 13} \<longrightarrow> \<not> (terminal_col t = 79 \<and> terminal_row t = 24)) \<and>
     (c = 9 \<longrightarrow> unat (terminal_col t) \<le> 75 \<and> \<not> (terminal_col t = 75 \<and> terminal_row t = 24))"

text \<open>C34: as long as no printable character goes to the last cell of the screen, and no tab is written at a column above 75 (in the
  last row: above 74), where it would leave its row, \<open>terminal_writechar\<close> keeps the cursor
  on the screen and writes no byte outside the 4000 bytes of the screen, for every character, control characters, scrolling and
  backspace over line starts included.\<close>
theorem terminal_writechar_stays:
  assumes "on_screen t" and "fits c t"
  shows "on_screen (terminal_writechar c colour t) \<and> only_video (t_mem t) (t_mem (terminal_writechar c colour t))"
proof -
  have put: "on_screen (put_and_advance c colour u) \<and> only_video (t_mem u) (t_mem (put_and_advance c colour u))"
    if "on_screen u" "\<not> (terminal_col u = 79 \<and> terminal_row u = 24)" for u
  proof -
    have "terminal_row u \<noteq> 24 \<Longrightarrow> unat (terminal_row u) < 24" "terminal_col u \<noteq> 79 \<Longrightarrow> unat (terminal_col u) < 79"
      using that(1) by (simp_all add: on_screen_def word_unat_eq_iff)
    then show ?thesis using put_and_advance_effect [OF that(1), of c colour] that by (auto simp: on_screen_def)
  qed
  have row: "unat (terminal_row t) < VGA_HEIGHT" using assms(1) by (simp add: on_screen_def vga_consts)
  consider "c = 10 \<or> c = 13" | "c = 12" | "c = 7" | "c = 8" | "c = 9" | "c \<notin> {7, 8, 9, 10, 12, 13}" by auto
  then show ?thesis
  proof cases
    case 5
    let ?u = "t\<lparr>terminal_col := if terminal_col t = 75 then 79 else terminal_col t + 4\<rparr>"
    have "unat (terminal_col t + 4) = unat (terminal_col t) + 4" if "unat (terminal_col t) \<le> 75"
      using that by (simp add: unat_word_ariths)
    then have "on_screen ?u" "\<not> (terminal_col ?u = 79 \<and> terminal_row ?u = 24)"
      using assms 5 by (auto simp: on_screen_def fits_def word_unat_eq_iff)
    from put [OF this] show ?thesis using 5 by (simp add: terminal_writechar_def)
  qed (use assms row line_feed_effect [OF assms(1)] terminal_backspace_effect [OF assms(1)] put
      in \<open>auto simp: terminal_writechar_def fits_def on_screen_def\<close>)
qed

definition demo_terminal :: "u16 \<Rightarrow> u16 \<Rightarrow> terminal" where
  "demo_terminal x y = \<lparr>t_mem = (\<lambda>_. 0), video_mem = 0xb8000, terminal_row = y, terminal_col = x, t_beeps = 0\<rparr>"

theorem terminal_writechar_stays_witness:
  "on_screen (terminal_writechar 65 15 (demo_terminal 79 23)) \<and> on_screen (terminal_writechar 10 15 (demo_terminal 5 24)) \<and>
   only_video (\<lambda>_. 0) (t_mem (terminal_writechar 10 15 (demo_terminal 5 24)))"
  using terminal_writechar_stays [of "demo_terminal 79 23" 65 15] terminal_writechar_stays [of "demo_terminal 5 24" 10 15]
  by (simp add: on_screen_def fits_def demo_terminal_def)

lemma terminal_make_char_low: "ucast (terminal_make_char c colour) = c"
  by (rule bit_word_eqI) (simp add: terminal_make_char_def bit_simps)

lemma putchar_low_byte:
  "t_mem (terminal_putchar x y c colour t) (video_mem t + word_of_int (2 * (y * 80 + x))) = c"
  by (simp add: terminal_putchar_def store16_def vga_consts terminal_make_char_low)

text \<open>a printable character in the last cell of the screen breaks the console. The screen scrolls before the character is
  written, but the cursor then moves to row 25, which does not exist; every character written there, line feeds included, is stored
  behind the screen memory instead of being shown.\<close>
theorem terminal_last_cell_escapes:
  assumes "on_screen t" and "terminal_col t = 79" and "terminal_row t = 24" and "c \<notin> {7, 8, 9, 10, 12, 13}"
    and "d \<notin> {7, 8, 9}"
  shows "terminal_row (terminal_writechar c colour t) = 25 \<and> terminal_col (terminal_writechar c colour t) = 0 \<and>
     t_mem (terminal_writechar d colour' (terminal_writechar c colour t)) 0xb8fa0 = d \<and> \<not> in_video 0xb8fa0"
proof -
  let ?t = "terminal_writechar c colour t"
  have w: "?t = put_and_advance c colour t" using assms(4) by (simp add: terminal_writechar_def)
  note e = put_and_advance_effect [OF assms(1), of c colour]
  have "unat (terminal_row ?t) = 25" "unat (terminal_col ?t) = 0" using e(3,4) assms(2,3) by (simp_all add: w)
  then have rc: "terminal_row ?t = 25" "terminal_col ?t = 0" by (simp_all add: word_unat_eq_iff)
  have v: "video_mem ?t = 0xb8000" using e(2) by (simp add: w)
  have "terminal_writechar d colour' ?t = put_and_advance d colour' ?t"
    using assms(5) rc by (simp add: terminal_writechar_def vga_consts)
  then have "t_mem (terminal_writechar d colour' ?t) = t_mem (terminal_putchar 0 25 d colour' ?t)"
    using rc by (simp add: put_and_advance_def Let_def)
  then show ?thesis using rc v putchar_low_byte [of 0 25 d colour' ?t] by (simp add: in_video_def)
qed

theorem terminal_last_cell_escapes_witness:
  "terminal_row (terminal_writechar 65 15 (demo_terminal 79 24)) = 25 \<and>
   t_mem (terminal_writechar 10 15 (terminal_writechar 65 15 (demo_terminal 79 24))) 0xb8fa0 = 10"
  using terminal_last_cell_escapes [of "demo_terminal 79 24" 65 10 15 15] by (simp add: on_screen_def demo_terminal_def)

end
