(* ===== verification/Gdt.thy ===== *)
theory Gdt
  imports Prelude
begin

text \<open>
  Segment descriptors, \<^verbatim>\<open>src/src/gdt/gdt.c\<close>: the encoding of a segment given by base, limit and type into the eight bytes the processor
  reads, and of a whole table. A limit above 64 KiB is stored in pages; a limit that is not the last byte of a page then panics.
\<close>

section \<open>Operations\<close>

record gdt_structured =
  gs_base :: u32
  gs_limit :: u32
  gs_type :: u8

definition encodeGdtEntry :: "gdt_structured \<Rightarrow> u8 list option" where
  \<comment> \<open>the eight bytes of \<open>target\<close>\<close>
  "encodeGdtEntry source =
     (if gs_limit source > 65536 \<and> gs_limit source AND 0xFFF \<noteq> 0xFFF then None
      else let limit = (if gs_limit source > 65536 then drop_bit 12 (gs_limit source) else gs_limit source);
               flags = (if gs_limit source > 65536 then 0xC0 else 0x40);
               base = gs_base source
           in Some [ucast limit, ucast (drop_bit 8 limit), ucast base, ucast (drop_bit 8 base), ucast (drop_bit 16 base),
                    gs_type source, flags OR (ucast (drop_bit 16 limit) AND 0x0F), ucast (drop_bit 24 base)])"

fun gdt_structured_to_gdt :: "gdt_structured list \<Rightarrow> u8 list list option" where
  "gdt_structured_to_gdt [] = Some []"
| "gdt_structured_to_gdt (e # es) = do {
     bs \<leftarrow> encodeGdtEntry e;
     rest \<leftarrow> gdt_structured_to_gdt es;
     Some (bs # rest)
   }"

section \<open>What the processor reads\<close>

definition desc_base :: "u8 list \<Rightarrow> u32" where
  "desc_base d = ucast (d ! 2) OR push_bit 8 (ucast (d ! 3)) OR push_bit 16 (ucast (d ! 4)) OR push_bit 24 (ucast (d ! 7))"

definition desc_raw_limit :: "u8 list \<Rightarrow> u32" where
  "desc_raw_limit d = ucast (d ! 0) OR push_bit 8 (ucast (d ! 1)) OR push_bit 16 (ucast (d ! 6 AND 0x0F))"

definition desc_limit :: "u8 list \<Rightarrow> u32" where
  \<comment> \<open>the last valid offset: with the granularity bit the limit counts pages\<close>
  "desc_limit d = (if bit (d ! 6) 7 then push_bit 12 (desc_raw_limit d) OR 0xFFF else desc_raw_limit d)"

lemma low_mask: "(0xFFF :: u32) = mask 12" "(0x0F :: u8) = mask 4" by (simp_all add: mask_eq_exp_minus_1)

lemma raw_limit_bytes:
  assumes "\<And>n. 20 \<le> n \<Longrightarrow> \<not> bit l n" and "f AND 0x0F = 0"
  shows "ucast (ucast l :: u8) OR push_bit 8 (ucast (ucast (drop_bit 8 l) :: u8)) OR
     push_bit 16 (ucast ((f OR (ucast (drop_bit 16 l) AND 0x0F)) AND 0x0F :: u8)) = (l :: u32)"
proof (rule bit_word_eqI)
  fix n assume n: "n < LENGTH(32)"
  have f: "\<not> bit f k" if "k < 4" for k using assms(2) that unfolding low_mask
    by (auto simp: bit_eq_iff bit_simps dest: spec [of _ k])
  consider "n < 8" | "8 \<le> n" "n < 16" | "16 \<le> n" "n < 20" | "20 \<le> n" by linarith
  then show "bit (ucast (ucast l :: u8) OR push_bit 8 (ucast (ucast (drop_bit 8 l) :: u8)) OR
     push_bit 16 (ucast ((f OR (ucast (drop_bit 16 l) AND 0x0F)) AND 0x0F :: u8)) :: u32) n = bit l n"
    unfolding low_mask by cases (use n f assms in \<open>auto simp: bit_simps\<close>)
qed

lemma base_bytes:
  "ucast (ucast b :: u8) OR push_bit 8 (ucast (ucast (drop_bit 8 b) :: u8)) OR
     push_bit 16 (ucast (ucast (drop_bit 16 b) :: u8)) OR push_bit 24 (ucast (ucast (drop_bit 24 b) :: u8)) = (b :: u32)"
proof (rule bit_word_eqI)
  fix n assume n: "n < LENGTH(32)"
  consider "n < 8" | "8 \<le> n" "n < 16" | "16 \<le> n" "n < 24" | "24 \<le> n" by linarith
  then show "bit (ucast (ucast b :: u8) OR push_bit 8 (ucast (ucast (drop_bit 8 b) :: u8)) OR
     push_bit 16 (ucast (ucast (drop_bit 16 b) :: u8)) OR push_bit 24 (ucast (ucast (drop_bit 24 b) :: u8)) :: u32) n = bit b n"
    by cases (use n in \<open>auto simp: bit_simps\<close>)
qed

lemma small_bits:
  assumes "l \<le> (65536 :: u32)" and "20 \<le> n" shows "\<not> bit l n"
proof
  assume "bit l n"
  then have "bit (unat l) n" using bit_imp_le_length [of l n] by (simp add: bit_unsigned_iff)
  then have "odd (unat l div 2 ^ n)" by (simp add: bit_iff_odd)
  then have "2 ^ n \<le> unat l" by (metis div_less even_zero linorder_not_less)
  moreover have "(2 :: nat) ^ 20 \<le> 2 ^ n" using assms(2) by (rule power_increasing) simp
  moreover have "unat l \<le> 65536" using assms(1) by (simp add: word_le_nat_alt)
  ultimately show False by simp
qed

section \<open>Properties\<close>

text \<open>the processor reads back what was encoded. Every segment whose limit is at most 64 KiB, or the last byte of a page, is encoded, and the
  base, the type and the limit the processor takes from the eight bytes are those of the segment.\<close>
theorem encodeGdtEntry_roundtrip:
  assumes "gs_limit e \<le> 65536 \<or> gs_limit e AND 0xFFF = 0xFFF"
  shows "\<exists>d. encodeGdtEntry e = Some d \<and> length d = 8 \<and> desc_base d = gs_base e \<and> desc_limit d = gs_limit e \<and> d ! 5 = gs_type e"
proof -
  define big where "big = (gs_limit e > 65536)"
  define l where "l = (if big then drop_bit 12 (gs_limit e) else gs_limit e)"
  define f :: u8 where "f = (if big then 0xC0 else 0x40)"
  let ?d = "[ucast l, ucast (drop_bit 8 l), ucast (gs_base e), ucast (drop_bit 8 (gs_base e)), ucast (drop_bit 16 (gs_base e)),
     gs_type e, f OR (ucast (drop_bit 16 l) AND 0x0F), ucast (drop_bit 24 (gs_base e))]"
  have enc: "encodeGdtEntry e = Some ?d" using assms by (auto simp: encodeGdtEntry_def big_def l_def f_def Let_def)
  have "\<not> bit l n" if "20 \<le> n" for n
    using that small_bits [of "gs_limit e" n] bit_imp_le_length [of "gs_limit e" "12 + n"]
    by (auto simp: l_def big_def bit_simps not_less)
  moreover have "f AND 0x0F = 0" by (simp add: f_def)
  ultimately have raw: "desc_raw_limit ?d = l" using raw_limit_bytes [of l f] by (simp add: desc_raw_limit_def)
  have "bit (?d ! 6) 7 = big" unfolding low_mask by (simp add: f_def bit_simps bit_numeral_rec)
  moreover have "push_bit 12 (drop_bit 12 (gs_limit e)) OR 0xFFF = gs_limit e" if big
  proof (rule bit_word_eqI)
    fix n
    have "gs_limit e AND mask 12 = mask 12" using assms that by (auto simp: big_def low_mask)
    then have "n < 12 \<Longrightarrow> n < 32 \<Longrightarrow> bit (gs_limit e) n" by (auto simp: bit_eq_iff bit_simps dest: spec [of _ n])
    then show "n < LENGTH(32) \<Longrightarrow> bit (push_bit 12 (drop_bit 12 (gs_limit e)) OR 0xFFF) n = bit (gs_limit e) n"
      unfolding low_mask by (auto simp: bit_simps)
  qed
  ultimately have "desc_limit ?d = gs_limit e" using raw by (auto simp: desc_limit_def l_def)
  moreover have "desc_base ?d = gs_base e" using base_bytes [of "gs_base e"] by (simp add: desc_base_def)
  ultimately show ?thesis using enc by (intro exI [of _ ?d]) simp
qed

theorem encodeGdtEntry_roundtrip_witness:
  "encodeGdtEntry \<lparr>gs_base = 0, gs_limit = 0xffffffff, gs_type = 0x9a\<rparr> = Some [0xff, 0xff, 0, 0, 0, 0x9a, 0xcf, 0] \<and>
   (\<exists>d. encodeGdtEntry \<lparr>gs_base = 0x12345678, gs_limit = 104, gs_type = 0xE9\<rparr> = Some d \<and> desc_base d = 0x12345678 \<and> desc_limit d = 104)"
proof -
  have "encodeGdtEntry \<lparr>gs_base = 0, gs_limit = 0xffffffff, gs_type = 0x9a\<rparr> = Some [0xff, 0xff, 0, 0, 0, 0x9a, 0xcf, 0]"
    by code_simp
  then show ?thesis using encodeGdtEntry_roundtrip [of "\<lparr>gs_base = 0x12345678, gs_limit = 104, gs_type = 0xE9\<rparr>"] by auto
qed

end
