(* ===== verification/Elf.thy ===== *)
theory Elf
  imports Vfs Fat16 Paging
begin

text \<open>
  The ELF loader, \<^verbatim>\<open>src/src/loader/formats/elfloader.c\<close> with the layouts of \<^verbatim>\<open>elf.h\<close> and \<^verbatim>\<open>elfloader.h\<close>. A loaded file is a \<open>struct elf_file\<close> on
  the kernel heap whose fields are read and written in physical memory; the image of the file lies in a second block. Offsets are
  in bytes. Pointers are compared as unsigned numbers.
\<close>

section \<open>Layouts\<close>

named_theorems elf_layout \<open>offsets in the ELF structures\<close>

definition elf_file_elf_memory :: u32 where [elf_layout]: "elf_file_elf_memory = 112"
definition elf_file_virtual_base_address :: u32 where [elf_layout]: "elf_file_virtual_base_address = 116"
definition elf_file_virtual_end_address :: u32 where [elf_layout]: "elf_file_virtual_end_address = 120"
definition elf_file_physical_base_address :: u32 where [elf_layout]: "elf_file_physical_base_address = 124"
definition elf_file_physical_end_address :: u32 where [elf_layout]: "elf_file_physical_end_address = 128"
definition sizeof_elf_file :: u32 where [elf_layout]: "sizeof_elf_file = 132"

definition EI_CLASS :: u32 where [elf_layout]: "EI_CLASS = 4"
definition EI_DATA :: u32 where [elf_layout]: "EI_DATA = 5"

definition e_type :: "mem \<Rightarrow> u32 \<Rightarrow> u16" where "e_type m header = load16 m (header + 16)"
definition e_entry :: "mem \<Rightarrow> u32 \<Rightarrow> u32" where "e_entry m header = load32 m (header + 24)"
definition e_phoff :: "mem \<Rightarrow> u32 \<Rightarrow> u32" where "e_phoff m header = load32 m (header + 28)"
definition e_shoff :: "mem \<Rightarrow> u32 \<Rightarrow> u32" where "e_shoff m header = load32 m (header + 32)"
definition e_phnum :: "mem \<Rightarrow> u32 \<Rightarrow> u16" where "e_phnum m header = load16 m (header + 44)"
definition e_shstrndx :: "mem \<Rightarrow> u32 \<Rightarrow> u16" where "e_shstrndx m header = load16 m (header + 50)"

definition p_type :: "mem \<Rightarrow> u32 \<Rightarrow> u32" where "p_type m phdr = load32 m phdr"
definition p_offset :: "mem \<Rightarrow> u32 \<Rightarrow> u32" where "p_offset m phdr = load32 m (phdr + 4)"
definition p_vaddr :: "mem \<Rightarrow> u32 \<Rightarrow> u32" where "p_vaddr m phdr = load32 m (phdr + 8)"
definition p_filesz :: "mem \<Rightarrow> u32 \<Rightarrow> u32" where "p_filesz m phdr = load32 m (phdr + 16)"
definition p_memsz :: "mem \<Rightarrow> u32 \<Rightarrow> u32" where "p_memsz m phdr = load32 m (phdr + 20)"
definition p_flags :: "mem \<Rightarrow> u32 \<Rightarrow> u32" where "p_flags m phdr = load32 m (phdr + 24)"
definition sh_offset :: "mem \<Rightarrow> u32 \<Rightarrow> u32" where "sh_offset m shdr = load32 m (shdr + 16)"

definition PT_LOAD :: u32 where "PT_LOAD = 1"
definition ET_EXEC :: u16 where "ET_EXEC = 2"

lemmas phdr_defs = p_type_def p_offset_def p_vaddr_def p_filesz_def p_memsz_def p_flags_def

section \<open>Operations\<close>

definition elf_signature :: "u8 list" where "elf_signature = [0x7f, 0x45, 0x4C, 0x46]"

definition elf_valid_signature :: "mem \<Rightarrow> u32 \<Rightarrow> bool" where
  "elf_valid_signature m buffer \<longleftrightarrow> memcmp (load_bytes m buffer 4) elf_signature 4 = Some 0"

definition elf_valid_class :: "mem \<Rightarrow> u32 \<Rightarrow> bool" where
  "elf_valid_class m header \<longleftrightarrow> m (header + EI_CLASS) = 0 \<or> m (header + EI_CLASS) = 1"

definition elf_valid_encoding :: "mem \<Rightarrow> u32 \<Rightarrow> bool" where
  "elf_valid_encoding m header \<longleftrightarrow> m (header + EI_DATA) = 0 \<or> m (header + EI_DATA) = 1"

definition elf_is_executable :: "mem \<Rightarrow> u32 \<Rightarrow> bool" where
  "elf_is_executable m header \<longleftrightarrow> e_type m header = ET_EXEC \<and> e_entry m header \<ge> 0x400000"

definition elf_has_program_header :: "mem \<Rightarrow> u32 \<Rightarrow> bool" where
  "elf_has_program_header m header \<longleftrightarrow> e_phoff m header \<noteq> 0"

definition elf_memory :: "mem \<Rightarrow> u32 \<Rightarrow> u32" where
  "elf_memory m file = load32 m (file + elf_file_elf_memory)"

definition elf_header :: "mem \<Rightarrow> u32 \<Rightarrow> u32" where
  "elf_header m file = load32 m (file + elf_file_elf_memory)"

definition elf_sheader :: "mem \<Rightarrow> u32 \<Rightarrow> u32" where
  "elf_sheader m header = header + e_shoff m header"

definition elf_pheader :: "mem \<Rightarrow> u32 \<Rightarrow> u32" where
  "elf_pheader m header = (if e_phoff m header = 0 then 0 else header + e_phoff m header)"

definition elf_program_header :: "mem \<Rightarrow> u32 \<Rightarrow> nat \<Rightarrow> u32" where
  "elf_program_header m header index = elf_pheader m header + of_nat (32 * index)"

definition elf_section :: "mem \<Rightarrow> u32 \<Rightarrow> nat \<Rightarrow> u32" where
  "elf_section m header index = elf_sheader m header + of_nat (40 * index)"

definition elf_phdr_phys_address :: "mem \<Rightarrow> u32 \<Rightarrow> u32 \<Rightarrow> u32" where
  "elf_phdr_phys_address m file phdr = elf_memory m file + p_offset m phdr"

definition elf_str_table :: "mem \<Rightarrow> u32 \<Rightarrow> u32" where
  "elf_str_table m header = header + sh_offset m (elf_section m header (unat (e_shstrndx m header)))"

definition elf_virtual_base :: "mem \<Rightarrow> u32 \<Rightarrow> u32" where
  "elf_virtual_base m file = load32 m (file + elf_file_virtual_base_address)"

definition elf_virtual_end :: "mem \<Rightarrow> u32 \<Rightarrow> u32" where
  "elf_virtual_end m file = load32 m (file + elf_file_virtual_end_address)"

definition elf_phys_base :: "mem \<Rightarrow> u32 \<Rightarrow> u32" where
  "elf_phys_base m file = load32 m (file + elf_file_physical_base_address)"

definition elf_phys_end :: "mem \<Rightarrow> u32 \<Rightarrow> u32" where
  "elf_phys_end m file = load32 m (file + elf_file_physical_end_address)"

definition elf_validate_loaded :: "mem \<Rightarrow> u32 \<Rightarrow> int" where
  "elf_validate_loaded m header =
     (if elf_valid_signature m header \<and> elf_valid_class m header \<and> elf_valid_encoding m header \<and> elf_has_program_header m header
      then SERPAEOS_ALL_OK else - EINFORMAT)"

definition elf_process_phdr_pt_load :: "u32 \<Rightarrow> u32 \<Rightarrow> mem \<Rightarrow> int \<times> mem" where
  "elf_process_phdr_pt_load elf_file phdr m =
     (let m = (if elf_virtual_base m elf_file \<ge> p_vaddr m phdr \<or> elf_virtual_base m elf_file = 0
               then let m = store32 m (elf_file + elf_file_virtual_base_address) (p_vaddr m phdr)
                    in store32 m (elf_file + elf_file_physical_base_address) (elf_memory m elf_file + p_offset m phdr)
               else m);
          end_virtual_address = p_vaddr m phdr + p_filesz m phdr;
          m = (if elf_virtual_end m elf_file \<le> end_virtual_address \<or> elf_virtual_end m elf_file = 0
               then let m = store32 m (elf_file + elf_file_virtual_end_address) end_virtual_address
                    in store32 m (elf_file + elf_file_physical_end_address)
                         (elf_memory m elf_file + p_offset m phdr + p_filesz m phdr)
               else m)
      in (0, m))"

definition elf_process_pheader :: "u32 \<Rightarrow> u32 \<Rightarrow> mem \<Rightarrow> int \<times> mem" where
  "elf_process_pheader elf_file phdr m =
     (if p_type m phdr = PT_LOAD then elf_process_phdr_pt_load elf_file phdr m else (0, m))"

fun elf_pheaders_loop :: "u32 \<Rightarrow> u32 \<Rightarrow> nat \<Rightarrow> nat \<Rightarrow> int \<Rightarrow> mem \<Rightarrow> int \<times> mem" where
  \<comment> \<open>the iterations left, \<open>i\<close> and \<open>res\<close>\<close>
  "elf_pheaders_loop elf_file header 0 i res m = (res, m)"
| "elf_pheaders_loop elf_file header (Suc n) i res m =
     (case elf_process_pheader elf_file (elf_program_header m header i) m of (res, m) \<Rightarrow>
        if res < 0 then (res, m) else elf_pheaders_loop elf_file header n (Suc i) res m)"

definition elf_process_pheaders :: "u32 \<Rightarrow> mem \<Rightarrow> int \<times> mem" where
  "elf_process_pheaders elf_file m =
     (let header = elf_header m elf_file in elf_pheaders_loop elf_file header (unat (e_phnum m header)) 0 0 m)"

definition elf_process_loaded :: "u32 \<Rightarrow> mem \<Rightarrow> int \<times> mem" where
  "elf_process_loaded elf_file m =
     (let res = elf_validate_loaded m (elf_header m elf_file)
      in if res < 0 then (res, m) else elf_process_pheaders elf_file m)"

definition elf_load_image :: "int \<Rightarrow> u32 \<Rightarrow> ('w, filestat) vfs \<Rightarrow> (int \<times> u32 \<times> ('w, filestat) vfs) option" where
  \<comment> \<open>\<open>elf_load\<close> from the call of \<open>fstat\<close> to the label \<open>out\<close>; the second component is what was stored at \<open>file_out\<close>\<close>
  "elf_load_image fd elf_file v = do {
     (res, st, v) \<leftarrow> fstat v fd uninit_stat;
     if res < 0 then Some (res, 0, v)
     else do {
       let filesize = st_filesize st;
       (p, k) \<leftarrow> kzalloc (v_k v) filesize;
       let v = v\<lparr>v_k := k\<lparr>km_mem := store32 (km_mem k) (elf_file + elf_file_elf_memory) p\<rparr>\<rparr>;
       (res, bs, v) \<leftarrow> fread v fd (sint filesize);
       let v = v\<lparr>v_k := (v_k v)\<lparr>km_mem := store_bytes (km_mem (v_k v)) p bs\<rparr>\<rparr>;
       if res < 0 then Some (res, 0, v)
       else let r = elf_process_loaded elf_file (km_mem (v_k v));
                v = v\<lparr>v_k := (v_k v)\<lparr>km_mem := snd r\<rparr>\<rparr>
            in Some (fst r, if fst r < 0 then 0 else elf_file, v)
     }
   }"

definition elf_load :: "u8 list \<Rightarrow> ('w, filestat) vfs \<Rightarrow> (int \<times> u32 \<times> ('w, filestat) vfs) option" where
  \<comment> \<open>the mode is the string \<open>r\<close>; when \<open>fopen\<close> fails, \<open>fclose(0)\<close> is called\<close>
  "elf_load filename v = do {
     (elf_file, k) \<leftarrow> kzalloc (v_k v) sizeof_elf_file;
     (res, v) \<leftarrow> fopen (v\<lparr>v_k := k\<rparr>) filename [114, 0];
     if res \<le> 0 then do { (_, v) \<leftarrow> fclose v 0; Some (- EIO, 0, v) }
     else do {
       let fd = res;
       (res, file_out, v) \<leftarrow> elf_load_image fd elf_file v;
       (_, v) \<leftarrow> fclose v fd;
       Some (res, file_out, v)
     }
   }"

definition elf_close :: "u32 \<Rightarrow> kmem \<Rightarrow> kmem option" where
  "elf_close file k =
     (if file = 0 then Some k
      else do {
        k \<leftarrow> kfree k (load32 (km_mem k) (file + elf_file_elf_memory));
        kfree k file
      })"

section \<open>The program headers\<close>

definition in_range :: "u32 \<Rightarrow> u32 \<Rightarrow> bool" where
  \<comment> \<open>a byte of the four fields of the \<open>struct elf_file\<close> at \<open>f\<close> that hold addresses, offsets 116 to 131\<close>
  "in_range f a \<longleftrightarrow> unat (a - (f + 116)) < 16"

definition outside :: "u32 \<Rightarrow> u32 \<Rightarrow> nat \<Rightarrow> bool" where
  "outside f a n \<longleftrightarrow> (\<forall>i < n. \<not> in_range f (a + of_nat i))"

definition same_outside :: "u32 \<Rightarrow> mem \<Rightarrow> mem \<Rightarrow> bool" where
  "same_outside f m m' \<longleftrightarrow> (\<forall>a. \<not> in_range f a \<longrightarrow> m' a = m a)"

lemma same_outside_load32:
  assumes "same_outside f m m'" and "outside f a n" and "k + 4 \<le> n"
  shows "load32 m' (a + of_nat k) = load32 m (a + of_nat k)"
proof -
  have "\<not> in_range f (a + of_nat (k + c))" if "c < 4" for c using assms(2,3) that by (simp add: outside_def del: of_nat_add)
  from this [of 0] this [of 1] this [of 2] this [of 3] show ?thesis
    using assms(1) by (intro load32_cong) (simp_all add: same_outside_def ac_simps)
qed

lemma same_outside_phdr:
  assumes "same_outside f m m'" and "outside f a 32"
  shows "p_type m' a = p_type m a" "p_offset m' a = p_offset m a" "p_vaddr m' a = p_vaddr m a" "p_filesz m' a = p_filesz m a"
  using same_outside_load32 [OF assms, of 0] same_outside_load32 [OF assms, of 4] same_outside_load32 [OF assms, of 8]
    same_outside_load32 [OF assms, of 16] by (simp_all add: phdr_defs)

lemma store_field_outside:
  "same_outside f m (store32 m (f + 116) v)" "same_outside f m (store32 m (f + 120) v)"
  "same_outside f m (store32 m (f + 124) v)" "same_outside f m (store32 m (f + 128) v)"
proof -
  have in_range: "in_range f (f + k)" "in_range f (k + f)" if "116 \<le> unat k" "unat k < 132" for k
    using that by (simp_all add: in_range_def unat_sub word_le_nat_alt add.commute [of k])
  show "same_outside f m (store32 m (f + 116) v)" "same_outside f m (store32 m (f + 120) v)"
    "same_outside f m (store32 m (f + 124) v)" "same_outside f m (store32 m (f + 128) v)"
    by (auto simp: same_outside_def store32_def in_range)
qed

lemma load_store_field:
  assumes "unat f mod 4 = 0" and "unat i mod 4 = 0" and "unat j mod 4 = 0"
  shows "load32 (store32 m (f + i) v) (f + j) = (if i = j then v else load32 m (f + j))"
proof -
  have "unat (f + k) mod 4 = 0" if "unat k mod 4 = 0" for k :: u32
  proof -
    have "(unat f + unat k) mod 4294967296 mod 4 = (unat f + unat k) mod 4" by (rule mod_mod_cancel) simp
    moreover have "(unat f + unat k) mod 4 = 0" using assms(1) that by presburger
    ultimately show ?thesis by (simp add: unat_word_ariths)
  qed
  then show ?thesis using assms(2,3) load32_store32_same load32_store32_other by simp
qed

lemma same_outside_trans: "same_outside f m m1 \<Longrightarrow> same_outside f m1 m2 \<Longrightarrow> same_outside f m m2"
  by (simp add: same_outside_def)

definition best :: "(u32 \<Rightarrow> u32 \<Rightarrow> bool) \<Rightarrow> u32 \<times> u32 \<Rightarrow> u32 \<times> u32 \<Rightarrow> u32 \<times> u32" where
  \<comment> \<open>an address with its place in the image, and the one of a further segment; 0 stands for none yet\<close>
  "best le r s = (if fst r = 0 \<or> le (fst s) (fst r) then s else r)"

definition low_end :: "mem \<Rightarrow> u32 \<Rightarrow> u32 \<times> u32" where
  "low_end m f = (elf_virtual_base m f, elf_phys_base m f)"

definition high_end :: "mem \<Rightarrow> u32 \<Rightarrow> u32 \<times> u32" where
  "high_end m f = (elf_virtual_end m f, elf_phys_end m f)"

lemmas file_views = low_end_def high_end_def elf_memory_def elf_virtual_base_def elf_virtual_end_def elf_phys_base_def elf_phys_end_def

lemma pt_load_effect:
  assumes "unat f mod 4 = 0" and "outside f ph 32" and "elf_process_phdr_pt_load f ph m = (res, m')"
  shows "res = 0" "same_outside f m m'" "elf_memory m' f = elf_memory m f"
    "low_end m' f = best (\<le>) (low_end m f) (p_vaddr m ph, elf_memory m f + p_offset m ph)"
    "high_end m' f = best (\<ge>) (high_end m f) (p_vaddr m ph + p_filesz m ph, elf_memory m f + p_offset m ph + p_filesz m ph)"
proof -
  define v where "v = p_vaddr m ph"
  define m1 where "m1 = (if elf_virtual_base m f \<ge> v \<or> elf_virtual_base m f = 0
      then store32 (store32 m (f + 116) v) (f + 124) (elf_memory (store32 m (f + 116) v) f + p_offset (store32 m (f + 116) v) ph)
      else m)"
  note l = load_store_field [OF assms(1)]
  have s1: "same_outside f m m1" unfolding m1_def
    using store_field_outside(1) same_outside_trans store_field_outside(3) by (auto simp: same_outside_def)
  have o: "p_offset (store32 m (f + 116) v) ph = p_offset m ph"
    using same_outside_phdr(2) [OF store_field_outside(1) assms(2)] .
  have f1: "elf_memory m1 f = elf_memory m f" "high_end m1 f = high_end m f"
    "low_end m1 f = best (\<le>) (low_end m f) (v, elf_memory m f + p_offset m ph)"
    by (simp_all add: m1_def file_views elf_layout l o best_def)
  have p1: "p_vaddr m1 ph = v" "p_filesz m1 ph = p_filesz m ph" "p_offset m1 ph = p_offset m ph"
    using same_outside_phdr [OF s1 assms(2)] by (simp_all add: v_def)
  define e where "e = v + p_filesz m ph"
  define m2 where "m2 = (if elf_virtual_end m1 f \<le> e \<or> elf_virtual_end m1 f = 0
      then store32 (store32 m1 (f + 120) e) (f + 128)
        (elf_memory (store32 m1 (f + 120) e) f + p_offset (store32 m1 (f + 120) e) ph + p_filesz (store32 m1 (f + 120) e) ph)
      else m1)"
  have s2: "same_outside f m1 m2" unfolding m2_def
    using store_field_outside(2) same_outside_trans store_field_outside(4) by (auto simp: same_outside_def)
  have o2: "p_offset (store32 m1 (f + 120) e) ph = p_offset m ph" "p_filesz (store32 m1 (f + 120) e) ph = p_filesz m ph"
    using same_outside_phdr(2,4) [OF store_field_outside(2) assms(2)] p1 by simp_all
  have f2: "elf_memory m2 f = elf_memory m1 f" "low_end m2 f = low_end m1 f"
    "high_end m2 f = best (\<ge>) (high_end m1 f) (e, elf_memory m1 f + p_offset m ph + p_filesz m ph)"
    by (simp_all add: m2_def file_views elf_layout l o2 best_def)
  have "(res, m') = (0, m2)" using assms(3)
    unfolding elf_process_phdr_pt_load_def Let_def elf_layout v_def [symmetric] m1_def [symmetric] p1 e_def [symmetric]
      m2_def [symmetric] by simp
  then show "res = 0" "same_outside f m m'" "elf_memory m' f = elf_memory m f"
    "low_end m' f = best (\<le>) (low_end m f) (p_vaddr m ph, elf_memory m f + p_offset m ph)"
    "high_end m' f = best (\<ge>) (high_end m f) (p_vaddr m ph + p_filesz m ph, elf_memory m f + p_offset m ph + p_filesz m ph)"
    using same_outside_trans [OF s1 s2] f1 f2 by (simp_all add: v_def e_def)
qed

text \<open>The segments to load, in the order of the headers: for the first address of each and for its end, the address in the process
  and the place in the image.\<close>

definition segments :: "u32 \<Rightarrow> mem \<Rightarrow> u32 \<Rightarrow> nat \<Rightarrow> nat \<Rightarrow> ((u32 \<times> u32) \<times> (u32 \<times> u32)) list" where
  "segments base m header i n = map (\<lambda>k. let ph = elf_program_header m header k in
       ((p_vaddr m ph, base + p_offset m ph), (p_vaddr m ph + p_filesz m ph, base + p_offset m ph + p_filesz m ph)))
     (filter (\<lambda>k. p_type m (elf_program_header m header k) = PT_LOAD) [i ..< i + n])"

lemma segments_Suc:
  "segments base m header i (Suc n) = (let ph = elf_program_header m header i in
     (if p_type m ph = PT_LOAD
      then [((p_vaddr m ph, base + p_offset m ph), (p_vaddr m ph + p_filesz m ph, base + p_offset m ph + p_filesz m ph))]
      else []) @ segments base m header (Suc i) n)"
proof -
  have "[i ..< i + Suc n] = i # [Suc i ..< Suc i + n]" by (simp add: upt_conv_Cons del: upt_Suc)
  then show ?thesis by (simp add: segments_def Let_def del: upt_Suc)
qed

definition headers_outside :: "u32 \<Rightarrow> mem \<Rightarrow> u32 \<Rightarrow> nat \<Rightarrow> nat \<Rightarrow> bool" where
  \<comment> \<open>the ELF header and the program headers do not overlap the four fields\<close>
  "headers_outside f m header i n \<longleftrightarrow> outside f header 52 \<and> (\<forall>k \<in> {i ..< i + n}. outside f (elf_program_header m header k) 32)"

lemma same_outside_program_header:
  assumes "same_outside f m m'" and "outside f header 52"
  shows "elf_program_header m' header k = elf_program_header m header k"
  using same_outside_load32 [OF assms, of 28] by (simp add: elf_program_header_def elf_pheader_def e_phoff_def)

lemma same_outside_segments:
  assumes "same_outside f m m'" and "headers_outside f m header i n"
  shows "segments base m' header i n = segments base m header i n" "headers_outside f m' header i n"
  using assms same_outside_program_header [OF assms(1)] same_outside_phdr [OF assms(1)]
  by (auto simp: headers_outside_def segments_def Let_def intro!: arg_cong2 [of _ _ _ _ map] map_cong filter_cong)

lemma pheaders_loop_effect:
  assumes "unat f mod 4 = 0" and "headers_outside f m header i n" and "elf_pheaders_loop f header n i 0 m = (res, m')"
  shows "res = 0 \<and> same_outside f m m' \<and> elf_memory m' f = elf_memory m f \<and>
    low_end m' f = foldl (best (\<le>)) (low_end m f) (map fst (segments (elf_memory m f) m header i n)) \<and>
    high_end m' f = foldl (best (\<ge>)) (high_end m f) (map snd (segments (elf_memory m f) m header i n))"
  using assms(2,3)
proof (induction n arbitrary: i m)
  case 0
  then show ?case by (simp add: segments_def same_outside_def)
next
  case (Suc n)
  define ph where "ph = elf_program_header m header i"
  obtain r m1 where 1: "elf_process_pheader f ph m = (r, m1)" by fastforce
  have o: "outside f ph 32" and h: "headers_outside f m header (Suc i) n" using Suc.prems(1) by (auto simp: headers_outside_def ph_def)
  have e: "r = 0" "same_outside f m m1" "elf_memory m1 f = elf_memory m f"
    "low_end m1 f = (if p_type m ph = PT_LOAD then best (\<le>) (low_end m f) (p_vaddr m ph, elf_memory m f + p_offset m ph) else low_end m f)"
    "high_end m1 f = (if p_type m ph = PT_LOAD then best (\<ge>) (high_end m f)
       (p_vaddr m ph + p_filesz m ph, elf_memory m f + p_offset m ph + p_filesz m ph) else high_end m f)"
    using 1 pt_load_effect [OF assms(1) o] by (auto simp: elf_process_pheader_def same_outside_def split: if_splits)
  have l: "elf_pheaders_loop f header n (Suc i) 0 m1 = (res, m')" using Suc.prems(2) 1 e(1) by (simp add: ph_def [symmetric])
  show ?case using Suc.IH [OF same_outside_segments(2) [OF e(2) h] l] same_outside_segments(1) [OF e(2) h] e(3-5)
      same_outside_trans [OF e(2)] by (simp add: segments_Suc ph_def [symmetric] Let_def)
qed

lemma foldl_best:
  assumes "\<And>a b. le a b \<or> le b a" and "\<And>a b c. le a b \<Longrightarrow> le b c \<Longrightarrow> le a c"
    and "\<forall>s \<in> set (r # ss). fst s \<noteq> 0"
  shows "foldl (best le) r ss = last (filter (\<lambda>s. \<forall>t \<in> set (r # ss). le (fst s) (fst t)) (r # ss)) \<and>
    (\<forall>t \<in> set (r # ss). le (fst (foldl (best le) r ss)) (fst t)) \<and> foldl (best le) r ss \<in> set (r # ss)"
  using assms(3)
proof (induction ss rule: rev_induct)
  case Nil
  then show ?case using assms(1) by auto
next
  case (snoc s ss)
  let ?t = "foldl (best le) r ss" and ?P = "\<lambda>xs s. \<forall>t \<in> set xs. le (fst s) (fst t)"
  have "\<forall>s \<in> set (r # ss). fst s \<noteq> 0" using snoc.prems by simp
  note ih = snoc.IH [OF this]
  have t: "?t = last (filter (?P (r # ss)) (r # ss))" "?P (r # ss) ?t" "?t \<in> set (r # ss)"
    using conjunct1 [OF ih] conjunct1 [OF conjunct2 [OF ih]] conjunct2 [OF conjunct2 [OF ih]] .
  have nz: "fst ?t \<noteq> 0" using t(3) snoc.prems by auto
  have sp: "r # ss @ [s] = (r # ss) @ [s]" by simp
  show ?case
  proof (cases "le (fst s) (fst ?t)")
    case True
    then have p: "?P ((r # ss) @ [s]) s" using t(2) assms(1,2) by (metis (no_types, lifting) Un_iff empty_iff empty_set set_ConsD set_append)
    then have "last (filter (?P ((r # ss) @ [s])) ((r # ss) @ [s])) = s" unfolding filter_append by simp
    moreover have "foldl (best le) r (ss @ [s]) = s" unfolding foldl_append using True by (simp add: best_def [of le ?t])
    moreover have "s \<in> set ((r # ss) @ [s])" by simp
    ultimately show ?thesis using p unfolding sp by (simp only: simp_thms)
  next
    case False
    then have s: "le (fst ?t) (fst s)" using assms(1) by blast
    define P :: "u32 \<times> u32 \<Rightarrow> bool" where "P = ?P (r # ss)"
    have x: "le (fst x) (fst s)" if "P x" for x
      using assms(2) [OF bspec [OF that [unfolded P_def] t(3)] s] .
    then have Q: "?P ((r # ss) @ [s]) = P" unfolding set_append ball_Un by (auto simp: P_def fun_eq_iff)
    have "\<not> P s" using False t(3) unfolding P_def by blast
    then have "filter P ((r # ss) @ [s]) = filter P (r # ss)" by simp
    then have "filter (?P ((r # ss) @ [s])) ((r # ss) @ [s]) = filter (?P (r # ss)) (r # ss)" unfolding Q unfolding P_def .
    then have "?t = last (filter (?P ((r # ss) @ [s])) ((r # ss) @ [s]))" using t(1) by (simp only:)
    moreover have "?P ((r # ss) @ [s]) ?t" "?t \<in> set ((r # ss) @ [s])" using t(2,3) s by auto
    moreover have "foldl (best le) r (ss @ [s]) = ?t" unfolding foldl_append using False nz by (simp add: best_def [of le ?t])
    ultimately show ?thesis unfolding sp by (simp only: simp_thms)
  qed
qed

lemma foldl_least:
  fixes ss :: "(u32 \<times> u32) list"
  assumes "ss \<noteq> []" and "\<forall>s \<in> set ss. fst s \<noteq> 0" and "fst r = 0"
  shows "foldl (best (\<le>)) r ss = (Min (fst ` set ss), snd (last (filter (\<lambda>s. fst s = Min (fst ` set ss)) ss)))"
proof -
  obtain s ss' where ss: "ss = s # ss'" using assms(1) by (cases ss) auto
  let ?M = "Min (fst ` set ss)"
  have *: "(\<forall>t \<in> set ss. fst x \<le> fst t) \<longleftrightarrow> fst x = ?M" if "x \<in> set ss" for x
    using that Min_le [of "fst ` set ss"] Min_in [of "fst ` set ss"] assms(1) by (auto intro!: antisym)
  then have f: "filter (\<lambda>x. \<forall>t \<in> set ss. fst x \<le> fst t) ss = filter (\<lambda>x. fst x = ?M) ss" by (rule filter_cong [OF refl])
  have e: "foldl (best (\<le>)) r ss = foldl (best (\<le>)) s ss'" using assms(3) by (simp add: ss best_def)
  have b: "foldl (best (\<le>)) s ss' = last (filter (\<lambda>x. \<forall>t \<in> set ss. fst x \<le> fst t) ss) \<and>
      (\<forall>t \<in> set ss. fst (foldl (best (\<le>)) s ss') \<le> fst t) \<and> foldl (best (\<le>)) s ss' \<in> set ss"
    unfolding ss by (rule foldl_best) (use assms(2) ss in auto)
  have "foldl (best (\<le>)) r ss = last (filter (\<lambda>x. fst x = ?M) ss)"
    unfolding e using conjunct1 [OF b] unfolding f .
  moreover have "fst (foldl (best (\<le>)) r ss) = ?M"
    unfolding e using * [of "foldl (best (\<le>)) s ss'"] b by blast
  ultimately show ?thesis by (metis prod.collapse)
qed

lemma foldl_greatest:
  fixes ss :: "(u32 \<times> u32) list"
  assumes "ss \<noteq> []" and "\<forall>s \<in> set ss. fst s \<noteq> 0" and "fst r = 0"
  shows "foldl (best (\<ge>)) r ss = (Max (fst ` set ss), snd (last (filter (\<lambda>s. fst s = Max (fst ` set ss)) ss)))"
proof -
  obtain s ss' where ss: "ss = s # ss'" using assms(1) by (cases ss) auto
  let ?M = "Max (fst ` set ss)"
  have *: "(\<forall>t \<in> set ss. fst x \<ge> fst t) \<longleftrightarrow> fst x = ?M" if "x \<in> set ss" for x
    using that Max_ge [of "fst ` set ss"] Max_in [of "fst ` set ss"] assms(1) by (auto intro!: antisym)
  then have f: "filter (\<lambda>x. \<forall>t \<in> set ss. fst x \<ge> fst t) ss = filter (\<lambda>x. fst x = ?M) ss" by (rule filter_cong [OF refl])
  have e: "foldl (best (\<ge>)) r ss = foldl (best (\<ge>)) s ss'" using assms(3) by (simp add: ss best_def)
  have b: "foldl (best (\<ge>)) s ss' = last (filter (\<lambda>x. \<forall>t \<in> set ss. fst x \<ge> fst t) ss) \<and>
      (\<forall>t \<in> set ss. fst (foldl (best (\<ge>)) s ss') \<ge> fst t) \<and> foldl (best (\<ge>)) s ss' \<in> set ss"
    unfolding ss by (rule foldl_best) (use assms(2) ss in auto)
  have "foldl (best (\<ge>)) r ss = last (filter (\<lambda>x. fst x = ?M) ss)"
    unfolding e using conjunct1 [OF b] unfolding f .
  moreover have "fst (foldl (best (\<ge>)) r ss) = ?M"
    unfolding e using * [of "foldl (best (\<ge>)) s ss'"] b by blast
  ultimately show ?thesis by (metis prod.collapse)
qed

text \<open>C31: processing the program headers of a loaded image, with the virtual base and end still 0. When the headers do not overlap the four address fields of the
  \<open>struct elf_file\<close>, and there is at least one \<open>PT_LOAD\<close> segment and none of them starts or ends at address 0,
  \<open>elf_process_pheaders\<close> succeeds and writes no byte other than those four fields. The virtual base becomes the least \<open>p_vaddr\<close> and the
  virtual end the greatest \<open>p_vaddr + p_filesz\<close> of the \<open>PT_LOAD\<close> segments; the physical base and end are the places in the image of the
  start and of the end of the last segment that has that base and that end.\<close>
theorem elf_process_pheaders_range:
  assumes "unat f mod 4 = 0" and "n = unat (e_phnum m (elf_header m f))" and "headers_outside f m (elf_header m f) 0 n"
    and "elf_virtual_base m f = 0" and "elf_virtual_end m f = 0"
    and "ss = segments (elf_memory m f) m (elf_header m f) 0 n" and "ss \<noteq> []"
    and "\<forall>s \<in> set ss. fst (fst s) \<noteq> 0 \<and> fst (snd s) \<noteq> 0"
    and "lo = Min ((fst \<circ> fst) ` set ss)" and "hi = Max ((fst \<circ> snd) ` set ss)"
  shows "\<exists>m'. elf_process_pheaders f m = (0, m') \<and> (\<forall>a. \<not> unat (a - (f + 116)) < 16 \<longrightarrow> m' a = m a) \<and>
    elf_virtual_base m' f = lo \<and> elf_phys_base m' f = snd (fst (last (filter (\<lambda>s. fst (fst s) = lo) ss))) \<and>
    elf_virtual_end m' f = hi \<and> elf_phys_end m' f = snd (snd (last (filter (\<lambda>s. fst (snd s) = hi) ss)))"
proof -
  obtain res m' where 1: "elf_process_pheaders f m = (res, m')" by fastforce
  then have l: "elf_pheaders_loop f (elf_header m f) n 0 0 m = (res, m')" by (simp add: elf_process_pheaders_def assms(2) Let_def)
  have z: "fst (low_end m f) = 0" "fst (high_end m f) = 0" using assms(4,5) by (simp_all add: low_end_def high_end_def)
  have m: "Min (fst ` set (map fst ss)) = lo" "Max (fst ` set (map snd ss)) = hi" by (simp_all add: assms(9,10) image_image o_def)
  have "filter (\<lambda>s. fst s = lo) (map fst ss) = map fst (filter (\<lambda>s. fst (fst s) = lo) ss)"
    "filter (\<lambda>s. fst s = hi) (map snd ss) = map snd (filter (\<lambda>s. fst (snd s) = hi) ss)" by (simp_all add: filter_map o_def)
  moreover have "filter (\<lambda>s. fst (fst s) = lo) ss \<noteq> []" "filter (\<lambda>s. fst (snd s) = hi) ss \<noteq> []"
  proof -
    have "lo \<in> (fst \<circ> fst) ` set ss" "hi \<in> (fst \<circ> snd) ` set ss" unfolding assms(9,10) using assms(7) by (intro Min_in Max_in; simp)+
    then show "filter (\<lambda>s. fst (fst s) = lo) ss \<noteq> []" "filter (\<lambda>s. fst (snd s) = hi) ss \<noteq> []" by (auto simp: filter_empty_conv)
  qed
  ultimately have "foldl (best (\<le>)) (low_end m f) (map fst ss) = (lo, snd (fst (last (filter (\<lambda>s. fst (fst s) = lo) ss))))"
    "foldl (best (\<ge>)) (high_end m f) (map snd ss) = (hi, snd (snd (last (filter (\<lambda>s. fst (snd s) = hi) ss))))"
    using foldl_least [of "map fst ss" "low_end m f", unfolded m(1)] foldl_greatest [of "map snd ss" "high_end m f", unfolded m(2)] z assms(7,8)
    by (simp_all add: last_map)
  then show ?thesis using pheaders_loop_effect [OF assms(1,3) l] assms(6) 1
    by (auto simp: low_end_def high_end_def same_outside_def in_range_def)
qed

text \<open>A memory with a \<open>struct elf_file\<close> at \<open>0x1000\<close> and, at \<open>0x2000\<close>, an image with two program headers.\<close>

definition demo_image :: mem where
  "demo_image = (\<lambda>_. 0)(0x1071 := 0x20, 0x201C := 52, 0x202C := 2, 0x2034 := 1, 0x203E := 0x40, 0x2045 := 1,
     0x2054 := 1, 0x2059 := 2, 0x205D := 0x10, 0x205E := 0x40, 0x2064 := 0x10)"

lemma outside_demo:
  assumes "b + n \<le> 4096"
  shows "outside 0x1000 (0x2000 + of_nat b) n" unfolding outside_def
proof (intro allI impI)
  fix i assume "i < n"
  then have "b + i < 4096" using assms by simp
  then have "unat (0xF8C + of_nat (b + i) :: u32) = 0xF8C + (b + i)" by (simp add: unat_word_ariths unat_of_nat_small del: of_nat_add)
  then show "\<not> in_range 0x1000 (0x2000 + of_nat b + of_nat i)" by (simp add: in_range_def algebra_simps)
qed

theorem elf_process_pheaders_range_witness:
  "\<exists>m'. elf_process_pheaders 0x1000 demo_image = (0, m') \<and> elf_virtual_base m' 0x1000 = 0x400000 \<and> elf_phys_base m' 0x1000 = 0x2000 \<and>
     elf_virtual_end m' 0x1000 = 0x401010 \<and> elf_phys_end m' 0x1000 = 0x2210"
proof -
  have h: "elf_header demo_image 0x1000 = 0x2000" and n: "unat (e_phnum demo_image 0x2000) = 2"
    and p: "elf_pheader demo_image 0x2000 = 0x2034" and i: "elf_memory demo_image 0x1000 = 0x2000"
    by (simp_all add: elf_header_def e_phnum_def elf_pheader_def e_phoff_def elf_memory_def elf_layout demo_image_def load32_def load16_def)
  have ph: "elf_program_header demo_image 0x2000 0 = 0x2034" "elf_program_header demo_image 0x2000 1 = 0x2054"
    by (simp_all add: elf_program_header_def p)
  have s: "segments 0x2000 demo_image 0x2000 0 2 = [((0x400000, 0x2000), (0x400100, 0x2100)), ((0x401000, 0x2200), (0x401010, 0x2210))]"
    using ph by (simp add: segments_def Let_def numeral_2_eq_2)
      (simp add: phdr_defs demo_image_def load32_def PT_LOAD_def)
  have o: "headers_outside 0x1000 demo_image 0x2000 0 2"
    using outside_demo [where b = 0 and n = 52] outside_demo [where b = 52 and n = 32] outside_demo [where b = 84 and n = 32] ph
    by (auto simp: headers_outside_def numeral_2_eq_2 less_Suc_eq)
  have z: "elf_virtual_base demo_image 0x1000 = 0" "elf_virtual_end demo_image 0x1000 = 0"
    by (simp_all add: elf_virtual_base_def elf_virtual_end_def elf_layout demo_image_def load32_def)
  from elf_process_pheaders_range [where f = "0x1000" and m = demo_image and lo = "0x400000" and hi = "0x401010", unfolded h n i, OF _ refl o z s [symmetric]]
  show ?thesis by auto
qed

end
