(* ===== verification/Process.thy ===== *)
theory Process
  imports Task Terminal Elf
begin

text \<open>
  Processes, \<^verbatim>\<open>src/src/task/process.c\<close> with the structures of \<^verbatim>\<open>process.h\<close>. A \<open>struct process\<close> lies on the kernel heap, over three
  blocks, and its fields are read and written in physical memory. The record \<open>os\<close> joins the state of the scheduler, the
  virtual file system and the console with the globals of this file; the three share one physical memory and one heap, which the
  wrappers \<open>on_sched\<close>, \<open>on_vfs\<close> and \<open>on_term\<close> hand through. The null page is mapped in the kernel's address space, so an access through a
  null pointer is an access at its offset.

  A file name is the buffer it lies in. A value that an uninitialised local has is an argument. An operation that ends in \<open>task_return\<close>
  leaves the kernel: its outcome is \<open>Resumes\<close> with the address of the registers. A panic is \<open>None\<close>.
\<close>

section \<open>Structures\<close>

definition SERPAEOS_MAX_PROCESSES :: nat where "SERPAEOS_MAX_PROCESSES = 13"
definition SERPAEOS_TOTAL_MAX_PROCESSES :: nat where "SERPAEOS_TOTAL_MAX_PROCESSES = 50"
definition SERPAEOS_MAX_PROGRAM_ALLOCATIONS :: nat where "SERPAEOS_MAX_PROGRAM_ALLOCATIONS = 1024"
definition SERPAEOS_USER_PROGRAM_STACK_SIZE :: u32 where "SERPAEOS_USER_PROGRAM_STACK_SIZE = 1024 * 16"
definition SERPAEOS_PROGRAM_VIRTUAL_STACK_ADDRESS_END :: u32 where
  "SERPAEOS_PROGRAM_VIRTUAL_STACK_ADDRESS_END = SERPAEOS_PROGRAM_VIRTUAL_STACK_ADDRESS_START - SERPAEOS_USER_PROGRAM_STACK_SIZE"
definition NFILE :: nat where "NFILE = 20"
definition PROCESS_FILETYPE_BINARY :: u8 where "PROCESS_FILETYPE_BINARY = 1"
definition PF_W :: u32 where "PF_W = 2"

lemmas process_consts = SERPAEOS_MAX_PROCESSES_def SERPAEOS_TOTAL_MAX_PROCESSES_def SERPAEOS_MAX_PROGRAM_ALLOCATIONS_def
  SERPAEOS_USER_PROGRAM_STACK_SIZE_def SERPAEOS_PROGRAM_VIRTUAL_STACK_ADDRESS_END_def NFILE_def PROCESS_FILETYPE_BINARY_def PF_W_def

text \<open>Byte offsets in \<open>struct process\<close> beside those the scheduler reads, in \<open>struct screen\<close> and in \<open>struct command_argument\<close>.\<close>

definition process_host :: u32 where [layout]: "process_host = 0"
definition process_parent :: u32 where [layout]: "process_parent = 8"
definition process_id :: u32 where [layout]: "process_id = 12"
definition process_filename :: u32 where [layout]: "process_filename = 16"
definition process_allocations :: u32 where [layout]: "process_allocations = 128"
definition process_stack :: u32 where [layout]: "process_stack = 8328"
definition process_size :: u32 where [layout]: "process_size = 8332"
definition process_keyboard :: u32 where [layout]: "process_keyboard = 8336"
definition process_argc :: u32 where [layout]: "process_argc = 9368"
definition process_argv :: u32 where [layout]: "process_argv = 9372"
definition process_screen :: u32 where [layout]: "process_screen = 9376"
definition process_iob :: u32 where [layout]: "process_iob = 9380"
definition process_priv :: u32 where [layout]: "process_priv = 9460"
definition sizeof_process :: u32 where [layout]: "sizeof_process = 9464"

definition screen_current_screen :: u32 where [layout]: "screen_current_screen = 0"
definition screen_x :: u32 where [layout]: "screen_x = 4"
definition screen_y :: u32 where [layout]: "screen_y = 8"
definition screen_video :: u32 where [layout]: "screen_video = 12"
definition sizeof_screen :: u32 where [layout]: "sizeof_screen = 4012"

definition command_argument_next :: u32 where [layout]: "command_argument_next = 512"

record 'w os =
  os_s :: sched
  os_vfs :: "('w, filestat) vfs"
  os_term :: terminal
  current_process :: u32
  processes :: "u32 list"
  ret_codes :: "int list"
  directory_screen_x :: u32
  directory_screen_y :: u32
  directory_screen_video :: "u8 list"
  directory_screen_is_current :: bool
  os_now :: date_time
  os_text :: "u8 list" \<comment> \<open>the static buffer of \<open>itoa\<close>\<close>

datatype 'a outcome = Returns 'a | Resumes u32

abbreviation os_mem :: "'w os \<Rightarrow> mem" where "os_mem s \<equiv> sc_mem (os_s s)"

definition put_mem :: "mem \<Rightarrow> 'w os \<Rightarrow> 'w os" where
  "put_mem m s = s\<lparr>os_s := with_mem (os_s s) m\<rparr>"

definition put32 :: "u32 \<Rightarrow> u32 \<Rightarrow> 'w os \<Rightarrow> 'w os" where
  "put32 a v s = put_mem (store32 (os_mem s) a v) s"

definition put8 :: "u32 \<Rightarrow> u8 \<Rightarrow> 'w os \<Rightarrow> 'w os" where
  "put8 a v s = put_mem ((os_mem s)(a := v)) s"

definition get32 :: "'w os \<Rightarrow> u32 \<Rightarrow> u32" where
  "get32 s a = load32 (os_mem s) a"

definition get8 :: "'w os \<Rightarrow> u32 \<Rightarrow> u8" where
  "get8 s a = os_mem s a"

definition on_sched :: "(sched \<Rightarrow> ('a \<times> sched) option) \<Rightarrow> 'w os \<Rightarrow> ('a \<times> 'w os) option" where
  "on_sched f s = do { (x, c) \<leftarrow> f (os_s s); Some (x, s\<lparr>os_s := c\<rparr>) }"

definition on_vfs :: "(('w, filestat) vfs \<Rightarrow> ('a \<times> ('w, filestat) vfs) option) \<Rightarrow> 'w os \<Rightarrow> ('a \<times> 'w os) option" where
  "on_vfs f s = do {
     (x, v) \<leftarrow> f ((os_vfs s)\<lparr>v_k := sc_k (os_s s)\<rparr>);
     Some (x, s\<lparr>os_vfs := v, os_s := (os_s s)\<lparr>sc_k := v_k v\<rparr>\<rparr>)
   }"

definition on_term :: "(terminal \<Rightarrow> terminal) \<Rightarrow> 'w os \<Rightarrow> 'w os" where
  "on_term f s = (let t = f ((os_term s)\<lparr>t_mem := os_mem s\<rparr>) in put_mem (t_mem t) (s\<lparr>os_term := t\<rparr>))"

definition os_kzalloc :: "u32 \<Rightarrow> 'w os \<Rightarrow> (u32 \<times> 'w os) option" where
  "os_kzalloc sz = on_sched (on_kmem (\<lambda>k. kzalloc k sz))"

definition os_kfree :: "u32 \<Rightarrow> 'w os \<Rightarrow> 'w os option" where
  "os_kfree p s = do { c \<leftarrow> sched_kfree p (os_s s); Some (s\<lparr>os_s := c\<rparr>) }"

definition os_print :: "u8 list \<Rightarrow> 'w os \<Rightarrow> 'w os option" where
  "os_print str s = do {
     t \<leftarrow> print str ((os_term s)\<lparr>t_mem := os_mem s\<rparr>);
     Some (on_term (\<lambda>_. t) s)
   }"

definition attr_now :: "'w os \<Rightarrow> u8" where
  "attr_now s = terminal_get_attr ((os_term s)\<lparr>t_mem := os_mem s\<rparr>)"

section \<open>Switching\<close>

definition process_current :: "'w os \<Rightarrow> u32" where
  "process_current s = current_process s"

definition process_get :: "'w os \<Rightarrow> int \<Rightarrow> u32 option" where
  "process_get s pid =
     (if pid < 0 \<or> int SERPAEOS_TOTAL_MAX_PROCESSES \<le> pid then Some 0 else rd (processes s) (nat pid))"

definition process_save_video :: "u32 \<Rightarrow> 'w os \<Rightarrow> 'w os" where
  "process_save_video process s =
     (let s = put_mem (memcpy_at (os_mem s) (get32 s (process + process_screen) + screen_video) 0xb8000 4000) s;
          s = put32 (get32 s (process + process_screen) + screen_x) (ucast (fst (get_cursor (os_term s)))) s;
          s = put32 (get32 s (process + process_screen) + screen_y) (ucast (snd (get_cursor (os_term s)))) s
      in put8 (get32 s (process + process_screen) + screen_current_screen) 0 s)"

definition process_load_video :: "u32 \<Rightarrow> 'w os \<Rightarrow> 'w os" where
  "process_load_video process s =
     (let s = put_mem (memcpy_at (os_mem s) 0xb8000 (get32 s (process + process_screen) + screen_video) 4000) s;
          screen = get32 s (process + process_screen);
          s = on_term (set_cursor (ucast (get32 s (screen + screen_x))) (ucast (get32 s (screen + screen_y)))) s
      in put8 (get32 s (process + process_screen) + screen_current_screen) 1 s)"

definition process_switch :: "u32 \<Rightarrow> 'w os \<Rightarrow> 'w os" where
  "process_switch process s =
     (let s = process_save_video (current_process s) s;
          s = process_load_video process s
      in s\<lparr>current_process := process\<rparr>)"

definition hide_directory :: "'w os \<Rightarrow> 'w os" where
  "hide_directory s =
     (if \<not> directory_screen_is_current s then s
      else let s = put_mem (store_bytes (os_mem s) 0xb8000 (directory_screen_video s)) s;
               s = on_term (set_cursor (ucast (directory_screen_x s)) (ucast (directory_screen_y s))) s
           in s\<lparr>directory_screen_is_current := False\<rparr>)"

definition process_flip :: "int \<Rightarrow> 'w os \<Rightarrow> (unit outcome \<times> 'w os) option" where
  "process_flip pid s =
     (if pid < 0 \<or> int SERPAEOS_MAX_PROCESSES < pid then Some (Returns (), s)
      else do {
        p \<leftarrow> rd (processes s) (nat pid);
        if p = 0 then Some (Returns (), s)
        else do {
          let s = process_switch p (hide_directory s);
          let s = s\<lparr>os_s := task_switch (get32 s (current_process s + process_task)) (os_s s)\<rparr>;
          Some (Resumes (slot (current_task (os_s s)) task_registers), s)
        }
      })"

section \<open>Memory of a process\<close>

definition alloc_ptr :: "u32 \<Rightarrow> nat \<Rightarrow> u32" where
  \<comment> \<open>\<open>&process->allocations[i].ptr\<close>\<close>
  "alloc_ptr process i = process + process_allocations + of_nat (8 * i)"

definition alloc_size :: "u32 \<Rightarrow> nat \<Rightarrow> u32" where
  "alloc_size process i = process + process_allocations + of_nat (8 * i) + 4"

definition find_free_alloc_index :: "'w os \<Rightarrow> u32 \<Rightarrow> nat option" where
  \<comment> \<open>\<open>None\<close> is \<open>-ENOMEM\<close>\<close>
  "find_free_alloc_index s process =
     scan (\<lambda>i. get32 s (alloc_ptr process i) = 0) 0 [0 ..< SERPAEOS_MAX_PROGRAM_ALLOCATIONS]"

definition process_chunk :: "'w os \<Rightarrow> u32 \<Rightarrow> u32" where
  \<comment> \<open>\<open>process->task->page_directory\<close>\<close>
  "process_chunk s process = fld (os_mem s) (get32 s (process + process_task)) task_page_directory"

definition os_map_to :: "u32 \<Rightarrow> u32 \<Rightarrow> u32 \<Rightarrow> u32 \<Rightarrow> u32 \<Rightarrow> 'w os \<Rightarrow> int \<times> 'w os" where
  "os_map_to process virt phys phys_end flags s =
     (case paging_map_to (os_mem s) (process_chunk s process) virt phys phys_end flags of (res, m) \<Rightarrow> (res, put_mem m s))"

definition process_malloc :: "u32 \<Rightarrow> u32 \<Rightarrow> 'w os \<Rightarrow> (u32 \<times> 'w os) option" where
  "process_malloc process sz s = do {
     (ptr, s) \<leftarrow> os_kzalloc sz s;
     if ptr = 0 then Some (0, s)
     else case find_free_alloc_index s process of
       None \<Rightarrow> do { s \<leftarrow> os_kfree ptr s; Some (0, s) }
     | Some index \<Rightarrow>
         (case os_map_to process ptr ptr (paging_align_address (ptr + sz)) 7 s of (res, s) \<Rightarrow>
            if res < 0 then do { s \<leftarrow> os_kfree ptr s; Some (0, s) }
            else Some (ptr, put32 (alloc_size process index) sz (put32 (alloc_ptr process index) ptr s)))
   }"

fun unjoin_loop :: "u32 \<Rightarrow> u32 \<Rightarrow> nat \<Rightarrow> nat \<Rightarrow> 'w os \<Rightarrow> 'w os" where
  "unjoin_loop process ptr 0 i s = s"
| "unjoin_loop process ptr (Suc n) i s =
     unjoin_loop process ptr n (Suc i)
       (if get32 s (alloc_ptr process i) = ptr
        then put32 (alloc_size process i) 0 (put32 (alloc_ptr process i) 0 s) else s)"

definition process_allocation_unjoin :: "u32 \<Rightarrow> u32 \<Rightarrow> 'w os \<Rightarrow> 'w os" where
  "process_allocation_unjoin process ptr s = unjoin_loop process ptr SERPAEOS_MAX_PROGRAM_ALLOCATIONS 0 s"

definition process_get_allocation_by_addr :: "'w os \<Rightarrow> u32 \<Rightarrow> u32 \<Rightarrow> nat option" where
  "process_get_allocation_by_addr s process addr =
     scan (\<lambda>i. get32 s (alloc_ptr process i) = addr) 0 [0 ..< SERPAEOS_MAX_PROGRAM_ALLOCATIONS]"

definition process_free :: "u32 \<Rightarrow> u32 \<Rightarrow> 'w os \<Rightarrow> 'w os option" where
  "process_free process ptr s =
     (case process_get_allocation_by_addr s process ptr of
        None \<Rightarrow> Some s
      | Some i \<Rightarrow>
          (let p = get32 s (alloc_ptr process i)
           in case os_map_to process p p (paging_align_address (p + get32 s (alloc_size process i))) 0 s of (res, s) \<Rightarrow>
              if res < 0 then Some s else os_kfree ptr (process_allocation_unjoin process ptr s)))"

section \<open>Arguments\<close>

definition process_get_arguments :: "'w os \<Rightarrow> u32 \<Rightarrow> u32 \<times> u32" where
  "process_get_arguments s process = (get32 s (process + process_argc), get32 s (process + process_argv))"

partial_function (option) count_arguments_loop :: "mem \<Rightarrow> int \<Rightarrow> u32 \<Rightarrow> int option" where
  "count_arguments_loop m i current =
     (if current = 0 then Some i else count_arguments_loop m (i + 1) (load32 m (current + command_argument_next)))"

definition process_count_command_arguments :: "mem \<Rightarrow> u32 \<Rightarrow> int option" where
  "process_count_command_arguments m root = count_arguments_loop m 0 root"

partial_function (option) inject_loop :: "u32 \<Rightarrow> u32 \<Rightarrow> nat \<Rightarrow> u32 \<Rightarrow> 'w os \<Rightarrow> (bool \<times> 'w os) option" where
  \<comment> \<open>\<open>process\<close>, \<open>argv\<close>, \<open>i\<close>, \<open>current\<close>; the result is \<open>False\<close> when an allocation failed\<close>
  "inject_loop process argv i current s =
     (if current = 0 then Some (True, s)
      else do {
        (argument_str, s) \<leftarrow> process_malloc process 512 s;
        if argument_str = 0 then Some (False, s)
        else do {
          let s = put_mem (strncpy_at (os_mem s) argument_str current 511) s;
          let s = put32 (slot argv i) argument_str s;
          inject_loop process argv (Suc i) (get32 s (current + command_argument_next)) s
        }
      })"

definition process_inject_arguments :: "u32 \<Rightarrow> u32 \<Rightarrow> 'w os \<Rightarrow> (int \<times> 'w os) option" where
  "process_inject_arguments process root s = do {
     argc \<leftarrow> process_count_command_arguments (os_mem s) root;
     if argc = 0 then Some (- EIO, s)
     else do {
       (argv, s) \<leftarrow> process_malloc process (word_of_int (4 * argc)) s;
       if argv = 0 then Some (- ENOMEM, s)
       else do {
         (ok, s) \<leftarrow> inject_loop process argv 0 root s;
         if \<not> ok then Some (- ENOMEM, s)
         else Some (0, put32 (process + process_argv) argv (put32 (process + process_argc) (word_of_int argc) s))
       }
     }
   }"

section \<open>Files of a process\<close>

definition os_fopen :: "u8 list \<Rightarrow> u8 list \<Rightarrow> 'w os \<Rightarrow> (int \<times> 'w os) option" where
  "os_fopen filename mode = on_vfs (\<lambda>v. fopen v filename mode)"

definition os_fclose :: "int \<Rightarrow> 'w os \<Rightarrow> (int \<times> 'w os) option" where
  "os_fclose fd = on_vfs (\<lambda>v. fclose v fd)"

definition process_fopen :: "u32 \<Rightarrow> u8 list \<Rightarrow> u8 list \<Rightarrow> 'w os \<Rightarrow> (u32 \<times> 'w os) option" where
  "process_fopen process filename mode s =
     (case scan (\<lambda>i. get32 s (slot (process + process_iob) i) = 0) 0 [0 ..< NFILE] of
        None \<Rightarrow> Some (0, s)
      | Some i \<Rightarrow> do {
          let fp = slot (process + process_iob) i;
          (fd, s) \<leftarrow> os_fopen filename mode s;
          if fd = 0 then Some (0, s) else Some (fp, put32 fp (word_of_int fd) s)
        })"

definition process_fclose :: "u32 \<Rightarrow> 'w os \<Rightarrow> (int \<times> 'w os) option" where
  "process_fclose fp s = do {
     (_, s) \<leftarrow> os_fclose (sint (get32 s fp)) s;
     Some (0, put32 fp 0 s)
   }"

section \<open>Termination\<close>

fun terminate_allocs_loop :: "u32 \<Rightarrow> nat \<Rightarrow> nat \<Rightarrow> 'w os \<Rightarrow> 'w os option" where
  "terminate_allocs_loop process 0 i s = Some s"
| "terminate_allocs_loop process (Suc n) i s = do {
     s \<leftarrow> os_kfree (get32 s (alloc_ptr process i)) s;
     terminate_allocs_loop process n (Suc i) s
   }"

definition process_terminate_allocs :: "u32 \<Rightarrow> 'w os \<Rightarrow> 'w os option" where
  "process_terminate_allocs process s = terminate_allocs_loop process SERPAEOS_MAX_PROGRAM_ALLOCATIONS 0 s"

definition process_free_program_data :: "u32 \<Rightarrow> 'w os \<Rightarrow> (int \<times> 'w os) option" where
  "process_free_program_data process s =
     (if get8 s (process + process_filetype) = PROCESS_FILETYPE_BINARY
      then do { s \<leftarrow> os_kfree (get32 s (process + process_ptr)) s; Some (0, s) }
      else if get8 s (process + process_filetype) = PROCESS_FILETYPE_ELF
      then do {
        k \<leftarrow> elf_close (get32 s (process + process_ptr)) (sc_k (os_s s));
        Some (0, s\<lparr>os_s := (os_s s)\<lparr>sc_k := k\<rparr>\<rparr>)
      }
      else Some (- EINVARG, s))"

definition process_switch_to_any :: "'w os \<Rightarrow> 'w os option" where
  "process_switch_to_any s =
     (case scan (\<lambda>p. p \<noteq> 0) 0 (take SERPAEOS_MAX_PROCESSES (processes s)) of
        None \<Rightarrow> None
      | Some i \<Rightarrow> Some (process_switch (processes s ! i) s))"

definition process_unlink :: "u32 \<Rightarrow> 'w os \<Rightarrow> 'w os option" where
  "process_unlink process s = do {
     ps \<leftarrow> wr (processes s) (unat (get32 s (process + process_id))) 0;
     s \<leftarrow> os_kfree process (s\<lparr>processes := ps\<rparr>);
     if current_process s = process then process_switch_to_any s else Some s
   }"

fun terminate_files_loop :: "u32 \<Rightarrow> nat \<Rightarrow> nat \<Rightarrow> 'w os \<Rightarrow> 'w os option" where
  "terminate_files_loop iob 0 i s = Some s"
| "terminate_files_loop iob (Suc n) i s = do {
     s \<leftarrow> (if get32 s (slot iob i) = 0 then do { (_, s) \<leftarrow> process_fclose (slot iob i) s; Some s } else Some s);
     terminate_files_loop iob n (Suc i) s
   }"

definition process_terminate_files :: "u32 \<Rightarrow> 'w os \<Rightarrow> 'w os option" where
  "process_terminate_files iob s = terminate_files_loop iob NFILE 0 s"

definition process_terminate :: "u32 \<Rightarrow> 'w os \<Rightarrow> (int \<times> 'w os) option" where
  "process_terminate process s =
     (if process = 0 then Some (- EINVARG, s)
      else if get32 s (process + process_id) = 0 then Some (- EINVARG, s)
      else do {
        s \<leftarrow> process_terminate_allocs process s;
        s \<leftarrow> process_terminate_files (process + process_iob) s;
        (res, s) \<leftarrow> process_free_program_data process s;
        if res < 0 then Some (res, s)
        else do {
          s \<leftarrow> os_kfree (get32 s (process + process_stack)) s;
          (_, s) \<leftarrow> on_sched (\<lambda>c. do { c \<leftarrow> task_free_all_for_process process c; Some ((), c) }) s;
          let s = (if get32 s (process + process_host) \<noteq> 0
                   then put8 (get32 s (process + process_host) + process_currently_hosting) 0 s else s);
          s \<leftarrow> os_kfree (get32 s (process + process_screen)) s;
          s \<leftarrow> process_unlink process s;
          Some (0, s)
        }
      })"

section \<open>Loading\<close>

definition load_binary_image :: "int \<Rightarrow> u32 \<Rightarrow> 'w os \<Rightarrow> (int \<times> 'w os) option" where
  \<comment> \<open>\<open>process_load_binary\<close> from the call of \<open>fstat\<close> to the label \<open>out\<close>\<close>
  "load_binary_image fd process s = do {
     ((res, st), s) \<leftarrow> on_vfs (\<lambda>v. do { (res, st, v) \<leftarrow> fstat v fd uninit_stat; Some ((res, st), v) }) s;
     if res \<noteq> SERPAEOS_ALL_OK then Some (res, s)
     else do {
       let filesize = st_filesize st;
       (program_data_ptr, s) \<leftarrow> os_kzalloc filesize s;
       if program_data_ptr = 0 then Some (- ENOMEM, s)
       else do {
         ((r, bs), s) \<leftarrow> on_vfs (\<lambda>v. do { (r, bs, v) \<leftarrow> fread v fd (sint filesize); Some ((r, bs), v) }) s;
         let s = put_mem (store_bytes (os_mem s) program_data_ptr bs) s;
         if r < 0 then do { s \<leftarrow> os_kfree program_data_ptr s; Some (- EIO, s) }
         else Some (res, put32 (process + process_size) filesize (put32 (process + process_ptr) program_data_ptr
                (put8 (process + process_filetype) PROCESS_FILETYPE_BINARY s)))
       }
     }
   }"

definition process_load_binary :: "u8 list \<Rightarrow> u32 \<Rightarrow> 'w os \<Rightarrow> (int \<times> 'w os) option" where
  "process_load_binary filename process s = do {
     (fd, s) \<leftarrow> os_fopen filename [114, 0] s;
     (res, s) \<leftarrow> (if fd = 0 then Some (- EIO, s) else load_binary_image fd process s);
     (_, s) \<leftarrow> os_fclose fd s;
     Some (res, s)
   }"

definition process_load_elf :: "u8 list \<Rightarrow> u32 \<Rightarrow> 'w os \<Rightarrow> (int \<times> 'w os) option" where
  "process_load_elf filename process s = do {
     ((res, elf_file), s) \<leftarrow> on_vfs (\<lambda>v. do { (res, file_out, v) \<leftarrow> elf_load filename v; Some ((res, file_out), v) }) s;
     if res < 0 then Some (res, s)
     else Some (res, put32 (process + process_ptr) elf_file (put8 (process + process_filetype) PROCESS_FILETYPE_ELF s))
   }"

definition process_load_data :: "u8 list \<Rightarrow> u32 \<Rightarrow> 'w os \<Rightarrow> (int \<times> 'w os) option" where
  "process_load_data filename process s = do {
     (res, s) \<leftarrow> process_load_elf filename process s;
     if res = - EINFORMAT then process_load_binary filename process s else Some (res, s)
   }"

definition process_map_binary :: "u32 \<Rightarrow> 'w os \<Rightarrow> int \<times> 'w os" where
  "process_map_binary process s =
     (0, snd (os_map_to process SERPAEOS_PROGRAM_VIRTUAL_ADDRESS (get32 s (process + process_ptr))
        (paging_align_address (get32 s (process + process_ptr) + get32 s (process + process_size))) 7 s))"

definition segment_flags :: "mem \<Rightarrow> u32 \<Rightarrow> u32" where
  "segment_flags m phdr = (if p_flags m phdr AND PF_W \<noteq> 0 then 5 OR PAGING_IS_WRITEABLE else 5)"

function map_elf_loop :: "u32 \<Rightarrow> u32 \<Rightarrow> u32 \<Rightarrow> u32 \<Rightarrow> nat \<Rightarrow> int \<Rightarrow> 'w os \<Rightarrow> int \<times> 'w os" where
  \<comment> \<open>\<open>process\<close>, \<open>elf_file\<close>, \<open>header\<close>, \<open>phdrs\<close>, \<open>i\<close> and \<open>res\<close>\<close>
  "map_elf_loop process elf_file header phdrs i res s =
     (if unat (e_phnum (os_mem s) header) \<le> i then (res, s)
      else let phdr = phdrs + of_nat (32 * i);
               phdr_phys_address = elf_phdr_phys_address (os_mem s) elf_file phdr
           in case os_map_to process (paging_align_to_lower_page (p_vaddr (os_mem s) phdr))
                  (paging_align_to_lower_page phdr_phys_address)
                  (paging_align_address (phdr_phys_address + p_memsz (os_mem s) phdr)) (segment_flags (os_mem s) phdr) s of (res, s) \<Rightarrow>
                if res < 0 then (res, s) else map_elf_loop process elf_file header phdrs (Suc i) res s)"
  by pat_completeness auto

termination
proof (relation "measure (\<lambda>(process, elf_file, header, phdrs, i, res, s). 65536 - i)", goal_cases)
  case (2 process elf_file header phdrs i res s)
  have "unat (e_phnum (os_mem s) header) < 65536" using unsigned_less [of "e_phnum (os_mem s) header"] by simp
  with 2 show ?case by simp
qed simp

definition process_map_elf :: "u32 \<Rightarrow> 'w os \<Rightarrow> int \<times> 'w os" where
  "process_map_elf process s =
     (let elf_file = get32 s (process + process_ptr);
          header = elf_header (os_mem s) elf_file
      in map_elf_loop process elf_file header (elf_pheader (os_mem s) header) 0 0 s)"

definition process_map_memory :: "u32 \<Rightarrow> 'w os \<Rightarrow> (int \<times> 'w os) option" where
  "process_map_memory process s = do {
     (res, s) \<leftarrow> (if get8 s (process + process_filetype) = PROCESS_FILETYPE_ELF then Some (process_map_elf process s)
                else if get8 s (process + process_filetype) = PROCESS_FILETYPE_BINARY then Some (process_map_binary process s)
                else None);
     if res < 0 then Some (res, s)
     else Some (res, snd (os_map_to process SERPAEOS_PROGRAM_VIRTUAL_STACK_ADDRESS_END (get32 s (process + process_stack))
            (paging_align_address (get32 s (process + process_stack) + SERPAEOS_USER_PROGRAM_STACK_SIZE)) 7 s))
   }"

definition process_get_free_slot :: "'w os \<Rightarrow> int" where
  "process_get_free_slot s =
     (case scan (\<lambda>p. p = 0) 0 (take SERPAEOS_MAX_PROCESSES (processes s)) of None \<Rightarrow> - EISTKN | Some i \<Rightarrow> int i)"

definition process_get_child_slot :: "'w os \<Rightarrow> int" where
  "process_get_child_slot s =
     (case scan (\<lambda>p. p = 0) 13 (drop 13 (take SERPAEOS_TOTAL_MAX_PROCESSES (processes s))) of None \<Rightarrow> - EISTKN | Some i \<Rightarrow> int i)"

definition load_failed :: "int \<Rightarrow> u32 \<Rightarrow> 'w os \<Rightarrow> (int \<times> 'w os) option" where
  \<comment> \<open>the label \<open>out\<close> of \<open>process_load_for_slot\<close>\<close>
  "load_failed res process' s =
     (if 0 \<le> res then Some (res, s)
      else do {
        s \<leftarrow> (if process' \<noteq> 0 \<and> get32 s (process' + process_task) \<noteq> 0
             then do { (_, s) \<leftarrow> on_sched (task_free (get32 s (process' + process_task))) s; Some s } else Some s);
        (_, s) \<leftarrow> process_free_program_data process' s;
        Some (res, s)
      })"

definition set_screen :: "u32 \<Rightarrow> u32 \<Rightarrow> 'w os \<Rightarrow> 'w os option" where
  "set_screen process' hosting s = do {
     let s = put32 (process' + process_host) hosting (put8 (process' + process_currently_hosting) 0 s);
     if hosting \<noteq> 0
     then Some (put8 (hosting + process_currently_hosting) 1
            (put32 (process' + process_screen) (get32 s (hosting + process_screen)) s))
     else do { (p, s) \<leftarrow> os_kzalloc sizeof_screen s; Some (put32 (process' + process_screen) p s) }
   }"

definition load_loaded :: "u8 list \<Rightarrow> u32 \<Rightarrow> int \<Rightarrow> u32 \<Rightarrow> u32 \<Rightarrow> u32 \<Rightarrow> 'w os \<Rightarrow> (int \<times> u32 \<times> 'w os) option" where
  \<comment> \<open>\<open>process_load_for_slot\<close> once the program and the stack are in memory\<close>
  "load_loaded filename process process_slot hosting process' program_stack_ptr s = do {
     name \<leftarrow> strncpy (load_bytes (os_mem s) (process' + process_filename) SERPAEOS_MAX_PATH) filename (int SERPAEOS_MAX_PATH);
     let s = put_mem (store_bytes (os_mem s) (process' + process_filename) name) s;
     let s = put32 (process' + process_id) (word_of_int process_slot) (put32 (process' + process_stack) program_stack_ptr s);
     (task, s) \<leftarrow> on_sched (task_new process') s;
     if task = 0 then Some (0, process, s)
     else do {
       (res, s) \<leftarrow> process_map_memory process' (put32 (process' + process_task) task s);
       if res < 0 then do { (res, s) \<leftarrow> load_failed res process' s; Some (res, process, s) }
       else do {
         s \<leftarrow> set_screen process' hosting s;
         ps \<leftarrow> wr (processes s) (nat process_slot) process';
         Some (res, process', s\<lparr>processes := ps\<rparr>)
       }
     }
   }"

definition process_load_for_slot :: "u8 list \<Rightarrow> u32 \<Rightarrow> int \<Rightarrow> u32 \<Rightarrow> u32 \<Rightarrow> 'w os \<Rightarrow> (int \<times> u32 \<times> 'w os) option" where
  \<comment> \<open>\<open>process\<close> is what the out-pointer points to and \<open>garbage\<close> the initial value of the local \<open>_process\<close> (here \<open>process'\<close>)\<close>
  "process_load_for_slot filename process process_slot hosting garbage s = do {
     taken \<leftarrow> process_get s process_slot;
     if taken \<noteq> 0 then do { (res, s) \<leftarrow> load_failed (- EISTKN) garbage s; Some (res, process, s) }
     else do {
       (process', s) \<leftarrow> os_kzalloc sizeof_process s;
       if process' = 0 then do { (res, s) \<leftarrow> load_failed (- ENOMEM) 0 s; Some (res, process, s) }
       else do {
         let s = put_mem (memset_at (os_mem s) process' 0 (unat sizeof_process)) s;
         (res, s) \<leftarrow> process_load_data filename process' s;
         if res < 0 then do { (res, s) \<leftarrow> load_failed res process' s; Some (res, process, s) }
         else do {
           (program_stack_ptr, s) \<leftarrow> os_kzalloc SERPAEOS_USER_PROGRAM_STACK_SIZE s;
           if program_stack_ptr = 0 then do { (res, s) \<leftarrow> load_failed (- ENOMEM) process' s; Some (res, process, s) }
           else load_loaded filename process process_slot hosting process' program_stack_ptr s
         }
       }
     }
   }"

definition process_load :: "u8 list \<Rightarrow> u32 \<Rightarrow> u32 \<Rightarrow> u32 \<Rightarrow> 'w os \<Rightarrow> (int \<times> u32 \<times> 'w os) option" where
  "process_load filename process hosting garbage s =
     (let process_slot = process_get_free_slot s
      in if process_slot < 0 then Some (- EISTKN, process, s)
         else process_load_for_slot filename process process_slot hosting garbage s)"

definition process_load_switch :: "u8 list \<Rightarrow> u32 \<Rightarrow> u32 \<Rightarrow> u32 \<Rightarrow> 'w os \<Rightarrow> (int \<times> u32 \<times> 'w os) option" where
  "process_load_switch filename process hosting garbage s = do {
     (res, process, s) \<leftarrow> process_load filename process hosting garbage s;
     if res = 0
     then let s = process_switch process s
          in Some (res, process, if get32 s (process + process_host) = 0 then on_term terminal_initialize s else s)
     else Some (res, process, s)
   }"

section \<open>The screen of a process\<close>

fun copy_screen_rows :: "mem \<Rightarrow> u32 \<Rightarrow> nat \<Rightarrow> nat \<Rightarrow> mem" where
  \<comment> \<open>the first loop of \<open>process_scroll_down\<close>: iterations left and \<open>i\<close>\<close>
  "copy_screen_rows m screen 0 i = m"
| "copy_screen_rows m screen (Suc n) i =
     copy_screen_rows (memcpy_at m (screen + screen_video + of_nat (2 * ((i - 1) * 80))) (screen + screen_video + of_nat (2 * (i * 80)))
       (VGA_WIDTH * 2)) screen n (Suc i)"

fun blank_screen_row :: "u32 \<Rightarrow> nat \<Rightarrow> nat \<Rightarrow> 'w os \<Rightarrow> 'w os" where
  "blank_screen_row screen 0 i s = s"
| "blank_screen_row screen (Suc n) i s =
     blank_screen_row screen n (Suc i)
       (put_mem (store16 (os_mem s) (screen + screen_video + of_nat (2 * (24 * VGA_WIDTH + i))) (terminal_make_char 32 (attr_now s))) s)"

definition process_scroll_down :: "u32 \<Rightarrow> 'w os \<Rightarrow> 'w os" where
  "process_scroll_down screen s =
     blank_screen_row screen VGA_WIDTH 0 (put_mem (copy_screen_rows (os_mem s) screen (VGA_HEIGHT - 1) 1) s)"

definition screen_line_feed :: "u32 \<Rightarrow> 'w os \<Rightarrow> 'w os" where
  "screen_line_feed screen s =
     (if get32 s (screen + screen_y) = 24 then process_scroll_down screen s
      else put32 (screen + screen_y) (get32 s (screen + screen_y) + 1) s)"

definition screen_put :: "u8 \<Rightarrow> u8 \<Rightarrow> u32 \<Rightarrow> 'w os \<Rightarrow> 'w os" where
  \<comment> \<open>the end of \<open>process_writechar\<close>\<close>
  "screen_put c colour screen s =
     (let s = (if get32 s (screen + screen_x) = 79 \<and> get32 s (screen + screen_y) = 24 then process_scroll_down screen s else s);
          cell = get32 s (screen + screen_y) * of_nat VGA_WIDTH + get32 s (screen + screen_x);
          s = put_mem (store16 (os_mem s) (screen + screen_video + 2 * cell) (terminal_make_char c colour)) s;
          s = put32 (screen + screen_x) (get32 s (screen + screen_x) + 1) s
      in if int VGA_WIDTH \<le> sint (get32 s (screen + screen_x))
         then let s = put32 (screen + screen_x) 0 s
              in put32 (screen + screen_y) (get32 s (screen + screen_y) + 1) s
         else s)"

definition process_backspace :: "u32 \<Rightarrow> 'w os \<Rightarrow> 'w os" where
  \<comment> \<open>the call \<open>process_writechar(' ', ...)\<close> reaches the end of that function directly\<close>
  "process_backspace screen s =
     (if get32 s (screen + screen_x) = 0 \<and> get32 s (screen + screen_y) = 0 then s
      else let s = (if get32 s (screen + screen_x) = 0
                    then let s = put32 (screen + screen_y) (get32 s (screen + screen_y) - 1) s
                         in put32 (screen + screen_x) (of_nat VGA_WIDTH) s
                    else put32 (screen + screen_x) (get32 s (screen + screen_x) - 1) s);
               s = screen_put 32 (attr_now s) screen s
           in put32 (screen + screen_x) (get32 s (screen + screen_x) - 1) s)"

definition process_writechar :: "u8 \<Rightarrow> u8 \<Rightarrow> u32 \<Rightarrow> 'w os \<Rightarrow> 'w os" where
  "process_writechar c colour screen s =
     (if c = 10 \<or> c = 13 then put32 (screen + screen_x) 0 (screen_line_feed screen s)
      else if c = 12 then screen_line_feed screen s
      else if c = 8 then process_backspace screen s
      else screen_put c colour screen s)"

fun print_screen_chars :: "u8 list \<Rightarrow> u32 \<Rightarrow> 'w os \<Rightarrow> 'w os" where
  \<comment> \<open>the loop of \<open>process_print\<close>; \<open>process->screen\<close> is read again for every character\<close>
  "print_screen_chars [] process s = s"
| "print_screen_chars (c # cs) process s =
     print_screen_chars cs process (process_writechar c (attr_now s) (get32 s (process + process_screen)) s)"

definition process_print :: "u8 list \<Rightarrow> u32 \<Rightarrow> 'w os \<Rightarrow> 'w os option" where
  "process_print message process s =
     (if get8 s (get32 s (process + process_screen) + screen_current_screen) \<noteq> 0 then os_print message s
      else do { len \<leftarrow> strlen message; Some (print_screen_chars (take (nat len) message) process s) })"

section \<open>The directory of processes\<close>

definition cstr :: "string \<Rightarrow> u8 list" where
  \<comment> \<open>a string literal with its terminator\<close>
  "cstr str = map (\<lambda>c. of_nat (of_char c)) str @ [0]"

definition directory_numbers :: "string list" where
  "directory_numbers = [''Home'', ''1'', ''2'', ''3'', ''4'', ''5'', ''6'', ''7'', ''8'', ''9'', ''10'', ''11'', ''12'']"

definition directory_months :: "string list" where
  "directory_months = [''INVALID '', ''January '', ''Febuary '', ''March '', ''April '', ''May '', ''June '', ''July '', ''August '',
     ''September '', ''October '', ''November '', ''December '']"

definition directory_title :: string where
  "directory_title = ''SerpaeOS v23.4.1         symbols: '' @ [CHR 0x22] @ ''+'' @ [CHR 0x22] @ '' = sleeping process, '' @ [CHR 0x22] @
     ''*'' @ [CHR 0x22] @ '' = current process''"

definition os_print_number :: "int \<Rightarrow> 'w os \<Rightarrow> 'w os option" where
  \<comment> \<open>\<open>print(itoa(i))\<close>\<close>
  "os_print_number i s = do {
     (loc, txt) \<leftarrow> itoa (os_text s) i;
     os_print (drop loc txt) (s\<lparr>os_text := txt\<rparr>)
   }"

fun directory_loop :: "nat \<Rightarrow> nat \<Rightarrow> 'w os \<Rightarrow> 'w os option" where
  "directory_loop 0 i s = Some s"
| "directory_loop (Suc n) i s = do {
     p \<leftarrow> rd (processes s) i;
     s \<leftarrow> (if p = 0 then Some s
          else do {
            let s = on_term (terminal_writechar 10 15) s;
            number \<leftarrow> rd directory_numbers i;
            s \<leftarrow> os_print (cstr number) s;
            let s = on_term (terminal_writechar 58 (attr_now s)) s;
            s \<leftarrow> os_print (if current_process s = p then cstr '' *''
                          else if get8 s (p + process_currently_hosting) \<noteq> 0 then cstr '' +'' else cstr ''  '') s;
            os_print (load_bytes (os_mem s) (p + process_filename) SERPAEOS_MAX_PATH) s
          });
     directory_loop n (Suc i) s
   }"

definition show_directory :: "'w os \<Rightarrow> 'w os option" where
  "show_directory s = do {
     let s = s\<lparr>directory_screen_video := load_bytes (os_mem s) 0xb8000 4000,
               directory_screen_x := ucast (fst (get_cursor (os_term s))),
               directory_screen_y := ucast (snd (get_cursor (os_term s))),
               directory_screen_is_current := True\<rparr>;
     let s = on_term (set_cursor 0 0) s;
     let s = on_term (clrscr 15) s;
     s \<leftarrow> os_print (cstr directory_title) s;
     s \<leftarrow> directory_loop SERPAEOS_MAX_PROCESSES 0 s;
     let s = on_term (set_cursor 60 24) s;
     month \<leftarrow> rd directory_months (unat (dt_month (os_now s)));
     s \<leftarrow> os_print (cstr month) s;
     s \<leftarrow> os_print_number (uint (dt_day (os_now s))) s;
     s \<leftarrow> os_print (cstr '', '') s;
     os_print_number (sint (dt_year (os_now s))) s
   }"

section \<open>Processes in memory\<close>

definition process_pages :: "u32 \<Rightarrow> u32 set" where
  "process_pages p = {p, p + 4096, p + 8192}"

lemma page_base_add: "page_base p = p \<Longrightarrow> page_base q = q \<Longrightarrow> page_base (p + q) = p + q"
  using aligned_dvd aligned_page_base by (metis dvd_add)

lemma page_base_consts: "page_base 4096 = 4096" "page_base 8192 = 8192"
  by (simp_all add: page_base_def)

lemma process_page:
  assumes "page_base p = p" and "k < 12288"
  shows "page_base (p + of_nat k) \<in> process_pages p"
proof -
  have a: "page_base (p + 4096) = p + 4096" "page_base (p + 8192) = p + 8192"
    using page_base_add [OF assms(1)] page_base_consts by auto
  consider "k < 4096" | r where "k = 4096 + r" "r < 4096" | r where "k = 8192 + r" "r < 4096"
  proof -
    have "k < 4096 \<or> (k = 4096 + (k - 4096) \<and> k - 4096 < 4096) \<or> (k = 8192 + (k - 8192) \<and> k - 8192 < 4096)"
      using assms(2) by arith
    then show ?thesis using that by blast
  qed
  then show ?thesis
  proof cases
    case 1
    then show ?thesis using page_base_offset [OF assms(1)] by (simp add: process_pages_def)
  next
    case 2
    have e: "p + of_nat k = p + 4096 + of_nat r" by (simp add: 2(1) add.assoc)
    show ?thesis unfolding e using page_base_offset [OF a(1) 2(2)] by (simp add: process_pages_def)
  next
    case 3
    have e: "p + of_nat k = p + 8192 + of_nat r" by (simp add: 3(1) add.assoc)
    show ?thesis unfolding e using page_base_offset [OF a(2) 3(2)] by (simp add: process_pages_def)
  qed
qed

lemma process_load:
  assumes "page_base p = p" and "k + 4 \<le> 12288" and "\<And>a. page_base a \<in> process_pages p \<Longrightarrow> m' a = m a"
  shows "load32 m' (p + of_nat k) = load32 m (p + of_nat k)"
proof -
  have "m' (p + of_nat (k + c)) = m (p + of_nat (k + c))" if "c < 4" for c
    using process_page [OF assms(1), of "k + c"] assms(2,3) that by simp
  from this [of 0] this [of 1] this [of 2] this [of 3] show ?thesis by (intro load32_cong) (simp_all add: ac_simps)
qed

lemma process_store:
  assumes "page_base p = p" and "k + 4 \<le> 12288" and "page_base a \<notin> process_pages p"
  shows "store32 m (p + of_nat k) v a = m a"
proof -
  have "a \<noteq> p + of_nat (k + c)" if "c < 4" for c
    using process_page [OF assms(1), of "k + c"] assms(2,3) that by auto
  from this [of 0] this [of 1] this [of 2] this [of 3] show ?thesis by (simp add: store32_def ac_simps)
qed

text \<open>The allocation table of a process as a list of pairs of address and size.\<close>

definition allocs :: "'w os \<Rightarrow> u32 \<Rightarrow> (u32 \<times> u32) list" where
  "allocs s p = map (\<lambda>i. (get32 s (alloc_ptr p i), get32 s (alloc_size p i))) [0 ..< SERPAEOS_MAX_PROGRAM_ALLOCATIONS]"

lemma length_allocs [simp]: "length (allocs s p) = 1024"
  by (simp add: allocs_def process_consts)

lemma nth_allocs: "i < 1024 \<Longrightarrow> allocs s p ! i = (get32 s (alloc_ptr p i), get32 s (alloc_size p i))"
  by (simp add: allocs_def process_consts)

lemma alloc_addr: "alloc_ptr p i = p + of_nat (128 + 8 * i)" "alloc_size p i = p + of_nat (132 + 8 * i)"
  by (simp_all add: alloc_ptr_def alloc_size_def layout add.assoc)

lemma load_store_offset:
  assumes "unat p mod 4 = 0" and "i mod 4 = 0" and "j mod 4 = 0" and "i < 2 ^ 32" and "j < 2 ^ 32"
  shows "load32 (store32 m (p + of_nat i) v) (p + of_nat j) = (if i = j then v else load32 m (p + of_nat j))"
proof -
  have u: "unat (of_nat i :: u32) = i" "unat (of_nat j :: u32) = j"
    using assms(4,5) by (simp_all add: unat_of_nat take_bit_nat_eq_self)
  then have "(of_nat i :: u32) = of_nat j \<longleftrightarrow> i = j" by metis
  then show ?thesis using load_store_field [OF assms(1), of "of_nat i" "of_nat j"] assms(2,3) u by simp
qed

lemma page_mod4: "page_base p = p \<Longrightarrow> unat p mod 4 = 0"
  using mod_mod_cancel [of 4 4096 "unat p"] by (simp add: page_aligned_iff)

lemma os_mem_put [simp]: "os_mem (put_mem m s) = m" "os_mem (put32 a v s) = store32 (os_mem s) a v"
  "sc_k (os_s (put_mem m s)) = (sc_k (os_s s))\<lparr>km_mem := m\<rparr>"
  "processes (put_mem m s) = processes s" "current_process (put_mem m s) = current_process s"
  "processes (put32 a v s) = processes s" "current_process (put32 a v s) = current_process s"
  by (simp_all add: put_mem_def put32_def)

lemma allocs_store:
  assumes "page_base p = p" and "i < 1024"
  shows "allocs (put32 (alloc_size p i) z (put32 (alloc_ptr p i) q s)) p = (allocs s p)[i := (q, z)]"
proof (rule nth_equalityI)
  fix j assume "j < length (allocs (put32 (alloc_size p i) z (put32 (alloc_ptr p i) q s)) p)"
  then have j: "j < 1024" by simp
  note l = load_store_offset [OF page_mod4 [OF assms(1)]]
  show "allocs (put32 (alloc_size p i) z (put32 (alloc_ptr p i) q s)) p ! j = (allocs s p)[i := (q, z)] ! j"
    using assms(2) j by (simp add: nth_allocs nth_list_update get32_def alloc_addr l mod_simps del: of_nat_add of_nat_mult)
qed simp

lemma allocs_cong:
  assumes "page_base p = p" and "\<And>a. page_base a \<in> process_pages p \<Longrightarrow> os_mem s' a = os_mem s a"
  shows "allocs s' p = allocs s p"
proof (rule nth_equalityI)
  fix j assume "j < length (allocs s' p)"
  then have j: "j < 1024" by simp
  show "allocs s' p ! j = allocs s p ! j"
    using process_load [OF assms(1) _ assms(2), of "128 + 8 * j"] process_load [OF assms(1) _ assms(2), of "132 + 8 * j"] j
    by (simp only: nth_allocs get32_def alloc_addr)
qed simp

lemma scan_allocs:
  "scan (\<lambda>i. P (get32 s (alloc_ptr p i))) 0 [0 ..< SERPAEOS_MAX_PROGRAM_ALLOCATIONS] = Some i \<longleftrightarrow>
     i < 1024 \<and> P (fst (allocs s p ! i)) \<and> (\<forall>j < i. \<not> P (fst (allocs s p ! j)))"
  by (auto simp: scan0_Some process_consts nth_allocs)

definition process_at :: "'w os \<Rightarrow> u32 \<Rightarrow> u32 \<Rightarrow> u32 \<Rightarrow> u32 list \<Rightarrow> bool" where
  \<comment> \<open>\<open>p\<close> is a process whose main task \<open>t\<close> has the address space \<open>chunk\<close> with the tables \<open>ts\<close>; all of it lies in blocks of
      the heap that are in use, each in its own\<close>
  "process_at s p t chunk ts \<longleftrightarrow>
     page_base p = p \<and> page_base t = t \<and> get32 s (p + process_task) = t \<and> fld (os_mem s) t task_page_directory = chunk \<and>
     space (os_mem s) chunk ts \<and>
     process_pages p \<union> {t} \<union> set (chunk # load32 (os_mem s) chunk # ts) \<subseteq> kused (sc_k (os_s s)) \<and>
     process_pages p \<inter> insert t (set (chunk # load32 (os_mem s) chunk # ts)) = {} \<and>
     t \<notin> set (chunk # load32 (os_mem s) chunk # ts)"

lemma process_at_chunk: "process_at s p t chunk ts \<Longrightarrow> process_chunk s p = chunk"
  by (simp add: process_at_def process_chunk_def)

lemma load32_page_cong:
  assumes "page_base c = c" and "\<And>a. page_base a = c \<Longrightarrow> m' a = m a"
  shows "load32 m' c = load32 m c"
  using fld_cong [OF assms(1) _ assms(2), of 0] by (simp add: fld_def)

lemma process_at_frame:
  assumes "process_at s p t chunk ts" and "get32 s' (p + process_task) = t"
    and "\<And>a. page_base a = t \<or> page_base a = chunk \<Longrightarrow> os_mem s' a = os_mem s a"
    and "space (os_mem s') chunk ts" and "kused (sc_k (os_s s)) \<subseteq> kused (sc_k (os_s s'))"
  shows "process_at s' p t chunk ts"
proof -
  have c: "page_base chunk = chunk" "page_base t = t" using assms(1) by (simp_all add: process_at_def space_def)
  have "load32 (os_mem s') chunk = load32 (os_mem s) chunk" using load32_page_cong [OF c(1)] assms(3) by blast
  moreover have "fld (os_mem s') t task_page_directory = fld (os_mem s) t task_page_directory"
    using fld_cong [OF c(2), of task_page_directory "os_mem s'" "os_mem s"] assms(3) by (simp add: layout)
  moreover have "process_pages p \<union> {t} \<union> set (chunk # load32 (os_mem s) chunk # ts) \<subseteq> kused (sc_k (os_s s'))"
    using assms(1,5) unfolding process_at_def by (meson subset_trans)
  ultimately show ?thesis using assms(1,2,4) unfolding process_at_def by simp
qed

lemma process_at_shrink:
  assumes "process_at s p t chunk ts" and "os_mem s' = os_mem s" and "kused (sc_k (os_s s')) = kused (sc_k (os_s s)) - {q}"
    and "q \<notin> process_pages p \<union> {t} \<union> set (chunk # load32 (os_mem s) chunk # ts)"
  shows "process_at s' p t chunk ts"
proof -
  let ?b = "process_pages p \<union> {t} \<union> set (chunk # load32 (os_mem s) chunk # ts)"
  have "?b \<subseteq> kused (sc_k (os_s s))" using assms(1) unfolding process_at_def by (elim conjE)
  with assms(4) have "?b \<subseteq> kused (sc_k (os_s s'))" unfolding assms(3) subset_Diff_insert by simp
  then show ?thesis using assms(1) unfolding process_at_def get32_def assms(2) by (elim conjE) (intro conjI)
qed

lemma process_at_same:
  assumes "process_at s p t chunk ts" and "\<And>a. page_base a \<in> kused (sc_k (os_s s)) \<Longrightarrow> os_mem s' a = os_mem s a"
    and "kused (sc_k (os_s s)) \<subseteq> kused (sc_k (os_s s'))"
  shows "process_at s' p t chunk ts" "allocs s' p = allocs s p"
    "paging_is_aligned v \<Longrightarrow> translate (os_mem s') chunk v = translate (os_mem s) chunk v"
proof -
  let ?m = "os_mem s"
  have u: "page_base p = p" "process_pages p \<subseteq> kused (sc_k (os_s s))" "set (chunk # load32 ?m chunk # ts) \<subseteq> kused (sc_k (os_s s))"
    "t \<in> kused (sc_k (os_s s))" "space ?m chunk ts" "get32 s (p + process_task) = t"
    using assms(1) by (auto simp: process_at_def)
  note sp = space_cong [OF u(5), of "os_mem s'"]
  have "space (os_mem s') chunk ts" using sp(2) assms(2) u(3) by blast
  moreover have "get32 s' (p + process_task) = t"
    using process_load [OF u(1), of 124 "os_mem s'" ?m] assms(2) u(2,6) by (auto simp: get32_def layout)
  ultimately show "process_at s' p t chunk ts" using assms u(3,4) by (intro process_at_frame [OF assms(1)]) auto
  show "allocs s' p = allocs s p" using allocs_cong [OF u(1)] assms(2) u(2) by blast
  show "translate (os_mem s') chunk v = translate ?m chunk v" if "paging_is_aligned v" using sp(3) [OF _ that] assms(2) u(3) by blast
qed

lemma kused_low: "kinv k \<Longrightarrow> q \<in> kused k \<Longrightarrow> unat q + 4096 < 2 ^ 31"
  using unat_heap_block_to_address by (fastforce simp: kused_def kinv_def block_addr_def heap_inv_def)

lemma align_page_end:
  assumes "page_base q = q" and "0 < unat sz" and "unat sz \<le> 4096"
  shows "paging_align_address (q + sz) = q + 4096"
proof -
  have d: "q mod 4096 = 0" using assms(1) aligned_page_base by (simp add: paging_is_aligned_def paging_consts)
  show ?thesis
  proof (cases "sz = 4096")
    case True
    have "page_base (q + 4096) = q + 4096" using page_base_add [OF assms(1)] page_base_consts by simp
    then have "(q + 4096) mod 4096 = 0" using aligned_page_base [of "q + 4096"] by (simp add: paging_is_aligned_def paging_consts)
    then show ?thesis by (simp add: paging_align_address_def paging_consts True)
  next
    case False
    then have l: "unat sz < 4096" using assms(3) word_unat_eq_iff [of sz 4096] by simp
    have "unat (q + sz) = unat q + unat sz" using unat_page_offset [OF assms(1) l] by simp
    moreover have "unat q mod 4096 = 0" using assms(1) page_aligned_iff by simp
    ultimately have "unat ((q + sz) mod 4096) = unat sz" using l by (simp add: unat_mod mod_add_eq [symmetric])
    then have "(q + sz) mod 4096 = sz" by (simp add: word_unat_eq_iff)
    moreover have "sz \<noteq> 0" using assms(2) by auto
    ultimately show ?thesis by (simp add: paging_align_address_def paging_consts)
  qed
qed

lemma os_map_page:
  assumes "process_at s p t chunk ts" and "page_base q = q" and "unat q + 4096 < 2 ^ 31" and "0 < unat sz" and "unat sz \<le> 4096"
  obtains s' where "os_map_to p q q (paging_align_address (q + sz)) flags s = (0, s')" "process_at s' p t chunk ts"
    "allocs s' p = allocs s p" "km_heap (sc_k (os_s s')) = km_heap (sc_k (os_s s))"
    "\<forall>a. page_base a \<notin> set ts \<longrightarrow> os_mem s' a = os_mem s a"
    "\<forall>v. paging_is_aligned v \<longrightarrow> translate (os_mem s') chunk v = (if v = q then q OR flags else translate (os_mem s) chunk v)"
proof -
  have at: "page_base p = p" "space (os_mem s) chunk ts" "process_pages p \<inter> set ts = {}" "t \<notin> set ts" "chunk \<notin> set ts"
    "get32 s (p + process_task) = t"
    using assms(1) by (auto simp: process_at_def space_def)
  obtain res m' where r: "paging_map_to (os_mem s) chunk q q (q + 4096) flags = (res, m')" by fastforce
  have al: "paging_is_aligned q" "paging_is_aligned (q + 4096)"
    using page_base_add [OF assms(2) page_base_consts(1)] assms(2) by (simp_all add: aligned_page_base)
  have "unat (q + 4096) = unat q + 4096" using assms(3) by (simp add: unat_word_ariths)
  then have le: "q \<le> q + 4096" by (simp add: word_le_nat_alt)
  note e = paging_map_to_effect [OF at(2) al(1) al(1) al(2) le r]
  let ?s = "put_mem m' s"
  have frame: "page_base a \<notin> set ts \<Longrightarrow> m' a = os_mem s a" for a using e by blast
  have run: "os_map_to p q q (paging_align_address (q + sz)) flags s = (0, ?s)"
    using e r by (simp add: os_map_to_def process_at_chunk [OF assms(1)] align_page_end [OF assms(2,4,5)])
  have pp: "page_base a \<in> process_pages p \<Longrightarrow> os_mem ?s a = os_mem s a" for a using frame at(3) by auto
  have f: "get32 ?s (p + process_task) = t" using process_load [OF at(1) _ pp, of 124] at(6) by (simp add: get32_def layout)
  have u: "kused (sc_k (os_s ?s)) = kused (sc_k (os_s s))" by (rule heap_view(2)) simp
  have "process_at ?s p t chunk ts"
  proof (rule process_at_frame [OF assms(1) f])
    show "os_mem ?s a = os_mem s a" if "page_base a = t \<or> page_base a = chunk" for a using frame [of a] that at(4,5) by auto
    show "space (os_mem ?s) chunk ts" using e by simp
  qed (simp only: u)
  moreover have "unat (v - q) < unat (q + 4096 - q) \<longleftrightarrow> v = q" if "paging_is_aligned v" for v
    using in_page_iff [OF assms(2), of v] that by (simp add: aligned_page_base)
  then have "\<forall>v. paging_is_aligned v \<longrightarrow> translate (os_mem ?s) chunk v = (if v = q then q OR flags else translate (os_mem s) chunk v)"
    using e by simp
  ultimately show ?thesis using that [OF run] allocs_cong [OF at(1) pp] frame by auto
qed

lemma put_alloc:
  fixes s :: "'w os" and q z :: u32
  assumes "process_at s p t chunk ts" and "i < 1024"
  defines "s' \<equiv> put32 (alloc_size p i) z (put32 (alloc_ptr p i) q s)"
  shows "process_at s' p t chunk ts" "allocs s' p = (allocs s p)[i := (q, z)]"
    "paging_is_aligned v \<Longrightarrow> translate (os_mem s') chunk v = translate (os_mem s) chunk v"
    "\<forall>a. page_base a \<notin> process_pages p \<longrightarrow> os_mem s' a = os_mem s a"
    "km_heap (sc_k (os_s s')) = km_heap (sc_k (os_s s))"
proof -
  have at: "page_base p = p" "space (os_mem s) chunk ts" "t \<notin> process_pages p" "get32 s (p + process_task) = t"
    and d: "process_pages p \<inter> set (chunk # load32 (os_mem s) chunk # ts) = {}" using assms(1) by (auto simp: process_at_def)
  show fr: "\<forall>a. page_base a \<notin> process_pages p \<longrightarrow> os_mem s' a = os_mem s a"
    unfolding s'_def os_mem_put alloc_addr
    using process_store [OF at(1), of "132 + 8 * i"] process_store [OF at(1), of "128 + 8 * i"] assms(2) by simp
  have sp: "page_base a \<in> set (chunk # load32 (os_mem s) chunk # ts) \<Longrightarrow> os_mem s' a = os_mem s a" for a using fr d by blast
  have c: "space (os_mem s') chunk ts" by (rule space_cong(2) [OF at(2) sp])
  show k: "km_heap (sc_k (os_s s')) = km_heap (sc_k (os_s s))" by (simp add: s'_def put32_def)
  have f: "get32 s' (p + process_task) = t" using at(4) assms(2)
      load_store_offset [OF page_mod4 [OF at(1)], of "132 + 8 * i" 124] load_store_offset [OF page_mod4 [OF at(1)], of "128 + 8 * i" 124]
    by (simp add: get32_def s'_def alloc_addr layout mod_simps del: of_nat_add of_nat_mult)
  have u: "kused (sc_k (os_s s')) = kused (sc_k (os_s s))" by (rule heap_view(2) [OF k])
  show "process_at s' p t chunk ts"
  proof (rule process_at_frame [OF assms(1) f])
    show "os_mem s' a = os_mem s a" if "page_base a = t \<or> page_base a = chunk" for a using fr sp [of a] that at(3) by auto
  qed (simp_all only: u c)
  show "allocs s' p = (allocs s p)[i := (q, z)]" unfolding s'_def by (rule allocs_store [OF at(1) assms(2)])
  show "translate (os_mem s') chunk v = translate (os_mem s) chunk v" if "paging_is_aligned v"
    by (rule space_cong(3) [OF at(2) sp that])
qed

section \<open>Allocation\<close>

definition os_ready :: "'w os \<Rightarrow> bool" where
  "os_ready s \<longleftrightarrow> kinv (sc_k (os_s s)) \<and> 0 < kroom (sc_k (os_s s))"

lemma os_kzalloc_page:
  assumes "os_ready s" and "0 < unat sz" and "unat sz \<le> 4096"
  obtains q s' where "os_kzalloc sz s = Some (q, s')" "q \<noteq> 0" "page_base q = q" "q \<notin> kused (sc_k (os_s s))" "kinv (sc_k (os_s s'))"
    "kused (sc_k (os_s s')) = insert q (kused (sc_k (os_s s)))" "kpages (sc_k (os_s s')) = insert q (kpages (sc_k (os_s s)))"
    "Suc (kroom (sc_k (os_s s'))) = kroom (sc_k (os_s s))"
    "\<And>a. os_mem s' a = (if unat (a - q) < unat sz then 0 else os_mem s a)"
    "\<And>a. page_base a \<in> kused (sc_k (os_s s)) \<Longrightarrow> os_mem s' a = os_mem s a"
proof -
  have r: "kinv (sc_k (os_s s))" "0 < kroom (sc_k (os_s s))" using assms(1) by (simp_all add: os_ready_def)
  from kh.alloc_page [OF r assms(2,3)] obtain q k where q: "kzalloc (sc_k (os_s s)) sz = Some (q, k)" "q \<noteq> 0" "page_base q = q"
    "q \<notin> kused (sc_k (os_s s))" "kinv k" "kused k = insert q (kused (sc_k (os_s s)))" "kpages k = insert q (kpages (sc_k (os_s s)))"
    "Suc (kroom k) = kroom (sc_k (os_s s))" "\<And>a. km_mem k a = (if unat (a - q) < unat sz then 0 else os_mem s a)"
    by blast
  have "os_kzalloc sz s = Some (q, s\<lparr>os_s := (os_s s)\<lparr>sc_k := k\<rparr>\<rparr>)"
    using q(1) by (simp add: os_kzalloc_def on_sched_def on_kmem_def)
  from that [OF this] q kh.alloc_keeps_used_cells [OF r assms(2,3) q(1)] show ?thesis by simp
qed

lemma process_malloc_full:
  assumes "os_ready s" and "0 < unat sz" and "unat sz \<le> 4096" and "process_at s p t chunk ts"
    and "i < 1024" and "fst (allocs s p ! i) = 0" and "\<forall>j < i. fst (allocs s p ! j) \<noteq> 0"
  obtains q s' where "process_malloc p sz s = Some (q, s')" "q \<noteq> 0" "page_base q = q" "q \<notin> kused (sc_k (os_s s))"
    "process_at s' p t chunk ts" "allocs s' p = (allocs s p)[i := (q, sz)]" "kinv (sc_k (os_s s'))"
    "kused (sc_k (os_s s')) = insert q (kused (sc_k (os_s s)))" "kpages (sc_k (os_s s')) = insert q (kpages (sc_k (os_s s)))"
    "Suc (kroom (sc_k (os_s s'))) = kroom (sc_k (os_s s))"
    "\<forall>v. paging_is_aligned v \<longrightarrow> translate (os_mem s') chunk v = (if v = q then q OR 7 else translate (os_mem s) chunk v)"
    "\<forall>a. unat (a - q) < unat sz \<longrightarrow> os_mem s' a = 0"
    "\<forall>a. page_base a \<in> kused (sc_k (os_s s)) - process_pages p - set ts \<longrightarrow> os_mem s' a = os_mem s a"
    "\<forall>a. page_base a = q \<and> unat sz \<le> unat (a - q) \<longrightarrow> os_mem s' a = os_mem s a"
proof -
  from os_kzalloc_page [OF assms(1-3)] obtain q s1 where q: "os_kzalloc sz s = Some (q, s1)" "q \<noteq> 0" "page_base q = q"
    "q \<notin> kused (sc_k (os_s s))" and k1: "kinv (sc_k (os_s s1))"
    "kused (sc_k (os_s s1)) = insert q (kused (sc_k (os_s s)))" "kpages (sc_k (os_s s1)) = insert q (kpages (sc_k (os_s s)))"
    "Suc (kroom (sc_k (os_s s1))) = kroom (sc_k (os_s s))"
    and m1: "\<And>a. os_mem s1 a = (if unat (a - q) < unat sz then 0 else os_mem s a)"
    "\<And>a. page_base a \<in> kused (sc_k (os_s s)) \<Longrightarrow> os_mem s1 a = os_mem s a" by blast
  have at1: "process_at s1 p t chunk ts" and al1: "allocs s1 p = allocs s p"
    and tr1: "\<And>v. paging_is_aligned v \<Longrightarrow> translate (os_mem s1) chunk v = translate (os_mem s) chunk v"
    using process_at_same [OF assms(4) m1(2)] k1(2) by auto
  have idx: "find_free_alloc_index s1 p = Some i"
    using assms(5-7) scan_allocs [of "\<lambda>x. x = 0" s1 p i] by (simp add: find_free_alloc_index_def al1)
  have "unat q + 4096 < 2 ^ 31" using kused_low [OF k1(1)] k1(2) by simp
  from os_map_page [OF at1 q(3) this assms(2,3), of 7] obtain s2 where s2:
    "os_map_to p q q (paging_align_address (q + sz)) 7 s1 = (0, s2)" "process_at s2 p t chunk ts" "allocs s2 p = allocs s1 p"
    "km_heap (sc_k (os_s s2)) = km_heap (sc_k (os_s s1))" "\<forall>a. page_base a \<notin> set ts \<longrightarrow> os_mem s2 a = os_mem s1 a"
    "\<forall>v. paging_is_aligned v \<longrightarrow> translate (os_mem s2) chunk v = (if v = q then q OR 7 else translate (os_mem s1) chunk v)" by blast
  define s3 where "s3 = put32 (alloc_size p i) sz (put32 (alloc_ptr p i) q s2)"
  note e3 = put_alloc [OF s2(2) assms(5), where q = q and z = sz, folded s3_def]
  have run: "process_malloc p sz s = Some (q, s3)" using q(1,2) idx s2(1) by (simp add: process_malloc_def s3_def)
  have h: "km_heap (sc_k (os_s s3)) = km_heap (sc_k (os_s s1))" using s2(4) e3(5) by simp
  have nq: "q \<notin> process_pages p" "q \<notin> set ts" using assms(4) q(4) by (auto simp: process_at_def)
  have zero: "os_mem s3 a = 0" if "unat (a - q) < unat sz" for a
  proof -
    have "page_base a = q" using in_page_iff [OF q(3), of a] that assms(3) by simp
    then show ?thesis using e3(4) s2(5) m1(1) that nq by simp
  qed
  have frame: "os_mem s3 a = os_mem s a" if "page_base a \<in> kused (sc_k (os_s s)) - process_pages p - set ts" for a
    using that e3(4) s2(5) m1(2) by simp
  have rest: "os_mem s3 a = os_mem s a" if "page_base a = q \<and> unat sz \<le> unat (a - q)" for a
    using that e3(4) s2(5) m1(1) nq by simp
  have al: "allocs s3 p = (allocs s p)[i := (q, sz)]" by (simp only: e3(2) s2(3) al1)
  have tr: "\<forall>v. paging_is_aligned v \<longrightarrow> translate (os_mem s3) chunk v = (if v = q then q OR 7 else translate (os_mem s) chunk v)"
    using e3(3) s2(6) tr1 by simp
  show ?thesis
    by (rule that [OF run q(2,3,4) e3(1) al k1(1) [folded heap_view(1) [OF h]] k1(2) [folded heap_view(2) [OF h]]
          k1(3) [folded heap_view(3) [OF h]] k1(4) [folded heap_view(4) [OF h]] tr]) (intro allI impI zero frame rest; assumption)+
qed

lemma process_malloc_effect:
  assumes "os_ready s" and "0 < unat sz" and "unat sz \<le> 4096" and "process_at s p t chunk ts"
    and "i < 1024" and "fst (allocs s p ! i) = 0" and "\<forall>j < i. fst (allocs s p ! j) \<noteq> 0"
  obtains q s' where "process_malloc p sz s = Some (q, s')" "q \<noteq> 0" "page_base q = q" "q \<notin> kused (sc_k (os_s s))"
    "process_at s' p t chunk ts" "allocs s' p = (allocs s p)[i := (q, sz)]" "kinv (sc_k (os_s s'))"
    "kused (sc_k (os_s s')) = insert q (kused (sc_k (os_s s)))" "kpages (sc_k (os_s s')) = insert q (kpages (sc_k (os_s s)))"
    "Suc (kroom (sc_k (os_s s'))) = kroom (sc_k (os_s s))"
    "\<forall>v. paging_is_aligned v \<longrightarrow> translate (os_mem s') chunk v = (if v = q then q OR 7 else translate (os_mem s) chunk v)"
    "\<forall>a. unat (a - q) < unat sz \<longrightarrow> os_mem s' a = 0"
    "\<forall>a. page_base a \<in> kused (sc_k (os_s s)) - process_pages p - set ts \<longrightarrow> os_mem s' a = os_mem s a"
  by (rule process_malloc_full [OF assms]) (rule that)

text \<open>C14: a process gets memory of its own. For a request of up to one page, \<open>process_malloc\<close> returns a page-aligned block that was
  not in use, entered in the first free slot of the allocation table and mapped into the address space of the
  process as present, writable and accessible to user code; no other translation of that address space changes, the other slots keep
  their entries, and the heap has lost exactly this block. Only the bytes asked for are cleared: the rest of the mapped page holds
  what was in memory before.\<close>
theorem process_malloc_maps:
  assumes "os_ready s" and "0 < unat sz" and "unat sz \<le> 4096" and "process_at s p t chunk ts"
    and "i < 1024" and "fst (allocs s p ! i) = 0" and "\<forall>j < i. fst (allocs s p ! j) \<noteq> 0"
  shows "\<exists>q s'. process_malloc p sz s = Some (q, s') \<and> q \<noteq> 0 \<and> page_base q = q \<and> q \<notin> kused (sc_k (os_s s)) \<and>
     process_at s' p t chunk ts \<and> allocs s' p = (allocs s p)[i := (q, sz)] \<and> kinv (sc_k (os_s s')) \<and>
     kused (sc_k (os_s s')) = insert q (kused (sc_k (os_s s))) \<and> Suc (kroom (sc_k (os_s s'))) = kroom (sc_k (os_s s)) \<and>
     (\<forall>v. paging_is_aligned v \<longrightarrow> translate (os_mem s') chunk v = (if v = q then q OR 7 else translate (os_mem s) chunk v)) \<and>
     (\<forall>a. unat (a - q) < unat sz \<longrightarrow> os_mem s' a = 0) \<and>
     (\<forall>a. page_base a = q \<and> unat sz \<le> unat (a - q) \<longrightarrow> os_mem s' a = os_mem s a)"
proof -
  obtain q s' where e: "process_malloc p sz s = Some (q, s')" "q \<noteq> 0" "page_base q = q" "q \<notin> kused (sc_k (os_s s))"
    "process_at s' p t chunk ts" "allocs s' p = (allocs s p)[i := (q, sz)]" "kinv (sc_k (os_s s'))"
    "kused (sc_k (os_s s')) = insert q (kused (sc_k (os_s s)))" "kpages (sc_k (os_s s')) = insert q (kpages (sc_k (os_s s)))"
    "Suc (kroom (sc_k (os_s s'))) = kroom (sc_k (os_s s))"
    "\<forall>v. paging_is_aligned v \<longrightarrow> translate (os_mem s') chunk v = (if v = q then q OR 7 else translate (os_mem s) chunk v)"
    "\<forall>a. unat (a - q) < unat sz \<longrightarrow> os_mem s' a = 0"
    "\<forall>a. page_base a \<in> kused (sc_k (os_s s)) - process_pages p - set ts \<longrightarrow> os_mem s' a = os_mem s a"
    "\<forall>a. page_base a = q \<and> unat sz \<le> unat (a - q) \<longrightarrow> os_mem s' a = os_mem s a"
    by (rule process_malloc_full [OF assms])
  show ?thesis by (intro exI [of _ q] exI [of _ s'] conjI e)
qed

lemma unjoin_loop_add: "unjoin_loop p q (a + b) k s = unjoin_loop p q b (k + a) (unjoin_loop p q a k s)"
  by (induction a arbitrary: k s) simp_all

lemma unjoin_loop_none:
  assumes "\<And>j. k \<le> j \<Longrightarrow> j < k + n \<Longrightarrow> fst (allocs s p ! j) \<noteq> q" and "k + n \<le> 1024"
  shows "unjoin_loop p q n k s = s"
  using assms
proof (induction n arbitrary: k)
  case (Suc n)
  have "get32 s (alloc_ptr p k) \<noteq> q" using Suc.prems(1) [of k] Suc.prems(2) by (simp add: nth_allocs)
  then show ?case using Suc.IH [of "Suc k"] Suc.prems by simp
qed simp

lemma process_allocation_unjoin_eq:
  assumes "process_at s p t chunk ts" and "q \<noteq> 0" and "i < 1024" and "fst (allocs s p ! i) = q"
    and "\<And>j. j < 1024 \<Longrightarrow> j \<noteq> i \<Longrightarrow> fst (allocs s p ! j) \<noteq> q"
  shows "process_allocation_unjoin p q s = put32 (alloc_size p i) 0 (put32 (alloc_ptr p i) 0 s)"
proof -
  let ?s = "put32 (alloc_size p i) 0 (put32 (alloc_ptr p i) 0 s)"
  have n: "SERPAEOS_MAX_PROGRAM_ALLOCATIONS = i + Suc (1023 - i)" using assms(3) by (simp add: process_consts)
  have "unjoin_loop p q i 0 s = s" using assms(3,5) by (intro unjoin_loop_none) auto
  moreover have "get32 s (alloc_ptr p i) = q" using assms(3,4) by (simp add: nth_allocs)
  moreover have "unjoin_loop p q (1023 - i) (Suc i) ?s = ?s"
    using assms(2,3,5) put_alloc(2) [OF assms(1,3), of 0 0] by (intro unjoin_loop_none) (simp_all add: nth_list_update)
  ultimately show ?thesis unfolding process_allocation_unjoin_def n unjoin_loop_add by simp
qed

lemma os_kfree_page:
  assumes "kinv (sc_k (os_s s))" and "q \<in> kpages (sc_k (os_s s))"
  obtains s' where "os_kfree q s = Some s'" "kinv (sc_k (os_s s'))" "kused (sc_k (os_s s')) = kused (sc_k (os_s s)) - {q}"
    "kpages (sc_k (os_s s')) = kpages (sc_k (os_s s)) - {q}" "kroom (sc_k (os_s s')) = Suc (kroom (sc_k (os_s s)))" "os_mem s' = os_mem s"
proof -
  from kh.free_page [OF assms] obtain k where k: "kfree (sc_k (os_s s)) q = Some k" "kinv k" "kused k = kused (sc_k (os_s s)) - {q}"
    "kpages k = kpages (sc_k (os_s s)) - {q}" "kroom k = Suc (kroom (sc_k (os_s s)))" "km_mem k = os_mem s" by blast
  then have "os_kfree q s = Some (s\<lparr>os_s := (os_s s)\<lparr>sc_k := k\<rparr>\<rparr>)" by (simp add: os_kfree_def sched_kfree_def)
  from that [OF this] k show ?thesis by simp
qed

lemma process_free_effect:
  assumes "kinv (sc_k (os_s s))" and "process_at s p t chunk ts" and "i < 1024" and "allocs s p ! i = (q, sz)"
    and "\<And>j. j < 1024 \<Longrightarrow> j \<noteq> i \<Longrightarrow> fst (allocs s p ! j) \<noteq> q" and "q \<noteq> 0" and "q \<in> kpages (sc_k (os_s s))"
    and "0 < unat sz" and "unat sz \<le> 4096"
    and "q \<notin> process_pages p \<union> {t} \<union> set (chunk # load32 (os_mem s) chunk # ts)"
  obtains s' where "process_free p q s = Some s'" "process_at s' p t chunk ts" "allocs s' p = (allocs s p)[i := (0, 0)]"
    "kinv (sc_k (os_s s'))" "kused (sc_k (os_s s')) = kused (sc_k (os_s s)) - {q}" "kroom (sc_k (os_s s')) = Suc (kroom (sc_k (os_s s)))"
    "\<forall>v. paging_is_aligned v \<longrightarrow> translate (os_mem s') chunk v = (if v = q then q else translate (os_mem s) chunk v)"
proof -
  have u: "q \<in> kused (sc_k (os_s s))" using assms(7) kh.pages_used by blast
  have q: "page_base q = q" "unat q + 4096 < 2 ^ 31" using kh.used_aligned [OF assms(1) u] kused_low [OF assms(1) u] by auto
  have "\<not> fst (allocs s p ! j) = q" if "j < i" for j using assms(3,5) that by simp
  then have found: "process_get_allocation_by_addr s p q = Some i"
    using assms(3,4) scan_allocs [of "\<lambda>x. x = q" s p i] by (simp add: process_get_allocation_by_addr_def)
  have e: "get32 s (alloc_ptr p i) = q" "get32 s (alloc_size p i) = sz" using assms(3,4) by (simp_all add: nth_allocs)
  from os_map_page [OF assms(2) q assms(8,9), of 0] obtain s1 where s1: "os_map_to p q q (paging_align_address (q + sz)) 0 s = (0, s1)"
    "process_at s1 p t chunk ts" "allocs s1 p = allocs s p" "km_heap (sc_k (os_s s1)) = km_heap (sc_k (os_s s))"
    "\<forall>a. page_base a \<notin> set ts \<longrightarrow> os_mem s1 a = os_mem s a"
    "\<forall>v. paging_is_aligned v \<longrightarrow> translate (os_mem s1) chunk v = (if v = q then q OR 0 else translate (os_mem s) chunk v)" by blast
  define s2 where "s2 = put32 (alloc_size p i) 0 (put32 (alloc_ptr p i) 0 s1)"
  note e2 = put_alloc [OF s1(2) assms(3), where q = 0 and z = 0, folded s2_def]
  have "fst (allocs s1 p ! i) = q" "\<And>j. j < 1024 \<Longrightarrow> j \<noteq> i \<Longrightarrow> fst (allocs s1 p ! j) \<noteq> q" using assms(4,5) s1(3) by simp_all
  from process_allocation_unjoin_eq [OF s1(2) assms(6,3) this]
  have un: "process_allocation_unjoin p q s1 = s2" unfolding s2_def .
  have h: "km_heap (sc_k (os_s s2)) = km_heap (sc_k (os_s s))" using s1(4) e2(5) by simp
  have "kinv (sc_k (os_s s2))" "q \<in> kpages (sc_k (os_s s2))" using heap_view [OF h] assms(1,7) by simp_all
  then obtain s3 where s3: "os_kfree q s2 = Some s3" "kinv (sc_k (os_s s3))"
    "kused (sc_k (os_s s3)) = kused (sc_k (os_s s2)) - {q}" "kpages (sc_k (os_s s3)) = kpages (sc_k (os_s s2)) - {q}"
    "kroom (sc_k (os_s s3)) = Suc (kroom (sc_k (os_s s2)))" "os_mem s3 = os_mem s2" by (rule os_kfree_page)
  have run: "process_free p q s = Some s3"
    using found s1(1) un s3(1) by (simp add: process_free_def e Let_def)
  have c: "load32 (os_mem s2) chunk = load32 (os_mem s) chunk"
  proof (rule load32_page_cong)
    show "page_base chunk = chunk" using assms(2) by (simp add: process_at_def space_def)
    have "chunk \<notin> process_pages p" "chunk \<notin> set ts" using assms(2) by (auto simp: process_at_def space_def)
    then show "os_mem s2 a = os_mem s a" if "page_base a = chunk" for a using that e2(4) s1(5) by simp
  qed
  have "process_at s3 p t chunk ts" using e2(1) s3(6,3) assms(10) unfolding c [symmetric] by (rule process_at_shrink)
  moreover have "allocs s3 p = allocs s2 p" by (simp add: allocs_def get32_def s3(6))
  then have "allocs s3 p = (allocs s p)[i := (0, 0)]" using e2(2) s1(3) by simp
  moreover have "\<forall>v. paging_is_aligned v \<longrightarrow> translate (os_mem s3) chunk v = (if v = q then q else translate (os_mem s) chunk v)"
    using e2(3) s1(6) by (simp add: s3(6))
  ultimately show ?thesis
    by (rule that [OF run _ _ s3(2) s3(3) [unfolded heap_view(2) [OF h]] s3(5) [unfolded heap_view(4) [OF h]]])
qed

text \<open>C15: memory of a process can be given back. \<open>process_free\<close> of what \<open>process_malloc\<close> has just returned clears the slot,
  returns the block to the heap, which has its old blocks in use again, takes the page away from the process (its entry has no
  flag left) and changes no other translation.\<close>

theorem process_malloc_free_roundtrip:
  assumes "os_ready s" and "0 < unat sz" and "unat sz \<le> 4096" and "process_at s p t chunk ts"
    and "i < 1024" and "fst (allocs s p ! i) = 0" and "\<forall>j < i. fst (allocs s p ! j) \<noteq> 0"
    and "\<forall>e \<in> set (allocs s p). fst e = 0 \<or> fst e \<in> kused (sc_k (os_s s))"
  shows "\<exists>q s' s''. process_malloc p sz s = Some (q, s') \<and> process_free p q s' = Some s'' \<and> process_at s'' p t chunk ts \<and>
     allocs s'' p = (allocs s p)[i := (0, 0)] \<and> kused (sc_k (os_s s'')) = kused (sc_k (os_s s)) \<and>
     kroom (sc_k (os_s s'')) = kroom (sc_k (os_s s)) \<and>
     (\<forall>v. paging_is_aligned v \<longrightarrow> translate (os_mem s'') chunk v = (if v = q then q else translate (os_mem s) chunk v))"
proof -
  obtain q s1 where 1: "process_malloc p sz s = Some (q, s1)" "q \<noteq> 0" "page_base q = q" "q \<notin> kused (sc_k (os_s s))"
    "process_at s1 p t chunk ts" "allocs s1 p = (allocs s p)[i := (q, sz)]" "kinv (sc_k (os_s s1))"
    "kused (sc_k (os_s s1)) = insert q (kused (sc_k (os_s s)))" "kpages (sc_k (os_s s1)) = insert q (kpages (sc_k (os_s s)))"
    "Suc (kroom (sc_k (os_s s1))) = kroom (sc_k (os_s s))"
    "\<forall>v. paging_is_aligned v \<longrightarrow> translate (os_mem s1) chunk v = (if v = q then q OR 7 else translate (os_mem s) chunk v)"
    "\<forall>a. unat (a - q) < unat sz \<longrightarrow> os_mem s1 a = 0"
    "\<forall>a. page_base a \<in> kused (sc_k (os_s s)) - process_pages p - set ts \<longrightarrow> os_mem s1 a = os_mem s a"
    by (rule process_malloc_effect [OF assms(1-7)])
  have at: "process_pages p \<union> {t} \<union> set (chunk # load32 (os_mem s) chunk # ts) \<subseteq> kused (sc_k (os_s s))" "page_base chunk = chunk"
    "chunk \<notin> process_pages p" "chunk \<notin> set ts" using assms(4) by (auto simp: process_at_def space_def)
  have "load32 (os_mem s1) chunk = load32 (os_mem s) chunk"
  proof (rule load32_page_cong [OF at(2)])
    fix a assume "page_base a = chunk"
    with at have "page_base a \<in> kused (sc_k (os_s s)) - process_pages p - set ts" by simp
    then show "os_mem s1 a = os_mem s a" using 1(13) by blast
  qed
  then have nq: "q \<notin> process_pages p \<union> {t} \<union> set (chunk # load32 (os_mem s1) chunk # ts)" using at(1) 1(4) by auto
  have i: "allocs s1 p ! i = (q, sz)" using 1(6) assms(5) by simp
  have o: "fst (allocs s1 p ! j) \<noteq> q" if "j < 1024" "j \<noteq> i" for j
    using assms(8) that 1(2,4,6) nth_mem [of j "allocs s p"] by auto
  have "q \<in> kpages (sc_k (os_s s1))" using 1(9) by simp
  obtain s2 where
    2: "process_free p q s1 = Some s2" "process_at s2 p t chunk ts" "allocs s2 p = (allocs s1 p)[i := (0, 0)]"
      "kinv (sc_k (os_s s2))" "kused (sc_k (os_s s2)) = kused (sc_k (os_s s1)) - {q}" "kroom (sc_k (os_s s2)) = Suc (kroom (sc_k (os_s s1)))"
      "\<forall>v. paging_is_aligned v \<longrightarrow> translate (os_mem s2) chunk v = (if v = q then q else translate (os_mem s1) chunk v)"
    by (rule process_free_effect [OF 1(7,5) assms(5) i o 1(2) \<open>q \<in> kpages (sc_k (os_s s1))\<close> assms(2,3) nq])
  show ?thesis
    by (intro exI [of _ q] exI [of _ s1] exI [of _ s2] conjI 1(1) 2(1,2)) (use 1(4,6,8,10,11) 2(3,5,6,7) in simp_all)
qed

section \<open>A process for the examples\<close>

definition demo_date :: date_time where
  "demo_date = \<lparr>dt_seconds = 0, dt_minutes = 0, dt_hours = 0, dt_day = 1, dt_month = 1, dt_year = 2024, dt_century = 0\<rparr>"

definition demo_os :: "kmem \<Rightarrow> unit os" where
  "demo_os k = \<lparr>os_s = \<lparr>sc_k = k, sc_paging = \<lparr>cr3 = 0, current_directory = 0\<rparr>, current_task = 0x1003000, task_head = 0, task_tail = 0, kernel_chunk = 0\<rparr>,
     os_vfs = \<lparr>v_k = k, v_world = (), v_filesystems = [], v_descs = [], v_disks = []\<rparr>,
     os_term = \<lparr>t_mem = km_mem k, video_mem = 0xb8000, terminal_row = 0, terminal_col = 0, t_beeps = 0\<rparr>,
     current_process = 0, processes = replicate 50 0, ret_codes = replicate 13 0, directory_screen_x = 0, directory_screen_y = 0,
     directory_screen_video = [], directory_screen_is_current = False, os_now = demo_date, os_text = replicate 12 0\<rparr>"

text \<open>The process structure takes the first three blocks of the pool, its task the fourth; the stack pointer of the task points to a word behind the process structure.\<close>

definition demo_blocks :: kmem where
  "demo_blocks = \<lparr>km_heap = demo_heap ([0x41, 0x41, 0x41, 0x41] @ replicate 1100 0), km_mem = (\<lambda>_. 0)\<rparr>"

lemma demo_blocks_ready: "kinv demo_blocks" "kroom demo_blocks = 1100" "{0x1000000, 0x1001000, 0x1002000, 0x1003000} \<subseteq> kused demo_blocks"
proof -
  have "heap_inv (demo_heap ([0x41, 0x41, 0x41, 0x41] @ replicate 1100 0))" by (rule demo_heap_inv) auto
  then show "kinv demo_blocks" by (simp add: kinv_def demo_blocks_def demo_heap_def page_base_def)
  show "kroom demo_blocks = 1100" by (simp add: kroom_def demo_blocks_def)
  have "block_addr demo_blocks j \<in> kused demo_blocks" if "j < 1104" "([0x41, 0x41, 0x41, 0x41] @ replicate 1100 0 :: u8 list) ! j = 0x41" for j
    unfolding kused_def by (rule CollectI, rule exI [of _ j]) (use that in \<open>simp add: demo_blocks_def\<close>)
  from this [of 0] this [of 1] this [of 2] this [of 3]
  show "{0x1000000, 0x1001000, 0x1002000, 0x1003000} \<subseteq> kused demo_blocks"
    by (simp add: block_addr_def demo_blocks_def heap_block_to_address_def demo_heap_def)
qed

lemma demo_process:
  obtains s :: "unit os" and chunk ts where "os_ready s" "process_at s 0x1000000 0x1003000 chunk ts"
    "allocs s 0x1000000 = replicate 1024 (0, 0)" "get32 s (0x1000000 + process_id) = 1" "current_task (os_s s) = 0x1003000"
    "fld (os_mem s) 0x1003000 task_process = 0x1000000" "fld (os_mem s) 0x1003000 task_esp = 0x1002F00" "load32 (os_mem s) 0x1002F00 = 100"
    "\<forall>v. paging_is_aligned v \<longrightarrow> translate (os_mem s) chunk v = v OR 5"
proof -
  let ?p = "0x1000000 :: u32" and ?t = "0x1003000 :: u32"
  have "1026 \<le> kroom demo_blocks" by (simp add: demo_blocks_ready)
  from paging_new_4gb_space [OF demo_blocks_ready(1) this, of 5] obtain chunk k ts where
    k: "kinv k" "kused k = kused demo_blocks \<union> set (chunk # load32 (km_mem k) chunk # ts)" "kroom k + 1026 = kroom demo_blocks"
    and sp: "space (km_mem k) chunk ts" and d: "kused demo_blocks \<inter> set (chunk # load32 (km_mem k) chunk # ts) = {}"
    and z: "\<forall>a. page_base a \<in> kused demo_blocks \<longrightarrow> km_mem k a = km_mem demo_blocks a"
    and tr: "\<forall>v. paging_is_aligned v \<longrightarrow> translate (km_mem k) chunk v = v OR ucast (5 :: u8)" by blast
  define m0 where "m0 = store32 (store32 (store32 (km_mem k) (?p + of_nat 124) ?t) (?p + of_nat 12) 1) (?p + of_nat 12032) 100"
  define m where "m = store32 (store32 (store32 m0 (?p + of_nat 12340) ?p) (?p + of_nat 12332) 0x1002F00) (?p + of_nat 12288) chunk"
  note m_def = m_def [unfolded m0_def]
  let ?s = "demo_os (k\<lparr>km_mem := m\<rparr>)"
  have al: "page_base ?p = ?p" "page_base ?t = ?t" by (simp_all add: page_base_def)
  have pg: "process_pages ?p = {0x1000000, 0x1001000, 0x1002000}" by (simp add: process_pages_def)
  note l = load_store_offset [OF page_mod4 [OF al(1)]]
  have fr: "m a = km_mem k a" if "page_base a \<notin> process_pages ?p" "page_base a \<noteq> ?t" for a
    unfolding m_def using process_store [OF al(1), of 124 a] process_store [OF al(1), of 12 a] process_store [OF al(1), of 12032 a]
      store32_slot_frame [OF al(2), of 0 a] store32_slot_frame [OF al(2), of 11 a] store32_slot_frame [OF al(2), of 13 a] that by simp
  have out: "page_base a \<in> set (chunk # load32 (km_mem k) chunk # ts) \<Longrightarrow> m a = km_mem k a" for a
  proof (rule fr)
    assume "page_base a \<in> set (chunk # load32 (km_mem k) chunk # ts)"
    then have "page_base a \<notin> kused demo_blocks" using d by blast
    then show "page_base a \<notin> process_pages ?p" "page_base a \<noteq> ?t" using demo_blocks_ready(3) pg by blast+
  qed
  have mem: "os_mem ?s = m" "sc_k (os_s ?s) = k\<lparr>km_mem := m\<rparr>" by (simp_all add: demo_os_def)
  have mm: "km_mem (k\<lparr>km_mem := m\<rparr>) = m" by simp
  have h: "km_heap (k\<lparr>km_mem := m\<rparr>) = km_heap k" by simp
  have D: "load32 m chunk = load32 (km_mem k) chunk" by (rule space_cong(1) [OF sp out])
  have sp': "space m chunk ts" by (rule space_cong(2) [OF sp out])
  have ld: "load32 m (?p + of_nat 124) = ?t" "load32 m (?p + of_nat 12) = 1" "load32 m (?p + of_nat 12288) = chunk"
    "load32 m (?p + of_nat 12340) = ?p" "load32 m (?p + of_nat 12332) = 0x1002F00" "load32 m (?p + of_nat 12032) = 100"
    by (simp_all add: m_def l del: of_nat_numeral)
  have sub: "process_pages ?p \<union> {?t} \<union> set (chunk # load32 (km_mem k) chunk # ts) \<subseteq> kused k"
    using k(2) demo_blocks_ready(3) pg by auto
  have dis: "insert ?t (process_pages ?p) \<inter> set (chunk # load32 (km_mem k) chunk # ts) = {}" "?t \<notin> process_pages ?p"
  proof -
    have "insert ?t (process_pages ?p) \<subseteq> kused demo_blocks" unfolding pg using demo_blocks_ready(3) by (simp only: insert_commute insert_subset)
    then show "insert ?t (process_pages ?p) \<inter> set (chunk # load32 (km_mem k) chunk # ts) = {}" using d by blast
    show "?t \<notin> process_pages ?p" unfolding pg by simp
  qed
  have "process_at ?s ?p ?t chunk ts" unfolding process_at_def get32_def mem mm fld_def heap_view(2) [OF h] D
  proof (intro conjI al sp' sub)
    show "load32 m (?p + process_task) = ?t" "load32 m (slot ?t task_page_directory) = chunk" using ld by (simp_all add: layout)
    show "process_pages ?p \<inter> insert ?t (set (chunk # load32 (km_mem k) chunk # ts)) = {}"
      "?t \<notin> set (chunk # load32 (km_mem k) chunk # ts)" using dis by blast+
  qed
  moreover have "allocs ?s ?p = replicate 1024 (0, 0)"
  proof (rule nth_equalityI)
    fix j assume "j < length (allocs ?s ?p)"
    then have j: "j < 1024" by simp
    have z0: "load32 (km_mem k) (?p + of_nat n) = 0" if "n + 4 \<le> 12288" for n
    proof -
      have "load32 (km_mem k) (?p + of_nat n) = load32 (\<lambda>_. 0) (?p + of_nat n)"
        using z demo_blocks_ready(3) pg by (intro process_load [OF al(1) that]) (auto simp: demo_blocks_def)
      then show ?thesis by (simp add: load32_def)
    qed
    show "allocs ?s ?p ! j = replicate 1024 (0, 0) ! j"
      using j z0 [of "128 + 8 * j"] z0 [of "132 + 8 * j"]
      by (simp only: nth_allocs get32_def alloc_addr mem) (simp add: m_def l mod_simps del: of_nat_add of_nat_mult of_nat_numeral)
  qed simp
  moreover have "os_ready ?s" using k(1,3) demo_blocks_ready(2) by (simp add: os_ready_def mem heap_view(1) [OF h] heap_view(4) [OF h])
  moreover have "get32 ?s (?p + process_id) = 1" using ld(2) by (simp add: get32_def mem layout)
  moreover have "current_task (os_s ?s) = ?t" by (simp add: demo_os_def)
  moreover have "fld (os_mem ?s) ?t task_process = ?p" "fld (os_mem ?s) ?t task_esp = 0x1002F00" "load32 (os_mem ?s) 0x1002F00 = 100"
    using ld(4-6) unfolding mem mm fld_def by (simp_all add: layout)
  moreover have "translate (os_mem ?s) chunk v = v OR 5" if "paging_is_aligned v" for v
    using tr that space_cong(3) [OF sp out that] unfolding mem mm by simp
  ultimately show ?thesis using that by blast
qed

theorem process_malloc_maps_witness:
  "\<exists>(s :: unit os) chunk ts q s'. process_at s 0x1000000 0x1003000 chunk ts \<and> process_malloc 0x1000000 100 s = Some (q, s') \<and>
     q \<notin> kused (sc_k (os_s s)) \<and> allocs s' 0x1000000 ! 0 = (q, 100) \<and> translate (os_mem s') chunk q = q OR 7 \<and> os_mem s' (q + 99) = 0"
proof -
  obtain s :: "unit os" and chunk ts where s: "os_ready s" "process_at s 0x1000000 0x1003000 chunk ts"
    "allocs s 0x1000000 = replicate 1024 (0, 0)" by (rule demo_process)
  have "fst (allocs s 0x1000000 ! 0) = 0" by (simp add: s(3))
  from process_malloc_maps [OF s(1) _ _ s(2) _ this, of 100] obtain q s' where e: "process_malloc 0x1000000 100 s = Some (q, s')" "page_base q = q"
    "q \<notin> kused (sc_k (os_s s))" "allocs s' 0x1000000 = (allocs s 0x1000000)[0 := (q, 100)]"
    "\<forall>v. paging_is_aligned v \<longrightarrow> translate (os_mem s') chunk v = (if v = q then q OR 7 else translate (os_mem s) chunk v)"
    "\<forall>a. unat (a - q) < unat (100 :: u32) \<longrightarrow> os_mem s' a = 0" by auto
  have "paging_is_aligned q" using e(2) by (simp add: aligned_page_base)
  then show ?thesis using e s by (intro exI [of _ s] exI [of _ chunk] exI [of _ ts] exI [of _ q] exI [of _ s']) auto
qed

theorem process_malloc_free_roundtrip_witness:
  "\<exists>(s :: unit os) q s' s''. process_malloc 0x1000000 100 s = Some (q, s') \<and> process_free 0x1000000 q s' = Some s'' \<and>
     allocs s'' 0x1000000 ! 0 = (0, 0) \<and> kused (sc_k (os_s s'')) = kused (sc_k (os_s s)) \<and> kroom (sc_k (os_s s'')) = kroom (sc_k (os_s s))"
proof -
  obtain s :: "unit os" and chunk ts where s: "os_ready s" "process_at s 0x1000000 0x1003000 chunk ts"
    "allocs s 0x1000000 = replicate 1024 (0, 0)" by (rule demo_process)
  have "fst (allocs s 0x1000000 ! 0) = 0" by (simp add: s(3))
  moreover have "\<forall>e \<in> set (allocs s 0x1000000). fst e = 0 \<or> fst e \<in> kused (sc_k (os_s s))" by (simp add: s(3))
  ultimately obtain q s' s'' where e: "process_malloc 0x1000000 100 s = Some (q, s')" "process_free 0x1000000 q s' = Some s''"
    "allocs s'' 0x1000000 = (allocs s 0x1000000)[0 := (0, 0)]" "kused (sc_k (os_s s'')) = kused (sc_k (os_s s))"
    "kroom (sc_k (os_s s'')) = kroom (sc_k (os_s s))"
    using process_malloc_free_roundtrip [OF s(1) _ _ s(2), of 100 0] by auto
  then show ?thesis by (intro exI [of _ s] exI [of _ q] exI [of _ s'] exI [of _ s'']) simp
qed

section \<open>Ending a process\<close>

lemma terminate_allocs_loop_null:
  assumes "heap_inv (km_heap (sc_k (os_s s)))" and "k \<le> i" and "i < k + n" and "get32 s (alloc_ptr p i) = 0"
  shows "terminate_allocs_loop p n k s = None"
  using assms
proof (induction n arbitrary: k s)
  case (Suc n)
  show ?case
  proof (cases "os_kfree (get32 s (alloc_ptr p k)) s")
    case (Some s')
    then obtain h where h: "kfree (sc_k (os_s s)) (get32 s (alloc_ptr p k)) = Some h" "s' = s\<lparr>os_s := (os_s s)\<lparr>sc_k := h\<rparr>\<rparr>"
      by (auto simp: os_kfree_def sched_kfree_def bind_eq_Some_conv)
    have "k \<noteq> i" using h(1) Suc.prems(1,4) kfree_null by auto
    then show ?thesis using Some h Suc.IH [of s' "Suc k"] Suc.prems kfree_keeps [OF Suc.prems(1) h(1)] by (simp add: get32_def)
  qed simp
qed simp

text \<open>C16: ending a process with an unused allocation slot corrupts the heap. \<open>process_terminate_allocs\<close> calls \<open>kfree\<close> for all 1024
  slots of the table, used or not, and \<open>kfree\<close> of the null pointer of an unused slot writes in front of the heap's status table: for every
  process but the first, if any slot is unused, the run leaves the table.\<close>

theorem process_terminate_escapes:
  assumes "kinv (sc_k (os_s s))" and "p \<noteq> 0" and "get32 s (p + process_id) \<noteq> 0" and "i < 1024" and "fst (allocs s p ! i) = 0"
  shows "process_terminate p s = None"
proof -
  have "get32 s (alloc_ptr p i) = 0" using assms(4,5) by (simp add: nth_allocs)
  then have "process_terminate_allocs p s = None"
    using assms(1,4) terminate_allocs_loop_null [of s 0 i 1024 p] by (simp add: process_terminate_allocs_def process_consts kinv_def)
  then show ?thesis using assms(2,3) by (simp add: process_terminate_def)
qed

theorem process_terminate_escapes_witness:
  "\<exists>(s :: unit os) chunk ts. process_at s 0x1000000 0x1003000 chunk ts \<and> kinv (sc_k (os_s s)) \<and> process_terminate 0x1000000 s = None"
proof -
  obtain s :: "unit os" and chunk ts where s: "os_ready s" "process_at s 0x1000000 0x1003000 chunk ts"
    "allocs s 0x1000000 = replicate 1024 (0, 0)" "get32 s (0x1000000 + process_id) = 1" by (rule demo_process)
  have "process_terminate 0x1000000 s = None"
    using s by (intro process_terminate_escapes [where i = 5]) (simp_all add: os_ready_def)
  then show ?thesis using s by (auto simp: os_ready_def)
qed

end
