(* ===== verification/Sound.thy ===== *)
theory Sound
  imports Disk
begin

text \<open>
  The PC speaker, \<^verbatim>\<open>src/src/sound/sound.c\<close>, over the port instructions. A division by zero is \<open>None\<close>: the processor raises an exception.
\<close>

definition play :: "'s port_ops \<Rightarrow> u32 \<Rightarrow> 's \<Rightarrow> 's option" where
  "play ops hertz s =
     (if hertz = 0 then None
      else let div' = 1193180 div hertz;
               s = outb ops 0x43 0xb6 s;
               s = outb ops 0x42 (ucast div') s;
               s = outb ops 0x42 (ucast (drop_bit 8 div')) s
           in case inb ops 0x61 s of (tmp, s) \<Rightarrow>
                Some (if tmp \<noteq> tmp OR 3 then outb ops 0x61 (tmp OR 3) s else s))"

definition quit_sound :: "'s port_ops \<Rightarrow> 's \<Rightarrow> 's" where
  "quit_sound ops s = (case inb ops 0x61 s of (tmp, s) \<Rightarrow> outb ops 0x61 (tmp AND 0xFC) s)"

definition beep :: "'s port_ops \<Rightarrow> 's \<Rightarrow> 's option" where
  \<comment> \<open>the delay loop in between has no effect\<close>
  "beep ops s = do { s \<leftarrow> play ops 440 s; Some (quit_sound ops s) }"

end
