(* ===== verification/Acpi.thy ===== *)
theory Acpi
  imports Disk Physmem Kstring
begin

text \<open>
  Power management, \<^verbatim>\<open>src/src/power/power.c\<close>: the search for the ACPI tables that the firmware leaves in memory, and the port writes that
  switch the machine off. The tables are read from the physical memory at the offsets of the structures in \<^verbatim>\<open>power.h\<close>; the static
  variables are the record \<open>acpi\<close>. The messages that a function prints are returned as a list.
\<close>

section \<open>State and layouts\<close>

record acpi =
  SMI_CMD :: u32
  ACPI_ENABLE :: u8
  ACPI_DISABLE :: u8
  PM1a_CNT :: u32
  PM1b_CNT :: u32
  SLP_TYPa :: u16
  SLP_TYPb :: u16
  SLP_EN :: u16
  SCI_EN :: u16
  PM1_CNT_LEN :: u8
  acpi_version :: int

definition zero_acpi :: acpi where
  \<comment> \<open>static variables start as 0\<close>
  "zero_acpi = \<lparr>SMI_CMD = 0, ACPI_ENABLE = 0, ACPI_DISABLE = 0, PM1a_CNT = 0, PM1b_CNT = 0, SLP_TYPa = 0, SLP_TYPb = 0,
     SLP_EN = 0, SCI_EN = 0, PM1_CNT_LEN = 0, acpi_version = 0\<rparr>"

definition ACPI_VER_1 :: int where "ACPI_VER_1 = 1"
definition ACPI_VER_2 :: int where "ACPI_VER_2 = 2"

definition sizeof_RSDPtr :: nat where "sizeof_RSDPtr = 20"
definition RSDPtr_revision :: u32 where "RSDPtr_revision = 15"
definition RSDPtr_rsdtAddress :: u32 where "RSDPtr_rsdtAddress = 16"

definition FACP_DSDT :: u32 where "FACP_DSDT = 44"
definition FACP_SMI_CMD :: u32 where "FACP_SMI_CMD = 52"
definition FACP_ACPI_Enable :: u32 where "FACP_ACPI_Enable = 56"
definition FACP_ACPI_Disable :: u32 where "FACP_ACPI_Disable = 57"
definition FACP_PM1a_CNT_BLK :: u32 where "FACP_PM1a_CNT_BLK = 68"
definition FACP_PM1b_CNT_BLK :: u32 where "FACP_PM1b_CNT_BLK = 72"
definition FACP_PM1_CNT_LEN :: u32 where "FACP_PM1_CNT_LEN = 93"

lemmas acpi_layout = sizeof_RSDPtr_def RSDPtr_revision_def RSDPtr_rsdtAddress_def FACP_DSDT_def FACP_SMI_CMD_def FACP_ACPI_Enable_def
  FACP_ACPI_Disable_def FACP_PM1a_CNT_BLK_def FACP_PM1b_CNT_BLK_def FACP_PM1_CNT_LEN_def

section \<open>Finding the tables\<close>

definition signature_at :: "mem \<Rightarrow> u32 \<Rightarrow> string \<Rightarrow> bool" where
  \<comment> \<open>\<open>memcmp(ptr, sig, n) == 0\<close> for a string of \<open>n\<close> characters\<close>
  "signature_at m ptr sig \<longleftrightarrow> memcmp (load_bytes m ptr (length sig)) (map of_char sig) (length sig) = Some 0"

fun byte_sum :: "mem \<Rightarrow> u32 \<Rightarrow> nat \<Rightarrow> u8 \<Rightarrow> u8" where
  "byte_sum m p 0 check = check"
| "byte_sum m p (Suc n) check = byte_sum m (p + 1) n (check + m p)"

definition acpi_check_RSDPtr :: "mem \<Rightarrow> u32 \<Rightarrow> acpi \<Rightarrow> u32 \<times> acpi" where
  "acpi_check_RSDPtr m ptr a =
     (if signature_at m ptr ''RSD PTR '' \<and> byte_sum m ptr sizeof_RSDPtr 0 = 0
      then (load32 m (ptr + RSDPtr_rsdtAddress),
            a\<lparr>acpi_version := if m (ptr + RSDPtr_revision) = 0 then ACPI_VER_1 else ACPI_VER_2\<rparr>)
      else (0, a))"

fun find_RSDPtr :: "mem \<Rightarrow> nat \<Rightarrow> u32 \<Rightarrow> acpi \<Rightarrow> u32 \<times> acpi" where
  \<comment> \<open>one of the two searches, with so many steps of 16 bytes to go\<close>
  "find_RSDPtr m 0 addr a = (0, a)"
| "find_RSDPtr m (Suc n) addr a =
     (case acpi_check_RSDPtr m addr a of (rsdp, a) \<Rightarrow>
        if rsdp \<noteq> 0 then (rsdp, a) else find_RSDPtr m n (addr + 0x10) a)"

definition acpi_get_RSDPtr :: "mem \<Rightarrow> acpi \<Rightarrow> u32 \<times> acpi" where
  "acpi_get_RSDPtr m a =
     (case find_RSDPtr m ((0x100000 - 0xE0000) div 0x10) 0xE0000 a of (rsdp, a) \<Rightarrow>
        if rsdp \<noteq> 0 then (rsdp, a)
        else let ebda = (word_of_int (sint (load16 m 0x40E) * 0x10) AND 0xFFFFF :: u32)
             in find_RSDPtr m (1024 div 0x10) ebda a)"

definition acpi_check_header :: "mem \<Rightarrow> u32 \<Rightarrow> string \<Rightarrow> int" where
  "acpi_check_header m ptr sig =
     (if signature_at m ptr sig \<and> byte_sum m ptr (nat (sint (load32 m (ptr + 4)))) 0 = 0 then 0 else - EINVARG)"

section \<open>Enabling\<close>

fun wait_enabled :: "'s port_ops \<Rightarrow> acpi \<Rightarrow> nat \<Rightarrow> 's \<Rightarrow> int \<times> 's" where
  "wait_enabled ops a n w =
     (case inw ops (ucast (PM1b_CNT a)) w of (v, w) \<Rightarrow>
        if v AND SCI_EN a = 1 then (0, w)
        else case n of 0 \<Rightarrow> (- ETIMEDOUT, w) | Suc n \<Rightarrow> wait_enabled ops a n w)"

definition acpi_enable :: "'s port_ops \<Rightarrow> mem \<Rightarrow> acpi \<Rightarrow> int \<Rightarrow> 's \<Rightarrow> int \<times> 's" where
  \<comment> \<open>\<open>i\<close> is what the uninitialised counter holds\<close>
  "acpi_enable ops m a i w =
     (case inw ops (ucast (PM1a_CNT a)) w of (v, w) \<Rightarrow>
        if v AND SCI_EN a \<noteq> 0 then (0, w)
        else if SMI_CMD a = 0 \<or> ACPI_ENABLE a = 0 then (- ECANNOTDO, w)
        else wait_enabled ops a (nat (0x800 - i)) (outb ops (ucast (load32 m (SMI_CMD a))) (ACPI_ENABLE a) w))"

section \<open>Initialisation\<close>

fun find_S5 :: "mem \<Rightarrow> u32 \<Rightarrow> nat \<Rightarrow> u32 \<times> int" where
  \<comment> \<open>\<open>S5Addr\<close> and \<open>dsdt_length\<close> behind the loop\<close>
  "find_S5 m p 0 = (p, - 1)"
| "find_S5 m p (Suc n) = (if signature_at m p ''_S5_'' then (p, int n) else find_S5 m (p + 1) n)"

definition S5_package :: "mem \<Rightarrow> u32 \<Rightarrow> bool" where
  "S5_package m p \<longleftrightarrow> (m (p - 1) = 0x08 \<or> m (p - 2) = 0x08 \<and> m (p - 1) = 92) \<and> m (p + 4) = 0x12"

definition skip_prefix :: "mem \<Rightarrow> u32 \<Rightarrow> u32" where
  "skip_prefix m p = (if m p = 0x0A then p + 1 else p)"

definition read_FACP :: "mem \<Rightarrow> u32 \<Rightarrow> u32 \<Rightarrow> acpi \<Rightarrow> acpi" where
  \<comment> \<open>\<open>p\<close> is the address of \<open>_S5_\<close>\<close>
  "read_FACP m facp p a =
     (let p = p + 5;
          p = p + ucast (drop_bit 6 (m p AND 0xC0)) + 2;
          pa = skip_prefix m p;
          pb = skip_prefix m (pa + 1)
      in a\<lparr>SLP_TYPa := word_of_int (sint (m pa) * 2 ^ 10), SLP_TYPb := word_of_int (sint (m pb) * 2 ^ 10),
           SMI_CMD := load32 m (facp + FACP_SMI_CMD), ACPI_ENABLE := m (facp + FACP_ACPI_Enable),
           ACPI_DISABLE := m (facp + FACP_ACPI_Disable), PM1a_CNT := load32 m (facp + FACP_PM1a_CNT_BLK),
           PM1b_CNT := load32 m (facp + FACP_PM1b_CNT_BLK), PM1_CNT_LEN := m (facp + FACP_PM1_CNT_LEN),
           SLP_EN := push_bit 13 1, SCI_EN := 1\<rparr>)"

definition use_FACP :: "mem \<Rightarrow> u32 \<Rightarrow> acpi \<Rightarrow> (acpi + string)" where
  \<comment> \<open>the body of the loop for a table with a valid header; a message when it is of no use\<close>
  "use_FACP m facp a =
     (let dsdt = load32 m (facp + FACP_DSDT)
      in if acpi_check_header m dsdt ''DSDT'' \<noteq> 0 then Inr (CHR 0x0A # ''DSDT invalid'' @ [CHR 0x0A])
         else case find_S5 m (dsdt + 36) (nat (sint (load32 m (dsdt + 4) - 36))) of (p, left) \<Rightarrow>
           if left > 0
           then if S5_package m p then Inl (read_FACP m facp p a) else Inr (CHR 0x0A # CHR 0x5C # ''_S5 parse error'')
           else Inr (CHR 0x0A # CHR 0x5C # ''_S5 not present'' @ [CHR 0x0A]))"

definition no_FACP :: string where "no_FACP = CHR 0x0A # ''No FACP present''"

fun FACP_loop :: "mem \<Rightarrow> u32 \<Rightarrow> nat \<Rightarrow> acpi \<Rightarrow> int \<times> acpi \<times> string list" where
  \<comment> \<open>a table that is of no use ends the search, since the counter is set to -2\<close>
  "FACP_loop m ptr 0 a = (- ECANNOTDO, a, [no_FACP])"
| "FACP_loop m ptr (Suc n) a =
     (if acpi_check_header m (load32 m ptr) ''FACP'' = 0
      then case use_FACP m (load32 m ptr) a of
             Inl a \<Rightarrow> (0, a, [])
           | Inr msg \<Rightarrow> (- ECANNOTDO, a, [msg, no_FACP])
      else FACP_loop m (ptr + 4) n a)"

definition init_acpi :: "mem \<Rightarrow> acpi \<Rightarrow> int \<times> acpi \<times> string list" where
  "init_acpi m a =
     (case acpi_get_RSDPtr m a of (ptr, a) \<Rightarrow>
        if ptr \<noteq> 0 \<and> acpi_check_header m ptr ''RSDT'' = 0
        then FACP_loop m (ptr + 36) (nat ((sint (load32 m (ptr + 4)) - 36) sdiv 4)) a
        else (- ECANNOTDO, a, []))"

section \<open>Switching off\<close>

definition acpi_poweroff :: "'s port_ops \<Rightarrow> acpi \<Rightarrow> 's \<Rightarrow> bool \<times> 's" where
  \<comment> \<open>the flag says whether the function returns; behind the port writes it calls \<open>panic\<close>, which does not\<close>
  "acpi_poweroff ops a w =
     (if SCI_EN a = 0 then (True, w)
      else let w = outw ops (ucast (PM1a_CNT a)) (SLP_TYPa a OR SLP_EN a) w
           in (False, if PM1b_CNT a \<noteq> 0 then outw ops (ucast (PM1b_CNT a)) (SLP_TYPb a OR SLP_EN a) w else w))"

section \<open>What the search accepts\<close>

lemma byte_sum_eq: "byte_sum m p n check = check + (\<Sum>i<n. m (p + of_nat i))"
  by (induction n arbitrary: p check) (simp_all add: sum.lessThan_Suc_shift algebra_simps del: sum.lessThan_Suc)

lemma signature_at_iff: "signature_at m p sig \<longleftrightarrow> load_bytes m p (length sig) = map of_char sig"
  by (simp add: signature_at_def memcmp_zero load_bytes_def)

definition checked_table :: "mem \<Rightarrow> u32 \<Rightarrow> string \<Rightarrow> bool" where
  \<comment> \<open>a table with this signature whose bytes add up to 0\<close>
  "checked_table m p sig \<longleftrightarrow> load_bytes m p (length sig) = map of_char sig \<and>
     (\<Sum>i < nat (sint (load32 m (p + 4))). m (p + of_nat i)) = 0"

lemma acpi_check_header_iff: "acpi_check_header m p sig = 0 \<longleftrightarrow> checked_table m p sig"
  by (simp add: acpi_check_header_def signature_at_iff byte_sum_eq checked_table_def status_simps)

definition checked_RSDPtr :: "mem \<Rightarrow> u32 \<Rightarrow> bool" where
  "checked_RSDPtr m p \<longleftrightarrow> load_bytes m p (length ''RSD PTR '') = map of_char ''RSD PTR '' \<and> (\<Sum>i<20. m (p + of_nat i)) = 0"

lemma acpi_check_RSDPtr_eq:
  "acpi_check_RSDPtr m p a =
     (if checked_RSDPtr m p then (load32 m (p + 16), a\<lparr>acpi_version := if m (p + 15) = 0 then 1 else 2\<rparr>) else (0, a))"
  by (simp add: acpi_check_RSDPtr_def signature_at_iff byte_sum_eq checked_RSDPtr_def acpi_layout ACPI_VER_1_def ACPI_VER_2_def)

lemma find_RSDPtr_found:
  assumes "find_RSDPtr m n addr a = (rsdt, a')" and "rsdt \<noteq> 0"
  shows "\<exists>i<n. checked_RSDPtr m (addr + of_nat (16 * i)) \<and> rsdt = load32 m (addr + of_nat (16 * i) + 16)"
  using assms
proof (induction n arbitrary: addr a)
  case (Suc n)
  show ?case
  proof (cases "checked_RSDPtr m addr \<and> load32 m (addr + 16) \<noteq> 0")
    case True
    then show ?thesis using Suc.prems by (intro exI [of _ 0]) (simp add: acpi_check_RSDPtr_eq)
  next
    case False
    then obtain b where "find_RSDPtr m n (addr + 16) b = (rsdt, a')"
      using Suc.prems by (auto simp: acpi_check_RSDPtr_eq split: if_splits)
    from Suc.IH [OF this Suc.prems(2)] obtain i where
      "i < n" "checked_RSDPtr m (addr + of_nat (16 * Suc i))" "rsdt = load32 m (addr + of_nat (16 * Suc i) + 16)"
      by (auto simp: algebra_simps)
    then show ?thesis by (intro exI [of _ "Suc i"]) simp
  qed
qed simp

definition bios_addresses :: "mem \<Rightarrow> u32 set" where
  \<comment> \<open>where the root pointer may lie: the area of the BIOS and the first kilobyte of its extended data area, in steps of 16 bytes\<close>
  "bios_addresses m = (\<lambda>i. 0xE0000 + of_nat (16 * i)) ` {..<8192} \<union>
     (\<lambda>i. (word_of_int (sint (load16 m 0x40E) * 0x10) AND 0xFFFFF) + of_nat (16 * i)) ` {..<64}"

lemma acpi_get_RSDPtr_found:
  assumes "acpi_get_RSDPtr m a = (rsdt, a')" and "rsdt \<noteq> 0"
  shows "\<exists>p \<in> bios_addresses m. checked_RSDPtr m p \<and> rsdt = load32 m (p + 16)"
proof -
  obtain r b where r: "find_RSDPtr m 8192 0xE0000 a = (r, b)" by fastforce
  show ?thesis
  proof (cases "r = 0")
    case True
    with r assms(1) have "find_RSDPtr m 64 (word_of_int (sint (load16 m 0x40E) * 0x10) AND 0xFFFFF) b = (rsdt, a')"
      by (simp add: acpi_get_RSDPtr_def)
    from find_RSDPtr_found [OF this assms(2)] show ?thesis unfolding bios_addresses_def by blast
  next
    case False
    with r assms(1) have "rsdt = r" by (simp add: acpi_get_RSDPtr_def)
    with find_RSDPtr_found [OF r False] show ?thesis unfolding bios_addresses_def by blast
  qed
qed

lemma FACP_loop_found:
  assumes "FACP_loop m ptr n a = (0, a', msgs)"
  shows "\<exists>i<n. \<exists>p. checked_table m (load32 m (ptr + of_nat (4 * i))) ''FACP'' \<and>
     checked_table m (load32 m (load32 m (ptr + of_nat (4 * i)) + FACP_DSDT)) ''DSDT'' \<and> S5_package m p \<and>
     a' = read_FACP m (load32 m (ptr + of_nat (4 * i))) p a"
  using assms
proof (induction n arbitrary: ptr)
  case (Suc n)
  show ?case
  proof (cases "checked_table m (load32 m ptr) ''FACP''")
    case True
    then show ?thesis using Suc.prems
      by (intro exI [of _ 0])
        (auto simp: acpi_check_header_iff use_FACP_def Let_def status_simps split: sum.splits prod.splits if_splits)
  next
    case False
    with Suc.prems have "FACP_loop m (ptr + 4) n a = (0, a', msgs)" by (simp add: acpi_check_header_iff)
    from Suc.IH [OF this] obtain i where
      "i < n" "\<exists>p. checked_table m (load32 m (ptr + of_nat (4 * Suc i))) ''FACP'' \<and>
         checked_table m (load32 m (load32 m (ptr + of_nat (4 * Suc i)) + FACP_DSDT)) ''DSDT'' \<and> S5_package m p \<and>
         a' = read_FACP m (load32 m (ptr + of_nat (4 * Suc i))) p a" by (auto simp: algebra_simps)
    then show ?thesis by (intro exI [of _ "Suc i"]) blast
  qed
qed (simp add: status_simps)

text \<open>C37: the machine is switched off by tables that were checked. When \<open>init_acpi\<close> succeeds, the two port numbers it keeps are the words at offsets 68 and
  72 of a FACP table whose bytes add up to 0, listed in a checked RSDT, which a checked root pointer in one of the two areas of the BIOS names; its
  DSDT is checked as well. (The specification of the table has the two control registers at 64 and 68: the structure of \<^verbatim>\<open>power.h\<close> reads
  four bytes behind.) A later \<open>acpi_poweroff\<close> writes the sleep type with the sleep bit to the first of these ports, and to the second
  unless it is 0. In the state before any \<open>init_acpi\<close>, \<open>acpi_poweroff\<close> writes nothing and returns.\<close>
theorem acpi_checked:
  "acpi_poweroff ops zero_acpi w = (True, w) \<and>
   (init_acpi m a = (0, a', msgs) \<longrightarrow>
     (\<exists>p\<in>bios_addresses m. \<exists>i<nat ((sint (load32 m (load32 m (p + 16) + 4)) - 36) sdiv 4). \<exists>facp.
        checked_RSDPtr m p \<and> checked_table m (load32 m (p + 16)) ''RSDT'' \<and>
        facp = load32 m (load32 m (p + 16) + 36 + of_nat (4 * i)) \<and>
        checked_table m facp ''FACP'' \<and> checked_table m (load32 m (facp + 44)) ''DSDT'' \<and>
        PM1a_CNT a' = load32 m (facp + 68) \<and> PM1b_CNT a' = load32 m (facp + 72) \<and>
        acpi_poweroff ops a' w =
          (False, let w = outw ops (ucast (load32 m (facp + 68))) (SLP_TYPa a' OR 0x2000) w
                  in if load32 m (facp + 72) = 0 then w
                     else outw ops (ucast (load32 m (facp + 72))) (SLP_TYPb a' OR 0x2000) w)))"
proof (intro conjI impI)
  show "acpi_poweroff ops zero_acpi w = (True, w)" by (simp add: acpi_poweroff_def zero_acpi_def)
  assume init: "init_acpi m a = (0, a', msgs)"
  obtain rsdt b where g: "acpi_get_RSDPtr m a = (rsdt, b)" by fastforce
  with init have r: "rsdt \<noteq> 0" "checked_table m rsdt ''RSDT''"
    and l: "FACP_loop m (rsdt + 36) (nat ((sint (load32 m (rsdt + 4)) - 36) sdiv 4)) b = (0, a', msgs)"
    by (auto simp: init_acpi_def acpi_check_header_iff status_simps split: if_splits)
  obtain p where p: "p \<in> bios_addresses m" "checked_RSDPtr m p" "rsdt = load32 m (p + 16)" using acpi_get_RSDPtr_found [OF g r(1)] by blast
  obtain i q where i: "i < nat ((sint (load32 m (rsdt + 4)) - 36) sdiv 4)"
    "checked_table m (load32 m (rsdt + 36 + of_nat (4 * i))) ''FACP''"
    "checked_table m (load32 m (load32 m (rsdt + 36 + of_nat (4 * i)) + FACP_DSDT)) ''DSDT''"
    "a' = read_FACP m (load32 m (rsdt + 36 + of_nat (4 * i))) q b" using FACP_loop_found [OF l] by blast
  let ?facp = "load32 m (rsdt + 36 + of_nat (4 * i))"
  have f: "PM1a_CNT a' = load32 m (?facp + 68)" "PM1b_CNT a' = load32 m (?facp + 72)" "SLP_EN a' = 0x2000" "SCI_EN a' = 1"
    by (simp_all add: i(4) read_FACP_def Let_def acpi_layout)
  then have "acpi_poweroff ops a' w =
          (False, let w = outw ops (ucast (load32 m (?facp + 68))) (SLP_TYPa a' OR 0x2000) w
                  in if load32 m (?facp + 72) = 0 then w
                     else outw ops (ucast (load32 m (?facp + 72))) (SLP_TYPb a' OR 0x2000) w)"
    by (simp add: acpi_poweroff_def Let_def)
  with p i(1-3) r(2) f(1,2) show "\<exists>p\<in>bios_addresses m. \<exists>i<nat ((sint (load32 m (load32 m (p + 16) + 4)) - 36) sdiv 4). \<exists>facp.
        checked_RSDPtr m p \<and> checked_table m (load32 m (p + 16)) ''RSDT'' \<and>
        facp = load32 m (load32 m (p + 16) + 36 + of_nat (4 * i)) \<and>
        checked_table m facp ''FACP'' \<and> checked_table m (load32 m (facp + 44)) ''DSDT'' \<and>
        PM1a_CNT a' = load32 m (facp + 68) \<and> PM1b_CNT a' = load32 m (facp + 72) \<and>
        acpi_poweroff ops a' w =
          (False, let w = outw ops (ucast (load32 m (facp + 68))) (SLP_TYPa a' OR 0x2000) w
                  in if load32 m (facp + 72) = 0 then w
                     else outw ops (ucast (load32 m (facp + 72))) (SLP_TYPb a' OR 0x2000) w)"
    by (metis FACP_DSDT_def)
qed

definition demo_rsdp :: "u8 list" where
  "demo_rsdp = [82, 83, 68, 32, 80, 84, 82, 32, 1, 83, 69, 82, 80, 65, 69, 0, 0, 32, 0, 0]"

definition demo_rsdt :: "u8 list" where
  "demo_rsdt = [82, 83, 68, 84, 40, 0, 0, 0, 0, 107] @ replicate 27 0 @ [48, 0, 0]"

definition demo_facp :: "u8 list" where
  "demo_facp = [70, 65, 67, 80, 12, 0, 0, 0, 0, 218, 0, 0] @ replicate 33 0 @ [64] @ replicate 22 0 @ [4, 6] @ replicate 26 0"

definition demo_dsdt :: "u8 list" where
  "demo_dsdt = [68, 83, 68, 84, 49, 0, 0, 0, 0, 24] @ replicate 26 0 @ [8, 95, 83, 53, 95, 18, 6, 4, 10, 5, 10, 5, 0]"

definition demo_tables :: mem where
  \<comment> \<open>a root pointer at \<open>0xE0000\<close>, its list of tables, one FACP and its DSDT\<close>
  "demo_tables a =
     (case find (\<lambda>(b, bs). a - b < of_nat (length bs)) [(0xE0000, demo_rsdp), (0x2000, demo_rsdt), (0x3000, demo_facp), (0x4000, demo_dsdt)] of
        None \<Rightarrow> 0
      | Some (b, bs) \<Rightarrow> bs ! unat (a - b))"

definition log_ops :: "(u16 \<times> u16) list port_ops" where
  \<comment> \<open>a device that notes what is written to it\<close>
  "log_ops = \<lparr>outb = \<lambda>_ _ w. w, inb = \<lambda>_ w. (0, w), inw = \<lambda>_ w. (0, w), outw = \<lambda>p v w. w @ [(p, v)]\<rparr>"

definition demo_acpi :: acpi where
  "demo_acpi = zero_acpi\<lparr>SLP_TYPa := 0x1400, SLP_TYPb := 0x1400, PM1a_CNT := 0x604, SLP_EN := 0x2000, SCI_EN := 1, acpi_version := 1\<rparr>"

lemma find_RSDPtr_first:
  assumes "acpi_check_RSDPtr m addr a = (r, b)" and "r \<noteq> 0"
  shows "find_RSDPtr m (Suc n) addr a = (r, b)"
  using assms by simp

lemma demo_tables_checked:
  "acpi_check_RSDPtr demo_tables 0xE0000 zero_acpi = (0x2000, zero_acpi\<lparr>acpi_version := 1\<rparr>)"
  "acpi_check_header demo_tables 0x2000 ''RSDT'' = 0"
  "FACP_loop demo_tables 0x2024 1 (zero_acpi\<lparr>acpi_version := 1\<rparr>) = (0, demo_acpi, [])"
  "load32 demo_tables 0x2004 = 40"
  by code_simp+

lemma demo_init_acpi: "init_acpi demo_tables zero_acpi = (0, demo_acpi, [])"
proof -
  have "find_RSDPtr demo_tables (Suc 8191) 0xE0000 zero_acpi = (0x2000, zero_acpi\<lparr>acpi_version := 1\<rparr>)"
    by (rule find_RSDPtr_first [OF demo_tables_checked(1)]) simp
  then have "acpi_get_RSDPtr demo_tables zero_acpi = (0x2000, zero_acpi\<lparr>acpi_version := 1\<rparr>)"
    by (simp add: acpi_get_RSDPtr_def)
  moreover have "nat ((sint (load32 demo_tables (0x2000 + 4)) - 36) sdiv 4) = 1"
    using demo_tables_checked(4) by (simp add: signed_divide_int_def)
  ultimately show ?thesis using demo_tables_checked(2,3) unfolding init_acpi_def by simp
qed

theorem acpi_checked_witness:
  "init_acpi demo_tables zero_acpi = (0, demo_acpi, []) \<and> acpi_poweroff log_ops demo_acpi [] = (False, [(0x604, 0x3400)]) \<and>
   (\<exists>p\<in>bios_addresses demo_tables. checked_RSDPtr demo_tables p)"
proof -
  have "acpi_poweroff log_ops demo_acpi [] = (False, [(0x604, 0x3400)])" by code_simp
  with acpi_checked [of log_ops "[]" demo_tables zero_acpi demo_acpi "[]"] demo_init_acpi show ?thesis by blast
qed

end
