(* ===== verification/Syscall.thy ===== *)
theory Syscall
  imports Process Keyboard Sound Acpi
begin

text \<open>
  Interrupts and system calls: \<^verbatim>\<open>src/src/idt/idt.c\<close> and the command handlers under \<^verbatim>\<open>src/src/isr80h\<close>. A system call is a number and the arguments
  on the stack of the calling task, which the handlers read one by one through the page directory of the task.

  The hardware and the code that is not in C is the record \<open>hw\<close>: the port instructions, over the world that the file systems act on
  too, the variables of the power management, the address where the buffers of a handler lie on the kernel stack, and the values that
  uninitialised locals have. A buffer that a handler passes to \<open>copy_string_from_task\<close> lies at that address; the string it then passes
  on is what the buffer holds. An access outside an array, a division by zero and a page fault are \<open>None\<close>.
\<close>

section \<open>The machine\<close>

record 'w hw =
  hw_ops :: "'w port_ops"
  hw_acpi :: acpi
  hw_locals :: u32
  hw_garbage :: u32
  hw_century :: u8
  hw_set_now :: "date_time \<Rightarrow> 'w \<Rightarrow> 'w" \<comment> \<open>the copy of \<open>now\<close> that the file systems read\<close>

definition on_world :: "('w \<Rightarrow> ('a \<times> 'w) option) \<Rightarrow> 'w os \<Rightarrow> ('a \<times> 'w os) option" where
  "on_world f s = do { (x, w) \<leftarrow> f (v_world (os_vfs s)); Some (x, s\<lparr>os_vfs := (os_vfs s)\<lparr>v_world := w\<rparr>\<rparr>) }"

definition cur_task :: "'w os \<Rightarrow> u32" where
  "cur_task s = current_task (os_s s)"

definition cur_process :: "'w os \<Rightarrow> u32" where
  \<comment> \<open>\<open>task_current()->process\<close>\<close>
  "cur_process s = fld (os_mem s) (cur_task s) task_process"

definition stack_item :: "int \<Rightarrow> 'w os \<Rightarrow> (u32 \<times> 'w os) option" where
  "stack_item i s = on_sched (task_get_stack_item (cur_task s) i) s"

definition copy_string :: "u32 \<Rightarrow> u32 \<Rightarrow> int \<Rightarrow> 'w os \<Rightarrow> (int \<times> 'w os) option" where
  "copy_string virtual phys max_len s = on_sched (copy_string_from_task (cur_task s) virtual phys max_len) s"

definition to_physical :: "u32 \<Rightarrow> 'w os \<Rightarrow> u32" where
  "to_physical virt s = task_virtual_address_to_physical (cur_task s) virt (os_s s)"

definition error_value :: "int \<Rightarrow> u32" where
  \<comment> \<open>\<open>ERROR(value)\<close>\<close>
  "error_value e = word_of_int e"

definition is_priv :: "'w os \<Rightarrow> bool" where
  "is_priv s \<longleftrightarrow> get8 s (cur_process s + process_priv) \<noteq> 0"

definition resume_task :: "u32 \<Rightarrow> 'w os \<Rightarrow> ('a outcome \<times> 'w os) option" where
  \<comment> \<open>\<open>task_switch(task); task_return(&task->registers);\<close>\<close>
  "resume_task task s = Some (Resumes (slot task task_registers), s\<lparr>os_s := task_switch task (os_s s)\<rparr>)"

definition next_task :: "'w os \<Rightarrow> ('a outcome \<times> 'w os) option" where
  \<comment> \<open>\<open>task_next();\<close>\<close>
  "next_task s = do { (regs, s) \<leftarrow> on_sched task_next s; Some (Resumes regs, s) }"

type_synonym 'w handler = "interrupt_frame \<Rightarrow> 'w os \<Rightarrow> (u32 outcome \<times> 'w os) option"

section \<open>Screen and keyboard\<close>

definition isr80h_command1_print :: "'w hw \<Rightarrow> 'w handler" where
  "isr80h_command1_print hw frame s = do {
     (user_space_msg_buffer, s) \<leftarrow> stack_item 0 s;
     (_, s) \<leftarrow> copy_string user_space_msg_buffer (hw_locals hw) 1024 s;
     s \<leftarrow> process_print (load_bytes (os_mem s) (hw_locals hw) 1024) (cur_process s) s;
     Some (Returns 0, s)
   }"

definition load_keyboard :: "mem \<Rightarrow> u32 \<Rightarrow> keyboard_buffer" where
  "load_keyboard m process =
     \<lparr>kb_buffer = load_bytes m (process + process_keyboard) SERPAEOS_KEYBOARD_BUFFER_SIZE,
      kb_tail = load32 m (process + process_keyboard + 1024), kb_head = load32 m (process + process_keyboard + 1028)\<rparr>"

definition store_keyboard :: "mem \<Rightarrow> u32 \<Rightarrow> keyboard_buffer \<Rightarrow> mem" where
  "store_keyboard m process kb =
     (let m = store_bytes m (process + process_keyboard) (kb_buffer kb);
          m = store32 m (process + process_keyboard + 1024) (kb_tail kb)
      in store32 m (process + process_keyboard + 1028) (kb_head kb))"

definition os_keyboard_pop :: "'w os \<Rightarrow> (u8 \<times> 'w os) option" where
  "os_keyboard_pop s =
     (if cur_task s = 0 then Some (0, s)
      else do {
        (c, kb) \<leftarrow> keyboard_pop (load_keyboard (os_mem s) (cur_process s));
        Some (c, put_mem (store_keyboard (os_mem s) (cur_process s) kb) s)
      })"

definition isr80h_command2_getkey :: "'w handler" where
  "isr80h_command2_getkey frame s = do { (c, s) \<leftarrow> os_keyboard_pop s; Some (Returns (scast c), s) }"

definition isr80h_command3_putchar :: "'w handler" where
  "isr80h_command3_putchar frame s = do {
     (c, s) \<leftarrow> stack_item 0 s;
     s \<leftarrow> process_print [ucast c, 0] (cur_process s) s;
     Some (Returns 0, s)
   }"

fun blank_screen :: "nat \<Rightarrow> u8 \<Rightarrow> u32 \<Rightarrow> 'w os \<Rightarrow> 'w os" where
  \<comment> \<open>the two loops of \<open>isr80h_command9_clrscr\<close>, \<open>VGA_HEIGHT * VGA_WIDTH\<close> characters\<close>
  "blank_screen 0 colour process s = s"
| "blank_screen (Suc n) colour process s =
     blank_screen n colour process (process_writechar 32 colour (get32 s (process + process_screen)) s)"

definition isr80h_command9_clrscr :: "'w handler" where
  "isr80h_command9_clrscr frame s = do {
     (colour, s) \<leftarrow> stack_item 0 s;
     let process = cur_process s;
     let home = (\<lambda>s :: 'w os. put32 (get32 s (process + process_screen) + screen_y) 0
                    (put32 (get32 s (process + process_screen) + screen_x) 0 s));
     if get8 s (get32 s (process + process_screen) + screen_current_screen) \<noteq> 0
     then Some (Returns 0, on_term (clrscr (ucast colour)) s)
     else Some (Returns 0, home (blank_screen (VGA_HEIGHT * VGA_WIDTH) (ucast colour) process (home s)))
   }"

definition isr80h_command24_set_cursor :: "'w handler" where
  "isr80h_command24_set_cursor frame s = do {
     (y, s) \<leftarrow> stack_item 0 s;
     (x, s) \<leftarrow> stack_item 1 s;
     Some (Returns 0, on_term (set_cursor (ucast x) (ucast y)) s)
   }"

definition isr80h_command25_draw_block :: "'w handler" where
  "isr80h_command25_draw_block frame s = do {
     (attribute, s) \<leftarrow> stack_item 0 s;
     (y, s) \<leftarrow> stack_item 1 s;
     (x, s) \<leftarrow> stack_item 2 s;
     Some (Returns 0, on_term (graphics_put (ucast attribute) (uint (ucast x :: u16)) (uint (ucast y :: u16))) s)
   }"

section \<open>Files\<close>

definition isr80h_command10_fopen :: "'w hw \<Rightarrow> 'w handler" where
  \<comment> \<open>\<open>filename\<close> takes the first 1024 bytes of the locals, \<open>mode_buf\<close> the next 10\<close>
  "isr80h_command10_fopen hw frame s = do {
     (user_space_filename_buffer, s) \<leftarrow> stack_item 1 s;
     (user_space_mode_buffer, s) \<leftarrow> stack_item 0 s;
     (_, s) \<leftarrow> copy_string user_space_filename_buffer (hw_locals hw) 1024 s;
     (_, s) \<leftarrow> copy_string user_space_mode_buffer (hw_locals hw + 1024) 10 s;
     (fp, s) \<leftarrow> process_fopen (cur_process s) (load_bytes (os_mem s) (hw_locals hw) 1024)
                   (load_bytes (os_mem s) (hw_locals hw + 1024) 10) s;
     Some (Returns fp, s)
   }"

definition isr80h_command11_fclose :: "'w handler" where
  "isr80h_command11_fclose frame s = do {
     (fp, s) \<leftarrow> stack_item 0 s;
     (res, s) \<leftarrow> process_fclose fp s;
     Some (Returns (error_value res), s)
   }"

definition fp_outside :: "'w os \<Rightarrow> u32 \<Rightarrow> bool" where
  \<comment> \<open>\<open>fp < task_current()->process->iob || fp > task_current()->process->iob + NFILE\<close>\<close>
  "fp_outside s fp \<longleftrightarrow> fp < cur_process s + process_iob \<or> slot (cur_process s + process_iob) NFILE < fp"

definition isr80h_command12_fread :: "'w handler" where
  "isr80h_command12_fread frame s = do {
     (fp, s) \<leftarrow> stack_item 0 s;
     if fp_outside s fp then Some (Returns (error_value (- EINVARG)), s)
     else do {
       (count, s) \<leftarrow> stack_item 1 s;
       (virt, s) \<leftarrow> stack_item 2 s;
       let out = to_physical virt s;
       ((res, bs), s) \<leftarrow> on_vfs (\<lambda>v. do { (res, bs, v) \<leftarrow> fread v (sint (load32 (km_mem (v_k v)) fp)) (sint count); Some ((res, bs), v) }) s;
       Some (Returns (error_value res), put_mem (store_bytes (os_mem s) out bs) s)
     }
   }"

definition isr80h_command13_fwrite :: "'w handler" where
  "isr80h_command13_fwrite frame s = do {
     (fp, s) \<leftarrow> stack_item 0 s;
     if fp_outside s fp then Some (Returns (error_value (- EINVARG)), s)
     else do {
       (count, s) \<leftarrow> stack_item 1 s;
       (virt, s) \<leftarrow> stack_item 2 s;
       let buf = to_physical virt s;
       (res, s) \<leftarrow> on_vfs (\<lambda>v. fwrite v (sint (load32 (km_mem (v_k v)) fp))
                       (if buf = 0 then None else Some (load_bytes (km_mem (v_k v)) buf (unat count))) (sint count)) s;
       Some (Returns (error_value res), s)
     }
   }"

definition isr80h_command18_write_sector :: "'w hw \<Rightarrow> 'w handler" where
  "isr80h_command18_write_sector hw frame s =
     (if \<not> is_priv s then Some (Returns (error_value (- ENOTPRIV)), s)
      else do {
        (sector_num, s) \<leftarrow> stack_item 0 s;
        (index, s) \<leftarrow> stack_item 1 s;
        d \<leftarrow> disk_get (v_disks (os_vfs s)) (sint index);
        case d of
          None \<Rightarrow> Some (Returns (error_value (- EINVARG)), s)
        | Some disk \<Rightarrow> do {
            (virt, s) \<leftarrow> stack_item 2 s;
            let buf = load_bytes (os_mem s) (to_physical virt s) 512;
            (res, s) \<leftarrow> on_world (\<lambda>w. disk_write_block (hw_ops hw) w disk sector_num 1 buf) s;
            Some (Returns (error_value res), s)
          }
      })"

definition isr80h_command19_read_sector :: "'w hw \<Rightarrow> 'w handler" where
  "isr80h_command19_read_sector hw frame s =
     (if \<not> is_priv s then Some (Returns (error_value (- ENOTPRIV)), s)
      else do {
        (sector_num, s) \<leftarrow> stack_item 0 s;
        (index, s) \<leftarrow> stack_item 1 s;
        d \<leftarrow> disk_get (v_disks (os_vfs s)) (sint index);
        case d of
          None \<Rightarrow> Some (Returns (error_value (- EINVARG)), s)
        | Some disk \<Rightarrow> do {
            (virt, s) \<leftarrow> stack_item 2 s;
            let buf = to_physical virt s;
            ((res, bs), s) \<leftarrow> on_world (\<lambda>w. case disk_read_block (hw_ops hw) w disk sector_num 1 of (res, bs, w) \<Rightarrow> Some ((res, bs), w)) s;
            Some (Returns (error_value res), put_mem (store_bytes (os_mem s) buf bs) s)
          }
      })"

definition store_date :: "mem \<Rightarrow> u32 \<Rightarrow> date_time \<Rightarrow> mem" where
  \<comment> \<open>the layout of \<open>struct date_time\<close>: five bytes, the year at offset 8, the century at 12\<close>
  "store_date m a d =
     store32 (m(a := dt_seconds d, a + 1 := dt_minutes d, a + 2 := dt_hours d, a + 3 := dt_day d, a + 4 := dt_month d,
       a + 12 := dt_century d)) (a + 8) (dt_year d)"

definition store_stat :: "mem \<Rightarrow> u32 \<Rightarrow> filestat \<Rightarrow> mem" where
  "store_stat m a st =
     (let m = store32 m a (st_flags st);
          m = store32 m (a + 4) (st_filesize st);
          m = store_date m (a + 8) (st_creation st)
      in store_date m (a + 24) (st_last_access st))"

definition load_date :: "mem \<Rightarrow> u32 \<Rightarrow> date_time" where
  "load_date m a = \<lparr>dt_seconds = m a, dt_minutes = m (a + 1), dt_hours = m (a + 2), dt_day = m (a + 3), dt_month = m (a + 4),
     dt_year = load32 m (a + 8), dt_century = m (a + 12)\<rparr>"

definition load_stat :: "mem \<Rightarrow> u32 \<Rightarrow> filestat" where
  "load_stat m a = \<lparr>st_flags = load32 m a, st_filesize = load32 m (a + 4), st_creation = load_date m (a + 8),
     st_last_access = load_date m (a + 24)\<rparr>"

definition isr80h_command20_fstat :: "'w handler" where
  "isr80h_command20_fstat frame s = do {
     (fp, s) \<leftarrow> stack_item 0 s;
     if fp_outside s fp then Some (Returns (error_value (- EINVARG)), s)
     else do {
       (virt, s) \<leftarrow> stack_item 1 s;
       let stat = to_physical virt s;
       ((res, st), s) \<leftarrow> on_vfs (\<lambda>v. do { (res, st, v) \<leftarrow> fstat v (sint (load32 (km_mem (v_k v)) fp)) (load_stat (os_mem s) stat); Some ((res, st), v) }) s;
       Some (Returns (error_value res), put_mem (store_stat (os_mem s) stat st) s)
     }
   }"

definition isr80h_command21_ftell :: "'w handler" where
  "isr80h_command21_ftell frame s = do {
     (fp, s) \<leftarrow> stack_item 0 s;
     if fp_outside s fp then Some (Returns (error_value (- EINVARG)), s)
     else do {
       (res, s) \<leftarrow> on_vfs (\<lambda>v. do { res \<leftarrow> ftell v (sint (load32 (km_mem (v_k v)) fp)); Some (res, v) }) s;
       Some (Returns (error_value res), s)
     }
   }"

definition isr80h_command22_fseek :: "'w handler" where
  "isr80h_command22_fseek frame s = do {
     (fp, s) \<leftarrow> stack_item 0 s;
     if fp_outside s fp then Some (Returns (error_value (- EINVARG)), s)
     else do {
       (offset, s) \<leftarrow> stack_item 1 s;
       (whence, s) \<leftarrow> stack_item 2 s;
       (res, s) \<leftarrow> on_vfs (\<lambda>v. fseek v (sint (load32 (km_mem (v_k v)) fp)) (sint offset) whence) s;
       Some (Returns (error_value res), s)
     }
   }"

definition isr80h_command23_remove :: "'w hw \<Rightarrow> 'w handler" where
  \<comment> \<open>the mode is the string \<open>rw\<close>\<close>
  "isr80h_command23_remove hw frame s = do {
     (user_space_filename_buffer, s) \<leftarrow> stack_item 0 s;
     (_, s) \<leftarrow> copy_string user_space_filename_buffer (hw_locals hw) 1024 s;
     (fd, s) \<leftarrow> os_fopen (load_bytes (os_mem s) (hw_locals hw) 1024) [114, 119, 0] s;
     if fd < 1 then Some (Returns 0, s)
     else do { (_, s) \<leftarrow> on_vfs (\<lambda>v. fdelete v fd) s; Some (Returns 0, s) }
   }"

section \<open>Sound and memory\<close>

definition isr80h_command26_play_sound :: "'w hw \<Rightarrow> 'w handler" where
  "isr80h_command26_play_sound hw frame s = do {
     (hertz, s) \<leftarrow> stack_item 0 s;
     (_, s) \<leftarrow> on_world (\<lambda>w. do { w \<leftarrow> play (hw_ops hw) hertz w; Some ((), w) }) s;
     Some (Returns 0, s)
   }"

definition isr80h_command27_quit_sound :: "'w hw \<Rightarrow> 'w handler" where
  "isr80h_command27_quit_sound hw frame s = do {
     (_, s) \<leftarrow> on_world (\<lambda>w. Some ((), quit_sound (hw_ops hw) w)) s;
     Some (Returns 0, s)
   }"

definition isr80h_command4_malloc :: "'w handler" where
  "isr80h_command4_malloc frame s = do {
     (sz, s) \<leftarrow> stack_item 0 s;
     (ptr, s) \<leftarrow> process_malloc (cur_process s) sz s;
     Some (Returns ptr, s)
   }"

definition isr80h_command5_free :: "'w handler" where
  "isr80h_command5_free frame s = do {
     (ptr_to_free, s) \<leftarrow> stack_item 0 s;
     s \<leftarrow> process_free (cur_process s) ptr_to_free s;
     Some (Returns 0, s)
   }"

section \<open>Processes\<close>

definition SERPAEOS_REMOTE_DISCONNECTED :: int where "SERPAEOS_REMOTE_DISCONNECTED = 0xDDCECED"

definition isr80h_command0_exit :: "'w hw \<Rightarrow> 'w handler" where
  \<comment> \<open>\<open>None\<close> when \<open>acpi_poweroff\<close> does not return\<close>
  "isr80h_command0_exit hw frame s = do {
     let process = cur_process s;
     (_, s) \<leftarrow> (if get32 s (process + process_id) = 0
              then on_world (\<lambda>w. case acpi_poweroff (hw_ops hw) (hw_acpi hw) w of (returned, w) \<Rightarrow> if returned then Some ((), w) else None) s else Some ((), s));
     (res, s) \<leftarrow> stack_item 0 s;
     codes \<leftarrow> wr (ret_codes s) (unat (get32 s (process + process_id))) (sint res);
     (_, s) \<leftarrow> process_terminate process (s\<lparr>ret_codes := codes\<rparr>);
     next_task s
   }"

definition isr80h_command6_process_load_start :: "'w hw \<Rightarrow> 'w handler" where
  \<comment> \<open>\<open>filename\<close> takes the first 108 bytes of the locals, \<open>path\<close> the next 108\<close>
  "isr80h_command6_process_load_start hw frame s = do {
     (filename_userspace, s) \<leftarrow> stack_item 0 s;
     (res, s) \<leftarrow> copy_string filename_userspace (hw_locals hw) (int SERPAEOS_MAX_PATH) s;
     if res < 0 then Some (Returns (error_value res), s)
     else do {
       path \<leftarrow> strcpy (load_bytes (os_mem s) (hw_locals hw + 108) SERPAEOS_MAX_PATH) (cstr ''0:/'');
       rest \<leftarrow> strcpy (drop 3 path) (load_bytes (os_mem s) (hw_locals hw) SERPAEOS_MAX_PATH);
       (res, process, s) \<leftarrow> process_load_switch (take 3 path @ rest) (hw_garbage hw) 0 (hw_garbage hw) s;
       if res < 0 then Some (Returns (error_value res), s)
       else resume_task (get32 s (process + process_task)) s
     }
   }"

definition run :: "'w hw \<Rightarrow> u8 list \<Rightarrow> u8 list \<Rightarrow> u32 \<Rightarrow> nat \<Rightarrow> u32 \<Rightarrow> 'w os \<Rightarrow> (int \<times> u32 \<times> 'w os) option" where
  "run hw program location process sz host s = do {
     path \<leftarrow> strcpy (load_bytes (os_mem s) (hw_locals hw) SERPAEOS_MAX_PATH) location;
     rest \<leftarrow> strncpy (drop sz path) program (int SERPAEOS_MAX_PATH - int sz);
     process_load_switch (take sz path @ rest) process host (hw_garbage hw) s
   }"

definition run_anywhere :: "'w hw \<Rightarrow> u32 \<Rightarrow> u32 \<Rightarrow> 'w os \<Rightarrow> (int \<times> u32 \<times> 'w os) option" where
  \<comment> \<open>the label \<open>loc_switch\<close>; the third location is a null pointer, the string at address 0\<close>
  "run_anywhere hw program_name host s = do {
     let name = (\<lambda>s :: 'w os. load_bytes (os_mem s) program_name 512);
     (res, process, s) \<leftarrow> run hw (name s) (cstr ''0:/sys/bin/'') 0 11 host s;
     if res = 0 then Some (res, process, s)
     else do {
       (res, process, s) \<leftarrow> run hw (name s) (cstr ''0:/usr/bin/'') process 11 host s;
       if res = 0 then Some (res, process, s)
       else run hw (name s) (load_bytes (os_mem s) 0 SERPAEOS_MAX_PATH) process 0 host s
     }
   }"

definition isr80h_command7_invoke_system_command :: "'w hw \<Rightarrow> 'w handler" where
  "isr80h_command7_invoke_system_command hw frame s = do {
     (virt, s) \<leftarrow> stack_item 0 s;
     let arguments = to_physical virt s;
     len \<leftarrow> (if arguments = 0 then Some 0 else strlen (load_bytes (os_mem s) arguments 512));
     if len = 0 then Some (Returns (error_value (- EINVARG)), s)
     else do {
       he \<leftarrow> istrncmp (cstr ''he'') (load_bytes (os_mem s) arguments 512) 512;
       let hosted = (he = 0);
       let root = (if hosted then get32 s (arguments + command_argument_next) else arguments);
       s \<leftarrow> (if hosted then os_print [10, 0] s else Some s);
       pr \<leftarrow> istrncmp (cstr ''0:/sys/bin/pr'') (load_bytes (os_mem s) (cur_process s + process_filename) SERPAEOS_MAX_PATH) SERPAEOS_MAX_PATH;
       let priv = (if pr = 0 then 1 else 0);
       let host = (if hosted then cur_process s else 0);
       let s = (if hosted then put8 (cur_process s + process_currently_hosting) 1 s else s);
       (res, process, s) \<leftarrow> run_anywhere hw root host s;
       if res \<noteq> 0 then Some (Returns (error_value (- EINVARG)), s)
       else do {
         (res, s) \<leftarrow> process_inject_arguments process root s;
         if res < 0 then Some (Returns (error_value (- EINVARG)), s)
         else let s = put8 (process + process_priv) priv s in resume_task (get32 s (process + process_task)) s
       }
     }
   }"

definition isr80h_command8_get_program_arguments :: "'w handler" where
  "isr80h_command8_get_program_arguments frame s = do {
     let process = cur_process s;
     (virt, s) \<leftarrow> stack_item 0 s;
     let args = to_physical virt s;
     let s = put32 args (fst (process_get_arguments s process)) s;
     Some (Returns 0, put32 (args + 4) (snd (process_get_arguments s process)) s)
   }"

definition isr80h_command14_remote_terminate :: "'w handler" where
  "isr80h_command14_remote_terminate frame s = do {
     (pid, s) \<leftarrow> stack_item 0 s;
     if pid = get32 s (cur_process s + process_id) then Some (Returns (error_value (- EINVARG)), s)
     else if \<not> is_priv s then Some (Returns (error_value (- ENOTPRIV)), s)
     else if sint pid \<le> 0 \<or> int SERPAEOS_MAX_PROCESSES < sint pid then Some (Returns (error_value (- EINVARG)), s)
     else do {
       codes \<leftarrow> wr (ret_codes s) (unat pid) SERPAEOS_REMOTE_DISCONNECTED;
       let s = s\<lparr>ret_codes := codes\<rparr>;
       p \<leftarrow> process_get s (sint pid);
       (res, s) \<leftarrow> process_terminate p s;
       Some (Returns (error_value res), s)
     }
   }"

definition isr80h_command15_process_inf :: "'w handler" where
  \<comment> \<open>\<open>process + sizeof(struct process)\<close> counts in structures, not in bytes\<close>
  "isr80h_command15_process_inf frame s =
     (if \<not> is_priv s then Some (Returns 0, s)
      else do {
        (pid, s) \<leftarrow> stack_item 0 s;
        process \<leftarrow> process_get s (sint pid);
        if process = 0 then Some (Returns 0, s)
        else case paging_map_to (os_mem s) (fld (os_mem s) (cur_task s) task_page_directory) process process
                    (paging_align_address (process + sizeof_process * sizeof_process)) 5 of (res, m) \<Rightarrow>
          Some (Returns (if res \<noteq> 0 then 0 else process), put_mem m s)
      })"

definition loadEAX :: "u32 \<Rightarrow> u32" where "loadEAX v = v"

fun push_arguments :: "nat \<Rightarrow> u32 \<Rightarrow> u32 \<Rightarrow> 'w os \<Rightarrow> 'w os option" where
  \<comment> \<open>\<open>n\<close> arguments are left, the next one is \<open>arguments[n - 1]\<close>\<close>
  "push_arguments 0 task arguments s = Some s"
| "push_arguments (Suc n) task arguments s = do {
     c \<leftarrow> task_push_stack_item task (get32 s (slot arguments n)) (os_s s);
     push_arguments n task arguments (s\<lparr>os_s := c\<rparr>)
   }"

definition isr80h_command16_new_thread :: "'w handler" where
  "isr80h_command16_new_thread frame s = do {
     let process = cur_process s;
     (virtual_start_addr, s) \<leftarrow> stack_item 0 s;
     (arg_count, s) \<leftarrow> stack_item 1 s;
     (virt, s) \<leftarrow> stack_item 2 s;
     let arguments = to_physical virt s;
     (new_task, s) \<leftarrow> on_sched (task_add_to_process process virtual_start_addr) s;
     if iserr new_task then Some (Returns 0, s)
     else do {
       s \<leftarrow> push_arguments (nat (sint arg_count)) new_task arguments s;
       let eax = loadEAX new_task;
       resume_task new_task s
     }
   }"

definition isr80h_command255_get_retcode :: "'w handler" where
  "isr80h_command255_get_retcode frame s =
     (if \<not> is_priv s then Some (Returns (error_value (- ENOTPRIV)), s)
      else do {
        (process, s) \<leftarrow> stack_item 0 s;
        code \<leftarrow> (if sint process < 0 then None else rd (ret_codes s) (unat process));
        Some (Returns (error_value code), s)
      })"

section \<open>Interrupts\<close>

definition SERPAEOS_TOTAL_INTERRUPTS :: nat where "SERPAEOS_TOTAL_INTERRUPTS = 512"
definition SERPAEOS_MAX_ISR80H_COMMANDS :: nat where "SERPAEOS_MAX_ISR80H_COMMANDS = 1024"
definition KERNEL_CODE_SELECTOR :: u16 where "KERNEL_CODE_SELECTOR = 0x08"

lemmas idt_consts = SERPAEOS_TOTAL_INTERRUPTS_def SERPAEOS_MAX_ISR80H_COMMANDS_def KERNEL_CODE_SELECTOR_def

record idt_desc =
  offset_1 :: u16
  selector :: u16
  idt_zero :: u8
  type_attr :: u8
  offset_2 :: u16

type_synonym 'w callback = "'w os \<Rightarrow> (unit outcome \<times> 'w os) option"

record 'w idt =
  idt_descriptors :: "idt_desc list"
  interrupt_callbacks :: "'w callback option list"
  isr80h_commands :: "'w handler option list"

definition idt_set :: "int \<Rightarrow> u32 \<Rightarrow> 'w idt \<Rightarrow> 'w idt option" where
  "idt_set interrupt_no address t = do {
     ds \<leftarrow> wr (idt_descriptors t) (nat interrupt_no)
            \<lparr>offset_1 = ucast (address AND 0x0000ffff), selector = KERNEL_CODE_SELECTOR, idt_zero = 0, type_attr = 0xEE,
             offset_2 = ucast (drop_bit 16 address)\<rparr>;
     Some (t\<lparr>idt_descriptors := ds\<rparr>)
   }"

definition outb_eoi :: "'w hw \<Rightarrow> 'w os \<Rightarrow> 'w os" where
  \<comment> \<open>\<open>outb(0x20, 0x20)\<close>\<close>
  "outb_eoi hw s = s\<lparr>os_vfs := (os_vfs s)\<lparr>v_world := outb (hw_ops hw) 0x20 0x20 (v_world (os_vfs s))\<rparr>\<rparr>"

definition no_interrupt_handler :: "'w hw \<Rightarrow> 'w os \<Rightarrow> 'w os" where
  "no_interrupt_handler hw s = outb_eoi hw s"

definition os_save_state :: "interrupt_frame \<Rightarrow> 'w os \<Rightarrow> 'w os option" where
  "os_save_state frame s = do { c \<leftarrow> task_current_save_state frame (os_s s); Some (s\<lparr>os_s := c\<rparr>) }"

definition interrupt_handler :: "'w hw \<Rightarrow> 'w idt \<Rightarrow> int \<Rightarrow> interrupt_frame \<Rightarrow> 'w os \<Rightarrow> (unit outcome \<times> 'w os) option" where
  \<comment> \<open>a callback that leaves through \<open>task_return\<close> does not come back\<close>
  "interrupt_handler hw t interrupt frame s = do {
     let s = s\<lparr>os_s := kernel_page (os_s s)\<rparr>;
     callback \<leftarrow> rd (interrupt_callbacks t) (nat interrupt);
     (r, s) \<leftarrow> (case callback of
                 None \<Rightarrow> Some (Returns (), s)
               | Some f \<Rightarrow> do { s \<leftarrow> os_save_state frame s; f s });
     case r of
       Resumes regs \<Rightarrow> Some (Resumes regs, s)
     | Returns _ \<Rightarrow> Some (Returns (), outb_eoi hw (s\<lparr>os_s := task_page (os_s s)\<rparr>))
   }"

definition idt_handle_exception_generic :: "'w callback" where
  "idt_handle_exception_generic s = do {
     s \<leftarrow> (if main_task (os_mem s) (cur_task s)
          then do { (_, s) \<leftarrow> process_terminate (cur_process s) s; Some s }
          else do { (_, s) \<leftarrow> on_sched (task_free (cur_task s)) s; Some s });
     next_task s
   }"

definition idt_clock :: "'w hw \<Rightarrow> 'w callback" where
  "idt_clock hw s = do {
     let s = outb_eoi hw s;
     (now, s) \<leftarrow> on_world (cmos_read_RTC (hw_ops hw) (hw_century hw) (os_now s)) s;
     (_, s) \<leftarrow> on_world (\<lambda>w. Some ((), hw_set_now hw now w)) s;
     next_task (s\<lparr>os_now := now\<rparr>)
   }"

definition idt_register_interrupt_callback :: "int \<Rightarrow> 'w callback \<Rightarrow> 'w idt \<Rightarrow> int \<times> 'w idt" where
  "idt_register_interrupt_callback interrupt interrupt_callback t =
     (if interrupt < 0 \<or> int SERPAEOS_TOTAL_INTERRUPTS \<le> interrupt then (- EINVARG, t)
      else (0, t\<lparr>interrupt_callbacks := (interrupt_callbacks t)[nat interrupt := Some interrupt_callback]\<rparr>))"

fun idt_set_all :: "u32 list \<Rightarrow> nat \<Rightarrow> 'w idt \<Rightarrow> 'w idt option" where
  \<comment> \<open>the first loop of \<open>idt_init\<close> over \<open>interrupt_pointer_table\<close>\<close>
  "idt_set_all [] i t = Some t"
| "idt_set_all (address # addresses) i t = do { t \<leftarrow> idt_set (int i) address t; idt_set_all addresses (Suc i) t }"

fun register_exceptions :: "nat \<Rightarrow> nat \<Rightarrow> 'w idt \<Rightarrow> 'w idt" where
  "register_exceptions 0 i t = t"
| "register_exceptions (Suc n) i t =
     register_exceptions n (Suc i) (snd (idt_register_interrupt_callback (int i) idt_handle_exception_generic t))"

definition idt_init :: "'w hw \<Rightarrow> u32 list \<Rightarrow> u32 \<Rightarrow> 'w idt \<Rightarrow> 'w idt option" where
  \<comment> \<open>\<open>interrupt_pointer_table\<close> and the address of \<open>isr80h_wrapper\<close> come from the assembly part\<close>
  "idt_init hw interrupt_pointer_table isr80h_wrapper t = do {
     let t = t\<lparr>idt_descriptors := replicate SERPAEOS_TOTAL_INTERRUPTS
                 \<lparr>offset_1 = 0, selector = 0, idt_zero = 0, type_attr = 0, offset_2 = 0\<rparr>\<rparr>;
     t \<leftarrow> idt_set_all (take SERPAEOS_TOTAL_INTERRUPTS interrupt_pointer_table) 0 t;
     t \<leftarrow> idt_set 0x80 isr80h_wrapper t;
     let t = register_exceptions 0x20 0 t;
     Some (snd (idt_register_interrupt_callback 0x20 (idt_clock hw) t))
   }"

section \<open>Dispatching system calls\<close>

definition isr80h_register_command :: "int \<Rightarrow> 'w handler \<Rightarrow> 'w idt \<Rightarrow> 'w idt" where
  "isr80h_register_command command_id command t =
     (if command_id < 0 \<or> int SERPAEOS_MAX_ISR80H_COMMANDS \<le> command_id then t
      else if isr80h_commands t ! nat command_id \<noteq> None then t
      else t\<lparr>isr80h_commands := (isr80h_commands t)[nat command_id := Some command]\<rparr>)"

definition isr80h_handle_command :: "'w idt \<Rightarrow> int \<Rightarrow> 'w handler" where
  "isr80h_handle_command t command frame s =
     (if command < 0 \<or> int SERPAEOS_MAX_ISR80H_COMMANDS \<le> command then Some (Returns 0, s)
      else do {
        command_func \<leftarrow> rd (isr80h_commands t) (nat command);
        case command_func of None \<Rightarrow> Some (Returns 0, s) | Some f \<Rightarrow> f frame s
      })"

definition isr80h_handler :: "'w idt \<Rightarrow> int \<Rightarrow> 'w handler" where
  "isr80h_handler t command frame s = do {
     let s = s\<lparr>os_s := kernel_page (os_s s)\<rparr>;
     s \<leftarrow> os_save_state frame s;
     (r, s) \<leftarrow> isr80h_handle_command t command frame s;
     case r of
       Resumes regs \<Rightarrow> Some (Resumes regs, s)
     | Returns res \<Rightarrow> Some (Returns res, s\<lparr>os_s := task_page (os_s s)\<rparr>)
   }"

definition isr80h_command_list :: "'w hw \<Rightarrow> (int \<times> 'w handler) list" where
  \<comment> \<open>the calls in \<open>isr80h_register_commands\<close>, with the numbers of \<open>enum SystemCommands\<close>\<close>
  "isr80h_command_list hw =
     [(0, isr80h_command0_exit hw), (1, isr80h_command1_print hw), (2, isr80h_command2_getkey), (3, isr80h_command3_putchar),
      (4, isr80h_command4_malloc), (5, isr80h_command5_free), (6, isr80h_command6_process_load_start hw),
      (8, isr80h_command8_get_program_arguments), (7, isr80h_command7_invoke_system_command hw), (9, isr80h_command9_clrscr),
      (10, isr80h_command10_fopen hw), (11, isr80h_command11_fclose), (12, isr80h_command12_fread), (13, isr80h_command13_fwrite),
      (14, isr80h_command14_remote_terminate), (15, isr80h_command15_process_inf), (16, isr80h_command16_new_thread),
      (18, isr80h_command18_write_sector hw), (19, isr80h_command19_read_sector hw), (20, isr80h_command20_fstat),
      (21, isr80h_command21_ftell), (22, isr80h_command22_fseek), (23, isr80h_command23_remove hw),
      (24, isr80h_command24_set_cursor), (25, isr80h_command25_draw_block), (26, isr80h_command26_play_sound hw),
      (27, isr80h_command27_quit_sound hw), (255, isr80h_command255_get_retcode)]"

definition isr80h_register_commands :: "'w hw \<Rightarrow> 'w idt \<Rightarrow> 'w idt" where
  "isr80h_register_commands hw t = fold (\<lambda>(command_id, command). isr80h_register_command command_id command) (isr80h_command_list hw) t"

section \<open>What a system call number does\<close>

lemma register_command_effect:
  assumes "length (isr80h_commands t) = SERPAEOS_MAX_ISR80H_COMMANDS" and "0 \<le> n" and "n < int SERPAEOS_MAX_ISR80H_COMMANDS"
    and "i < SERPAEOS_MAX_ISR80H_COMMANDS"
  shows "length (isr80h_commands (isr80h_register_command n f t)) = SERPAEOS_MAX_ISR80H_COMMANDS"
    "isr80h_commands (isr80h_register_command n f t) ! i =
       (if isr80h_commands t ! i = None \<and> int i = n then Some f else isr80h_commands t ! i)"
  using assms by (auto simp: isr80h_register_command_def nth_list_update)

lemma register_commands_effect:
  assumes "length (isr80h_commands t) = SERPAEOS_MAX_ISR80H_COMMANDS" and "i < SERPAEOS_MAX_ISR80H_COMMANDS"
    and "\<forall>(n, f) \<in> set xs. 0 \<le> n \<and> n < int SERPAEOS_MAX_ISR80H_COMMANDS"
  shows "isr80h_commands (fold (\<lambda>(n, f). isr80h_register_command n f) xs t) ! i =
     (case isr80h_commands t ! i of None \<Rightarrow> map_of xs (int i) | Some f \<Rightarrow> Some f) \<and>
     length (isr80h_commands (fold (\<lambda>(n, f). isr80h_register_command n f) xs t)) = SERPAEOS_MAX_ISR80H_COMMANDS"
  using assms
proof (induction xs arbitrary: t)
  case (Cons x xs)
  obtain n f where x: "x = (n, f)" by (cases x)
  have n: "0 \<le> n" "n < int SERPAEOS_MAX_ISR80H_COMMANDS" using Cons.prems(3) x by auto
  note e = register_command_effect [OF Cons.prems(1) n Cons.prems(2), of f]
  show ?case using Cons.IH [OF e(1) Cons.prems(2)] e(2) Cons.prems(3) x by (auto split: option.splits)
qed (auto split: option.splits)

lemma dispatch_eq:
  assumes "isr80h_commands t = replicate SERPAEOS_MAX_ISR80H_COMMANDS None"
  shows "isr80h_handle_command (isr80h_register_commands hw t) n frame s =
     (case map_of (isr80h_command_list hw) n of None \<Rightarrow> Some (Returns 0, s) | Some f \<Rightarrow> f frame s)"
proof (cases "n < 0 \<or> int SERPAEOS_MAX_ISR80H_COMMANDS \<le> n")
  case True
  then have "map_of (isr80h_command_list hw) n = None" by (auto simp: isr80h_command_list_def idt_consts)
  with True show ?thesis by (simp add: isr80h_handle_command_def)
next
  case False
  let ?t = "isr80h_register_commands hw t"
  have i: "nat n < SERPAEOS_MAX_ISR80H_COMMANDS" "int (nat n) = n" using False by (simp_all add: nat_less_iff)
  have k: "\<forall>(n, f) \<in> set (isr80h_command_list hw). 0 \<le> n \<and> n < int SERPAEOS_MAX_ISR80H_COMMANDS"
    by (simp add: isr80h_command_list_def idt_consts)
  note e = register_commands_effect [OF _ i(1) k, of t, folded isr80h_register_commands_def]
  have "isr80h_commands ?t ! nat n = map_of (isr80h_command_list hw) n" "nat n < length (isr80h_commands ?t)"
    using e assms i by simp_all
  with False show ?thesis by (simp add: isr80h_handle_command_def)
qed

text \<open>C35: the dispatcher is the table of system calls. Once \<open>isr80h_register_commands\<close> has run on an empty table, a call with any
  number runs the handler that is listed under that number and, for every number that is not listed (negative and too large ones included),
  returns 0 and changes nothing.\<close>

theorem isr80h_dispatch:
  assumes "isr80h_commands t = replicate SERPAEOS_MAX_ISR80H_COMMANDS None"
  shows "isr80h_handle_command (isr80h_register_commands hw t) n frame s =
     (case map_of (isr80h_command_list hw) n of None \<Rightarrow> Some (Returns 0, s) | Some f \<Rightarrow> f frame s)"
  by (rule dispatch_eq [OF assms])

theorem isr80h_dispatch_witness:
  "\<forall>(hw :: unit hw) frame s. isr80h_handle_command (isr80h_register_commands hw \<lparr>idt_descriptors = [], interrupt_callbacks = [], isr80h_commands = replicate 1024 None\<rparr>)
     17 frame s = Some (Returns 0, s)"
  by (subst isr80h_dispatch) (simp_all add: idt_consts isr80h_command_list_def)

section \<open>Reading the stack of the caller\<close>

lemma lower_page: "paging_align_to_lower_page v = page_base v"
proof -
  have "v mod 4096 = take_bit 12 v" by (simp add: take_bit_eq_mod)
  then show ?thesis using bits_ident [of 12 v] by (simp add: paging_align_to_lower_page_def paging_consts page_base_eq algebra_simps)
qed

definition maps_page :: "mem \<Rightarrow> u32 \<Rightarrow> u32 \<Rightarrow> u32 \<Rightarrow> bool" where
  \<comment> \<open>the address space \<open>chunk\<close> has a page present for \<open>v\<close>, in the frame \<open>pp\<close>\<close>
  "maps_page m chunk v pp \<longleftrightarrow> page_base pp = pp \<and> (\<exists>f. translate m chunk (page_base v) = pp OR f \<and> page_base f = 0 \<and> bit f 0)"

lemma mmu_maps_page:
  assumes "maps_page m chunk v pp" and "page_base u = page_base v"
  shows "mmu m (load32 m chunk) u = Some (pp + (u - page_base u))"
proof -
  obtain f where f: "page_base pp = pp" "translate m chunk (page_base v) = pp OR f" "page_base f = 0" "bit f 0"
    using assms(1) by (auto simp: maps_page_def)
  have "(pp OR f) AND 0xfffff000 = pp" using page_base_flags [OF f(1,3)] by (simp add: page_base_def)
  then show ?thesis using f(2,4) assms(2) by (simp add: mmu_def lower_page translate_def bit_simps)
qed

lemma aligned_same_page:
  assumes "unat v mod 4 = 0" and "c < 4"
  shows "page_base (v + of_nat c) = page_base v"
proof -
  have u: "unat (v + of_nat c) = unat v + c" by (rule aligned_offset [OF assms])
  obtain q where q: "unat v = 4 * q" using assms(1) by (metis mod_0_imp_dvd dvdE)
  have "(4 * q + c) div 4 div 1024 = (4 * q) div 4 div 1024" using assms(2) by simp
  then have "(4 * q + c) div 4096 = (4 * q) div 4096" by (simp only: div_mult2_eq [symmetric]) simp
  then have "unat (page_base (v + of_nat c)) = unat (page_base v)" unfolding unat_page_base u q by simp
  then show ?thesis by (simp only: word_unat_eq_iff)
qed

lemma vload32_maps_page:
  assumes "maps_page m chunk v pp" and "unat v mod 4 = 0"
  shows "vload32 m (load32 m chunk) v = Some (load32 m (pp + (v - page_base v)))"
proof -
  have "vload8 m (load32 m chunk) (v + of_nat c) = Some (m (pp + (v - page_base v) + of_nat c))" if "c < 4" for c
    using mmu_maps_page [OF assms(1) aligned_same_page [OF assms(2) that]] aligned_same_page [OF assms(2) that]
    by (simp add: vload8_def algebra_simps)
  from this [of 0] this [of 1] this [of 2] this [of 3] show ?thesis by (simp add: vload32_def load32_le)
qed

definition caller_stack :: "'w os \<Rightarrow> u32 \<Rightarrow> bool" where
  \<comment> \<open>the stack pointer of the current task is aligned and its page is present in the frame \<open>pp\<close>\<close>
  "caller_stack s pp \<longleftrightarrow>
     (let sp = fld (os_mem s) (cur_task s) task_esp
      in unat sp mod 4 = 0 \<and> maps_page (os_mem s) (fld (os_mem s) (cur_task s) task_page_directory) sp pp)"

definition stack_word :: "'w os \<Rightarrow> u32 \<Rightarrow> u32" where
  \<comment> \<open>the word on top of that stack\<close>
  "stack_word s pp = (let sp = fld (os_mem s) (cur_task s) task_esp in load32 (os_mem s) (pp + (sp - page_base sp)))"

lemma kernel_page_task: "kernel_page (task_page_task t c) = kernel_page c"
  by (simp add: kernel_page_def task_page_task_def paging_switch_def)

lemma kernel_page_view [simp]: "sc_k (kernel_page c) = sc_k c" "current_task (kernel_page c) = current_task c"
  by (simp_all add: kernel_page_def)

lemma stack_item_eq:
  assumes "caller_stack s pp"
  shows "stack_item 0 s = Some (stack_word s pp, s\<lparr>os_s := kernel_page (os_s s)\<rparr>)"
proof -
  let ?t = "cur_task s" and ?sp = "fld (os_mem s) (cur_task s) task_esp"
  have "vload32 (os_mem s) (load32 (os_mem s) (fld (os_mem s) ?t task_page_directory)) ?sp = Some (stack_word s pp)"
    using vload32_maps_page assms by (simp add: caller_stack_def stack_word_def Let_def)
  then show ?thesis using kernel_page_task [of ?t "os_s s"]
    by (simp add: stack_item_def on_sched_def task_get_stack_item_def Let_def) (simp add: task_page_task_def paging_switch_def)
qed

text \<open>C36: closing a file clears any word of memory. The handler of \<open>fclose\<close> does not test the pointer a program passes, unlike those of
  the other file calls: whatever the address, if the word there is not the number of a file descriptor (it is at most 0 or at
  least 512), the call succeeds and the word is 0 afterwards, in the kernel, in a page table or in another process.\<close>

theorem fclose_clears_any_word:
  assumes "caller_stack s pp" and "stack_word s pp = fp"
    and "sint (get32 s fp) \<le> 0 \<or> 512 \<le> sint (get32 s fp)"
  shows "\<exists>s'. isr80h_command11_fclose frame s = Some (Returns 0, s') \<and> os_mem s' = store32 (os_mem s) fp 0"
proof -
  let ?s = "s\<lparr>os_s := kernel_page (os_s s)\<rparr>"
  let ?v = "(os_vfs ?s)\<lparr>v_k := sc_k (os_s ?s)\<rparr>"
  have m: "os_mem ?s = os_mem s" by simp
  then have g: "get32 ?s fp = get32 s fp" by (simp only: get32_def)
  have "file_get_descriptor ?v (sint (get32 s fp)) = Some None" using assms(3) by (auto simp: file_get_descriptor_def SERPAEOS_MAX_FILE_DESCRIPTORS_def)
  then have "fclose ?v (sint (get32 s fp)) = Some (- EIO, ?v)" by (simp add: fclose_def)
  then have "os_fclose (sint (get32 s fp)) ?s = Some (- EIO, ?s\<lparr>os_vfs := ?v\<rparr>)" by (simp add: os_fclose_def on_vfs_def)
  then have "process_fclose fp ?s = Some (0, put32 fp 0 (?s\<lparr>os_vfs := ?v\<rparr>))" unfolding process_fclose_def g by simp
  then show ?thesis using stack_item_eq [OF assms(1)] assms(2)
    by (simp add: isr80h_command11_fclose_def error_value_def)
qed

section \<open>The system call for memory\<close>

lemma process_at_task_page:
  assumes "process_at s p t chunk ts" and "\<forall>a. page_base a \<noteq> t \<longrightarrow> os_mem s' a = os_mem s a"
    and "fld (os_mem s') t task_page_directory = fld (os_mem s) t task_page_directory"
    and "kused (sc_k (os_s s')) = kused (sc_k (os_s s))"
  shows "process_at s' p t chunk ts" "allocs s' p = allocs s p"
    "paging_is_aligned v \<Longrightarrow> translate (os_mem s') chunk v = translate (os_mem s) chunk v"
proof -
  have at: "page_base p = p" "space (os_mem s) chunk ts" "get32 s (p + process_task) = t" "t \<notin> process_pages p"
    "t \<notin> set (chunk # load32 (os_mem s) chunk # ts)" using assms(1) by (auto simp: process_at_def)
  have pp: "page_base a \<in> process_pages p \<Longrightarrow> os_mem s' a = os_mem s a" for a using assms(2) at(4) by metis
  have sp: "page_base a \<in> set (chunk # load32 (os_mem s) chunk # ts) \<Longrightarrow> os_mem s' a = os_mem s a" for a using assms(2) at(5) by metis
  have c1: "load32 (os_mem s') chunk = load32 (os_mem s) chunk" by (rule space_cong(1) [OF at(2) sp])
  have c2: "space (os_mem s') chunk ts" by (rule space_cong(2) [OF at(2) sp])
  have f: "get32 s' (p + process_task) = t" using process_load [OF at(1) _ pp, of 124] at(3) by (simp add: get32_def layout)
  show "process_at s' p t chunk ts" using assms(1) unfolding process_at_def assms(3,4) c1 f by (simp only: c2 simp_thms)
  show "allocs s' p = allocs s p" by (rule allocs_cong [OF at(1) pp])
  show "translate (os_mem s') chunk v = translate (os_mem s) chunk v" if "paging_is_aligned v" by (rule space_cong(3) [OF at(2) sp that])
qed

lemma task_save_state_effect:
  fixes frame :: interrupt_frame and c :: sched
  assumes "page_base t = t"
  defines "c' \<equiv> task_save_state t frame c"
  shows "page_base a \<noteq> t \<Longrightarrow> sc_mem c' a = sc_mem c a" "fld (sc_mem c') t task_page_directory = fld (sc_mem c) t task_page_directory"
    "fld (sc_mem c') t task_process = fld (sc_mem c) t task_process" "fld (sc_mem c') t task_esp = i_esp frame"
    "fld (sc_mem c') t task_ip = i_ip frame" "km_heap (sc_k c') = km_heap (sc_k c)" "current_task c' = current_task c"
    "kernel_chunk c' = kernel_chunk c"
  unfolding c'_def task_save_state_def Let_def
  by (simp_all add: set_fld_frame [OF assms(1)] fld_set_fld [OF assms(1) assms(1)] layout)

definition frame_registers :: "interrupt_frame \<Rightarrow> u32 list" where
  \<comment> \<open>the registers of a trap in the order of \<open>struct registers\<close>\<close>
  "frame_registers frame = [i_edi frame, i_esi frame, i_ebp frame, i_ebx frame, i_edx frame, i_ecx frame, i_eax frame,
     i_ip frame, i_cs frame, i_flags frame, i_esp frame, i_ss frame]"

lemma task_save_state_registers:
  assumes "page_base t = t" and "j < 1024"
  shows "fld (sc_mem (task_save_state t frame c)) t j =
    (if 1 \<le> j \<and> j \<le> 12 then frame_registers frame ! (j - 1) else fld (sc_mem c) t j)"
proof -
  have "j = 0 \<or> j \<in> {1, 2, 3, 4, 5, 6} \<or> j \<in> {7, 8, 9, 10, 11, 12} \<or> 12 < j"
    unfolding insert_iff empty_iff by presburger
  then show ?thesis unfolding task_save_state_def Let_def
    by (elim disjE) (use assms in \<open>auto simp: fld_set_fld [OF assms(1) assms(1)] layout frame_registers_def\<close>)
qed

lemma process_malloc_keeps:
  assumes "process_malloc p sz s = Some (q, s')"
  shows "current_task (os_s s') = current_task (os_s s)"
  using assms
  by (auto simp: process_malloc_def os_kzalloc_def on_sched_def on_kmem_def os_kfree_def sched_kfree_def os_map_to_def put32_def put_mem_def
      bind_eq_Some_conv split: if_splits option.splits prod.splits)

text \<open>C13: the \<open>malloc\<close> system call from the trap to the return. A task that traps with call number 4 and a size of up to one page on its
  stack gets the address of a fresh block, which is entered in the allocation table of its process and mapped in its own address space as
  present, writable and accessible; all twelve registers of the trap frame are saved in its task structure, in the order
  of \<open>struct registers\<close>, and the other words of that page are kept; when the handler returns its own page directory is loaded again.\<close>
theorem malloc_system_call:
  assumes "isr80h_commands t0 = replicate SERPAEOS_MAX_ISR80H_COMMANDS None"
    and "os_ready s" and "process_at s p t chunk ts" and "cur_task s = t" and "t \<noteq> 0" and "fld (os_mem s) t task_process = p"
    and "unat (i_esp frame) mod 4 = 0" and "maps_page (os_mem s) chunk (i_esp frame) pp" and "pp \<noteq> t"
    and "sz = load32 (os_mem s) (pp + (i_esp frame - page_base (i_esp frame)))" and "0 < unat sz" and "unat sz \<le> 4096"
    and "i < 1024" and "fst (allocs s p ! i) = 0" and "\<forall>j < i. fst (allocs s p ! j) \<noteq> 0"
  shows "\<exists>q s'. isr80h_handler (isr80h_register_commands hw t0) 4 frame s = Some (Returns q, s') \<and> q \<noteq> 0 \<and>
     q \<notin> kused (sc_k (os_s s)) \<and> process_at s' p t chunk ts \<and> allocs s' p = (allocs s p)[i := (q, sz)] \<and>
     translate (os_mem s') chunk q = q OR 7 \<and> 
     map (fld (os_mem s') t) [1 ..< 13] = frame_registers frame \<and> (\<forall>j < 1024. j < 1 \<or> 13 \<le> j \<longrightarrow> fld (os_mem s') t j = fld (os_mem s) t j) \<and>
     cr3 (sc_paging (os_s s')) = load32 (os_mem s') chunk"
proof -
  let ?sp = "i_esp frame"
  have t: "page_base t = t" "t \<notin> process_pages p" "t \<notin> set ts" "t \<in> kused (sc_k (os_s s))" "fld (os_mem s) t task_page_directory = chunk"
    using assms(3) by (auto simp: process_at_def)
  define c where "c = task_save_state t frame (kernel_page (os_s s))"
  define s1 where "s1 = s\<lparr>os_s := c\<rparr>"
  note e = task_save_state_effect [OF t(1), where frame = frame and c = "kernel_page (os_s s)", folded c_def, simplified]
  have m1: "\<forall>a. page_base a \<noteq> t \<longrightarrow> os_mem s1 a = os_mem s a" using e(1) by (simp add: s1_def)
  have k1: "kused (sc_k (os_s s1)) = kused (sc_k (os_s s))" by (rule heap_view(2)) (simp add: s1_def e)
  have d1: "fld (os_mem s1) t task_page_directory = fld (os_mem s) t task_page_directory" by (simp add: s1_def e)
  note at1 = process_at_task_page [OF assms(3) m1 d1 k1]
  have save: "os_save_state frame (s\<lparr>os_s := kernel_page (os_s s)\<rparr>) = Some s1"
    using assms(4,5) by (simp add: os_save_state_def task_current_save_state_def cur_task_def s1_def c_def)
  have cur: "cur_task s1 = t" "cur_process s1 = p" using assms(4,6) by (simp_all add: cur_process_def cur_task_def s1_def e)
  have esp: "fld (os_mem s1) t task_esp = ?sp" by (simp add: s1_def e)
  have al: "paging_is_aligned (page_base ?sp)" by (simp add: aligned_page_base)
  have "caller_stack s1 pp"
    using assms(7,8) at1(3) [OF al] by (simp add: caller_stack_def cur esp d1 t(5) maps_page_def)
  moreover have "stack_word s1 pp = sz"
  proof -
    let ?a = "pp + (?sp - page_base ?sp)"
    have pb: "page_base pp = pp" using assms(8) by (simp add: maps_page_def)
    have o: "unat (?sp - page_base ?sp) < 4096" using in_page_iff [of "page_base ?sp" ?sp] by simp
    have "unat (?sp - page_base ?sp) mod 4 = 0"
    proof -
      have "unat (page_base ?sp) \<le> unat ?sp" using unat_page_base [of ?sp] by simp
      then have "unat (?sp - page_base ?sp) = unat ?sp - unat (page_base ?sp)" by (simp add: unat_sub word_le_nat_alt)
      moreover have "unat (page_base ?sp) mod 4 = 0" using page_mod4 [of "page_base ?sp"] by simp
      ultimately show ?thesis using assms(7) \<open>unat (page_base ?sp) \<le> unat ?sp\<close> by presburger
    qed
    then obtain n where n: "unat (?sp - page_base ?sp) = 4 * n" by (metis mod_0_imp_dvd dvdE)
    with o have "n < 1024" by simp
    have "load32 (os_mem s1) (slot pp n) = load32 (os_mem s) (slot pp n)"
      using m1 assms(9) by (intro load32_slot_cong [OF pb \<open>n < 1024\<close>]) simp
    moreover have "unat (of_nat (4 * n) :: u32) = 4 * n" using \<open>n < 1024\<close> by (simp only: unat_of_nat) (simp add: take_bit_nat_eq_self)
    then have "?sp - page_base ?sp = of_nat (4 * n)" using n by (simp only: word_unat_eq_iff)
    ultimately show ?thesis using assms(10) by (simp add: stack_word_def cur esp)
  qed
  ultimately have item: "stack_item 0 s1 = Some (sz, s1\<lparr>os_s := kernel_page c\<rparr>)" using stack_item_eq [of s1 pp] by (simp add: s1_def)
  let ?s2 = "s1\<lparr>os_s := kernel_page c\<rparr>"
  have m2: "os_mem ?s2 = os_mem s1" "kused (sc_k (os_s ?s2)) = kused (sc_k (os_s s1))" by (simp_all add: s1_def)
  have at2: "process_at ?s2 p t chunk ts" "allocs ?s2 p = allocs s p" "cur_process ?s2 = p" "cur_task ?s2 = t"
    using process_at_task_page(1,2) [OF at1(1), of ?s2] m2 at1(2) cur by (simp_all add: cur_process_def cur_task_def s1_def)
  have r2: "os_ready ?s2" using assms(2) heap_view [of "sc_k (os_s ?s2)" "sc_k (os_s s)"] by (simp add: os_ready_def s1_def e)
  have f: "fst (allocs ?s2 p ! i) = 0" "\<forall>j < i. fst (allocs ?s2 p ! j) \<noteq> 0" using assms(14,15) at2(2) by simp_all
  obtain q s' where q: "process_malloc p sz ?s2 = Some (q, s')" "q \<noteq> 0" "page_base q = q" "q \<notin> kused (sc_k (os_s ?s2))"
    "process_at s' p t chunk ts" "allocs s' p = (allocs ?s2 p)[i := (q, sz)]" "kinv (sc_k (os_s s'))"
    "kused (sc_k (os_s s')) = insert q (kused (sc_k (os_s ?s2)))" "kpages (sc_k (os_s s')) = insert q (kpages (sc_k (os_s ?s2)))"
    "Suc (kroom (sc_k (os_s s'))) = kroom (sc_k (os_s ?s2))"
    "\<forall>v. paging_is_aligned v \<longrightarrow> translate (os_mem s') chunk v = (if v = q then q OR 7 else translate (os_mem ?s2) chunk v)"
    "\<forall>a. unat (a - q) < unat sz \<longrightarrow> os_mem s' a = 0"
    "\<forall>a. page_base a \<in> kused (sc_k (os_s ?s2)) - process_pages p - set ts \<longrightarrow> os_mem s' a = os_mem ?s2 a"
    by (rule process_malloc_effect [OF r2 assms(11,12) at2(1) assms(13) f])
  let ?s3 = "s'\<lparr>os_s := task_page (os_s s')\<rparr>"
  have ct: "current_task (os_s s') = t" using process_malloc_keeps [OF q(1)] at2(4) by (simp add: cur_task_def)
  have "isr80h_handle_command (isr80h_register_commands hw t0) 4 frame s1 = Some (Returns q, s')"
    using item q(1) at2(3) by (simp add: dispatch_eq [OF assms(1)] isr80h_command_list_def isr80h_command4_malloc_def)
  then have run: "isr80h_handler (isr80h_register_commands hw t0) 4 frame s = Some (Returns q, ?s3)"
    by (simp add: isr80h_handler_def save)
  have m3: "os_mem ?s3 = os_mem s'" "kused (sc_k (os_s ?s3)) = kused (sc_k (os_s s'))" by (simp_all add: task_page_def task_switch_def Let_def)
  have tp: "os_mem s' a = os_mem s1 a" if "page_base a = t" for a using q(13) that t(2-4) k1 m2 by simp
  have "process_at ?s3 p t chunk ts" "allocs ?s3 p = (allocs s p)[i := (q, sz)]"
    using process_at_task_page(1,2) [OF q(5), of ?s3] m3 q(6) at2(2) by simp_all
  moreover have "translate (os_mem ?s3) chunk q = q OR 7" unfolding m3 using q(3,11) by (simp add: aligned_page_base)
  moreover have fl: "fld (os_mem ?s3) t j = (if 1 \<le> j \<and> j \<le> 12 then frame_registers frame ! (j - 1) else fld (os_mem s) t j)"
    if "j < 1024" for j
    unfolding m3 using fld_cong [OF t(1) that tp] task_save_state_registers [OF t(1) that, of frame "kernel_page (os_s s)"]
    by (simp add: s1_def c_def)
  then have "map (fld (os_mem ?s3) t) [1 ..< 13] = frame_registers frame"
    by (intro nth_equalityI) (simp_all add: frame_registers_def)
  moreover have "\<forall>j < 1024. j < 1 \<or> 13 \<le> j \<longrightarrow> fld (os_mem ?s3) t j = fld (os_mem s) t j" using fl by auto
  moreover have "cr3 (sc_paging (os_s ?s3)) = load32 (os_mem ?s3) chunk"
    using q(5) ct unfolding m3 by (simp add: task_page_def task_switch_def paging_switch_def Let_def process_at_def)
  ultimately show ?thesis using run q(2,4) k1 m2 by (intro exI [of _ q] exI [of _ ?s3]) simp
qed

section \<open>A calling task for the examples\<close>

definition demo_frame :: interrupt_frame where
  "demo_frame = \<lparr>i_edi = 0, i_esi = 0, i_ebp = 0, i_reserved = 0, i_ebx = 0, i_edx = 0, i_ecx = 0, i_eax = 4, i_ip = 0x400010, i_cs = 0x1b,
     i_flags = 0, i_esp = 0x1002F00, i_ss = 0x23\<rparr>"

definition demo_hw :: "unit hw" where
  "demo_hw = \<lparr>hw_ops = \<lparr>outb = \<lambda>_ _ w. w, inb = \<lambda>_ w. (0, w), inw = \<lambda>_ w. (0, w), outw = \<lambda>_ _ w. w\<rparr>, hw_acpi = zero_acpi,
     hw_locals = 0x5FF000, hw_garbage = 0, hw_century = 0, hw_set_now = \<lambda>_ w. w\<rparr>"

lemma demo_maps_page:
  assumes "\<forall>v. paging_is_aligned v \<longrightarrow> translate m chunk v = v OR 5"
  shows "maps_page m chunk 0x1002F00 0x1002000"
proof -
  have b: "page_base 0x1002F00 = 0x1002000" "page_base 0x1002000 = 0x1002000" by (simp_all add: page_base_def)
  then have "translate m chunk (page_base 0x1002F00) = 0x1002000 OR 5" using assms aligned_page_base [of "0x1002000"] by simp
  moreover have "page_base 5 = 0" "bit (5 :: u32) 0" by (simp_all add: page_base_def)
  ultimately show ?thesis using b(2) unfolding maps_page_def by (metis (no_types))
qed

theorem malloc_system_call_witness:
  "\<exists>(s :: unit os) chunk ts q s'. process_at s 0x1000000 0x1003000 chunk ts \<and>
     isr80h_handler (isr80h_register_commands
 demo_hw
         \<lparr>idt_descriptors = [], interrupt_callbacks = [], isr80h_commands = replicate 1024 None\<rparr>) 4 demo_frame s = Some (Returns q, s') \<and>
     q \<noteq> 0 \<and> allocs s' 0x1000000 ! 0 = (q, 100) \<and> translate (os_mem s') chunk q = q OR 7"
proof -
  obtain s :: "unit os" and chunk ts where s: "os_ready s" "process_at s 0x1000000 0x1003000 chunk ts"
    "allocs s 0x1000000 = replicate 1024 (0, 0)" "get32 s (0x1000000 + process_id) = 1" "current_task (os_s s) = 0x1003000"
    "fld (os_mem s) 0x1003000 task_process = 0x1000000" "fld (os_mem s) 0x1003000 task_esp = 0x1002F00" "load32 (os_mem s) 0x1002F00 = 100"
    "\<forall>v. paging_is_aligned v \<longrightarrow> translate (os_mem s) chunk v = v OR 5" by (rule demo_process)
  let ?t = "\<lparr>idt_descriptors = [], interrupt_callbacks = [], isr80h_commands = replicate 1024 None\<rparr> :: unit idt"
  have t: "isr80h_commands ?t = replicate SERPAEOS_MAX_ISR80H_COMMANDS None" by (simp add: idt_consts)
  have c: "cur_task s = 0x1003000" by (simp add: cur_task_def s(5))
  have mp: "maps_page (os_mem s) chunk (i_esp demo_frame) 0x1002000" using demo_maps_page [OF s(9)] by (simp add: demo_frame_def)
  have w: "(100 :: u32) = load32 (os_mem s) (0x1002000 + (i_esp demo_frame - page_base (i_esp demo_frame)))"
    using s(8) by (simp add: demo_frame_def page_base_def)
  have a: "unat (i_esp demo_frame) mod 4 = 0" "fst (allocs s 0x1000000 ! 0) = 0" by (simp_all add: demo_frame_def s(3))
  have "\<exists>q s'. isr80h_handler (isr80h_register_commands demo_hw ?t) 4 demo_frame s = Some (Returns q, s') \<and> q \<noteq> 0 \<and>
      allocs s' 0x1000000 = (allocs s 0x1000000)[0 := (q, 100)] \<and> translate (os_mem s') chunk q = q OR 7"
    using malloc_system_call [OF t s(1,2) c _ s(6) a(1) mp _ w _ _ _ a(2), of demo_hw] by auto
  then obtain q s' where e: "isr80h_handler (isr80h_register_commands demo_hw ?t) 4 demo_frame s = Some (Returns q, s')" "q \<noteq> 0"
      "allocs s' 0x1000000 = (allocs s 0x1000000)[0 := (q, 100)]" "translate (os_mem s') chunk q = q OR 7" by blast
  have "allocs s' 0x1000000 ! 0 = (q, 100)" by (simp add: e(3))
  then show ?thesis using s(2) e(1,2,4) by blast
qed

theorem fclose_clears_any_word_witness:
  "\<exists>(s :: unit os) s'. os_mem s 0x1002F01 = 0x2F \<and> isr80h_command11_fclose demo_frame s = Some (Returns 0, s') \<and>
     os_mem s' = store32 (os_mem s) 0x1002F00 0"
proof -
  obtain s0 :: "unit os" and chunk ts where s: "os_ready s0" "process_at s0 0x1000000 0x1003000 chunk ts"
    "allocs s0 0x1000000 = replicate 1024 (0, 0)" "get32 s0 (0x1000000 + process_id) = 1" "current_task (os_s s0) = 0x1003000"
    "fld (os_mem s0) 0x1003000 task_process = 0x1000000" "fld (os_mem s0) 0x1003000 task_esp = 0x1002F00" "load32 (os_mem s0) 0x1002F00 = 100"
    "\<forall>v. paging_is_aligned v \<longrightarrow> translate (os_mem s0) chunk v = v OR 5" by (rule demo_process)
  define s where "s = put32 (0x1000000 + of_nat 12032) 0x1002F00 s0"
  have al: "page_base 0x1000000 = 0x1000000" "page_base 0x1003000 = 0x1003000" by (simp_all add: page_base_def)
  have d: "process_pages 0x1000000 \<inter> insert 0x1003000 (set (chunk # load32 (os_mem s0) chunk # ts)) = {}"
    and sp0: "space (os_mem s0) chunk ts" and pd: "fld (os_mem s0) 0x1003000 task_page_directory = chunk"
    using s(2) unfolding process_at_def by (simp_all only: simp_thms)
  have fr: "os_mem s a = os_mem s0 a" if "page_base a \<notin> process_pages 0x1000000" for a
    using process_store [OF al(1) _ that, of 12032] by (simp add: s_def)
  have sp: "os_mem s a = os_mem s0 a" if "page_base a \<in> set (chunk # load32 (os_mem s0) chunk # ts)" for a using fr d that by blast
  have tp: "os_mem s a = os_mem s0 a" if "page_base a = 0x1003000" for a using fr d that by blast
  have f: "fld (os_mem s) 0x1003000 j = fld (os_mem s0) 0x1003000 j" if "j < 1024" for j by (rule fld_cong [OF al(2) that tp])
  have "\<forall>v. paging_is_aligned v \<longrightarrow> translate (os_mem s) chunk v = v OR 5" using s(9) space_cong(3) [OF sp0 sp] by simp
  moreover have c: "cur_task s = 0x1003000" using s(5) by (simp add: cur_task_def s_def put32_def put_mem_def)
  ultimately have "caller_stack s 0x1002000" using demo_maps_page f [of task_esp] f [of task_page_directory] s(7) pd
    by (simp add: caller_stack_def layout)
  moreover have w: "load32 (os_mem s) 0x1002F00 = 0x1002F00" by (simp add: s_def load32_store32_same)
  then have "stack_word s 0x1002000 = 0x1002F00" using f [of task_esp] s(7) by (simp add: stack_word_def c layout page_base_def)
  moreover have "512 \<le> sint (get32 s 0x1002F00)" by (simp add: get32_def w)
  ultimately have "\<exists>s'. isr80h_command11_fclose demo_frame s = Some (Returns 0, s') \<and> os_mem s' = store32 (os_mem s) 0x1002F00 0"
    by (intro fclose_clears_any_word) simp_all
  moreover have "os_mem s 0x1002F01 = 0x2F" by (simp add: s_def store32_def drop_bit_eq_div)
  ultimately show ?thesis by blast
qed

end
