(* ===== verification/Fat_Table.thy ===== *)
theory Fat_Table
  imports Prelude
begin

text \<open>
  File allocation tables as functions, apart from where the disk keeps them: an entry of zero is a free cluster, an
  entry from \<open>lo\<close> on ends a chain, every other entry names the next cluster. \<open>chain lo fat xs\<close> says that \<open>xs\<close> are the clusters
  of a chain; \<open>seal m fat xs\<close> is the table with \<open>xs\<close> linked up and closed with the mark \<open>m\<close>. The two
  file systems refine their table operations to these.
\<close>

type_synonym table = "nat \<Rightarrow> nat"

section \<open>Chains\<close>

fun chain :: "nat \<Rightarrow> table \<Rightarrow> nat list \<Rightarrow> bool" where
  "chain lo fat [] = False"
| "chain lo fat [c] = (2 \<le> c \<and> c < lo \<and> lo \<le> fat c)"
| "chain lo fat (c # c' # cs) = (2 \<le> c \<and> c < lo \<and> fat c = c' \<and> chain lo fat (c' # cs))"

lemma chain_not_Nil: "chain lo fat xs \<Longrightarrow> xs \<noteq> []"
  by auto

lemma chain_range: "chain lo fat xs \<Longrightarrow> x \<in> set xs \<Longrightarrow> 2 \<le> x \<and> x < lo"
  by (induction lo fat xs rule: chain.induct) auto

lemma chain_last: "chain lo fat xs \<Longrightarrow> lo \<le> fat (last xs)"
  by (induction lo fat xs rule: chain.induct) auto

lemma chain_hd: "chain lo fat (c # cs) \<Longrightarrow> 2 \<le> c \<and> c < lo"
  using chain_range [of lo fat "c # cs" c] by simp

lemma chain_unique: "chain lo fat (c # xs) \<Longrightarrow> chain lo fat (c # ys) \<Longrightarrow> xs = ys"
proof (induction xs arbitrary: c ys)
  case Nil
  then show ?case by (cases ys) (auto dest: chain_hd)
next
  case (Cons x xs)
  then show ?case by (cases ys) (auto dest: chain_hd)
qed

lemma chain_suffix: "chain lo fat (xs @ ys) \<Longrightarrow> ys \<noteq> [] \<Longrightarrow> chain lo fat ys"
proof (induction xs)
  case (Cons x xs)
  then have "xs @ ys \<noteq> []" by simp
  then have "chain lo fat (xs @ ys)" using Cons.prems(1) by (cases "xs @ ys") auto
  then show ?case using Cons by simp
qed simp

text \<open>The links are a function of the cluster, so no cluster occurs twice in a chain.\<close>

lemma chain_distinct: "chain lo fat xs \<Longrightarrow> distinct xs"
proof (rule ccontr)
  assume c: "chain lo fat xs" and "\<not> distinct xs"
  then obtain as bs cs y where xs: "xs = as @ [y] @ bs @ [y] @ cs" using not_distinct_decomp by blast
  have "chain lo fat (y # bs @ y # cs)" using chain_suffix [of lo fat as "y # bs @ y # cs"] c xs by simp
  moreover have "chain lo fat (y # cs)" using chain_suffix [of lo fat "as @ y # bs" "y # cs"] c xs by simp
  ultimately have "bs @ y # cs = cs" by (rule chain_unique)
  then have "length (bs @ y # cs) = length cs" by simp
  then show False by simp
qed

lemma chain_used: "chain lo fat xs \<Longrightarrow> x \<in> set xs \<Longrightarrow> 2 \<le> fat x"
proof (induction lo fat xs rule: chain.induct)
  case (3 lo fat c c' cs)
  then show ?case by (auto dest: chain_hd)
qed auto

lemma chain_cong: "chain lo fat xs \<Longrightarrow> (\<And>x. x \<in> set xs \<Longrightarrow> fat' x = fat x) \<Longrightarrow> chain lo fat' xs"
  by (induction lo fat xs rule: chain.induct) auto

lemma chain_snoc:
  assumes "xs \<noteq> []" and "\<And>x. x \<in> set xs \<Longrightarrow> 2 \<le> x \<and> x < lo" and "2 \<le> n" and "n < lo" and "lo \<le> fat n"
    and "fat (last xs) = n" and "\<And>ys x y zs. xs = ys @ x # y # zs \<Longrightarrow> fat x = y"
  shows "chain lo fat (xs @ [n])"
  using assms
proof (induction xs rule: induct_list012)
  case (3 x y zs)
  have "fat x = y" using 3(9) [of "[]" x y zs] by simp
  moreover have "\<And>ys u v ws. y # zs = ys @ u # v # ws \<Longrightarrow> fat u = v" using 3(9) by (metis append_Cons)
  with 3 have "chain lo fat ((y # zs) @ [n])" by simp
  ultimately show ?case using 3(4) by simp
qed auto

lemma chain_link: "chain lo fat xs \<Longrightarrow> xs = ys @ x # y # zs \<Longrightarrow> fat x = y"
  using chain_suffix [of lo fat ys "x # y # zs"] by simp

lemma chain_extend:
  assumes "chain lo fat xs" and "n \<notin> set xs" and "2 \<le> n" and "n < lo" and "lo \<le> m"
  shows "chain lo (fat(last xs := n, n := m)) (xs @ [n])"
proof (rule chain_snoc)
  have d: "distinct xs" by (rule chain_distinct [OF assms(1)])
  have l: "last xs \<in> set xs" using last_in_set assms(1) chain_not_Nil by blast
  then show "(fat(last xs := n, n := m)) (last xs) = n" using assms(2) by auto
  show "(fat(last xs := n, n := m)) x = y" if "xs = ys @ x # y # zs" for ys x y zs
  proof -
    have "x \<noteq> last xs" using that d last_in_set [of "y # zs"] by auto
    moreover have "x \<noteq> n" using that assms(2) by auto
    ultimately show ?thesis using chain_link [OF assms(1) that] by simp
  qed
qed (use assms chain_not_Nil chain_range in auto)

section \<open>Writing a chain\<close>

fun seal :: "nat \<Rightarrow> table \<Rightarrow> nat list \<Rightarrow> table" where
  "seal m fat [] = fat"
| "seal m fat [c] = fat(c := m)"
| "seal m fat (c # c' # cs) = (seal m fat (c' # cs))(c := c')"

lemma seal_outside: "x \<notin> set xs \<Longrightarrow> seal m fat xs x = fat x"
  by (induction m fat xs rule: seal.induct) auto

lemma seal_last: "distinct xs \<Longrightarrow> xs \<noteq> [] \<Longrightarrow> seal m fat xs (last xs) = m"
proof (induction m fat xs rule: seal.induct)
  case (3 m fat c c' cs)
  then have "last (c' # cs) \<in> set (c' # cs)" using last_in_set by blast
  then show ?case using 3 by auto
qed auto

lemma seal_chain:
  "distinct xs \<Longrightarrow> xs \<noteq> [] \<Longrightarrow> (\<And>x. x \<in> set xs \<Longrightarrow> 2 \<le> x \<and> x < lo) \<Longrightarrow> lo \<le> m \<Longrightarrow> chain lo (seal m fat xs) xs"
proof (induction m fat xs rule: seal.induct)
  case (3 m fat c c' cs)
  then have "chain lo (seal m fat (c' # cs)) (c' # cs)" by simp
  then have "chain lo ((seal m fat (c' # cs))(c := c')) (c' # cs)" by (rule chain_cong) (use 3(2) in auto)
  moreover have "2 \<le> c \<and> c < lo" using 3(4) by simp
  ultimately show ?case by (simp only: seal.simps chain.simps fun_upd_same simp_thms)
qed auto

lemma upd_past: "c \<noteq> l \<Longrightarrow> c \<noteq> n \<Longrightarrow> (g(c := x))(l := n, n := m) = (g(l := n, n := m))(c := x)"
  by (auto simp: fun_eq_iff)

lemma seal_extend:
  "distinct (xs @ [n]) \<Longrightarrow> xs \<noteq> [] \<Longrightarrow> (seal m fat xs)(last xs := n, n := m) = seal m fat (xs @ [n])"
proof (induction m fat xs rule: seal.induct)
  case (3 m fat c c' cs)
  have "distinct ((c' # cs) @ [n])" using 3(2) by simp
  then have e: "(seal m fat (c' # cs))(last (c' # cs) := n, n := m) = seal m fat ((c' # cs) @ [n])" using 3(1) by blast
  have "last (c' # cs) \<in> set (c' # cs)" by (rule last_in_set) simp
  then have "c \<noteq> last (c' # cs)" "c \<noteq> n" using 3(2) by auto
  from upd_past [OF this, of "seal m fat (c' # cs)" c' m] show ?case
    using e by (simp only: append_Cons seal.simps last.simps list.distinct if_False)
qed (auto simp: fun_eq_iff)

definition wipe :: "table \<Rightarrow> nat list \<Rightarrow> table" where
  "wipe fat xs = (\<lambda>x. if x \<in> set xs then 0 else fat x)"

lemma wipe_seal: "(\<And>x. x \<in> set xs \<Longrightarrow> fat x = 0) \<Longrightarrow> wipe (seal m fat xs) xs = fat"
  by (auto simp: wipe_def fun_eq_iff seal_outside)

lemma wipe_Cons: "wipe (fat(c := 0)) cs = wipe fat (c # cs)"
  by (auto simp: wipe_def fun_eq_iff)

section \<open>Free clusters\<close>

definition free_clusters :: "nat \<Rightarrow> nat \<Rightarrow> table \<Rightarrow> nat set" where
  \<comment> \<open>the clusters that a search from \<open>a\<close> to \<open>lim\<close> can hand out\<close>
  "free_clusters a lim fat = {x. a \<le> x \<and> x \<le> lim \<and> fat x = 0}"

definition first_free :: "nat \<Rightarrow> nat \<Rightarrow> table \<Rightarrow> nat option" where
  "first_free a lim fat = find (\<lambda>x. fat x = 0) [a ..< Suc (max a lim)]"

lemma finite_free_clusters [simp]: "finite (free_clusters a lim fat)"
  by (rule finite_subset [of _ "{a .. lim}"]) (auto simp: free_clusters_def)

lemma first_free_rec:
  "first_free a lim fat = (if fat a = 0 then Some a else if lim \<le> a then None else first_free (Suc a) lim fat)"
proof -
  have "[a ..< Suc (max a lim)] = a # [Suc a ..< Suc (max a lim)]" by (simp add: upt_rec)
  moreover have "\<not> lim \<le> a \<Longrightarrow> max (Suc a) lim = max a lim" by simp
  ultimately show ?thesis by (simp add: first_free_def)
qed

lemma first_free_None: "a \<le> lim \<Longrightarrow> first_free a lim fat = None \<longleftrightarrow> free_clusters a lim fat = {}"
  by (auto simp: first_free_def find_None_iff free_clusters_def max_def le_eq_less_or_eq)

lemma first_free_Some: "a \<le> lim \<Longrightarrow> first_free a lim fat = Some n \<Longrightarrow> n \<in> free_clusters a lim fat"
  by (auto simp: first_free_def find_Some_iff free_clusters_def max_def nth_append)

lemma free_clusters_extend:
  assumes "n \<in> free_clusters a lim fat" and "fat l \<noteq> 0" and "m \<noteq> 0" and "n \<noteq> 0"
  shows "free_clusters a lim (fat(l := n, n := m)) = free_clusters a lim fat - {n}"
  using assms by (auto simp: free_clusters_def)

lemma free_seal:
  assumes "distinct xs" and "xs \<noteq> []" and "set xs \<subseteq> free_clusters a lim fat" and "2 \<le> a" and "lim < lo" and "lo \<le> m"
  shows "free_clusters a lim (seal m fat xs) = free_clusters a lim fat - set xs" "chain lo (seal m fat xs) xs"
proof -
  show c: "chain lo (seal m fat xs) xs"
    by (rule seal_chain) (use assms in \<open>auto simp: free_clusters_def\<close>)
  have "seal m fat xs x \<noteq> 0" if "x \<in> set xs" for x using chain_used [OF c that] by simp
  then have "seal m fat xs x = 0 \<longleftrightarrow> x \<notin> set xs \<and> fat x = 0" for x
    by (cases "x \<in> set xs") (auto simp: seal_outside)
  then show "free_clusters a lim (seal m fat xs) = free_clusters a lim fat - set xs"
    by (auto simp: free_clusters_def)
qed

lemma free_seal_next:
  assumes "distinct xs" and "xs \<noteq> []" and "set xs \<subseteq> free_clusters a lim fat" and "2 \<le> a" and "a \<le> lim" and "lim < lo" and "lo \<le> m"
    and "length xs < card (free_clusters a lim fat)"
  obtains n where "first_free a lim (seal m fat xs) = Some n" "n \<in> free_clusters a lim fat" "n \<notin> set xs"
proof -
  note f = free_seal [OF assms(1-4,6,7)]
  have "card (free_clusters a lim fat - set xs) = card (free_clusters a lim fat) - length xs"
    using assms(1,3) by (simp add: card_Diff_subset distinct_card)
  then have "card (free_clusters a lim fat - set xs) \<noteq> 0" using assms(8) by simp
  then have "free_clusters a lim (seal m fat xs) \<noteq> {}" unfolding f(1) by (metis card.empty)
  then obtain n where n: "first_free a lim (seal m fat xs) = Some n"
    using first_free_None [OF assms(5)] by fastforce
  then show ?thesis using that first_free_Some [OF assms(5) n] f(1) by auto
qed

end
