(* ===== verification/Fat16_Write.thy ===== *)
theory Fat16_Write
  imports Fat16 Fat_Table Vfs
begin

text \<open>
  The FAT16 file system, writing side: \<^verbatim>\<open>src/src/fs/fat/fat16_write.c\<close> and \<open>fat16_open\<close> of \<^verbatim>\<open>fat16.c\<close>, which stamps
  the directory entry of the file it opens. The root directory is a member of the private data of the file
  system, and \<open>fat16_write_directory_entry\<close> and \<open>fat16_create_file\<close> hand it to the same clean-up as a directory loaded from the
  disk, which frees the private data. Where an operation uses them after that, \<open>private_in_use\<close> gives it no outcome; at the end of an
  operation the state shows the blocks as free.
  \<open>get_current_time\<close> returns the date last read from the clock, which is the argument \<open>now\<close>.
\<close>

section \<open>Names and counts\<close>

definition EOC :: u16 where "EOC = 0xFFFF"

fun fat_filename_loop :: "u8 list \<Rightarrow> nat \<Rightarrow> bool \<Rightarrow> nat \<Rightarrow> nat \<Rightarrow> u8 list \<Rightarrow> u8 list option" where
  \<comment> \<open>the bytes of \<open>filename\<close> left, \<open>13 - i\<close>, \<open>ext\<close>, \<open>f\<close>, \<open>e\<close> and what \<open>out\<close> holds\<close>
  "fat_filename_loop inp 0 ext f e out = Some out"
| "fat_filename_loop [] (Suc n) ext f e out = None"
| "fat_filename_loop (c # inp) (Suc n) ext f e out =
     (if c = 0 then Some out
      else if c = 46 then fat_filename_loop inp n True f e out
      else if ext
      then do {
        out \<leftarrow> wr out (8 + e) (toupper c);
        if e + 1 = 3 then Some out else fat_filename_loop inp n ext f (e + 1) out
      }
      else do {
        out \<leftarrow> wr out f (toupper c);
        if f + 1 = 8 then Some out else fat_filename_loop inp n ext (f + 1) e out
      })"

definition string_to_FAT_filename :: "u8 list \<Rightarrow> u8 list \<Rightarrow> u8 list option" where
  "string_to_FAT_filename filename out = do {
     out \<leftarrow> memset out 32 11;
     fat_filename_loop filename 13 False 0 0 out
   }"

partial_function (option) find_free_entry_loop :: "fat_directory_item list \<Rightarrow> u16 \<Rightarrow> u16 option" where
  "find_free_entry_loop items res = do {
     item \<leftarrow> rd items (unat res);
     c \<leftarrow> rd (di_filename item) 0;
     if c = 0 \<or> c = 0xE5 then Some res else find_free_entry_loop items (res + 1)
   }"

definition fat16_find_free_entry_in_directory :: "fat_directory \<Rightarrow> u16 option" where
  "fat16_find_free_entry_in_directory dir = find_free_entry_loop (fd_item dir) 0"

definition fat16_filesize_to_cluster_count :: "disk \<Rightarrow> fat_private \<Rightarrow> u32 \<Rightarrow> u32 option" where
  "fat16_filesize_to_cluster_count d p filesize =
     (let bytes_per_cluster = word_of_int (dk_sector_size d * uint (h_sectors_per_cluster (fp_header p)))
      in if bytes_per_cluster = 0 then None
         else let res = filesize div bytes_per_cluster
              in Some (if filesize mod bytes_per_cluster \<noteq> 0 then res + 1 else res))"

section \<open>Writing through the streams\<close>

definition fat_stream_write :: "'s port_ops \<Rightarrow> 's fs \<Rightarrow> int \<Rightarrow> u8 list \<Rightarrow> int \<Rightarrow> (int \<times> 's fs) option" where
  \<comment> \<open>seek and write on \<open>fat_read_stream\<close>\<close>
  "fat_stream_write ops f pos bs n = do {
     st \<leftarrow> fp_fat_read_stream (f_private f);
     (res, st, dev) \<leftarrow> diskstreamer_write ops (f_dev f) (snd (diskstreamer_seek st pos)) bs n;
     Some (res, f\<lparr>f_dev := dev, f_private := (f_private f)\<lparr>fp_fat_read_stream := Some st\<rparr>\<rparr>)
   }"

definition cluster_stream_write :: "'s port_ops \<Rightarrow> 's fs \<Rightarrow> int \<Rightarrow> u8 list \<Rightarrow> int \<Rightarrow> (int \<times> 's fs) option" where
  "cluster_stream_write ops f pos bs n = do {
     st \<leftarrow> fp_cluster_read_stream (f_private f);
     (res, st, dev) \<leftarrow> diskstreamer_write ops (f_dev f) (snd (diskstreamer_seek st pos)) bs n;
     Some (res, f\<lparr>f_dev := dev, f_private := (f_private f)\<lparr>fp_cluster_read_stream := Some st\<rparr>\<rparr>)
   }"

definition directory_stream_write :: "'s port_ops \<Rightarrow> 's fs \<Rightarrow> int \<Rightarrow> u8 list \<Rightarrow> int \<Rightarrow> (int \<times> 's fs) option" where
  "directory_stream_write ops f pos bs n = do {
     st \<leftarrow> fp_directory_stream (f_private f);
     (res, st, dev) \<leftarrow> diskstreamer_write ops (f_dev f) (snd (diskstreamer_seek st pos)) bs n;
     Some (res, f\<lparr>f_dev := dev, f_private := (f_private f)\<lparr>fp_directory_stream := Some st\<rparr>\<rparr>)
   }"

section \<open>Directory entries\<close>

fun entry_position_loop :: "fat_directory_item list \<Rightarrow> u8 list \<Rightarrow> nat \<Rightarrow> nat \<Rightarrow> nat option" where
  \<comment> \<open>the loop of \<open>fat16_write_directory_entry\<close>: iterations left and \<open>i\<close>; the result is \<open>i\<close> when it ends. The buffer for
      a name has 12 bytes\<close>
  "entry_position_loop items name 0 i = Some i"
| "entry_position_loop items name (Suc n) i = do {
     item \<leftarrow> rd items i;
     tmp_path \<leftarrow> fat16_get_full_relative_filename item 12;
     r \<leftarrow> istrncmp name tmp_path 12;
     if r = 0 then Some i else entry_position_loop items name n (Suc i)
   }"

definition free_item :: "'s fs \<Rightarrow> fat_item \<Rightarrow> 's fs option" where
  "free_item f item = do { k \<leftarrow> fat16_fat_item_free (f_k f) item; Some (f\<lparr>f_k := k\<rparr>) }"

definition fat16_write_directory_entry ::
  "'s port_ops \<Rightarrow> disk \<Rightarrow> 's fs \<Rightarrow> path_part list \<Rightarrow> fat_directory_item \<Rightarrow> (int \<times> 's fs) option" where
  "fat16_write_directory_entry ops d f path new_item = do {
     (parent_dir_item, f) \<leftarrow> fat16_get_parent_dir ops d f path;
     case parent_dir_item of
       None \<Rightarrow> None
     | Some (FileItem a ia i) \<Rightarrow> None
     | Some (DirItem a p) \<Rightarrow>
         (case p of
            Null \<Rightarrow> Some (- EBADPATH, f)
          | Dangling \<Rightarrow> None
          | Dir dir \<Rightarrow> do {
              part \<leftarrow> pathparser_get_last_part path;
              i \<leftarrow> entry_position_loop (fd_item dir) (pp_part part @ [0]) (nat (fd_total dir)) 0;
              if int i = fd_total dir then Some (- EINVARG, f)
              else do {
                let location_bytes = fd_sector_pos dir * dk_sector_size d + 32 * int i;
                (res, f) \<leftarrow> directory_stream_write ops f (s32 location_bytes) (bytes_of_item new_item) 32;
                f \<leftarrow> free_item f (DirItem a p);
                Some (res, f)
              }
            })
   }"

section \<open>The allocation table\<close>

definition fat16_write_fat_entry :: "'s port_ops \<Rightarrow> disk \<Rightarrow> 's fs \<Rightarrow> int \<Rightarrow> u16 \<Rightarrow> (int \<times> 's fs) option" where
  "fat16_write_fat_entry ops d f entry val =
     fat_stream_write ops f
       (s32 (uint (h_reserved_sectors (fp_header (f_private f))) * dk_sector_size d + entry * 2)) (bytes16 val) 2"

partial_function (option) first_cluster_loop :: "'s port_ops \<Rightarrow> disk \<Rightarrow> 's fs \<Rightarrow> u32 \<Rightarrow> (u16 \<times> 's fs) option" where
  "first_cluster_loop ops d f cluster = do {
     (code, f) \<leftarrow> fat16_get_fat_entry ops d f (sint cluster);
     if (word_of_int code :: u16) = 0 then Some (ucast cluster, f)
     else if h_sectors_per_cluster (fp_header (f_private f)) = 0 then None
     else if cluster \<ge> h_sectors_big (fp_header (f_private f)) div ucast (h_sectors_per_cluster (fp_header (f_private f)))
     then Some (0, f)
     else first_cluster_loop ops d f (cluster + 1)
   }"

definition fat16_get_first_first_cluster :: "'s port_ops \<Rightarrow> disk \<Rightarrow> 's fs \<Rightarrow> (u16 \<times> 's fs) option" where
  "fat16_get_first_first_cluster ops d f = first_cluster_loop ops d f 3"

partial_function (option) fat16_find_last_cluster_of_chain ::
  "'s port_ops \<Rightarrow> disk \<Rightarrow> 's fs \<Rightarrow> u16 \<Rightarrow> (u16 \<times> 's fs) option" where
  "fat16_find_last_cluster_of_chain ops d f cur = do {
     (code, f) \<leftarrow> fat16_get_fat_entry ops d f (uint cur);
     if (word_of_int code :: u16) \<ge> 0xFFF8 then Some (cur, f)
     else fat16_find_last_cluster_of_chain ops d f (word_of_int code)
   }"

fun new_cluster_chain_loop ::
  "'s port_ops \<Rightarrow> disk \<Rightarrow> 's fs \<Rightarrow> u16 list \<Rightarrow> nat \<Rightarrow> nat \<Rightarrow> (bool \<times> nat \<times> u16 list \<times> 's fs) option" where
  \<comment> \<open>iterations left and \<open>i\<close>; the first component of the result says whether the loop ran to its end\<close>
  "new_cluster_chain_loop ops d f out 0 i = Some (True, i, out, f)"
| "new_cluster_chain_loop ops d f out (Suc n) i = do {
     (c, f) \<leftarrow> fat16_get_first_first_cluster ops d f;
     out \<leftarrow> wr out i c;
     if c = 0 then Some (False, i, out, f) else new_cluster_chain_loop ops d f out n (Suc i)
   }"

definition fat16_new_cluster_chain ::
  "'s port_ops \<Rightarrow> disk \<Rightarrow> 's fs \<Rightarrow> u16 list \<Rightarrow> int \<Rightarrow> (int \<times> u16 list \<times> 's fs) option" where
  \<comment> \<open>on the array at \<open>out\<close>\<close>
  "fat16_new_cluster_chain ops d f out count = do {
     (done, i, out, f) \<leftarrow> new_cluster_chain_loop ops d f out (nat (count - 1)) 0;
     if \<not> done then Some (- ENODISKSPACE, out, f)
     else do { out \<leftarrow> wr out (i + 1) EOC; Some (int i, out, f) }
   }"

partial_function (option) get_cluster_chain_loop ::
  "'s port_ops \<Rightarrow> disk \<Rightarrow> 's fs \<Rightarrow> u16 list \<Rightarrow> u16 \<Rightarrow> nat \<Rightarrow> (int \<times> u16 list \<times> 's fs) option" where
  "get_cluster_chain_loop ops d f out cur i = do {
     out \<leftarrow> wr out i cur;
     (code, f) \<leftarrow> fat16_get_fat_entry ops d f (uint cur);
     if (word_of_int code :: u16) < 0xFFF8 then get_cluster_chain_loop ops d f out (word_of_int code) (Suc i)
     else Some (int (Suc i), out, f)
   }"

definition fat16_get_cluster_chain ::
  "'s port_ops \<Rightarrow> disk \<Rightarrow> 's fs \<Rightarrow> u16 list \<Rightarrow> u16 \<Rightarrow> (int \<times> u16 list \<times> 's fs) option" where
  "fat16_get_cluster_chain ops d f out first_cluster = get_cluster_chain_loop ops d f out first_cluster 0"

partial_function (option) count_clusters_loop :: "'s port_ops \<Rightarrow> disk \<Rightarrow> 's fs \<Rightarrow> u16 \<Rightarrow> int \<Rightarrow> (int \<times> 's fs) option" where
  "count_clusters_loop ops d f cur i = do {
     (code, f) \<leftarrow> fat16_get_fat_entry ops d f (uint cur);
     if (word_of_int code :: u16) < 0xFFF8 then count_clusters_loop ops d f (word_of_int code) (i + 1) else Some (i, f)
   }"

definition fat16_count_clusters_in_chain :: "'s port_ops \<Rightarrow> disk \<Rightarrow> 's fs \<Rightarrow> u16 \<Rightarrow> (int \<times> 's fs) option" where
  "fat16_count_clusters_in_chain ops d f first_cluster = count_clusters_loop ops d f first_cluster 1"

definition fat16_add_cluster_to_chain :: "'s port_ops \<Rightarrow> disk \<Rightarrow> 's fs \<Rightarrow> u16 \<Rightarrow> (int \<times> 's fs) option" where
  "fat16_add_cluster_to_chain ops d f first_cluster = do {
     (cluster, f) \<leftarrow> fat16_find_last_cluster_of_chain ops d f first_cluster;
     (next_first_cluster, f) \<leftarrow> fat16_get_first_first_cluster ops d f;
     if next_first_cluster = 0 then Some (- ENODISKSPACE, f)
     else do {
       (res, f) \<leftarrow> fat16_write_fat_entry ops d f (uint cluster) next_first_cluster;
       if res \<noteq> 2 then Some (- EIO, f)
       else do {
         (res, f) \<leftarrow> fat16_write_fat_entry ops d f (uint next_first_cluster) EOC;
         if res \<noteq> 2 then Some (- EIO, f) else Some (0, f)
       }
     }
   }"

fun add_clusters :: "'s port_ops \<Rightarrow> disk \<Rightarrow> nat \<Rightarrow> u16 \<Rightarrow> 's fs \<Rightarrow> 's fs option" where
  "add_clusters ops d 0 first f = Some f"
| "add_clusters ops d (Suc n) first f = do {
     (_, f) \<leftarrow> fat16_add_cluster_to_chain ops d f first;
     add_clusters ops d n first f
   }"

definition fat16_generate_cluster_chain :: "'s port_ops \<Rightarrow> disk \<Rightarrow> 's fs \<Rightarrow> int \<Rightarrow> (u16 \<times> 's fs) option" where
  "fat16_generate_cluster_chain ops d f count =
     (if count \<le> 0 then Some (word_of_int (- EINVARG), f)
      else do {
        (first, f) \<leftarrow> fat16_get_first_first_cluster ops d f;
        if first = 0 then Some (0, f)
        else do {
          (res, f) \<leftarrow> fat16_write_fat_entry ops d f (uint first) 0xFFFF;
          if res \<noteq> 2 then Some (word_of_int (- EIO), f)
          else do { f \<leftarrow> add_clusters ops d (nat (count - 1)) first f; Some (first, f) }
        }
      })"

partial_function (option) erase_chain_loop :: "'s port_ops \<Rightarrow> disk \<Rightarrow> 's fs \<Rightarrow> u16 \<Rightarrow> 's fs option" where
  "erase_chain_loop ops d f cur = do {
     (code, f) \<leftarrow> fat16_get_fat_entry ops d f (uint cur);
     (_, f) \<leftarrow> fat16_write_fat_entry ops d f (uint cur) 0;
     if (word_of_int code :: u16) = 0xFFFF then Some f else erase_chain_loop ops d f (word_of_int code)
   }"

definition fat16_erase_cluster_chain :: "'s port_ops \<Rightarrow> disk \<Rightarrow> 's fs \<Rightarrow> u16 \<Rightarrow> (int \<times> 's fs) option" where
  "fat16_erase_cluster_chain ops d f first =
     (if first \<le> 2 then Some (- EINVARG, f)
      else do { f \<leftarrow> erase_chain_loop ops d f first; Some (0, f) })"

section \<open>Files\<close>

definition private_in_use :: "'s fs \<Rightarrow> 's fs option" where
  \<comment> \<open>the private data are dereferenced; \<open>fat16_fat_item_free\<close> on the parent directory frees them when that is the root directory\<close>
  "private_in_use f = (if allocated (f_k f) (fp_addr (f_private f)) then Some f else None)"

definition fat16_delete ::
  "'s port_ops \<Rightarrow> disk \<Rightarrow> 's fs \<Rightarrow> fat_file_descriptor \<Rightarrow> (int \<times> fat_file_descriptor \<times> 's fs) option" where
  "fat16_delete ops d f desc =
     (if fdesc_mode desc AND FILE_MODE_WRITE = 0 then Some (- EINVARG, desc, f)
      else case fdesc_item desc of
        DirItem a p \<Rightarrow> None
      | FileItem a ia item \<Rightarrow>
          if di_attribute item AND FAT_FILE_READ_ONLY \<noteq> 0 then Some (- EINVARG, desc, f)
          else do {
            let item = item\<lparr>di_filename := (di_filename item)[0 := 0xE5]\<rparr>;
            let desc = desc\<lparr>fdesc_item := FileItem a ia item\<rparr>;
            (res, f) \<leftarrow> fat16_write_directory_entry ops d f (fdesc_path desc) item;
            if res < 0 then Some (- EIO, desc, f)
            else do {
              f \<leftarrow> (if di_low_first_cluster item \<le> 2 then Some f else private_in_use f);
              (res, f) \<leftarrow> fat16_erase_cluster_chain ops d f (di_low_first_cluster item);
              k \<leftarrow> fat16_free_file_descriptor (f_k f) desc;
              Some (res, desc, f\<lparr>f_k := k\<rparr>)
            }
          })"

fun grow_chain :: "'s port_ops \<Rightarrow> disk \<Rightarrow> nat \<Rightarrow> u16 \<Rightarrow> 's fs \<Rightarrow> (int \<times> 's fs) option" where
  \<comment> \<open>the loop that adds clusters: \<open>count_of_needed_clusters\<close>\<close>
  "grow_chain ops d 0 first f = Some (0, f)"
| "grow_chain ops d (Suc n) first f = do {
     (res, f) \<leftarrow> fat16_add_cluster_to_chain ops d f first;
     if res < 0 then Some (res, f) else grow_chain ops d n first f
   }"

partial_function (option) write_clusters ::
  "'s port_ops \<Rightarrow> disk \<Rightarrow> 's fs \<Rightarrow> u16 \<Rightarrow> u8 list \<Rightarrow> int \<Rightarrow> int \<Rightarrow> (int \<times> 's fs) option" where
  \<comment> \<open>the loop over the clusters behind the first: \<open>target_cluster\<close>, \<open>buf\<close>, \<open>size\<close> and \<open>res\<close>\<close>
  "write_clusters ops d f target_cluster buf n res =
     (if n \<le> 0 then Some (res, f)
      else do {
        (code, f) \<leftarrow> fat16_get_fat_entry ops d f (uint target_cluster);
        let target_cluster = (word_of_int code :: u16);
        if target_cluster \<ge> 0xFFF8 then Some (res, f)
        else do {
          let cs = size_of_cluster_bytes d (f_private f);
          let total_to_write = (if n \<le> cs then n else cs);
          (res, f) \<leftarrow> cluster_stream_write ops f
             (fat16_sector_to_absolute d (fat16_cluster_to_sector (f_private f) (uint target_cluster))) buf total_to_write;
          if res < 0 then Some (res, f)
          else write_clusters ops d f target_cluster (drop (nat total_to_write) buf) (n - total_to_write) res
        }
      })"

definition fat16_write ::
  "'s port_ops \<Rightarrow> disk \<Rightarrow> 's fs \<Rightarrow> fat_file_descriptor \<Rightarrow> u8 list \<Rightarrow> int \<Rightarrow> (int \<times> fat_file_descriptor \<times> 's fs) option" where
  \<comment> \<open>for a descriptor, a buffer and a disk that are not null\<close>
  "fat16_write ops d f desc buf n =
     (if n = 0 then Some (- EINVARG, desc, f)
      else case fdesc_item desc of
        DirItem a p \<Rightarrow> Some (- EINVARG, desc, f)
      | FileItem a ia item \<Rightarrow>
          if fdesc_mode desc AND FILE_MODE_WRITE = 0 then Some (- ERDONLY, desc, f)
          else do {
            let old_filesize = di_filesize item;
            let new_filesize = old_filesize + word_of_int n;
            old_cluster_count \<leftarrow> fat16_filesize_to_cluster_count d (f_private f) old_filesize;
            (first_cluster_to_write, f) \<leftarrow> fat16_find_last_cluster_of_chain ops d f (di_low_first_cluster item);
            new_cluster_count \<leftarrow> fat16_filesize_to_cluster_count d (f_private f) new_filesize;
            let cs = size_of_cluster_bytes d (f_private f);
            (res, f) \<leftarrow>
              (if new_filesize > old_cluster_count * word_of_int cs
               then grow_chain ops d (unat (new_cluster_count - old_cluster_count)) (di_low_first_cluster item) f
               else Some (0, f));
            if res < 0 then Some (res, desc, f)
            else do {
              let item = item\<lparr>di_filesize := new_filesize\<rparr>;
              let desc = desc\<lparr>fdesc_item := FileItem a ia item\<rparr>;
              (res, f) \<leftarrow> fat16_write_directory_entry ops d f (fdesc_path desc) item;
              if res \<le> 0 then Some (res, desc, f)
              else do {
                f \<leftarrow> private_in_use f;
                let free_space_of_first_cluster = uint (fdesc_pos desc mod word_of_int cs);
                let offset = fat16_sector_to_absolute d (fat16_cluster_to_sector (f_private f) (uint first_cluster_to_write))
                             + free_space_of_first_cluster;
                (res, f) \<leftarrow> cluster_stream_write ops f (s32 offset) buf (s32 free_space_of_first_cluster);
                if res < 0 then Some (res, desc, f)
                else do {
                  (res, f) \<leftarrow> write_clusters ops d f first_cluster_to_write (drop (nat free_space_of_first_cluster) buf)
                                (s32 (n - free_space_of_first_cluster)) res;
                  Some (res, desc, f)
                }
              }
            }
          })"

section \<open>Creating a file\<close>

definition fat_date :: "date_time \<Rightarrow> u16" where
  \<comment> \<open>the packed date, truncated to the 16 bits of the entry's field\<close>
  "fat_date now =
     ucast (((ucast (dt_day now) :: u32) AND 31) OR push_bit 5 (ucast (dt_month now)) OR push_bit 9 (dt_year now - 1980))"

definition FAT16_DIRECTORY_ENTRIES_PER_CLUSTER :: "disk \<Rightarrow> fat_private \<Rightarrow> u32" where
  "FAT16_DIRECTORY_ENTRIES_PER_CLUSTER d p =
     (word_of_int (dk_sector_size d * uint (h_sectors_per_cluster (fp_header p))) :: u32) div 32"

definition fat16_sector_to_cluster :: "fat_private \<Rightarrow> int \<Rightarrow> int" where
  "fat16_sector_to_cluster p sector =
     (if sector > fd_ending_sector_pos (fp_root_directory p) then sector - fd_ending_sector_pos (fp_root_directory p) + 2 else 0)"

partial_function (option) last_directory_cluster ::
  "'s port_ops \<Rightarrow> disk \<Rightarrow> 's fs \<Rightarrow> u16 \<Rightarrow> int \<Rightarrow> (u16 \<times> int \<times> 's fs) option" where
  \<comment> \<open>the loop that looks for the cluster of the new entry: \<open>cluster\<close> and \<open>i\<close>\<close>
  "last_directory_cluster ops d f cluster i =
     (let n = FAT16_DIRECTORY_ENTRIES_PER_CLUSTER d (f_private f)
      in if word_of_int i > n \<and> cluster < 0xFFF0 \<and> cluster > 2
         then do {
           (code, f) \<leftarrow> fat16_get_fat_entry ops d f (uint cluster);
           last_directory_cluster ops d f (word_of_int code) (s32 (i - uint n))
         }
         else Some (cluster, i, f))"

definition new_directory_item :: "u16 \<Rightarrow> date_time \<Rightarrow> u8 list \<Rightarrow> fat_directory_item option" where
  \<comment> \<open>the local structure \<open>tmp\<close>; \<open>string_to_FAT_filename\<close> fills \<open>filename\<close> and, behind it, \<open>ext\<close>\<close>
  "new_directory_item first_cluster now name = do {
     bs \<leftarrow> string_to_FAT_filename name (replicate 11 0);
     Some \<lparr>di_filename = take 8 bs, di_ext = drop 8 bs, di_attribute = 0, di_reserved = 0, di_creation_tenths = 0,
       di_creation_time = 0, di_creation_date = fat_date now, di_last_access = 0, di_high_first_cluster = 0,
       di_last_mod_time = 0, di_last_mod_date = 0, di_low_first_cluster = first_cluster, di_filesize = 0\<rparr>
   }"

definition new_entry_location :: "'s port_ops \<Rightarrow> disk \<Rightarrow> 's fs \<Rightarrow> fat_directory \<Rightarrow> (int \<times> 's fs) option" where
  \<comment> \<open>\<open>disk_loc\<close> of \<open>fat16_create_file\<close>, or a negative error code\<close>
  "new_entry_location ops d f parentdir = do {
     let n = FAT16_DIRECTORY_ENTRIES_PER_CLUSTER d (f_private f);
     if n = 0 then None
     else if (ucast ((word_of_int (fd_total parentdir) :: u32) div n) :: u16) \<noteq> 0
     then do {
       (cluster, i, f) \<leftarrow> last_directory_cluster ops d f
           (word_of_int (fat16_sector_to_cluster (f_private f) (fd_sector_pos parentdir))) (fd_total parentdir);
       if i < 1 then Some (- ENODISKSPACE, f)
       else Some (uint (word_of_int (i * 32 +
              fat16_sector_to_absolute d (fat16_cluster_to_sector (f_private f) (uint cluster))) :: u32), f)
     }
     else Some (uint (word_of_int (fat16_sector_to_absolute d (fd_sector_pos parentdir) + 32 * fd_total parentdir) :: u32), f)
   }"

definition count_entry :: "'s fs \<Rightarrow> fat_directory \<Rightarrow> 's fs" where
  \<comment> \<open>\<open>parentdir->total++\<close>, which is seen later only in the root directory, a member of the private data\<close>
  "count_entry f parentdir =
     (let root = fp_root_directory (f_private f)
      in if fd_addr parentdir = fd_addr root
         then f\<lparr>f_private := (f_private f)\<lparr>fp_root_directory := root\<lparr>fd_total := fd_total root + 1\<rparr>\<rparr>\<rparr>
         else f)"

definition create_entry ::
  "'s port_ops \<Rightarrow> disk \<Rightarrow> 's fs \<Rightarrow> fat_directory \<Rightarrow> fat_directory_item \<Rightarrow> (int \<times> 's fs) option" where
  \<comment> \<open>the part of \<open>fat16_create_file\<close> between building the entry and the label \<open>out\<close>\<close>
  "create_entry ops d f parentdir tmp = do {
     offset \<leftarrow> fat16_find_free_entry_in_directory parentdir;
     if offset = 0xFFFF then Some (- ENODISKSPACE, f)
     else do {
       (disk_loc, f) \<leftarrow> new_entry_location ops d f parentdir;
       if disk_loc < 0 then Some (disk_loc, f)
       else cluster_stream_write ops (count_entry f parentdir) (s32 disk_loc) (bytes_of_item tmp) 32
     }
   }"

definition fat16_create_file ::
  "'s port_ops \<Rightarrow> disk \<Rightarrow> date_time \<Rightarrow> 's fs \<Rightarrow> path_part list \<Rightarrow> (int \<times> 's fs) option" where
  \<comment> \<open>when there is no parent directory the clean-up dereferences the null item\<close>
  "fat16_create_file ops d now f path = do {
     (first_cluster, f) \<leftarrow> fat16_generate_cluster_chain ops d f 1;
     if first_cluster = 0 then Some (- ENODISKSPACE, f)
     else do {
       (parent_dir_item, f) \<leftarrow> fat16_get_parent_dir ops d f path;
       case parent_dir_item of
         Some (DirItem a (Dir parentdir)) \<Rightarrow> do {
           part \<leftarrow> pathparser_get_last_part path;
           tmp \<leftarrow> new_directory_item first_cluster now (pp_part part @ [0]);
           (res, f) \<leftarrow> create_entry ops d f parentdir tmp;
           f \<leftarrow> free_item f (DirItem a (Dir parentdir));
           if res < 0
           then do {
             f \<leftarrow> (if first_cluster \<le> 2 then Some f else private_in_use f);
             (_, f) \<leftarrow> fat16_erase_cluster_chain ops d f first_cluster;
             Some (res, f)
           }
           else Some (res, f)
         }
       | _ \<Rightarrow> None
     }
   }"

section \<open>Opening a file\<close>

definition fat16_open ::
  "'s port_ops \<Rightarrow> disk \<Rightarrow> date_time \<Rightarrow> 's fs \<Rightarrow> path_part list \<Rightarrow> u8 \<Rightarrow> ((int + fat_file_descriptor) \<times> 's fs) option" where
  \<comment> \<open>an error code is returned as a pointer; the lookup is repeated once when it fails, since the call that would
      create the file is commented out\<close>
  "fat16_open ops d now f path mode = do {
     (a, k) \<leftarrow> kzalloc (f_k f) 16;
     let f = f\<lparr>f_k := k\<rparr>;
     if a = 0 then Some (Inl (- ENOMEM), f)
     else do {
       let err_out = (\<lambda>e f. do { k \<leftarrow> kfree (f_k f) a; Some (Inl e, f\<lparr>f_k := k\<rparr>) });
       (item, f) \<leftarrow> fat16_get_directory_entry ops d f path;
       (item, f) \<leftarrow> (if item = None then fat16_get_directory_entry ops d f path else Some (item, f));
       case item of
         None \<Rightarrow> err_out (- EIO) f
       | Some (DirItem ia p) \<Rightarrow> err_out (- EINVARG) f
       | Some (FileItem ia ca i) \<Rightarrow>
           if mode AND FILE_MODE_WRITE \<noteq> 0 \<and> di_attribute i AND FAT_FILE_READ_ONLY \<noteq> 0 then err_out (- ERDONLY) f
           else do {
             let desc = \<lparr>fdesc_addr = a, fdesc_path = [], fdesc_item = FileItem ia ca i, fdesc_pos = 0, fdesc_mode = 0\<rparr>;
             let desc = (if mode AND FILE_MODE_APPEND \<noteq> 0 then snd (fat16_seek desc 0 SEEK_END) else desc\<lparr>fdesc_pos := 0\<rparr>);
             let i = i\<lparr>di_last_access := fat_date now\<rparr>;
             let desc = desc\<lparr>fdesc_path := path, fdesc_mode := mode, fdesc_item := FileItem ia ca i\<rparr>;
             (_, f) \<leftarrow> fat16_write_directory_entry ops d f path i;
             Some (Inr desc, f)
           }
     }
   }"

section \<open>What a write changes\<close>

definition same_volume :: "'s fs \<Rightarrow> 's fs \<Rightarrow> bool" where
  "same_volume f f' \<longleftrightarrow> f_k f' = f_k f \<and> fp_header (f_private f') = fp_header (f_private f) \<and>
     fp_root_directory (f_private f') = fp_root_directory (f_private f) \<and> fp_addr (f_private f') = fp_addr (f_private f)"

definition wrote :: "'s image \<Rightarrow> disk \<Rightarrow> 's fs \<Rightarrow> nat \<Rightarrow> u8 list \<Rightarrow> 's fs \<Rightarrow> bool" where
  \<comment> \<open>the bytes \<open>bs\<close> are on the disk at \<open>p\<close>, and nothing else has changed\<close>
  "wrote img d f p bs f' \<longleftrightarrow> same_volume f f' \<and>
     (\<forall>q. disk_byte img (f_dev f') d q = (if p \<le> q \<and> q < p + length bs then bs ! (q - p) else disk_byte img (f_dev f) d q))"

definition table_now :: "'s image \<Rightarrow> disk \<Rightarrow> nat \<Rightarrow> 's fs \<Rightarrow> 's fs \<Rightarrow> table \<Rightarrow> bool" where
  \<comment> \<open>\<open>f'\<close> comes from \<open>f\<close> by changes to entries up to \<open>lim\<close> of the table, which now reads \<open>fat\<close>\<close>
  "table_now img d lim f f' fat \<longleftrightarrow> same_volume f f' \<and> fat_at img d f' = fat \<and>
     (\<forall>q. q < fat_pos f 0 \<or> fat_pos f (Suc lim) \<le> q \<longrightarrow> disk_byte img (f_dev f') d q = disk_byte img (f_dev f) d q)"

lemma same_volume_refl: "same_volume f f"
  by (simp add: same_volume_def)

lemma same_volume_trans: "same_volume f g \<Longrightarrow> same_volume g h \<Longrightarrow> same_volume f h"
  by (simp add: same_volume_def)

lemma same_volume_views:
  assumes "same_volume f g"
  shows "cluster_bytes g = cluster_bytes f" "fat_pos g = fat_pos f" "data_pos g = data_pos f"
    "fat_reachable d g = fat_reachable d f" "fp_header (f_private g) = fp_header (f_private f)"
    "fp_root_directory (f_private g) = fp_root_directory (f_private f)" "f_k g = f_k f"
  using assms by (simp_all add: same_volume_def cluster_bytes_def fat_pos_def data_pos_def fat_reachable_def fun_eq_iff)

lemma table_now_trans:
  "table_now img d lim f g fat \<Longrightarrow> table_now img d lim g h fat' \<Longrightarrow> table_now img d lim f h fat'"
  by (auto simp: table_now_def same_volume_views dest: same_volume_trans)

lemma fat_at_lt: "fat_at img d f c < 65536"
  unfolding fat_at_def by (rule unat_u16_lt)

lemma wrote_table:
  assumes "wrote img d f (fat_pos f c) (bytes16 v) f'" and "c \<le> lim"
  shows "table_now img d lim f f' ((fat_at img d f)(c := unat v))"
proof -
  have s: "same_volume f f'" and
    b: "\<And>q. disk_byte img (f_dev f') d q =
      (if fat_pos f c \<le> q \<and> q < fat_pos f c + 2 then bytes16 v ! (q - fat_pos f c) else disk_byte img (f_dev f) d q)"
    using assms(1) by (simp_all add: wrote_def)
  have p: "fat_pos f' = fat_pos f" using same_volume_views(2) [OF s] .
  have ps: "fat_pos f x = fat_pos f 0 + 2 * x" for x by (simp add: fat_pos_def)
  have "fat_at img d f' x = ((fat_at img d f)(c := unat v)) x" for x
  proof (cases "x = c")
    case True
    have "[bytes16 v ! 0, bytes16 v ! 1] = bytes16 v" by (simp add: bytes16_def)
    then show ?thesis using True le16_bytes16 [of v "[]"] by (simp add: fat_at_def p b)
  next
    case False
    have "\<not> (fat_pos f c \<le> fat_pos f x \<and> fat_pos f x < fat_pos f c + 2)"
      "\<not> (fat_pos f c \<le> fat_pos f x + 1 \<and> fat_pos f x + 1 < fat_pos f c + 2)"
      using False ps [of x] ps [of c] by presburger+
    then have "disk_byte img (f_dev f') d (fat_pos f x) = disk_byte img (f_dev f) d (fat_pos f x)"
      "disk_byte img (f_dev f') d (fat_pos f x + 1) = disk_byte img (f_dev f) d (fat_pos f x + 1)"
      using b [of "fat_pos f x"] b [of "fat_pos f x + 1"] by (simp_all only: if_False)
    then show ?thesis using False by (simp only: fat_at_def p fun_upd_other not_False_eq_True)
  qed
  moreover have "\<not> (fat_pos f c \<le> q \<and> q < fat_pos f c + 2)" if "q < fat_pos f 0 \<or> fat_pos f (Suc lim) \<le> q" for q
    using that unfolding ps [of c] ps [of "Suc lim"] using assms(2) by auto
  ultimately show ?thesis using s b by (auto simp: table_now_def)
qed

lemma unchanged_table: "unchanged img f f' \<Longrightarrow> table_now img d lim f f' (fat_at img d f)"
proof -
  assume u: "unchanged img f f'"
  have "disk_byte img (f_dev f') = disk_byte img (f_dev f)"
    using u by (simp add: unchanged_def disk_byte_def sect_def fun_eq_iff)
  then show ?thesis using u unchanged_views(3) [OF u, of d] by (simp add: table_now_def same_volume_def unchanged_def)
qed

section \<open>Table operations on a device\<close>

definition last_cluster :: "'s fs \<Rightarrow> nat" where
  \<comment> \<open>the bound at which the search for a free cluster gives up\<close>
  "last_cluster f = unat (h_sectors_big (fp_header (f_private f))) div unat (h_sectors_per_cluster (fp_header (f_private f)))"

definition roomy :: "disk \<Rightarrow> 's fs \<Rightarrow> bool" where
  \<comment> \<open>the table lies in the reach of the driver, and the number of clusters is one FAT16 can have\<close>
  "roomy d f \<longleftrightarrow> fat_reachable d f \<and> 3 \<le> last_cluster f \<and> last_cluster f < 0xFFF8"

lemma same_volume_roomy: "same_volume f g \<Longrightarrow> last_cluster g = last_cluster f \<and> roomy d g = roomy d f"
  by (simp add: roomy_def last_cluster_def same_volume_views)

lemma table_now_volume: "table_now img d lim f g fat \<Longrightarrow> same_volume f g" and
  table_now_fat: "table_now img d lim f g fat \<Longrightarrow> fat_at img d g = fat"
  by (simp_all add: table_now_def)

context pata_device
begin

lemma stream_write_ok:
  assumes "good s" and "usable d" and "ds_disk st = d" and "addressable d (p + length bs)"
  shows "\<exists>s'. diskstreamer_write ops s (snd (diskstreamer_seek st (int p))) bs (int (length bs)) =
      Some (int (length bs), st\<lparr>ds_pos := int (p + length bs)\<rparr>, s') \<and> good s' \<and>
     (\<forall>q. disk_byte img s' d q = (if p \<le> q \<and> q < p + length bs then bs ! (q - p) else disk_byte img s d q))"
proof -
  have "ds_disk (st\<lparr>ds_pos := int p\<rparr>) = d" using assms(3) by simp
  with diskstreamer_write_ok [of s "st\<lparr>ds_pos := int p\<rparr>" p bs] assms show ?thesis by (auto simp: diskstreamer_seek_ok [OF assms(4)])
qed

lemma fat_stream_write_ok:
  assumes "mounted good d f" and "addressable d (p + length bs)"
  shows "\<exists>f'. fat_stream_write ops f (int p) bs (int (length bs)) = Some (int (length bs), f') \<and>
     mounted good d f' \<and> wrote img d f p bs f'"
proof -
  obtain st where st: "fp_fat_read_stream (f_private f) = Some st" "ds_disk st = d" using assms(1) by (auto simp: mounted_def)
  have "good (f_dev f)" "usable d" using assms(1) by (simp_all add: mounted_def)
  from stream_write_ok [OF this st(2) assms(2)] st assms(1) show ?thesis
    by (auto simp: fat_stream_write_def mounted_def wrote_def same_volume_def)
qed

lemma cluster_stream_write_ok:
  assumes "mounted good d f" and "addressable d (p + length bs)"
  shows "\<exists>f'. cluster_stream_write ops f (int p) bs (int (length bs)) = Some (int (length bs), f') \<and>
     mounted good d f' \<and> wrote img d f p bs f'"
proof -
  obtain st where st: "fp_cluster_read_stream (f_private f) = Some st" "ds_disk st = d" using assms(1) by (auto simp: mounted_def)
  have "good (f_dev f)" "usable d" using assms(1) by (simp_all add: mounted_def)
  from stream_write_ok [OF this st(2) assms(2)] st assms(1) show ?thesis
    by (auto simp: cluster_stream_write_def mounted_def wrote_def same_volume_def)
qed

lemma directory_stream_write_ok:
  assumes "mounted good d f" and "addressable d (p + length bs)"
  shows "\<exists>f'. directory_stream_write ops f (int p) bs (int (length bs)) = Some (int (length bs), f') \<and>
     mounted good d f' \<and> wrote img d f p bs f'"
proof -
  obtain st where st: "fp_directory_stream (f_private f) = Some st" "ds_disk st = d" using assms(1) by (auto simp: mounted_def)
  have "good (f_dev f)" "usable d" using assms(1) by (simp_all add: mounted_def)
  from stream_write_ok [OF this st(2) assms(2)] st assms(1) show ?thesis
    by (auto simp: directory_stream_write_def mounted_def wrote_def same_volume_def)
qed

lemma get_entry:
  assumes "mounted good d f" and "fat_reachable d f" and "c < 65536"
  obtains f' where "fat16_get_fat_entry ops d f (int c) = Some (int (fat_at img d f c), f')" "mounted good d f'"
    "table_now img d lim f f' (fat_at img d f)"
  using fat16_get_fat_entry_ok [OF assms] unchanged_table by blast

lemma put_entry:
  assumes "mounted good d f" and "fat_reachable d f" and "c < 65536" and "c \<le> lim"
  obtains f' where "fat16_write_fat_entry ops d f (int c) v = Some (2, f')" "mounted good d f'"
    "table_now img d lim f f' ((fat_at img d f)(c := unat v))"
proof -
  note small = fat_pos_small [OF assms(3), of f]
  have "addressable d (fat_pos f c + length (bytes16 v))"
    using addressable_mono assms(2) small by (auto simp: fat_reachable_def)
  from fat_stream_write_ok [OF assms(1) this] obtain f' where f':
    "fat_stream_write ops f (int (fat_pos f c)) (bytes16 v) 2 = Some (2, f')" "mounted good d f'"
    "wrote img d f (fat_pos f c) (bytes16 v) f'" by auto
  have "uint (h_reserved_sectors (fp_header (f_private f))) * dk_sector_size d + int c * 2 = int (fat_pos f c)"
    using assms(1) by (simp add: fat_pos_def mounted_def)
  then have "fat16_write_fat_entry ops d f (int c) v = Some (2, f')"
    using f'(1) s32_int [of "fat_pos f c"] small by (simp add: fat16_write_fat_entry_def)
  then show ?thesis using that f'(2) wrote_table [OF f'(3) assms(4)] by blast
qed

lemma word_of_entry: "unat (word_of_int (int (fat_at img d f c)) :: u16) = fat_at img d f c"
  using fat_at_lt [of img d f c] by (simp add: unat_of_nat take_bit_nat_eq_self)

lemma uint_cluster: "c < 65536 \<Longrightarrow> uint (of_nat c :: u16) = int c"
  by (simp add: uint_nat unat_of_nat take_bit_nat_eq_self)

lemma end_of_chain: "(word_of_int (int (fat_at img d f c)) :: u16) \<ge> 0xFFF8 \<longleftrightarrow> 0xFFF8 \<le> fat_at img d f c"
  unfolding word_le_nat_alt word_of_entry by simp

lemma find_last_ok:
  assumes "mounted good d f" and "fat_reachable d f" and "chain 0xFFF8 (fat_at img d f) (c # cs)"
  shows "\<exists>f'. fat16_find_last_cluster_of_chain ops d f (of_nat c) = Some (of_nat (last (c # cs)), f') \<and>
     mounted good d f' \<and> table_now img d lim f f' (fat_at img d f)"
  using assms
proof (induction cs arbitrary: c f)
  case Nil
  then have c: "c < 65536" "0xFFF8 \<le> fat_at img d f c" by simp_all
  obtain f1 where "fat16_get_fat_entry ops d f (int c) = Some (int (fat_at img d f c), f1)" "mounted good d f1"
    "table_now img d lim f f1 (fat_at img d f)" using get_entry [OF Nil(1,2) c(1)] .
  with c end_of_chain [of d f c] show ?case
    by (subst fat16_find_last_cluster_of_chain.simps) (simp add: uint_cluster)
next
  case (Cons x xs)
  then have c: "c < 65536" and x: "fat_at img d f c = x" "chain 0xFFF8 (fat_at img d f) (x # xs)" by simp_all
  obtain f1 where f1: "fat16_get_fat_entry ops d f (int c) = Some (int (fat_at img d f c), f1)" "mounted good d f1"
    "table_now img d lim f f1 (fat_at img d f)" using get_entry [OF Cons(2,3) c] .
  have "fat_reachable d f1" using Cons(3) same_volume_views(4) [OF table_now_volume [OF f1(3)]] by simp
  moreover have "chain 0xFFF8 (fat_at img d f1) (x # xs)" using x(2) table_now_fat [OF f1(3)] by simp
  ultimately obtain f2 where f2: "fat16_find_last_cluster_of_chain ops d f1 (of_nat x) = Some (of_nat (last (x # xs)), f2)"
    "mounted good d f2" "table_now img d lim f1 f2 (fat_at img d f)"
    using Cons.IH [OF f1(2)] table_now_fat [OF f1(3)] by auto
  have "\<not> 0xFFF8 \<le> fat_at img d f c" using chain_hd [OF x(2)] x(1) by simp
  with f1(1) f2(1) c x(1) end_of_chain [of d f c]
  have "fat16_find_last_cluster_of_chain ops d f (of_nat c) = Some (of_nat (last (c # x # xs)), f2)"
    by (subst fat16_find_last_cluster_of_chain.simps) (simp add: uint_cluster)
  then show ?case using f2(2) table_now_trans [OF f1(3) f2(3)] by blast
qed

lemma first_cluster_step:
  assumes "mounted good d f" and "roomy d f" and "c \<le> last_cluster f"
  obtains f' where "mounted good d f'" "table_now img d lim f f' (fat_at img d f)"
    "first_cluster_loop ops d f (of_nat c) =
       (if fat_at img d f c = 0 then Some (of_nat c, f') else if last_cluster f \<le> c then Some (0, f')
        else first_cluster_loop ops d f' (of_nat (Suc c)))"
proof -
  let ?h = "fp_header (f_private f)"
  have c: "c < 65536" and r: "fat_reachable d f" using assms by (simp_all add: roomy_def)
  obtain f1 where f1: "fat16_get_fat_entry ops d f (int c) = Some (int (fat_at img d f c), f1)" "mounted good d f1"
    "table_now img d lim f f1 (fat_at img d f)" using get_entry [OF assms(1) r c] .
  have h: "fp_header (f_private f1) = ?h" using same_volume_views(5) [OF table_now_volume [OF f1(3)]] .
  have u: "unat (of_nat c :: u32) = c" and s: "sint (of_nat c :: u32) = int c"
    using c sint_small [of "of_nat c"] unat_of_nat_small [of c] by simp_all
  have nz: "h_sectors_per_cluster ?h \<noteq> 0" using assms(1) by (auto simp: mounted_def)
  have "unat (h_sectors_big ?h div ucast (h_sectors_per_cluster ?h)) = last_cluster f"
    using unat_u8_lt [of "h_sectors_per_cluster ?h"]
    by (simp add: last_cluster_def unat_div unsigned_ucast_eq take_bit_nat_eq_self)
  then have le: "h_sectors_big ?h div ucast (h_sectors_per_cluster ?h) \<le> of_nat c \<longleftrightarrow> last_cluster f \<le> c"
    by (simp add: word_le_nat_alt u)
  have z: "(word_of_int (int (fat_at img d f c)) :: u16) = 0 \<longleftrightarrow> fat_at img d f c = 0"
    using word_of_entry [of d f c] by (metis unat_eq_zero)
  have "(ucast (of_nat c :: u32) :: u16) = of_nat c" using c by (simp add: unsigned_of_nat take_bit_nat_eq_self)
  then have "first_cluster_loop ops d f (of_nat c) =
       (if fat_at img d f c = 0 then Some (of_nat c, f1) else if last_cluster f \<le> c then Some (0, f1)
        else first_cluster_loop ops d f1 (of_nat (Suc c)))"
    using f1(1) nz le z by (subst first_cluster_loop.simps) (simp add: s h add.commute)
  then show ?thesis using that f1(2,3) by blast
qed

lemma first_cluster_loop_ok:
  assumes "mounted good d f" and "roomy d f" and "c \<le> last_cluster f"
  shows "\<exists>f'. first_cluster_loop ops d f (of_nat c) =
      Some (case first_free c (last_cluster f) (fat_at img d f) of None \<Rightarrow> 0 | Some n \<Rightarrow> of_nat n, f') \<and>
     mounted good d f' \<and> table_now img d lim f f' (fat_at img d f)"
  using assms
proof (induction "last_cluster f - c" arbitrary: c f rule: less_induct)
  case less
  from first_cluster_step [OF less.prems] obtain f1 where f1: "mounted good d f1" "table_now img d lim f f1 (fat_at img d f)"
    "first_cluster_loop ops d f (of_nat c) =
       (if fat_at img d f c = 0 then Some (of_nat c, f1) else if last_cluster f \<le> c then Some (0, f1)
        else first_cluster_loop ops d f1 (of_nat (Suc c)))" by blast
  note rec = first_free_rec [of c "last_cluster f" "fat_at img d f"]
  show ?case
  proof (cases "fat_at img d f c = 0 \<or> last_cluster f \<le> c")
    case True
    then show ?thesis using f1 rec by auto
  next
    case False
    have v: "last_cluster f1 = last_cluster f" "roomy d f1" "fat_at img d f1 = fat_at img d f"
      using same_volume_roomy [OF table_now_volume [OF f1(2)], of d] less.prems(2) table_now_fat [OF f1(2)] by simp_all
    have "last_cluster f - Suc c < last_cluster f - c" using False by (simp add: diff_less_mono2)
    with less.hyps [of f1 "Suc c"] False f1(1) v obtain f2 where f2: "first_cluster_loop ops d f1 (of_nat (Suc c)) =
      Some (case first_free (Suc c) (last_cluster f) (fat_at img d f) of None \<Rightarrow> 0 | Some n \<Rightarrow> of_nat n, f2)"
      "mounted good d f2" "table_now img d lim f1 f2 (fat_at img d f)" by auto
    then show ?thesis using f1(3) False rec table_now_trans [OF f1(2) f2(3)] by auto
  qed
qed

lemma first_cluster_ok:
  assumes "mounted good d f" and "roomy d f"
  shows "\<exists>f'. fat16_get_first_first_cluster ops d f =
      Some (case first_free 3 (last_cluster f) (fat_at img d f) of None \<Rightarrow> 0 | Some n \<Rightarrow> of_nat n, f') \<and>
     mounted good d f' \<and> table_now img d lim f f' (fat_at img d f)"
  using first_cluster_loop_ok [OF assms, of 3 lim] assms(2) by (simp add: fat16_get_first_first_cluster_def roomy_def)

lemma unat_cluster: "c < 65536 \<Longrightarrow> unat (of_nat c :: u16) = c"
  by (simp add: unat_of_nat take_bit_nat_eq_self)

lemma cluster_nonzero: "0 < n \<Longrightarrow> n < 65536 \<Longrightarrow> (of_nat n :: u16) \<noteq> 0"
  using unat_cluster [of n] by (metis unat_0 less_irrefl)

lemma add_cluster_ok:
  assumes "mounted good d f" and "roomy d f" and "chain 0xFFF8 (fat_at img d f) (c # cs)" and "last (c # cs) \<le> last_cluster f"
    and "first_free 3 (last_cluster f) (fat_at img d f) = Some n"
  shows "\<exists>f'. fat16_add_cluster_to_chain ops d f (of_nat c) = Some (0, f') \<and> mounted good d f' \<and>
     table_now img d (last_cluster f) f f' ((fat_at img d f)(last (c # cs) := n, n := 0xFFFF))"
proof -
  let ?L = "last_cluster f" and ?fat = "fat_at img d f" and ?l = "last (c # cs)"
  have r: "fat_reachable d f" "3 \<le> ?L" using assms(2) by (simp_all add: roomy_def)
  have n: "3 \<le> n" "n \<le> ?L" using first_free_Some [OF r(2) assms(5)] by (simp_all add: free_clusters_def)
  have small: "n < 65536" "?l < 65536" using n assms(2,4) by (simp_all add: roomy_def)
  obtain f1 where f1: "fat16_find_last_cluster_of_chain ops d f (of_nat c) = Some (of_nat ?l, f1)" "mounted good d f1"
    "table_now img d ?L f f1 ?fat" using find_last_ok [OF assms(1) r(1) assms(3)] by blast
  note v1 = same_volume_roomy [OF table_now_volume [OF f1(3)], of d] table_now_fat [OF f1(3)]
  from first_cluster_ok [OF f1(2)] assms(2,5) v1 obtain f2 where f2: "fat16_get_first_first_cluster ops d f1 = Some (of_nat n, f2)"
    "mounted good d f2" "table_now img d ?L f1 f2 ?fat" by fastforce
  note t2 = table_now_trans [OF f1(3) f2(3)]
  have r2: "fat_reachable d f2" using r(1) same_volume_views(4) [OF table_now_volume [OF t2]] by simp
  obtain f3 where f3: "fat16_write_fat_entry ops d f2 (int ?l) (of_nat n) = Some (2, f3)" "mounted good d f3"
    "table_now img d ?L f2 f3 (?fat(?l := n))"
    using put_entry [OF f2(2) r2 small(2) assms(4), of "of_nat n"] unat_cluster [OF small(1)] table_now_fat [OF t2] by metis
  note t3 = table_now_trans [OF t2 f3(3)]
  have r3: "fat_reachable d f3" using r(1) same_volume_views(4) [OF table_now_volume [OF t3]] by simp
  have "unat EOC = 0xFFFF" by (simp add: EOC_def)
  then obtain f4 where f4: "fat16_write_fat_entry ops d f3 (int n) EOC = Some (2, f4)" "mounted good d f4"
    "table_now img d ?L f3 f4 (?fat(?l := n, n := 0xFFFF))"
    using put_entry [OF f3(2) r3 small(1) n(2), of EOC] table_now_fat [OF t3] by metis
  have "fat16_add_cluster_to_chain ops d f (of_nat c) = Some (0, f4)"
    using f1(1) f2(1) f3(1) f4(1) small n cluster_nonzero [OF _ small(1)]
    by (simp add: fat16_add_cluster_to_chain_def uint_cluster)
  then show ?thesis using f4(2) table_now_trans [OF t3 f4(3)] by blast
qed

lemma add_cluster_full:
  assumes "mounted good d f" and "roomy d f" and "chain 0xFFF8 (fat_at img d f) (c # cs)"
    and "first_free 3 (last_cluster f) (fat_at img d f) = None"
  shows "\<exists>f'. fat16_add_cluster_to_chain ops d f (of_nat c) = Some (- ENODISKSPACE, f') \<and> mounted good d f' \<and>
     table_now img d lim f f' (fat_at img d f)"
proof -
  have r: "fat_reachable d f" using assms(2) by (simp add: roomy_def)
  obtain f1 where f1: "fat16_find_last_cluster_of_chain ops d f (of_nat c) = Some (of_nat (last (c # cs)), f1)" "mounted good d f1"
    "table_now img d lim f f1 (fat_at img d f)" using find_last_ok [OF assms(1) r assms(3)] by blast
  note v1 = same_volume_roomy [OF table_now_volume [OF f1(3)], of d] table_now_fat [OF f1(3)]
  from first_cluster_ok [OF f1(2)] assms(2,4) v1 obtain f2 where f2: "fat16_get_first_first_cluster ops d f1 = Some (0, f2)"
    "mounted good d f2" "table_now img d lim f1 f2 (fat_at img d f)" by fastforce
  then have "fat16_add_cluster_to_chain ops d f (of_nat c) = Some (- ENODISKSPACE, f2)"
    using f1(1) by (simp add: fat16_add_cluster_to_chain_def)
  then show ?thesis using f2(2) table_now_trans [OF f1(3) f2(3)] by blast
qed

lemma add_clusters_ok:
  assumes "mounted good d f" and "roomy d f" and "fat_at img d f = seal 0xFFFF fat (c # xs)" and "distinct (c # xs)"
    and "set (c # xs) \<subseteq> free_clusters 3 (last_cluster f) fat"
    and "length (c # xs) + k \<le> card (free_clusters 3 (last_cluster f) fat)"
  shows "\<exists>ys f'. add_clusters ops d k (of_nat c) f = Some f' \<and> length ys = k \<and> distinct (c # xs @ ys) \<and>
     set (c # xs @ ys) \<subseteq> free_clusters 3 (last_cluster f) fat \<and> mounted good d f' \<and>
     table_now img d (last_cluster f) f f' (seal 0xFFFF fat (c # xs @ ys))"
  using assms
proof (induction k arbitrary: f xs)
  case 0
  then have "table_now img d (last_cluster f) f f (seal 0xFFFF fat (c # xs))"
    by (simp add: table_now_def same_volume_refl)
  then show ?case using 0 by (intro exI [of _ "[]"] exI [of _ f]) simp
next
  case (Suc k)
  let ?L = "last_cluster f" and ?xs = "c # xs"
  have L: "3 \<le> ?L" "?L < 0xFFF8" using Suc.prems(2) by (simp_all add: roomy_def)
  have lt: "length ?xs < card (free_clusters 3 ?L fat)" using Suc.prems(6) by simp
  have k: "?xs \<noteq> []" "(2 :: nat) \<le> 3" "(0xFFF8 :: nat) \<le> 0xFFFF" by simp_all
  obtain n where n: "first_free 3 ?L (seal 0xFFFF fat ?xs) = Some n" "n \<in> free_clusters 3 ?L fat" "n \<notin> set ?xs"
    by (rule free_seal_next [OF Suc.prems(4) k(1) Suc.prems(5) k(2) L k(3) lt])
  have ch: "chain 0xFFF8 (fat_at img d f) ?xs"
    unfolding Suc.prems(3) by (rule free_seal(2) [OF Suc.prems(4) _ Suc.prems(5) _ L(2)]) simp_all
  have "last ?xs \<in> free_clusters 3 ?L fat" using Suc.prems(5) last_in_set [of ?xs] by blast
  then have "last ?xs \<le> ?L" by (simp add: free_clusters_def)
  from add_cluster_ok [OF Suc.prems(1,2) ch this] n(1) Suc.prems(3) obtain f1 where
    f1: "fat16_add_cluster_to_chain ops d f (of_nat c) = Some (0, f1)" "mounted good d f1"
      "table_now img d ?L f f1 ((seal 0xFFFF fat ?xs)(last ?xs := n, n := 0xFFFF))" by auto
  have d: "distinct (?xs @ [n])" using Suc.prems(4) n(3) by simp
  have t1: "table_now img d ?L f f1 (seal 0xFFFF fat (?xs @ [n]))" using f1(3) seal_extend [OF d] by simp
  have v1: "last_cluster f1 = ?L" "roomy d f1" "fat_at img d f1 = seal 0xFFFF fat (c # xs @ [n])"
    using same_volume_roomy [OF table_now_volume [OF t1], of d] Suc.prems(2) table_now_fat [OF t1] by simp_all
  have "distinct (c # xs @ [n])" "set (c # xs @ [n]) \<subseteq> free_clusters 3 (last_cluster f1) fat"
    "length (c # xs @ [n]) + k \<le> card (free_clusters 3 (last_cluster f1) fat)"
    using d Suc.prems(5,6) n(2) v1(1) by auto
  from Suc.IH [OF f1(2) v1(2,3) this] obtain ys f2 where f2: "add_clusters ops d k (of_nat c) f1 = Some f2" "length ys = k"
    "distinct (c # (xs @ [n]) @ ys)" "set (c # (xs @ [n]) @ ys) \<subseteq> free_clusters 3 ?L fat" "mounted good d f2"
    "table_now img d ?L f1 f2 (seal 0xFFFF fat (c # (xs @ [n]) @ ys))" unfolding v1(1) by blast
  have "add_clusters ops d (Suc k) (of_nat c) f = Some f2" using f1(1) f2(1) by simp
  moreover have "length (n # ys) = Suc k" using f2(2) by simp
  ultimately show ?case
    using f2(3-5) table_now_trans [OF t1 f2(6)] by (intro exI [of _ "n # ys"] exI [of _ f2]) simp
qed

lemma generate_chain_ok:
  assumes "mounted good d f" and "roomy d f" and "0 < k" and "k \<le> card (free_clusters 3 (last_cluster f) (fat_at img d f))"
  shows "\<exists>xs f'. fat16_generate_cluster_chain ops d f (int k) = Some (of_nat (hd xs), f') \<and> length xs = k \<and> distinct xs \<and>
     set xs \<subseteq> free_clusters 3 (last_cluster f) (fat_at img d f) \<and> mounted good d f' \<and>
     table_now img d (last_cluster f) f f' (seal 0xFFFF (fat_at img d f) xs)"
proof -
  let ?L = "last_cluster f" and ?fat = "fat_at img d f"
  have L: "3 \<le> ?L" "?L < 0xFFF8" "fat_reachable d f" using assms(2) by (simp_all add: roomy_def)
  have "free_clusters 3 ?L ?fat \<noteq> {}" using assms(3,4) by (metis card.empty leD)
  then obtain n where n: "first_free 3 ?L ?fat = Some n" using first_free_None [OF L(1)] by fastforce
  have nf: "n \<in> free_clusters 3 ?L ?fat" by (rule first_free_Some [OF L(1) n])
  then have sm: "3 \<le> n" "n \<le> ?L" "n < 65536" using L by (simp_all add: free_clusters_def)
  from first_cluster_ok [OF assms(1,2)] n obtain f1 where f1: "fat16_get_first_first_cluster ops d f = Some (of_nat n, f1)"
    "mounted good d f1" "table_now img d ?L f f1 ?fat" by fastforce
  have r1: "fat_reachable d f1" using L(3) same_volume_views(4) [OF table_now_volume [OF f1(3)]] by simp
  have "unat (0xFFFF :: u16) = 0xFFFF" by simp
  then obtain f2 where f2: "fat16_write_fat_entry ops d f1 (int n) 0xFFFF = Some (2, f2)" "mounted good d f2"
    "table_now img d ?L f1 f2 (?fat(n := 0xFFFF))"
    using put_entry [OF f1(2) r1 sm(3,2), of "0xFFFF"] table_now_fat [OF f1(3)] by metis
  note t2 = table_now_trans [OF f1(3) f2(3)]
  have v2: "last_cluster f2 = ?L" "roomy d f2" "fat_at img d f2 = seal 0xFFFF ?fat [n]"
    using same_volume_roomy [OF table_now_volume [OF t2], of d] assms(2) table_now_fat [OF t2] by simp_all
  have "set [n] \<subseteq> free_clusters 3 (last_cluster f2) ?fat" "length [n] + (k - 1) \<le> card (free_clusters 3 (last_cluster f2) ?fat)"
    using nf v2(1) assms(3,4) by simp_all
  from add_clusters_ok [OF f2(2) v2(2,3) _ this] obtain ys f3 where f3: "add_clusters ops d (k - 1) (of_nat n) f2 = Some f3"
    "length ys = k - 1" "distinct (n # [] @ ys)" "set (n # [] @ ys) \<subseteq> free_clusters 3 ?L ?fat" "mounted good d f3"
    "table_now img d ?L f2 f3 (seal 0xFFFF ?fat (n # [] @ ys))" unfolding v2(1) by auto
  have "nat (int k - 1) = k - 1" by simp
  with f1(1) f2(1) f3(1) sm assms(3) cluster_nonzero [of n]
  have "fat16_generate_cluster_chain ops d f (int k) = Some (of_nat n, f3)"
    by (simp add: fat16_generate_cluster_chain_def uint_cluster)
  then show ?thesis using f3(2-5) assms(3) table_now_trans [OF t2 f3(6)]
    by (intro exI [of _ "n # ys"] exI [of _ f3]) simp
qed

lemma erase_chain_loop_ok:
  assumes "mounted good d f" and "fat_reachable d f" and "chain 0xFFF8 (fat_at img d f) (c # cs)"
    and "fat_at img d f (last (c # cs)) = 0xFFFF" and "\<forall>x \<in> set (c # cs). x \<le> lim"
  shows "\<exists>f'. erase_chain_loop ops d f (of_nat c) = Some f' \<and> mounted good d f' \<and>
     table_now img d lim f f' (wipe (fat_at img d f) (c # cs))"
  using assms
proof (induction cs arbitrary: c f)
  case (Nil c f)
  let ?fat = "fat_at img d f"
  have c: "c < 65536" "c \<le> lim" "?fat c = 0xFFFF" using Nil by simp_all
  obtain f1 where f1: "fat16_get_fat_entry ops d f (int c) = Some (int (?fat c), f1)" "mounted good d f1"
    "table_now img d lim f f1 ?fat" using get_entry [OF Nil(1,2) c(1)] .
  have "fat_reachable d f1" using Nil(2) same_volume_views(4) [OF table_now_volume [OF f1(3)]] by simp
  from put_entry [OF f1(2) this c(1,2), of 0] obtain f2 where f2: "fat16_write_fat_entry ops d f1 (int c) 0 = Some (2, f2)"
    "mounted good d f2" "table_now img d lim f1 f2 (?fat(c := 0))" using table_now_fat [OF f1(3)] by (metis unat_0)
  have "erase_chain_loop ops d f (of_nat c) = Some f2"
    using f1(1) f2(1) c by (subst erase_chain_loop.simps) (simp add: uint_cluster)
  moreover have "wipe ?fat [c] = ?fat(c := 0)" by (auto simp: wipe_def fun_eq_iff)
  ultimately show ?case using f2(2) table_now_trans [OF f1(3) f2(3)] by metis
next
  case (Cons x xs c f)
  let ?fat = "fat_at img d f"
  have c: "c < 65536" "c \<le> lim" "?fat c = x" and ch: "chain 0xFFF8 ?fat (x # xs)" using Cons(4,6) by simp_all
  obtain f1 where f1: "fat16_get_fat_entry ops d f (int c) = Some (int (?fat c), f1)" "mounted good d f1"
    "table_now img d lim f f1 ?fat" using get_entry [OF Cons(2,3) c(1)] .
  have "fat_reachable d f1" using Cons(3) same_volume_views(4) [OF table_now_volume [OF f1(3)]] by simp
  from put_entry [OF f1(2) this c(1,2), of 0] obtain f2 where f2: "fat16_write_fat_entry ops d f1 (int c) 0 = Some (2, f2)"
    "mounted good d f2" "table_now img d lim f1 f2 (?fat(c := 0))" using table_now_fat [OF f1(3)] by (metis unat_0)
  note t2 = table_now_trans [OF f1(3) f2(3)]
  have nin: "c \<notin> set (x # xs)" using chain_distinct [OF Cons(4)] by simp
  have r2: "fat_reachable d f2" using Cons(3) same_volume_views(4) [OF table_now_volume [OF t2]] by simp
  have ch2: "chain 0xFFF8 (fat_at img d f2) (x # xs)"
    unfolding table_now_fat [OF t2] by (rule chain_cong [OF ch]) (use nin in auto)
  have "last (x # xs) \<noteq> c" using nin last_in_set [of "x # xs"] by auto
  then have e2: "fat_at img d f2 (last (x # xs)) = 0xFFFF" using Cons(5) table_now_fat [OF t2] by simp
  have "\<forall>y \<in> set (x # xs). y \<le> lim" using Cons(6) by simp
  from Cons.IH [OF f2(2) r2 ch2 e2 this] obtain f3 where f3: "erase_chain_loop ops d f2 (of_nat x) = Some f3" "mounted good d f3"
    "table_now img d lim f2 f3 (wipe (?fat(c := 0)) (x # xs))" unfolding table_now_fat [OF t2] by blast
  have x: "x < 0xFFFF" using chain_hd [OF ch] by simp
  then have "(of_nat x :: u16) \<noteq> 0xFFFF" using unat_cluster [of x] by auto
  then have "erase_chain_loop ops d f (of_nat c) = Some f3"
    using f1(1) f2(1) f3(1) c by (subst erase_chain_loop.simps) (simp add: uint_cluster)
  then show ?case using f3(2) table_now_trans [OF t2 f3(3)] wipe_Cons [of ?fat c "x # xs"] by metis
qed

end

section \<open>Properties of the allocation table\<close>

definition demo_volume :: "ata fs" where
  \<comment> \<open>the volume of the reading example with eight clusters, of which 2 and 4 form a file\<close>
  "demo_volume = demo_fs\<lparr>f_private := (f_private demo_fs)\<lparr>fp_header := (fp_header (f_private demo_fs))\<lparr>h_sectors_big := 8\<rparr>\<rparr>\<rparr>"

lemma demo_volume_fs:
  "f_dev demo_volume = f_dev demo_fs" "fat_pos demo_volume = fat_pos demo_fs" "last_cluster demo_volume = 8"
  "mounted ata_good demo_dsk demo_volume" "roomy demo_dsk demo_volume"
proof -
  show 1: "f_dev demo_volume = f_dev demo_fs" "fat_pos demo_volume = fat_pos demo_fs" "last_cluster demo_volume = 8"
    by (simp_all add: demo_volume_def fat_pos_def fun_eq_iff last_cluster_def demo_fs_def zero_header_def)
  show "mounted ata_good demo_dsk demo_volume" using demo_fs_mounted(1) by (simp add: mounted_def demo_volume_def)
  show "roomy demo_dsk demo_volume" using demo_fs_mounted(2) 1 by (simp add: roomy_def fat_reachable_def)
qed

lemma demo_volume_table:
  "fat_at at_img demo_dsk demo_volume 2 = 4" "fat_at at_img demo_dsk demo_volume 3 = 0"
  "fat_at at_img demo_dsk demo_volume 4 = 0xFFFF" "fat_at at_img demo_dsk demo_volume 5 = 0"
proof -
  have p: "fat_pos demo_fs c = 512 + c * 2" for c by (simp add: fat_pos_def demo_fs_def zero_header_def)
  show "fat_at at_img demo_dsk demo_volume 2 = 4" "fat_at at_img demo_dsk demo_volume 3 = 0"
    "fat_at at_img demo_dsk demo_volume 4 = 0xFFFF" "fat_at at_img demo_dsk demo_volume 5 = 0"
    by (simp_all add: fat_at_def demo_volume_fs(1,2) p demo_byte le16_def demo_fat_def nth_append nth_Cons')
qed

text \<open>C18: growing a file. \<open>fat16_add_cluster_to_chain\<close> appends the first free cluster to the chain that starts at the given cluster
  and ends it there; no other entry of the table and no byte outside it changes. When no cluster is free it says so and changes nothing.\<close>
theorem fat16_add_cluster_extends:
  assumes "pata_device ops good img" and "mounted good d f" and "roomy d f"
    and "chain 0xFFF8 (fat_at img d f) xs" and "last xs \<le> last_cluster f"
  shows "case first_free 3 (last_cluster f) (fat_at img d f) of
      None \<Rightarrow> \<exists>f'. fat16_add_cluster_to_chain ops d f (of_nat (hd xs)) = Some (- ENODISKSPACE, f') \<and> mounted good d f' \<and>
        table_now img d (last_cluster f) f f' (fat_at img d f)
    | Some n \<Rightarrow> \<exists>f'. fat16_add_cluster_to_chain ops d f (of_nat (hd xs)) = Some (0, f') \<and> mounted good d f' \<and>
        table_now img d (last_cluster f) f f' ((fat_at img d f)(last xs := n, n := 0xFFFF)) \<and>
        chain 0xFFF8 (fat_at img d f') (xs @ [n])"
proof -
  obtain c cs where xs: "xs = c # cs" using assms(4) by (cases xs) auto
  note ch = assms(4) [unfolded xs] and le = assms(5) [unfolded xs]
  show ?thesis
  proof (cases "first_free 3 (last_cluster f) (fat_at img d f)")
    case None
    then show ?thesis using pata_device.add_cluster_full [OF assms(1-3) ch] xs by simp
  next
    case (Some n)
    then obtain f' where f': "fat16_add_cluster_to_chain ops d f (of_nat c) = Some (0, f')" "mounted good d f'"
      "table_now img d (last_cluster f) f f' ((fat_at img d f)(last xs := n, n := 0xFFFF))"
      using pata_device.add_cluster_ok [OF assms(1-3) ch le] xs by blast
    have L: "3 \<le> last_cluster f" "last_cluster f < 0xFFF8" using assms(3) by (simp_all add: roomy_def)
    have n: "3 \<le> n" "n \<le> last_cluster f" "fat_at img d f n = 0"
      using first_free_Some [OF L(1) Some] by (simp_all add: free_clusters_def)
    have "n \<notin> set xs" using chain_used [OF assms(4), of n] n(3) by auto
    then have "chain 0xFFF8 ((fat_at img d f)(last xs := n, n := 0xFFFF)) (xs @ [n])"
      using chain_extend [OF assms(4)] n L by simp
    then have "chain 0xFFF8 (fat_at img d f') (xs @ [n])" using table_now_fat [OF f'(3)] by metis
    with f' Some xs show ?thesis by (simp only: option.case list.sel) blast
  qed
qed

theorem fat16_add_cluster_extends_witness:
  "\<exists>f'. fat16_add_cluster_to_chain ata_ops demo_dsk demo_volume 2 = Some (0, f') \<and>
     chain 0xFFF8 (fat_at at_img demo_dsk f') [2, 4, 3]"
proof -
  have "chain 0xFFF8 (fat_at at_img demo_dsk demo_volume) [2, 4]" using demo_volume_table by simp
  moreover have "first_free 3 8 (fat_at at_img demo_dsk demo_volume) = Some 3"
    using demo_volume_table(2) by (subst first_free_rec) simp
  ultimately show ?thesis
    using fat16_add_cluster_extends [OF ata.pata_device_axioms demo_volume_fs(4,5), of "[2, 4]"]
    by (auto simp: demo_volume_fs(3))
qed

text \<open>C19: allocating a chain and erasing it. With enough free clusters \<open>fat16_generate_cluster_chain\<close> builds a chain of exactly the
  clusters asked for out of free ones, and \<open>fat16_erase_cluster_chain\<close> on it terminates and gives back the table as it was.\<close>
theorem fat16_generate_erase_roundtrip:
  assumes "pata_device ops good img" and "mounted good d f" and "roomy d f" and "0 < k"
    and "k \<le> card (free_clusters 3 (last_cluster f) (fat_at img d f))"
  shows "\<exists>xs f1 f2. fat16_generate_cluster_chain ops d f (int k) = Some (of_nat (hd xs), f1) \<and> length xs = k \<and>
     chain 0xFFF8 (fat_at img d f1) xs \<and> set xs \<subseteq> free_clusters 3 (last_cluster f) (fat_at img d f) \<and>
     fat16_erase_cluster_chain ops d f1 (of_nat (hd xs)) = Some (0, f2) \<and> mounted good d f2 \<and>
     table_now img d (last_cluster f) f f2 (fat_at img d f)"
proof -
  let ?L = "last_cluster f" and ?fat = "fat_at img d f"
  have L: "3 \<le> ?L" "?L < 0xFFF8" "fat_reachable d f" using assms(3) by (simp_all add: roomy_def)
  from pata_device.generate_chain_ok [OF assms] obtain xs f1 where
    g: "fat16_generate_cluster_chain ops d f (int k) = Some (of_nat (hd xs), f1)" "length xs = k" "distinct xs"
      "set xs \<subseteq> free_clusters 3 ?L ?fat" "mounted good d f1" "table_now img d ?L f f1 (seal 0xFFFF ?fat xs)" by blast
  have ne: "xs \<noteq> []" using g(2) assms(4) by auto
  then obtain c cs where xs: "xs = c # cs" by (cases xs) auto
  have ch: "chain 0xFFF8 (fat_at img d f1) (c # cs)"
    unfolding table_now_fat [OF g(6)] xs [symmetric] by (rule free_seal(2) [OF g(3) ne g(4) _ L(2)]) simp_all
  have r1: "fat_reachable d f1" using L(3) same_volume_views(4) [OF table_now_volume [OF g(6)]] by simp
  have e: "fat_at img d f1 (last (c # cs)) = 0xFFFF"
    unfolding table_now_fat [OF g(6)] xs [symmetric] by (rule seal_last [OF g(3) ne])
  have le: "\<forall>x \<in> set (c # cs). x \<le> ?L" and free: "\<And>x. x \<in> set xs \<Longrightarrow> ?fat x = 0"
    using g(4) by (auto simp: xs free_clusters_def)
  from pata_device.erase_chain_loop_ok [OF assms(1) g(5) r1 ch e le] obtain f2 where
    f2: "erase_chain_loop ops d f1 (of_nat c) = Some f2" "mounted good d f2"
      "table_now img d ?L f1 f2 (wipe (fat_at img d f1) (c # cs))" by blast
  have "wipe (fat_at img d f1) (c # cs) = ?fat"
    unfolding table_now_fat [OF g(6)] xs [symmetric] by (rule wipe_seal) (rule free)
  then have t: "table_now img d ?L f f2 ?fat" using table_now_trans [OF g(6) f2(3)] by simp
  have "3 \<le> c" "c \<le> ?L" using g(4) xs by (auto simp: free_clusters_def)
  then have "c < 65536" "\<not> (of_nat c :: u16) \<le> 2" using L(2) by (simp_all add: word_le_nat_alt unat_of_nat take_bit_nat_eq_self)
  then have "fat16_erase_cluster_chain ops d f1 (of_nat c) = Some (0, f2)" using f2(1) by (simp add: fat16_erase_cluster_chain_def)
  then show ?thesis using g(1,2,4) ch f2(2) t xs by (intro exI [of _ xs] exI [of _ f1] exI [of _ f2]) simp
qed

theorem fat16_generate_erase_roundtrip_witness:
  "\<exists>xs f1 f2. fat16_generate_cluster_chain ata_ops demo_dsk demo_volume 2 = Some (of_nat (hd xs), f1) \<and> length xs = 2 \<and>
     fat16_erase_cluster_chain ata_ops demo_dsk f1 (of_nat (hd xs)) = Some (0, f2) \<and>
     fat_at at_img demo_dsk f2 = fat_at at_img demo_dsk demo_volume"
proof -
  let ?F = "free_clusters 3 (last_cluster demo_volume) (fat_at at_img demo_dsk demo_volume)"
  have "{3, 5} \<subseteq> ?F" using demo_volume_table by (simp add: free_clusters_def demo_volume_fs(3))
  then have "card {3 :: nat, 5} \<le> card ?F" by (intro card_mono) simp_all
  then have "2 \<le> card ?F" by simp
  from fat16_generate_erase_roundtrip [OF ata.pata_device_axioms demo_volume_fs(4,5) _ this] show ?thesis
    by (simp add: table_now_def) metis
qed

section \<open>Names in directory entries\<close>

definition plain_name :: "u8 list \<Rightarrow> bool" where
  \<comment> \<open>characters that a component of an 8.3 name may have\<close>
  "plain_name b \<longleftrightarrow> 0 \<notin> set b \<and> 46 \<notin> set b \<and> 32 \<notin> set b"

lemma fat_filename_loop_base:
  assumes "length p + length b < 8" and "length b \<le> n" and "length b \<le> length s" and "0 \<notin> set b" and "46 \<notin> set b"
  shows "fat_filename_loop (b @ r) n False (length p) e (p @ s) =
     fat_filename_loop r (n - length b) False (length p + length b) e (p @ map toupper b @ drop (length b) s)"
  using assms
proof (induction b arbitrary: p n s)
  case (Cons c b)
  then obtain m x s' where [simp]: "n = Suc m" "s = x # s'" by (cases n; cases s) auto
  have "fat_filename_loop (b @ r) m False (length (p @ [toupper c])) e ((p @ [toupper c]) @ s') =
     fat_filename_loop r (m - length b) False (length (p @ [toupper c]) + length b) e
       ((p @ [toupper c]) @ map toupper b @ drop (length b) s')"
    using Cons by (intro Cons.IH) auto
  then show ?case using Cons.prems by (simp add: wr_def)
qed simp

lemma fat_filename_loop_ext:
  assumes "length p = 8 + e" and "e + length x \<le> 3" and "length x < n" and "length x \<le> length s" and "0 \<notin> set x" and "46 \<notin> set x"
    and "e < 3"
  shows "fat_filename_loop (x @ 0 # r) n True f e (p @ s) = Some (p @ map toupper x @ drop (length x) s)"
  using assms
proof (induction x arbitrary: p n s e)
  case Nil
  then show ?case by (cases n) auto
next
  case (Cons c x)
  then obtain m y s' where [simp]: "n = Suc m" "s = y # s'" by (cases n; cases s) auto
  show ?case
  proof (cases "e + 1 = 3")
    case True
    then have "x = []" using Cons.prems(2) by simp
    then show ?thesis using Cons.prems True by (auto simp: wr_def list_update_append)
  next
    case False
    have "fat_filename_loop (x @ 0 # r) m True f (e + 1) ((p @ [toupper c]) @ s') =
       Some ((p @ [toupper c]) @ map toupper x @ drop (length x) s')"
      using Cons.prems False by (intro Cons.IH) auto
    then show ?thesis using Cons.prems False by (auto simp: wr_def list_update_append)
  qed
qed

lemma memset_all: "length out = n \<Longrightarrow> memset out c n = Some (replicate n c)"
  by (induction out c n rule: memset.induct) auto

lemma string_to_FAT_filename_eq:
  assumes "plain_name b" and "plain_name x" and "length b < 8" and "length x \<le> 3" and "length out = 11"
  shows "string_to_FAT_filename (b @ 46 # x @ 0 # r) out =
     Some (map toupper b @ replicate (8 - length b) 32 @ map toupper x @ replicate (3 - length x) 32)"
proof -
  have "fat_filename_loop (b @ 46 # x @ 0 # r) 13 False 0 0 (replicate 11 32) =
      fat_filename_loop (46 # x @ 0 # r) (13 - length b) False (length b) 0
        (map toupper b @ drop (length b) (replicate 11 32))"
    using fat_filename_loop_base [of "[]" b 13 "replicate 11 32" "46 # x @ 0 # r" 0] assms by (simp add: plain_name_def)
  moreover obtain m where m: "13 - length b = Suc m" "length x < m" using assms(3,4) by (cases "13 - length b") auto
  let ?p = "map toupper b @ replicate (8 - length b) 32"
  have "replicate (11 - length b) (32 :: u8) = replicate (8 - length b) 32 @ replicate 3 32"
    using assms(3) by (simp flip: replicate_add)
  moreover have "fat_filename_loop (x @ 0 # r) m True (length b) 0 (?p @ replicate 3 32) =
      Some (?p @ map toupper x @ drop (length x) (replicate 3 32))"
    by (rule fat_filename_loop_ext) (use assms m in \<open>simp_all add: plain_name_def\<close>)
  ultimately show ?thesis using m(1) assms(5) by (simp add: string_to_FAT_filename_def memset_all)
qed

lemma proper_string_plain:
  assumes "plain_name b" and "length b \<le> Suc m"
  shows "fat16_to_proper_string (b @ 32 # r) acc m = Some (acc @ b)"
    "length b = Suc m \<Longrightarrow> fat16_to_proper_string b acc m = Some (acc @ b)"
  using assms
proof (induction b arbitrary: acc m)
  case (Cons c b)
  {
    case 1
    then show ?case using Cons.IH(1) [of "m - 1" "acc @ [c]"] by (cases m) (auto simp: plain_name_def)
  next
    case 2
    then show ?case using Cons.IH(2) [of "m - 1" "acc @ [c]"] by (cases m) (auto simp: plain_name_def)
  }
qed simp_all

lemma toupper_plain: "c \<noteq> 0 \<Longrightarrow> c \<noteq> 32 \<Longrightarrow> c \<noteq> 46 \<Longrightarrow> toupper c \<noteq> 0 \<and> toupper c \<noteq> 32 \<and> toupper c \<noteq> 46"
proof -
  assume c: "c \<noteq> 0" "c \<noteq> 32" "c \<noteq> 46"
  have "97 \<le> c \<Longrightarrow> unat (c - 0x20) = unat c - 32" by (subst unat_sub) (auto simp: word_le_nat_alt)
  then have "97 \<le> c \<Longrightarrow> 65 \<le> unat (c - 0x20)" by (simp add: word_le_nat_alt)
  then show ?thesis using c by (auto simp: toupper_def)
qed

lemma tolower_toupper: "tolower (toupper c) = tolower c"
proof (cases "97 \<le> c \<and> c \<le> 122")
  case True
  then have u: "unat (c - 0x20) = unat c - 32" by (subst unat_sub) (auto simp: word_le_nat_alt)
  have "65 \<le> c - 0x20" "c - 0x20 \<le> 90" "\<not> c \<le> 90" using True unfolding word_le_nat_alt u by auto
  with True show ?thesis by (simp add: tolower_def toupper_def)
qed (auto simp: toupper_def)

lemma plain_name_upper: "plain_name b \<Longrightarrow> plain_name (map toupper b)"
  unfolding plain_name_def by (induction b) (use toupper_plain in \<open>auto dest: sym\<close>)

lemma istrncmp_upper: "0 \<notin> set s \<Longrightarrow> istrncmp (map toupper s @ 0 # r) (s @ 0 # r') n = Some 0"
proof (induction s arbitrary: n)
  case Nil
  then show ?case by (cases n) simp_all
next
  case (Cons c s)
  then show ?case by (cases n) (auto simp: tolower_toupper)
qed

lemma takeWhile_stops: "0 \<notin> set s \<Longrightarrow> takeWhile (\<lambda>c. c \<noteq> (0 :: u8)) (s @ 0 # r) = s"
  by (induction s) auto

lemma toupper_dot: "toupper 46 = 46"
  by (simp add: toupper_def)

lemma find_entry_index_skip:
  "find_entry_index items name n i = Some None \<Longrightarrow> i + n \<le> length items \<Longrightarrow>
   find_entry_index (items @ ys) name (n + m) i = find_entry_index (items @ ys) name m (i + n)"
proof (induction n arbitrary: i)
  case (Suc n)
  then have "rd (items @ ys) i = rd items i" by (simp add: rd_def nth_append)
  with Suc show ?case by (auto split: bind_splits if_splits)
qed simp

text \<open>C21: names survive the directory. For a name of one to seven plain characters with an extension of one to three, the entry that
  \<open>fat16_create_file\<close> builds reads back as the same name in capitals; and in every directory in which it is stored behind entries
  that do not match, looking the name up finds this entry.\<close>
theorem new_directory_item_name:
  assumes "plain_name b" and "plain_name x" and "b \<noteq> []" and "x \<noteq> []" and "length b < 8" and "length x \<le> 3"
    and "find_entry_index items (b @ 46 # x @ [0]) (length items) 0 = Some None"
    and "fd_total dir = int (length (fd_item dir))"
  shows "\<exists>item full. new_directory_item c now (b @ 46 # x @ [0]) = Some item \<and> item_shape item \<and>
     di_low_first_cluster item = c \<and> di_filesize item = 0 \<and>
     fat16_get_full_relative_filename item 108 = Some full \<and> cstr full = map toupper (b @ 46 # x) \<and>
     istrncmp full (b @ 46 # x @ [0]) 108 = Some 0 \<and>
     (\<forall>rest. fd_item dir = items @ item # rest \<longrightarrow> fat16_find_entry_in_directory dir (b @ 46 # x @ [0]) = Some (Some item))"
proof -
  let ?b = "map toupper b" and ?x = "map toupper x"
  let ?n = "?b @ replicate (8 - length b) 32" and ?e = "?x @ replicate (3 - length x) 32"
  have pb: "plain_name ?b" "plain_name ?x" using assms(1,2) plain_name_upper by simp_all
  have "string_to_FAT_filename (b @ 46 # x @ [0]) (replicate 11 0) = Some (?n @ ?e)"
    using string_to_FAT_filename_eq [OF assms(1,2,5,6), of "replicate 11 0" "[]"] by simp
  moreover have "length ?n = 8" "length ?e = 3" using assms(5,6) by simp_all
  ultimately obtain item where item: "new_directory_item c now (b @ 46 # x @ [0]) = Some item" "di_filename item = ?n" "di_ext item = ?e"
    "di_low_first_cluster item = c" "di_filesize item = 0" by (simp add: new_directory_item_def)
  have n: "fat16_to_proper_string ?n [] 7 = Some ?b"
    using proper_string_plain(1) [OF pb(1), of 7 "replicate (7 - length b) 32" "[]"] assms(5)
    by (simp add: replicate_Suc [symmetric] Suc_diff_le [symmetric] del: replicate_Suc)
  have "fat16_to_proper_string ?e [] 2 = Some ?x"
  proof (cases "length x = 3")
    case True
    then show ?thesis using proper_string_plain(2) [OF pb(2), of 2 "[]"] by simp
  next
    case False
    then have "3 - length x = Suc (2 - length x)" using assms(6) by simp
    then show ?thesis using proper_string_plain(1) [OF pb(2), of 2 "replicate (2 - length x) 32" "[]"] assms(6) by simp
  qed
  moreover have "rd ?e 0 = Some (toupper (hd x))" "toupper (hd x) \<noteq> 0" "toupper (hd x) \<noteq> 32"
    using assms(2,4) toupper_plain [of "hd x"] by (cases x; auto simp: plain_name_def)+
  ultimately have f: "fat16_get_full_relative_filename item 108 =
      Some (map toupper (b @ 46 # x) @ 0 # replicate (106 - length b - length x) 0)" (is "_ = Some ?full")
    using n item(2,3) assms(5,6) by (simp add: fat16_get_full_relative_filename_def toupper_dot replicate_Suc [symmetric] Suc_diff_le [symmetric] del: replicate_Suc)
  have z: "0 \<notin> set (b @ 46 # x)" "0 \<notin> set (map toupper (b @ 46 # x))"
    using assms(1,2) pb toupper_dot by (auto simp: plain_name_def)
  have "istrncmp ?full (b @ 46 # x @ [0]) 108 = Some 0" using istrncmp_upper [OF z(1), of _ "[]"] by simp
  moreover have "cstr ?full = map toupper (b @ 46 # x)" 
    unfolding cstr_def by (rule takeWhile_stops) (use z(2) in \<open>auto\<close>)
  moreover have "fat16_find_entry_in_directory dir (b @ 46 # x @ [0]) = Some (Some item)"
    if "istrncmp ?full (b @ 46 # x @ [0]) 108 = Some 0" "fd_item dir = items @ item # rest" for rest
    using that f assms(8) find_entry_index_skip [OF assms(7), of "item # rest" "Suc (length rest)"]
    by (simp add: fat16_find_entry_in_directory_def rd_def nth_append nat_add_distrib)
  ultimately show ?thesis using item f assms(5,6) by (auto simp: item_shape_def)
qed

theorem new_directory_item_name_witness:
  "\<exists>item full. new_directory_item 3 demo_date ([104, 105] @ 46 # [116, 120, 116] @ [0]) = Some item \<and>
     fat16_get_full_relative_filename item 108 = Some full \<and> cstr full = [72, 73, 46, 84, 88, 84] \<and>
     fat16_find_entry_in_directory ((empty_directory 0)\<lparr>fd_item := [item], fd_total := 1\<rparr>) ([104, 105] @ 46 # [116, 120, 116] @ [0]) = Some (Some item)"
proof -
  obtain item where i: "new_directory_item 3 demo_date ([104, 105] @ 46 # [116, 120, 116] @ [0]) = Some item"
    using new_directory_item_name [of "[104, 105]" "[116, 120, 116]" "[]" "empty_directory 0" 3 demo_date]
    by (auto simp: plain_name_def empty_directory_def)
  let ?dir = "(empty_directory 0)\<lparr>fd_item := [item], fd_total := 1\<rparr>"
  have "find_entry_index [] ([104, 105] @ 46 # [116, 120, 116] @ [0]) (length []) 0 = Some None" by simp
  from new_directory_item_name [OF _ _ _ _ _ _ this, where dir = ?dir and c = 3 and now = demo_date] i
  show ?thesis by (auto simp: plain_name_def toupper_def)
qed

section \<open>Entries of the root directory\<close>

definition root_owned :: "'s fs \<Rightarrow> bool" where
  \<comment> \<open>the private data and the entries of the root directory are two blocks of the heap, as \<open>fat16_resolve\<close> leaves them
      for a root directory that fits a block\<close>
  "root_owned f \<longleftrightarrow> kinv (f_k f) \<and> fp_addr (f_private f) \<in> kpages (f_k f) \<and>
     fd_addr (fp_root_directory (f_private f)) = fp_addr (f_private f) + 64 \<and>
     fd_item_addr (fp_root_directory (f_private f)) \<in> kpages (f_k f) \<and>
     fd_item_addr (fp_root_directory (f_private f)) \<noteq> 0 \<and>
     fd_item_addr (fp_root_directory (f_private f)) \<noteq> fp_addr (f_private f)"

definition root_slot :: "'s fs \<Rightarrow> nat \<Rightarrow> nat" where
  "root_slot f i = nat (fd_sector_pos (fp_root_directory (f_private f))) * 512 + 32 * i"

lemma free_root_item:
  assumes "root_owned f" and "a \<in> kpages (f_k f)" and "a \<noteq> fp_addr (f_private f)"
    and "a \<noteq> fd_item_addr (fp_root_directory (f_private f))"
  shows "\<exists>k. fat16_fat_item_free (f_k f) (DirItem a (Dir (fp_root_directory (f_private f)))) = Some k \<and> kinv k \<and>
     kused k = kused (f_k f) - {a, fp_addr (f_private f), fd_item_addr (fp_root_directory (f_private f))}"
proof -
  let ?k = "f_k f" and ?p = "fp_addr (f_private f)" and ?r = "fp_root_directory (f_private f)"
  let ?i = "fd_item_addr ?r"
  have o: "kinv ?k" "?p \<in> kpages ?k" "fd_addr ?r = ?p + 64" "?i \<in> kpages ?k" "?i \<noteq> 0" "?i \<noteq> ?p"
    using assms(1) by (simp_all add: root_owned_def)
  obtain k1 where k1: "kfree ?k ?i = Some k1" "kinv k1" "kused k1 = kused ?k - {?i}" "kpages k1 = kpages ?k - {?i}"
    using kh.free_page [OF o(1,4)] by blast
  have p1: "?p \<in> kpages k1" using k1(4) o(2,6) by simp
  obtain k2 where k2: "kfree k1 ?p = Some k2" "kinv k2" "kused k2 = kused k1 - {?p}" "kpages k2 = kpages k1 - {?p}"
    using kh.free_page [OF k1(2) p1] by blast
  have "kfree k1 (?p + 64) = kfree k1 ?p" by (rule kfree_inside [OF k1(2) p1]) simp
  moreover have a2: "a \<in> kpages k2" using k2(4) k1(4) assms(2-4) by simp
  obtain k3 where k3: "kfree k2 a = Some k3" "kinv k3" "kused k3 = kused k2 - {a}"
    using kh.free_page [OF k2(2) a2] by blast
  ultimately have "fat16_fat_item_free ?k (DirItem a (Dir ?r)) = Some k3"
    using k1(1) k2(1) o(3,5) by (simp add: fat16_fat_item_free_def fat16_free_directory_def)
  moreover have "kused k3 = kused ?k - {a, ?p, ?i}" using k1(3) k2(3) k3(3) by auto
  ultimately show ?thesis using k3(2) by blast
qed

lemma root_owned_alloc:
  assumes "root_owned f" and "0 < kroom (f_k f)" and "0 < unat sz" and "unat sz \<le> 4096"
  obtains a k where "kzalloc (f_k f) sz = Some (a, k)" "a \<noteq> 0" "a \<notin> kused (f_k f)" "root_owned (f\<lparr>f_k := k\<rparr>)" "a \<in> kpages k"
    "kused k = insert a (kused (f_k f))" "Suc (kroom k) = kroom (f_k f)" "kpages k = insert a (kpages (f_k f))"
proof -
  have "kinv (f_k f)" using assms(1) by (simp add: root_owned_def)
  from kh.alloc_page [OF this assms(2-4)] obtain a k where z: "kzalloc (f_k f) sz = Some (a, k)" "a \<noteq> 0" "a \<notin> kused (f_k f)"
    "kinv k" "kused k = insert a (kused (f_k f))" "kpages k = insert a (kpages (f_k f))" "Suc (kroom k) = kroom (f_k f)" by blast
  moreover have "root_owned (f\<lparr>f_k := k\<rparr>)" using assms(1) z by (simp add: root_owned_def)
  ultimately show ?thesis using that by simp
qed

context pata_device
begin

lemma write_root_entry_ok:
  assumes "mounted good d f" and "root_owned f" and "0 < kroom (f_k f)" and "item_shape new"
    and "entry_position_loop (fd_item (fp_root_directory (f_private f))) (pp_part part @ [0])
           (nat (fd_total (fp_root_directory (f_private f)))) 0 = Some i"
    and "int i < fd_total (fp_root_directory (f_private f))" and "0 \<le> fd_sector_pos (fp_root_directory (f_private f))"
    and "root_slot f i < 2 ^ 31" and "addressable d (root_slot f i + 32)"
  shows "\<exists>k f'. fat16_write_directory_entry ops d f [part] new = Some (32, f'\<lparr>f_k := k\<rparr>) \<and> mounted good d f' \<and>
     wrote img d f (root_slot f i) (bytes_of_item new) f' \<and> kinv k \<and>
     kused k = kused (f_k f) - {fp_addr (f_private f), fd_item_addr (fp_root_directory (f_private f))}"
proof -
  let ?r = "fp_root_directory (f_private f)"
  have sz: "0 < unat (8 :: u32)" "unat (8 :: u32) \<le> 4096" by simp_all
  obtain a k where z: "kzalloc (f_k f) 8 = Some (a, k)" "a \<noteq> 0" "a \<notin> kused (f_k f)" "root_owned (f\<lparr>f_k := k\<rparr>)" "a \<in> kpages k"
    "kused k = insert a (kused (f_k f))" by (rule root_owned_alloc [OF assms(2,3) sz]) (rule that)
  let ?f = "f\<lparr>f_k := k\<rparr>"
  have len: "length (bytes_of_item new) = 32" using assms(4) by (auto simp: item_shape_def bytes_of_item_def)
  have m: "mounted good d ?f" using assms(1) by (simp add: mounted_def)
  have "addressable d (root_slot f i + length (bytes_of_item new))" using assms(9) len by simp
  from directory_stream_write_ok [OF m this] obtain f1 where
    f1: "directory_stream_write ops ?f (int (root_slot f i)) (bytes_of_item new) 32 = Some (32, f1)" "mounted good d f1"
      "wrote img d ?f (root_slot f i) (bytes_of_item new) f1" using len by auto
  have v: "f_k f1 = k" "fp_root_directory (f_private f1) = ?r" "fp_addr (f_private f1) = fp_addr (f_private f)"
    using f1(3) by (simp_all add: wrote_def same_volume_def)
  have o1: "root_owned f1" using z(4) v by (simp add: root_owned_def)
  have "fp_addr (f_private f) \<in> kpages (f_k f)" "fd_item_addr ?r \<in> kpages (f_k f)" using assms(2) by (simp_all add: root_owned_def)
  then have "a \<noteq> fp_addr (f_private f)" "a \<noteq> fd_item_addr ?r" using z(3) kh.pages_used by blast+
  with free_root_item [OF o1, of a] z(5) v obtain k2 where k2: "fat16_fat_item_free k (DirItem a (Dir ?r)) = Some k2" "kinv k2"
    "kused k2 = kused k - {a, fp_addr (f_private f), fd_item_addr ?r}" by auto
  have "fd_sector_pos ?r * dk_sector_size d + 32 * int i = int (root_slot f i)"
    using assms(1,7) by (simp add: root_slot_def mounted_def)
  then have loc: "s32 (fd_sector_pos ?r * dk_sector_size d + 32 * int i) = int (root_slot f i)" using s32_int [OF assms(8)] by simp
  have "fat16_write_directory_entry ops d f [part] new = Some (32, f1\<lparr>f_k := k2\<rparr>)"
    using z(1,2) assms(5,6) f1(1) k2(1) v(1) loc
    by (simp add: fat16_write_directory_entry_def fat16_get_parent_dir_def pathparser_get_last_part_def free_item_def)
  moreover have "wrote img d f (root_slot f i) (bytes_of_item new) (f1\<lparr>f_k := f_k f\<rparr>)"
    using f1(3) by (simp add: wrote_def same_volume_def)
  moreover have "mounted good d (f1\<lparr>f_k := f_k f\<rparr>)" using f1(2) by (simp add: mounted_def)
  moreover have "kused k2 = kused (f_k f) - {fp_addr (f_private f), fd_item_addr ?r}" using k2(3) z(3,6) by auto
  ultimately show ?thesis using k2(2) by (intro exI [of _ k2] exI [of _ "f1\<lparr>f_k := f_k f\<rparr>"]) simp
qed

end

lemma open_root_item:
  assumes "root_owned f" and "2 \<le> kroom (f_k f)"
    and "find_entry_index (fd_item (fp_root_directory (f_private f))) (pp_part part @ [0])
           (nat (fd_total (fp_root_directory (f_private f)))) 0 = Some (Some i)"
    and "i < length (fd_item (fp_root_directory (f_private f)))" and "item = fd_item (fp_root_directory (f_private f)) ! i"
    and "di_attribute item AND FAT_FILE_SUBDIRECTORY = 0"
  obtains ia ca k where "fat16_get_directory_entry ops d f [part] = Some (Some (FileItem ia ca item), f\<lparr>f_k := k\<rparr>)"
    "root_owned (f\<lparr>f_k := k\<rparr>)" "kroom k + 2 = kroom (f_k f)" "kused (f_k f) \<subseteq> kused k"
proof -
  have sz: "0 < unat (8 :: u32)" "unat (8 :: u32) \<le> 4096" "0 < unat (32 :: u32)" "unat (32 :: u32) \<le> 4096" "0 < kroom (f_k f)"
    using assms(2) by simp_all
  obtain ia k1 where z1: "kzalloc (f_k f) 8 = Some (ia, k1)" "ia \<noteq> 0" "root_owned (f\<lparr>f_k := k1\<rparr>)"
    "kused k1 = insert ia (kused (f_k f))" "Suc (kroom k1) = kroom (f_k f)"
    by (rule root_owned_alloc [OF assms(1) sz(5,1,2)]) (rule that)
  have r1: "0 < kroom (f_k (f\<lparr>f_k := k1\<rparr>))" using z1(5) assms(2) by simp
  obtain ca k2 where z2: "kzalloc (f_k (f\<lparr>f_k := k1\<rparr>)) 32 = Some (ca, k2)" "ca \<noteq> 0" "root_owned (f\<lparr>f_k := k1, f_k := k2\<rparr>)"
    "kused k2 = insert ca (kused (f_k (f\<lparr>f_k := k1\<rparr>)))" "Suc (kroom k2) = kroom (f_k (f\<lparr>f_k := k1\<rparr>))"
    by (rule root_owned_alloc [OF z1(3) r1 sz(3,4)]) (rule that)
  have "fat16_get_directory_entry ops d f [part] = Some (Some (FileItem ia ca item), f\<lparr>f_k := k2\<rparr>)"
    using z1(1,2) z2(1,2) assms(3-6)
    by (simp add: fat16_get_directory_entry_def fat16_find_item_in_directory_def fat16_new_fat_item_for_directory_item_def
        fat16_clone_directory_item_def)
  moreover have "root_owned (f\<lparr>f_k := k2\<rparr>)" "kroom k2 + 2 = kroom (f_k f)" "kused (f_k f) \<subseteq> kused k2"
    using z1(4,5) z2(3-5) by auto
  ultimately show ?thesis by (rule that)
qed

text \<open>C20: opening a file of the root directory, by a path of one component, when it is not read-only and the heap has room. There \<open>fat16_open\<close> returns a descriptor of the entry and rewrites the entry on the disk with the
  date of access and nothing else; but its clean-up frees the entries of the root directory and the private data of the file
  system, which every later operation goes on using.\<close>
theorem fat16_open_root_file:
  assumes "pata_device ops good img" and "mounted good d f" and "root_owned f" and "4 \<le> kroom (f_k f)"
    and "find_entry_index (fd_item (fp_root_directory (f_private f))) (pp_part part @ [0])
           (nat (fd_total (fp_root_directory (f_private f)))) 0 = Some (Some i)"
    and "entry_position_loop (fd_item (fp_root_directory (f_private f))) (pp_part part @ [0])
           (nat (fd_total (fp_root_directory (f_private f)))) 0 = Some i"
    and "i < length (fd_item (fp_root_directory (f_private f)))" and "int i < fd_total (fp_root_directory (f_private f))"
    and "item = fd_item (fp_root_directory (f_private f)) ! i" and "item_shape item"
    and "di_attribute item AND FAT_FILE_SUBDIRECTORY = 0" and "di_attribute item AND FAT_FILE_READ_ONLY = 0"
    and "0 \<le> fd_sector_pos (fp_root_directory (f_private f))" and "root_slot f i < 2 ^ 31" and "addressable d (root_slot f i + 32)"
  shows "\<exists>ia ca desc f'. fat16_open ops d now f [part] mode = Some (Inr desc, f') \<and> mounted good d f' \<and>
     fdesc_item desc = FileItem ia ca (item\<lparr>di_last_access := fat_date now\<rparr>) \<and> fdesc_mode desc = mode \<and> fdesc_path desc = [part] \<and>
     (\<forall>q. disk_byte img (f_dev f') d q =
        (if root_slot f i \<le> q \<and> q < root_slot f i + 32
         then bytes_of_item (item\<lparr>di_last_access := fat_date now\<rparr>) ! (q - root_slot f i) else disk_byte img (f_dev f) d q)) \<and>
     fp_addr (f_private f') = fp_addr (f_private f) \<and> fp_addr (f_private f) \<in> kused (f_k f) \<and> fp_addr (f_private f) \<notin> kused (f_k f') \<and>
     fd_item_addr (fp_root_directory (f_private f)) \<notin> kused (f_k f')"
proof -
  let ?r = "fp_root_directory (f_private f)" and ?new = "item\<lparr>di_last_access := fat_date now\<rparr>"
  have sz: "0 < unat (16 :: u32)" "unat (16 :: u32) \<le> 4096" "0 < kroom (f_k f)" using assms(4) by simp_all
  obtain a k1 where z: "kzalloc (f_k f) 16 = Some (a, k1)" "a \<noteq> 0" "root_owned (f\<lparr>f_k := k1\<rparr>)"
    "kused k1 = insert a (kused (f_k f))" "Suc (kroom k1) = kroom (f_k f)"
    by (rule root_owned_alloc [OF assms(3) sz(3,1,2)]) (rule that)
  let ?f1 = "f\<lparr>f_k := k1\<rparr>"
  have "2 \<le> kroom (f_k ?f1)" using z(5) assms(4) by simp
  then obtain ia ca k2 where l: "fat16_get_directory_entry ops d ?f1 [part] = Some (Some (FileItem ia ca item), ?f1\<lparr>f_k := k2\<rparr>)"
    "root_owned (?f1\<lparr>f_k := k2\<rparr>)" "kroom k2 + 2 = kroom (f_k ?f1)" "kused (f_k ?f1) \<subseteq> kused k2"
    using open_root_item [OF z(3), of part i item ops d] assms(5,7,9,11) by auto
  let ?f2 = "f\<lparr>f_k := k2\<rparr>"
  have m2: "mounted good d ?f2" and o2: "root_owned ?f2" and r2: "0 < kroom (f_k ?f2)" and s: "item_shape ?new"
    using assms(2,4,10) l(2,3) z(5) by (simp_all add: mounted_def item_shape_def)
  have slot: "root_slot ?f2 i = root_slot f i" by (simp add: root_slot_def)
  from pata_device.write_root_entry_ok [OF assms(1) m2 o2 r2 s, of part i] assms(6,8,13-15) slot obtain k3 f3 where w:
    "fat16_write_directory_entry ops d ?f2 [part] ?new = Some (32, f3\<lparr>f_k := k3\<rparr>)" "mounted good d f3"
    "wrote img d ?f2 (root_slot f i) (bytes_of_item ?new) f3"
    "kused k3 = kused k2 - {fp_addr (f_private f), fd_item_addr ?r}" by auto
  have len: "length (bytes_of_item ?new) = 32" using s by (auto simp: item_shape_def bytes_of_item_def)
  have "\<exists>desc. fat16_open ops d now f [part] mode = Some (Inr desc, f3\<lparr>f_k := k3\<rparr>) \<and>
      fdesc_item desc = FileItem ia ca ?new \<and> fdesc_mode desc = mode \<and> fdesc_path desc = [part]"
    using z(1,2) l(1) w(1) assms(12) by (simp add: fat16_open_def Let_def)
  moreover have "mounted good d (f3\<lparr>f_k := k3\<rparr>)" using w(2) by (simp add: mounted_def)
  moreover have "fp_addr (f_private f) \<in> kused (f_k f)" using assms(3) kh.pages_used by (auto simp: root_owned_def)
  moreover have "fp_addr (f_private f3) = fp_addr (f_private f)" using w(3) by (simp add: wrote_def same_volume_def)
  ultimately show ?thesis using w(3,4) len by (auto simp: wrote_def)
qed

definition demo_root :: "ata fs" where
  \<comment> \<open>the volume above with its file in the root directory, at sector 2, and its two heap blocks\<close>
  "demo_root = demo_volume\<lparr>f_k := \<lparr>km_heap = demo_heap ([0x41, 0x41] @ replicate 50 0), km_mem = (\<lambda>_. 0)\<rparr>,
     f_private := (f_private demo_volume)\<lparr>fp_addr := 0x01000000,
       fp_root_directory := \<lparr>fd_addr = 0x01000040, fd_item_addr = 0x01001000, fd_item = [demo_file], fd_total = 1,
         fd_sector_pos = 2, fd_ending_sector_pos = 3\<rparr>\<rparr>\<rparr>"

definition demo_part :: path_part where
  "demo_part = \<lparr>pp_addr = 0, pp_str = 0, pp_part = [97, 46, 116, 120, 116]\<rparr>"

lemma demo_root_heap: "root_owned demo_root" "kroom (f_k demo_root) = 50"
proof -
  let ?k = "f_k demo_root"
  have e: "entries_of (km_heap ?k) = [0x41, 0x41] @ replicate 50 0" by (simp add: demo_root_def)
  have "heap_inv (km_heap ?k)" unfolding demo_root_def by (simp, rule demo_heap_inv) auto
  then have "kinv ?k" by (simp add: kinv_def demo_root_def demo_heap_def page_base_def)
  have b: "block_addr ?k 0 = 0x01000000" "block_addr ?k 1 = 0x01001000"
    by (simp_all add: block_addr_def heap_block_to_address_def demo_root_def demo_heap_def)
  have "block_addr ?k j \<in> kpages ?k" if "j < 2" for j
    using that unfolding kpages_def e by (auto simp: nth_append less_2_cases_iff)
  from this [of 0] this [of 1] \<open>kinv ?k\<close> b show "root_owned demo_root" by (simp add: root_owned_def demo_root_def)
  show "kroom ?k = 50" unfolding kroom_def e by simp
qed

lemma demo_root_disk: "mounted ata_good demo_dsk demo_root" "root_slot demo_root 0 = 1024" "addressable demo_dsk 1056"
proof -
  show "mounted ata_good demo_dsk demo_root" using demo_volume_fs(4) by (simp add: mounted_def demo_root_def)
  show "root_slot demo_root 0 = 1024" by (simp add: root_slot_def demo_root_def)
  show "addressable demo_dsk 1056" by (simp add: addressable_def demo_disk_def zero_disk_def)
qed

lemma demo_lookup:
  "find_entry_index [demo_file] (pp_part demo_part @ [0]) 1 0 = Some (Some 0)"
  "entry_position_loop [demo_file] (pp_part demo_part @ [0]) 1 0 = Some 0"
  by code_simp+

theorem fat16_open_root_file_witness:
  "\<exists>desc f'. fat16_open ata_ops demo_dsk demo_date demo_root [demo_part] 1 = Some (Inr desc, f') \<and>
     fp_addr (f_private demo_root) \<in> kused (f_k demo_root) \<and> fp_addr (f_private f') \<notin> kused (f_k f')"
proof -
  have "fp_root_directory (f_private demo_root) = \<lparr>fd_addr = 0x01000040, fd_item_addr = 0x01001000, fd_item = [demo_file], fd_total = 1,
         fd_sector_pos = 2, fd_ending_sector_pos = 3\<rparr>" by (simp add: demo_root_def)
  with fat16_open_root_file [OF ata.pata_device_axioms demo_root_disk(1) demo_root_heap(1), where part = demo_part and i = 0 and
      item = demo_file and now = demo_date and mode = 1] show ?thesis
    using demo_lookup demo_root_disk(2,3) demo_root_heap(2)
    by (simp add: item_shape_def demo_file_def FAT_FILE_SUBDIRECTORY_def FAT_FILE_READ_ONLY_def) metis
qed

section \<open>Writing to a file\<close>

lemma data_pos_disjoint:
  assumes "2 \<le> c" and "2 \<le> m" and "c \<noteq> m" and "j < cluster_bytes f" and "j' < cluster_bytes f"
  shows "data_pos f c + j \<noteq> data_pos f m + j'"
proof -
  let ?b = "nat (fd_ending_sector_pos (fp_root_directory (f_private f))) * 512"
  have p: "data_pos f x = ?b + (x - 2) * cluster_bytes f" for x by (simp add: data_pos_def cluster_bytes_def algebra_simps)
  have lt: "x * cluster_bytes f + i < y * cluster_bytes f" if "x < y" "i < cluster_bytes f" for x y i
  proof -
    have "Suc x * cluster_bytes f \<le> y * cluster_bytes f" using that(1) by (intro mult_le_mono1) simp
    then show ?thesis using that(2) by simp
  qed
  have "c - 2 < m - 2 \<or> m - 2 < c - 2" using assms(1-3) by linarith
  then show ?thesis using lt [of "c - 2" "m - 2" j] lt [of "m - 2" "c - 2" j'] assms(4,5) unfolding p by auto
qed

lemma data_pos_mono: "2 \<le> c \<Longrightarrow> data_pos f 2 \<le> data_pos f c"
  by (simp add: data_pos_def)

lemma diskstreamer_write_prefix:
  "n \<le> length bs \<Longrightarrow> diskstreamer_write ops s st bs (int n) = diskstreamer_write ops s st (take n bs) (int n)"
  by (simp add: diskstreamer_write_def)

context pata_device
begin

lemma cluster_write_at:
  assumes "mounted good d f" and "2 \<le> c" and "data_pos f c < 2 ^ 31" and "addressable d (data_pos f c + n)" and "n \<le> length buf"
  shows "\<exists>f'. cluster_stream_write ops f (s32 (fat16_cluster_to_sector (f_private f) (int c) * dk_sector_size d)) buf (int n) =
      Some (int n, f') \<and> mounted good d f' \<and> wrote img d f (data_pos f c) (take n buf) f'"
proof -
  have "cluster_stream_write ops f p buf (int n) = cluster_stream_write ops f p (take n buf) (int n)" for p
    unfolding cluster_stream_write_def diskstreamer_write_prefix [OF assms(5)] ..
  then show ?thesis
    using cluster_stream_write_ok [OF assms(1), of "data_pos f c" "take n buf"] assms(4,5) data_pos_int [OF assms(1,2)] s32_int [OF assms(3)]
    by (simp add: min_absorb2)
qed

end

lemma wrote_keeps_table:
  assumes "wrote img d f p bs f'" and "fat_pos f (Suc lim) \<le> p" and "c \<le> lim"
  shows "fat_at img d f' c = fat_at img d f c"
proof -
  have "fat_pos f' = fat_pos f" using assms(1) same_volume_views(2) by (auto simp: wrote_def)
  moreover have "fat_pos f c + 1 < fat_pos f (Suc lim)" using assms(3) by (simp add: fat_pos_def)
  then have "\<not> p \<le> fat_pos f c" "\<not> p \<le> fat_pos f c + 1" using assms(2) by simp_all
  ultimately show ?thesis using assms(1) by (simp add: fat_at_def wrote_def)
qed

context pata_device
begin

lemma write_cluster_step:
  assumes "mounted good d f" and "fat_reachable d f" and "fat_at img d f c = x" and "c < 65536" and "2 \<le> x" and "x < 0xFFF8"
    and "addressable d (data_pos f x + t)" and "t \<le> length buf" and "0 < n" and "t = min n (cluster_bytes f)"
  obtains f' where "mounted good d f'" "wrote img d f (data_pos f x) (take t buf) f'"
    "write_clusters ops d f (of_nat c) buf (int n) res = write_clusters ops d f' (of_nat x) (drop t buf) (int (n - t)) (int t)"
proof -
  obtain f1 where f1: "fat16_get_fat_entry ops d f (int c) = Some (int x, f1)" "mounted good d f1" "unchanged img f f1"
    using fat16_get_fat_entry_ok [OF assms(1,2,4)] assms(3) by auto
  note u = unchanged_views [OF f1(3)]
  have cs: "size_of_cluster_bytes d (f_private f1) = int (cluster_bytes f)"
    using size_of_cluster_bytes_nat [OF f1(2)] u(1) by simp
  have small: "data_pos f x < 2 ^ 31" using assms(7) by (simp add: addressable_def)
  obtain f2 where f2: "cluster_stream_write ops f1 (s32 (fat16_cluster_to_sector (f_private f1) (int x) * dk_sector_size d)) buf (int t) = Some (int t, f2)"
    "mounted good d f2" "wrote img d f1 (data_pos f x) (take t buf) f2"
    using cluster_write_at [OF f1(2) assms(5), of t buf] assms(7,8) small u(4) by auto
  have w: "unat (of_nat x :: u16) = x" "uint (of_nat x :: u16) = int x" "uint (of_nat c :: u16) = int c"
    using assms(4,6) unat_cluster uint_cluster by simp_all
  have lt: "\<not> (0xFFF8 :: u16) \<le> of_nat x" using assms(6) by (simp add: word_le_nat_alt w(1))
  have "write_clusters ops d f (of_nat c) buf (int n) res = write_clusters ops d f2 (of_nat x) (drop t buf) (int (n - t)) (int t)"
    using f1(1) f2(1) lt assms(9,10) 
    by (cases "n \<le> cluster_bytes f") (subst write_clusters.simps, simp add: w Let_def cs fat16_sector_to_absolute_def of_nat_diff)+
  moreover have "disk_byte img (f_dev f1) d = disk_byte img (f_dev f) d"
    by (rule same_image_bytes) (use f1(3) in \<open>simp add: unchanged_def\<close>)
  then have "wrote img d f (data_pos f x) (take t buf) f2"
    using f2(3) f1(3) by (simp add: wrote_def same_volume_def unchanged_def)
  ultimately show ?thesis using that f2(2) by blast
qed

end

definition spot :: "'s fs \<Rightarrow> nat list \<Rightarrow> nat \<Rightarrow> nat" where
  \<comment> \<open>where byte \<open>j\<close> of the contents of the clusters \<open>cs\<close> lies on the disk\<close>
  "spot f cs j = data_pos f (cs ! (j div cluster_bytes f)) + j mod cluster_bytes f"

definition stored :: "'s image \<Rightarrow> disk \<Rightarrow> 's fs \<Rightarrow> nat list \<Rightarrow> u8 list \<Rightarrow> 's fs \<Rightarrow> bool" where
  \<comment> \<open>the bytes \<open>bs\<close> fill the clusters \<open>cs\<close> from the first one on, and nothing else has changed\<close>
  "stored img d f cs bs f' \<longleftrightarrow> same_volume f f' \<and>
     (\<forall>j < length bs. disk_byte img (f_dev f') d (spot f cs j) = bs ! j) \<and>
     (\<forall>q. q \<notin> spot f cs ` {..< length bs} \<longrightarrow> disk_byte img (f_dev f') d q = disk_byte img (f_dev f) d q)"

lemma spot_first: "j < cluster_bytes f \<Longrightarrow> spot f (x # xs) j = data_pos f x + j"
  by (simp add: spot_def)

lemma spot_rest: "0 < cluster_bytes f \<Longrightarrow> spot f (x # xs) (cluster_bytes f + j) = spot f xs j"
  by (simp add: spot_def div_add_self1)

lemma spot_image:
  assumes "t = min n (cluster_bytes f)" and "0 < cluster_bytes f"
  shows "spot f (x # xs) ` {..< n} = {data_pos f x ..< data_pos f x + t} \<union> spot f xs ` {..< n - t}"
proof -
  have "spot f (x # xs) ` {..< t} = (+) (data_pos f x) ` {..< t}"
    using assms(1) by (intro image_cong) (simp_all add: spot_first)
  also have "\<dots> = {data_pos f x ..< data_pos f x + t}" by (simp add: lessThan_atLeast0 add.commute)
  finally have 1: "spot f (x # xs) ` {..< t} = {data_pos f x ..< data_pos f x + t}" .
  have "{t ..< n} = (+) (cluster_bytes f) ` {..< n - t}" using assms(1) by (cases "n \<le> cluster_bytes f") (auto simp: lessThan_atLeast0)
  then have 2: "spot f (x # xs) ` {t ..< n} = spot f xs ` {..< n - t}"
    using spot_rest [OF assms(2)] by (simp add: image_image)
  have "{..< n} = {..< t} \<union> {t ..< n}" using assms(1) by auto
  then show ?thesis using 1 2 by (metis image_Un)
qed

lemma spot_outside:
  assumes "x \<notin> set xs" and "2 \<le> x" and "\<forall>y \<in> set xs. 2 \<le> y" and "j < length xs * cluster_bytes f" and "i < cluster_bytes f"
  shows "spot f xs j \<noteq> data_pos f x + i"
proof -
  have "j div cluster_bytes f < length xs" using assms(4) by (simp add: less_mult_imp_div_less)
  then have "xs ! (j div cluster_bytes f) \<in> set xs" by simp
  with assms(1-3) have "2 \<le> xs ! (j div cluster_bytes f)" "xs ! (j div cluster_bytes f) \<noteq> x" by auto
  moreover have "j mod cluster_bytes f < cluster_bytes f" using assms(5) by simp
  ultimately show ?thesis unfolding spot_def using data_pos_disjoint [OF _ assms(2)] assms(5) by blast
qed

lemma stored_Cons:
  assumes "wrote img d f (data_pos f x) (take t bs) g" and "stored img d g xs (drop t bs) h"
    and "t = min (length bs) (cluster_bytes f)" and "0 < cluster_bytes f" and "length bs \<le> length (x # xs) * cluster_bytes f"
    and "distinct (x # xs)" and "\<forall>y \<in> set (x # xs). 2 \<le> y"
  shows "stored img d f (x # xs) bs h"
proof -
  have s: "same_volume f g" "same_volume g h" and len: "length (take t bs) = t"
    using assms(1-3) by (auto simp: wrote_def stored_def)
  note v = same_volume_views [OF s(1)]
  have sp: "spot g xs = spot f xs" by (simp add: spot_def fun_eq_iff v)
  have w: "disk_byte img (f_dev g) d q = (if data_pos f x \<le> q \<and> q < data_pos f x + t then bs ! (q - data_pos f x) else disk_byte img (f_dev f) d q)" for q
    using assms(1) len by (auto simp: wrote_def)
  have r: "\<And>j. j < length bs - t \<Longrightarrow> disk_byte img (f_dev h) d (spot f xs j) = bs ! (t + j)"
    "\<And>q. q \<notin> spot f xs ` {..< length bs - t} \<Longrightarrow> disk_byte img (f_dev h) d q = disk_byte img (f_dev g) d q"
    using assms(2,3) by (simp_all add: stored_def sp)
  have far: "data_pos f x + i \<notin> spot f xs ` {..< length bs - t}" if "i < t" for i
  proof
    assume "data_pos f x + i \<in> spot f xs ` {..< length bs - t}"
    then obtain j where j: "j < length bs - t" "spot f xs j = data_pos f x + i" by auto
    have "j < length xs * cluster_bytes f" using j(1) assms(3,5) by (simp add: min_def split: if_splits)
    with spot_outside [of x xs j f i] assms(3,6,7) that j(2) show False by simp
  qed
  have "disk_byte img (f_dev h) d (spot f (x # xs) j) = bs ! j" if "j < length bs" for j
  proof (cases "j < t")
    case True
    then show ?thesis using r(2) [OF far [OF True]] w assms(3) by (simp add: spot_first)
  next
    case False
    then have t: "t = cluster_bytes f" using that assms(3) by simp
    obtain i where i: "j = cluster_bytes f + i" using False t le_Suc_ex [of t j] by auto
    then show ?thesis using r(1) [of i] that t spot_rest [OF assms(4)] by simp
  qed
  moreover have "disk_byte img (f_dev h) d q = disk_byte img (f_dev f) d q" if "q \<notin> spot f (x # xs) ` {..< length bs}" for q
    using that r(2) [of q] w [of q] unfolding spot_image [OF assms(3,4)] by auto
  ultimately show ?thesis using same_volume_trans [OF s] by (simp add: stored_def)
qed

context pata_device
begin

lemma write_clusters_ok:
  assumes "mounted good d f" and "fat_reachable d f" and "chain 0xFFF8 (fat_at img d f) (c # cs)" and "n \<le> length buf"
    and "n \<le> length cs * cluster_bytes f" and "fat_pos f (Suc lim) \<le> data_pos f 2" and "\<forall>x \<in> set (c # cs). x \<le> lim"
    and "\<forall>x \<in> set cs. addressable d (data_pos f x + cluster_bytes f)"
  shows "\<exists>f'. write_clusters ops d f (of_nat c) buf (int n) res =
       Some (if n = 0 then res else int ((n - 1) mod cluster_bytes f + 1), f') \<and>
     mounted good d f' \<and> stored img d f cs (take n buf) f' \<and> (\<forall>y \<le> lim. fat_at img d f' y = fat_at img d f y)"
  using assms
proof (induction cs arbitrary: c f buf n res)
  case Nil
  then show ?case
    by (intro exI [of _ f]) (subst write_clusters.simps, simp add: stored_def same_volume_refl)
next
  case (Cons x xs)
  let ?cb = "cluster_bytes f"
  have cb: "0 < ?cb" using size_of_cluster_bytes_nat [OF Cons.prems(1)] by simp
  have x: "fat_at img d f c = x" "c < 65536" "chain 0xFFF8 (fat_at img d f) (x # xs)" using Cons.prems(3) by simp_all
  note x2 = chain_hd [OF x(3)]
  show ?case
  proof (cases "n = 0")
    case True
    then show ?thesis
      by (intro exI [of _ f]) (subst write_clusters.simps, use Cons.prems(1) in \<open>simp add: stored_def same_volume_refl\<close>)
  next
    case False
    define t where "t = min n ?cb"
    have t: "t \<le> n" "t \<le> ?cb" "t \<le> length buf" using Cons.prems(4) by (simp_all add: t_def)
    have "addressable d (data_pos f x + t)" using addressable_mono Cons.prems(8) t(2) by auto
    then obtain g where g: "mounted good d g" "wrote img d f (data_pos f x) (take t buf) g"
      "write_clusters ops d f (of_nat c) buf (int n) res = write_clusters ops d g (of_nat x) (drop t buf) (int (n - t)) (int t)"
      using write_cluster_step [OF Cons.prems(1,2) x(1,2) _ _ _ t(3), of n res] x2 False t_def by auto
    have s: "same_volume f g" using g(2) by (simp add: wrote_def)
    note v = same_volume_views [OF s]
    have "fat_pos f (Suc lim) \<le> data_pos f x" using Cons.prems(6) data_pos_mono [of x f] x2 by simp
    then have tab: "\<forall>y \<le> lim. fat_at img d g y = fat_at img d f y" using wrote_keeps_table [OF g(2), of lim] by simp
    have ch: "chain 0xFFF8 (fat_at img d g) (x # xs)"
      using chain_cong [OF x(3), of "fat_at img d g"] tab Cons.prems(7) by simp
    have "n - t \<le> length xs * ?cb" "n - t \<le> length (drop t buf)" using Cons.prems(4,5) by (auto simp: t_def min_def)
    then obtain h where h: "write_clusters ops d g (of_nat x) (drop t buf) (int (n - t)) (int t) =
         Some (if n - t = 0 then int t else int ((n - t - 1) mod ?cb + 1), h)" "mounted good d h"
       "stored img d g xs (take (n - t) (drop t buf)) h" "\<forall>y \<le> lim. fat_at img d h y = fat_at img d g y"
      using Cons.IH [OF g(1), of x "n - t" "drop t buf" "int t"] Cons.prems(2,6,7,8) ch v(1-4) by auto
    have "stored img d f (x # xs) (take n buf) h"
      by (rule stored_Cons [where t = t and g = g])
        (use g(2) h(3) t Cons.prems(4,5) cb chain_distinct [OF x(3)] chain_range [OF x(3)] in
          \<open>auto simp: t_def take_drop min_def split: if_splits\<close>)
    moreover have "(if n - t = 0 then int t else int ((n - t - 1) mod ?cb + 1)) = int ((n - 1) mod ?cb + 1)"
    proof (cases "n \<le> ?cb")
      case True
      then show ?thesis using False by (simp add: t_def)
    next
      case big: False
      then have "n - 1 = (n - t - 1) + ?cb" "t < n" by (simp_all add: t_def)
      then show ?thesis by (metis mod_add_self2 zero_less_diff less_irrefl)
    qed
    ultimately show ?thesis using g(3) h(1,2,4) tab False by simp
  qed
qed

end

text \<open>C24: the loop of \<open>fat16_write\<close> over the clusters of a file. Started at a cluster \<open>c\<close> of a chain that is long enough behind \<open>c\<close> and in
  reach of the driver, it ends, and the bytes of the buffer fill the clusters behind \<open>c\<close>, in the order of the chain: the cluster \<open>c\<close> itself, the table and every other byte of the disk or partition
  are as they were. The result is the number of bytes in the last cluster that was written.\<close>
theorem fat16_write_fills_chain:
  assumes "pata_device ops good img" and "mounted good d f" and "fat_reachable d f" and "chain 0xFFF8 (fat_at img d f) (c # cs)"
    and "0 < n" and "n \<le> length buf" and "n \<le> length cs * cluster_bytes f" and "fat_pos f (Suc lim) \<le> data_pos f 2" and "\<forall>x \<in> set (c # cs). x \<le> lim"
    and "\<forall>x \<in> set cs. addressable d (data_pos f x + cluster_bytes f)"
  shows "\<exists>f'. write_clusters ops d f (of_nat c) buf (int n) res = Some (int ((n - 1) mod cluster_bytes f + 1), f') \<and>
     mounted good d f' \<and> same_volume f f' \<and> (\<forall>y \<le> lim. fat_at img d f' y = fat_at img d f y) \<and>
     (\<forall>j < n. disk_byte img (f_dev f') d (spot f cs j) = buf ! j) \<and>
     (\<forall>q. q \<notin> spot f cs ` {..< n} \<longrightarrow> disk_byte img (f_dev f') d q = disk_byte img (f_dev f) d q) \<and>
     (\<forall>i < cluster_bytes f. data_pos f c + i \<notin> spot f cs ` {..< n})"
proof -
  have cb: "0 < cluster_bytes f" using pata_device.size_of_cluster_bytes_nat [OF assms(1,2)] by simp
  have "c \<notin> set cs" "2 \<le> c" "\<forall>y \<in> set cs. 2 \<le> y" 
    using chain_distinct [OF assms(4)] chain_range [OF assms(4)] by auto
  then have "spot f cs j \<noteq> data_pos f c + i" if "i < cluster_bytes f" "j < n" for i j
    using spot_outside [of c cs j f i] assms(7) that by simp
  then have "\<forall>i < cluster_bytes f. data_pos f c + i \<notin> spot f cs ` {..< n}" by (metis imageE lessThan_iff)
  moreover obtain f' where "write_clusters ops d f (of_nat c) buf (int n) res = Some (int ((n - 1) mod cluster_bytes f + 1), f')"
    "mounted good d f'" "stored img d f cs (take n buf) f'" "\<forall>y \<le> lim. fat_at img d f' y = fat_at img d f y"
    using pata_device.write_clusters_ok [OF assms(1-4,6-10), of res] assms(5) by auto
  ultimately show ?thesis using assms(6) by (auto simp: stored_def)
qed

theorem fat16_write_fills_chain_witness:
  "\<exists>f'. write_clusters ata_ops demo_dsk demo_volume 2 [7, 8, 9] 3 0 = Some (3, f') \<and>
     map (disk_byte at_img (f_dev f') demo_dsk) [2560, 2561, 2562] = [7, 8, 9]"
proof -
  have g: "cluster_bytes demo_volume = 512" "data_pos demo_volume c = (3 + (c - 2)) * 512" "fat_pos demo_volume c = 512 + c * 2" for c
    by (simp_all add: cluster_bytes_def data_pos_def fat_pos_def demo_volume_def demo_fs_def zero_header_def)
  have "chain 0xFFF8 (fat_at at_img demo_dsk demo_volume) [2, 4]" using demo_volume_table by simp
  moreover have "fat_reachable demo_dsk demo_volume" using demo_volume_fs(5) by (simp add: roomy_def)
  moreover have "addressable demo_dsk (data_pos demo_volume 4 + cluster_bytes demo_volume)"
    by (simp add: g addressable_def demo_disk_def zero_disk_def)
  ultimately obtain f' where "write_clusters ata_ops demo_dsk demo_volume (of_nat 2) [7, 8, 9] (int 3) 0 =
       Some (int ((3 - 1) mod cluster_bytes demo_volume + 1), f')"
    and b: "\<forall>j < 3. disk_byte at_img (f_dev f') demo_dsk (spot demo_volume [4] j) = [7, 8, 9] ! j"
    using fat16_write_fills_chain [OF ata.pata_device_axioms demo_volume_fs(4), of 2 "[4]" 3 "[7, 8, 9]" 8 0] by (auto simp: g)
  moreover have "map (disk_byte at_img (f_dev f') demo_dsk) [2560, 2561, 2562] = [7, 8, 9]"
    using b [THEN spec, of 0] b [THEN spec, of 1] b [THEN spec, of 2] by (simp add: spot_def g)
  ultimately show ?thesis by (auto simp: g)
qed

end
