(* ===== verification/Fat32.thy ===== *)
theory Fat32
  imports Fat16_Write
begin

text \<open>
  The FAT32 file system, \<^verbatim>\<open>src/src/fs/fat32/fat32.c\<close>. The file declares the same directory items, directories, items and descriptors as the FAT16
  code, and several of its functions are the FAT16 ones under another name; those are defined by the FAT16 definitions. The sector number of a
  directory is unsigned here; the record keeps its value. The root directory is a heap object of its own, which
  \<open>fat32_write_directory_entry\<close> frees like any other directory while the private data still point to it: the pointer is \<open>Dangling\<close> from then on.
\<close>

section \<open>Structures\<close>

record fat32_header =
  h3_sectors_per_cluster :: u8
  h3_reserved_sectors :: u16
  h3_fat_copies :: u8
  h3_sectors_big :: u32
  h3_sectors_per_fat :: u32
  h3_root_cluster :: u32
  h3_fs_info_location :: u16
  h3_signature :: u8

definition fat32_header_of_bytes :: "u8 list \<Rightarrow> fat32_header" where
  \<comment> \<open>the packed structure \<open>fat_h\<close>, 90 bytes: \<open>fat_header\<close> takes 36, \<open>fat_header_extended\<close> follows\<close>
  "fat32_header_of_bytes bs = \<lparr>h3_sectors_per_cluster = bs ! 13, h3_reserved_sectors = le16 bs 14, h3_fat_copies = bs ! 16,
     h3_sectors_big = le32 bs 32, h3_sectors_per_fat = le32 bs 36, h3_root_cluster = le32 bs 44,
     h3_fs_info_location = le16 bs 48, h3_signature = bs ! 66\<rparr>"

definition zero_header32 :: fat32_header where
  "zero_header32 = \<lparr>h3_sectors_per_cluster = 0, h3_reserved_sectors = 0, h3_fat_copies = 0, h3_sectors_big = 0,
     h3_sectors_per_fat = 0, h3_root_cluster = 0, h3_fs_info_location = 0, h3_signature = 0\<rparr>"

text \<open>\<open>struct fat_fsinfo\<close> is kept as its 512 bytes, since it is read and written as a sector.\<close>

definition fsinfo_lead_signature :: "u8 list \<Rightarrow> u32" where "fsinfo_lead_signature bs = le32 bs 0"
definition fsinfo_next_free_cluster :: "u8 list \<Rightarrow> u32" where "fsinfo_next_free_cluster bs = le32 bs 492"
definition fsinfo_trail_signature :: "u8 list \<Rightarrow> u32" where "fsinfo_trail_signature bs = le32 bs 508"

definition set_next_free_cluster :: "u8 list \<Rightarrow> u32 \<Rightarrow> u8 list" where
  "set_next_free_cluster bs c = take 492 bs @ bytes32 c @ drop 496 bs"

record fat32_private =
  f3_addr :: u32
  f3_header :: fat32_header
  f3_root_directory :: dir_ptr
  f3_fsinfo :: "u8 list"
  f3_cluster_stream :: "disk_stream option"
  f3_fat_stream :: "disk_stream option"
  f3_directory_stream :: "disk_stream option"

record 's fs32 =
  g_dev :: 's
  g_k :: kmem
  g_private :: fat32_private

section \<open>Streams\<close>

text \<open>\<open>diskstreamer_seek\<close> always returns 0, so the tests of its result in the source never fire and the operations below join the seek and the transfer.\<close>

definition fat32_fat_read :: "'s port_ops \<Rightarrow> 's fs32 \<Rightarrow> int \<Rightarrow> int \<Rightarrow> (int \<times> u8 list \<times> 's fs32) option" where
  \<comment> \<open>seek and read on \<open>fat_stream\<close>\<close>
  "fat32_fat_read ops f pos n = do {
     st \<leftarrow> f3_fat_stream (g_private f);
     (res, bs, st, dev) \<leftarrow> diskstreamer_read ops (g_dev f) (snd (diskstreamer_seek st pos)) n;
     Some (res, bs, f\<lparr>g_dev := dev, g_private := (g_private f)\<lparr>f3_fat_stream := Some st\<rparr>\<rparr>)
   }"

definition fat32_fat_write :: "'s port_ops \<Rightarrow> 's fs32 \<Rightarrow> int \<Rightarrow> u8 list \<Rightarrow> int \<Rightarrow> (int \<times> 's fs32) option" where
  "fat32_fat_write ops f pos bs n = do {
     st \<leftarrow> f3_fat_stream (g_private f);
     (res, st, dev) \<leftarrow> diskstreamer_write ops (g_dev f) (snd (diskstreamer_seek st pos)) bs n;
     Some (res, f\<lparr>g_dev := dev, g_private := (g_private f)\<lparr>f3_fat_stream := Some st\<rparr>\<rparr>)
   }"

definition fat32_cluster_read :: "'s port_ops \<Rightarrow> 's fs32 \<Rightarrow> int \<Rightarrow> int \<Rightarrow> (int \<times> u8 list \<times> 's fs32) option" where
  "fat32_cluster_read ops f pos n = do {
     st \<leftarrow> f3_cluster_stream (g_private f);
     (res, bs, st, dev) \<leftarrow> diskstreamer_read ops (g_dev f) (snd (diskstreamer_seek st pos)) n;
     Some (res, bs, f\<lparr>g_dev := dev, g_private := (g_private f)\<lparr>f3_cluster_stream := Some st\<rparr>\<rparr>)
   }"

definition fat32_cluster_write :: "'s port_ops \<Rightarrow> 's fs32 \<Rightarrow> int \<Rightarrow> u8 list \<Rightarrow> int \<Rightarrow> (int \<times> 's fs32) option" where
  "fat32_cluster_write ops f pos bs n = do {
     st \<leftarrow> f3_cluster_stream (g_private f);
     (res, st, dev) \<leftarrow> diskstreamer_write ops (g_dev f) (snd (diskstreamer_seek st pos)) bs n;
     Some (res, f\<lparr>g_dev := dev, g_private := (g_private f)\<lparr>f3_cluster_stream := Some st\<rparr>\<rparr>)
   }"

definition fat32_directory_seek :: "'s fs32 \<Rightarrow> int \<Rightarrow> 's fs32 option" where
  "fat32_directory_seek f pos = do {
     st \<leftarrow> f3_directory_stream (g_private f);
     Some (f\<lparr>g_private := (g_private f)\<lparr>f3_directory_stream := Some (snd (diskstreamer_seek st pos))\<rparr>\<rparr>)
   }"

definition fat32_directory_read :: "'s port_ops \<Rightarrow> 's fs32 \<Rightarrow> int \<Rightarrow> (int \<times> u8 list \<times> 's fs32) option" where
  "fat32_directory_read ops f n = do {
     st \<leftarrow> f3_directory_stream (g_private f);
     (res, bs, st, dev) \<leftarrow> diskstreamer_read ops (g_dev f) st n;
     Some (res, bs, f\<lparr>g_dev := dev, g_private := (g_private f)\<lparr>f3_directory_stream := Some st\<rparr>\<rparr>)
   }"

definition fat32_directory_write :: "'s port_ops \<Rightarrow> 's fs32 \<Rightarrow> int \<Rightarrow> u8 list \<Rightarrow> int \<Rightarrow> (int \<times> 's fs32) option" where
  "fat32_directory_write ops f pos bs n = do {
     st \<leftarrow> f3_directory_stream (g_private f);
     (res, st, dev) \<leftarrow> diskstreamer_write ops (g_dev f) (snd (diskstreamer_seek st pos)) bs n;
     Some (res, f\<lparr>g_dev := dev, g_private := (g_private f)\<lparr>f3_directory_stream := Some st\<rparr>\<rparr>)
   }"

section \<open>The allocation table and the data area\<close>

definition cluster_size32 :: "disk \<Rightarrow> fat32_private \<Rightarrow> int" where
  "cluster_size32 d p = uint (h3_sectors_per_cluster (f3_header p)) * dk_sector_size d"

definition fat32_cluster_to_sector :: "fat32_private \<Rightarrow> u32 \<Rightarrow> u32" where
  "fat32_cluster_to_sector p cluster =
     ucast (h3_reserved_sectors (f3_header p)) + ucast (h3_fat_copies (f3_header p)) * h3_sectors_per_fat (f3_header p)
     + (cluster - 2) * ucast (h3_sectors_per_cluster (f3_header p))"

definition fat32_get_fat_entry :: "'s port_ops \<Rightarrow> disk \<Rightarrow> 's fs32 \<Rightarrow> u32 \<Rightarrow> (u32 \<times> 's fs32) option" where
  \<comment> \<open>the tests \<open>res < 0\<close> never hold, since \<open>res\<close> is unsigned\<close>
  "fat32_get_fat_entry ops d f cluster =
     (if f3_fat_stream (g_private f) = None then Some (0xFFFFFFFF, f)
      else do {
        let fat_table_position = uint (h3_reserved_sectors (f3_header (g_private f))) * dk_sector_size d;
        (res, bs, f) \<leftarrow> fat32_fat_read ops f (s32 (fat_table_position + uint cluster * 4)) 4;
        Some (if res \<noteq> SERPAEOS_ALL_OK then 0xFFFFFFFF else le32 bs 0, f)
      })"

fun cluster_for_offset_loop32 :: "'s port_ops \<Rightarrow> disk \<Rightarrow> nat \<Rightarrow> u32 \<Rightarrow> 's fs32 \<Rightarrow> (int \<times> 's fs32) option" where
  \<comment> \<open>the iterations left and \<open>cluster_to_use\<close>\<close>
  "cluster_for_offset_loop32 ops d 0 cluster_to_use f = Some (sint cluster_to_use, f)"
| "cluster_for_offset_loop32 ops d (Suc n) cluster_to_use f = do {
     (entry, f) \<leftarrow> fat32_get_fat_entry ops d f cluster_to_use;
     if entry \<ge> 0x0FFFFFF8 then Some (- EIO, f)
     else if entry = 0x0FFFFFF7 then Some (- EIO, f)
     else if entry = 0x0FFFFFF0 \<or> entry = 0x0FFFFFF6 then Some (- EIO, f)
     else if entry = 0 then Some (- EIO, f)
     else cluster_for_offset_loop32 ops d n entry f
   }"

definition fat32_get_cluster_for_offset :: "'s port_ops \<Rightarrow> disk \<Rightarrow> 's fs32 \<Rightarrow> u32 \<Rightarrow> int \<Rightarrow> (int \<times> 's fs32) option" where
  "fat32_get_cluster_for_offset ops d f starting_cluster offset =
     (if cluster_size32 d (g_private f) = 0 then None
      else cluster_for_offset_loop32 ops d (nat (offset sdiv cluster_size32 d (g_private f))) starting_cluster f)"

partial_function (option) fat32_read_internal_from_stream ::
  "'s port_ops \<Rightarrow> disk \<Rightarrow> 's fs32 \<Rightarrow> u32 \<Rightarrow> int \<Rightarrow> int \<Rightarrow> (int \<times> u8 list \<times> 's fs32) option" where
  \<comment> \<open>on the cluster stream; the second component of the result is what was stored at \<open>out\<close>. The cluster size is unsigned, and so are
      the remainder and the comparison with it\<close>
  "fat32_read_internal_from_stream ops d f cluster offset n = do {
     (cluster_to_use, f) \<leftarrow> fat32_get_cluster_for_offset ops d f cluster offset;
     if cluster_to_use < 0 then Some (cluster_to_use, [], f)
     else do {
       let cs = cluster_size32 d (g_private f);
       let offset_from_cluster = s32 (uint ((word_of_int offset :: u32) mod word_of_int cs));
       let starting_sector = sint (fat32_cluster_to_sector (g_private f) (word_of_int cluster_to_use));
       let starting_pos = s32 (starting_sector * dk_sector_size d + offset_from_cluster);
       let total_to_read = (if (word_of_int n :: u32) > word_of_int cs then cs else n);
       (res, out, f) \<leftarrow> fat32_cluster_read ops f starting_pos total_to_read;
       if res \<noteq> SERPAEOS_ALL_OK then Some (res, out, f)
       else if n - total_to_read > 0
       then do {
         (res, rest, f) \<leftarrow> fat32_read_internal_from_stream ops d f cluster (offset + total_to_read) (n - total_to_read);
         Some (res, out @ rest, f)
       }
       else Some (res, out, f)
     }
   }"

definition fat32_read_internal :: "'s port_ops \<Rightarrow> disk \<Rightarrow> 's fs32 \<Rightarrow> u32 \<Rightarrow> int \<Rightarrow> int \<Rightarrow> (int \<times> u8 list \<times> 's fs32) option" where
  "fat32_read_internal ops d f starting_cluster offset n = fat32_read_internal_from_stream ops d f starting_cluster offset n"

section \<open>Directories\<close>

partial_function (option) count_items32 :: "'s port_ops \<Rightarrow> 's fs32 \<Rightarrow> int \<Rightarrow> (int \<times> 's fs32) option" where
  "count_items32 ops f i = do {
     (res, bs, f) \<leftarrow> fat32_directory_read ops f 32;
     if res \<noteq> SERPAEOS_ALL_OK then Some (- EIO, f)
     else if bs ! 0 = 0 then Some (i, f)
     else if bs ! 0 = 0xE5 then count_items32 ops f i
     else count_items32 ops f (i + 1)
   }"

definition fat32_get_total_items_for_directory :: "'s port_ops \<Rightarrow> disk \<Rightarrow> 's fs32 \<Rightarrow> u32 \<Rightarrow> (int \<times> 's fs32) option" where
  "fat32_get_total_items_for_directory ops d f directory_start_sector = do {
     f \<leftarrow> fat32_directory_seek f (s32 (uint directory_start_sector * dk_sector_size d));
     count_items32 ops f 0
   }"

definition fat32_free_directory :: "kmem \<Rightarrow> dir_ptr \<Rightarrow> kmem option" where
  "fat32_free_directory = fat16_free_directory"

definition read_directory32 ::
  "'s port_ops \<Rightarrow> disk \<Rightarrow> 's fs32 \<Rightarrow> u32 \<Rightarrow> (int \<times> dir_ptr \<times> 's fs32) option" where
  \<comment> \<open>what \<open>fat32_load_root_dir\<close> and \<open>fat32_load_fat_directory\<close> have in common: \<open>res\<close> and \<open>directory\<close> at the label \<open>out\<close>\<close>
  "read_directory32 ops d f cluster = do {
     (a, k) \<leftarrow> kzalloc (g_k f) 16;
     let f = f\<lparr>g_k := k\<rparr>;
     if a = 0 then Some (- ENOMEM, Null, f)
     else do {
       let cluster_sector = fat32_cluster_to_sector (g_private f) cluster;
       (total_items, f) \<leftarrow> fat32_get_total_items_for_directory ops d f cluster_sector;
       let directory_size = total_items * 32;
       (ia, k) \<leftarrow> kzalloc (g_k f) (word_of_int directory_size);
       let f = f\<lparr>g_k := k\<rparr>;
       let dir = (empty_directory a)\<lparr>fd_item_addr := ia, fd_total := total_items\<rparr>;
       if ia = 0 then Some (- ENOMEM, Dir dir, f)
       else do {
         (res, bs, f) \<leftarrow> fat32_read_internal ops d f cluster 0 directory_size;
         if res \<noteq> SERPAEOS_ALL_OK then Some (res, Dir dir, f)
         else Some (res, Dir (dir\<lparr>fd_item := items_of_bytes bs, fd_sector_pos := uint cluster_sector\<rparr>), f)
       }
     }
   }"

definition fat32_load_root_dir :: "'s port_ops \<Rightarrow> disk \<Rightarrow> 's fs32 \<Rightarrow> (int \<times> 's fs32) option" where
  "fat32_load_root_dir ops d f = do {
     (res, directory, f) \<leftarrow> read_directory32 ops d f (h3_root_cluster (f3_header (g_private f)));
     if res \<noteq> SERPAEOS_ALL_OK
     then do {
       k \<leftarrow> fat32_free_directory (g_k f) directory;
       Some (res, f\<lparr>g_k := k, g_private := (g_private f)\<lparr>f3_root_directory := Null\<rparr>\<rparr>)
     }
     else Some (res, f\<lparr>g_private := (g_private f)\<lparr>f3_root_directory := directory\<rparr>\<rparr>)
   }"

section \<open>Mounting\<close>

definition fat32_init_private :: "kmem \<Rightarrow> disk list \<Rightarrow> disk \<Rightarrow> u32 \<Rightarrow> (fat32_private \<times> kmem) option" where
  "fat32_init_private k disks d a = do {
     (s1, k) \<leftarrow> diskstreamer_new k disks (dk_id d);
     (s2, k) \<leftarrow> diskstreamer_new k disks (dk_id d);
     (s3, k) \<leftarrow> diskstreamer_new k disks (dk_id d);
     Some (\<lparr>f3_addr = a, f3_header = zero_header32, f3_root_directory = Null, f3_fsinfo = replicate 512 0,
            f3_cluster_stream = s1, f3_fat_stream = s2, f3_directory_stream = s3\<rparr>, k)
   }"

definition read_volume32 ::
  "'s port_ops \<Rightarrow> disk \<Rightarrow> disk_stream \<Rightarrow> 's fs32 \<Rightarrow> (int \<times> disk_stream \<times> 's fs32) option" where
  \<comment> \<open>\<open>fat32_resolve\<close> between opening its own stream and the label \<open>out\<close>\<close>
  "read_volume32 ops d st f = do {
     (res, bs, st, dev) \<leftarrow> diskstreamer_read ops (g_dev f) st 90;
     let f = f\<lparr>g_dev := dev\<rparr>;
     if res \<noteq> SERPAEOS_ALL_OK then Some (- EIO, st, f)
     else do {
       let f = f\<lparr>g_private := (g_private f)\<lparr>f3_header := fat32_header_of_bytes bs\<rparr>\<rparr>;
       if h3_signature (f3_header (g_private f)) \<noteq> 0x29 then Some (- ENOTUS, st, f)
       else do {
         (res, f) \<leftarrow> fat32_load_root_dir ops d f;
         if res \<noteq> SERPAEOS_ALL_OK then Some (- EIO, st, f)
         else do {
           let fsinfo_location = uint (h3_fs_info_location (f3_header (g_private f))) * dk_sector_size d;
           (res, bs, st, dev) \<leftarrow> diskstreamer_read ops (g_dev f) (snd (diskstreamer_seek st (s32 fsinfo_location))) 512;
           let f = f\<lparr>g_dev := dev\<rparr>;
           if res \<noteq> SERPAEOS_ALL_OK then Some (- EIO, st, f)
           else let f = f\<lparr>g_private := (g_private f)\<lparr>f3_fsinfo := bs\<rparr>\<rparr>
                in Some (if fsinfo_lead_signature bs \<noteq> 0x41615252 \<or> fsinfo_trail_signature bs \<noteq> 0xAA550000 then - ENOTUS else 0, st, f)
         }
       }
     }
   }"

definition fat32_resolve :: "'s port_ops \<Rightarrow> disk list \<Rightarrow> disk \<Rightarrow> 's \<Rightarrow> kmem \<Rightarrow> (int \<times> fat32_private option \<times> 's \<times> kmem) option" where
  \<comment> \<open>the second component of the result is \<open>disk->fs_private\<close>\<close>
  "fat32_resolve ops disks d dev k = do {
     (a, k) \<leftarrow> kzalloc k 620;
     if a = 0 then None
     else do {
       (p, k) \<leftarrow> fat32_init_private k disks d a;
       (stream, k) \<leftarrow> diskstreamer_new k disks (dk_id d);
       case stream of
         None \<Rightarrow> do { k \<leftarrow> kfree k a; Some (- ENOMEM, None, dev, k) }
       | Some st \<Rightarrow> do {
           (res, st, f) \<leftarrow> read_volume32 ops d st \<lparr>g_dev = dev, g_k = k, g_private = p\<rparr>;
           k \<leftarrow> diskstreamer_close (g_k f) st;
           if res < 0 then do { k \<leftarrow> kfree k a; Some (res, None, g_dev f, k) }
           else Some (res, Some (g_private f), g_dev f, k)
         }
     }
   }"

section \<open>Names and items\<close>

text \<open>These functions are, statement for statement, those of the FAT16 code.\<close>

definition fat32_to_proper_string :: "u8 list \<Rightarrow> u8 list \<Rightarrow> nat \<Rightarrow> u8 list option" where
  "fat32_to_proper_string = fat16_to_proper_string"

definition fat32_get_full_relative_filename :: "fat_directory_item \<Rightarrow> nat \<Rightarrow> u8 list option" where
  "fat32_get_full_relative_filename = fat16_get_full_relative_filename"

definition fat32_clone_directory_item :: "kmem \<Rightarrow> fat_directory_item \<Rightarrow> int \<Rightarrow> ((u32 \<times> fat_directory_item) option \<times> kmem) option" where
  "fat32_clone_directory_item = fat16_clone_directory_item"

definition fat32_fat_item_free :: "kmem \<Rightarrow> fat_item \<Rightarrow> kmem option" where
  "fat32_fat_item_free = fat16_fat_item_free"

definition fat32_get_first_cluster :: "fat_directory_item \<Rightarrow> u32" where
  "fat32_get_first_cluster item = push_bit 16 (ucast (di_high_first_cluster item)) OR ucast (di_low_first_cluster item)"

definition fat32_load_fat_directory :: "'s port_ops \<Rightarrow> disk \<Rightarrow> 's fs32 \<Rightarrow> fat_directory_item \<Rightarrow> (dir_ptr \<times> 's fs32) option" where
  \<comment> \<open>on every error behind the first allocation the directory is freed and its pointer returned all the same\<close>
  "fat32_load_fat_directory ops d f item =
     (if di_attribute item AND FAT_FILE_SUBDIRECTORY = 0 then Some (Null, f)
      else do {
        (res, directory, f) \<leftarrow> read_directory32 ops d f (fat32_get_first_cluster item);
        if res \<noteq> SERPAEOS_ALL_OK
        then do {
          k \<leftarrow> fat32_free_directory (g_k f) directory;
          Some (case directory of Null \<Rightarrow> Null | _ \<Rightarrow> Dangling, f\<lparr>g_k := k\<rparr>)
        }
        else Some (directory, f)
      })"

definition fat32_new_fat_item_for_directory_item ::
  "'s port_ops \<Rightarrow> disk \<Rightarrow> 's fs32 \<Rightarrow> fat_directory_item \<Rightarrow> (fat_item option \<times> 's fs32) option" where
  "fat32_new_fat_item_for_directory_item ops d f item = do {
     (a, k) \<leftarrow> kzalloc (g_k f) 8;
     let f = f\<lparr>g_k := k\<rparr>;
     if a = 0 then Some (None, f)
     else if di_attribute item AND FAT_FILE_SUBDIRECTORY \<noteq> 0
     then do { (p, f) \<leftarrow> fat32_load_fat_directory ops d f item; Some (Some (DirItem a p), f) }
     else do {
       (c, k) \<leftarrow> fat32_clone_directory_item (g_k f) item 32;
       let f = f\<lparr>g_k := k\<rparr>;
       case c of None \<Rightarrow> None | Some (ia, i) \<Rightarrow> Some (Some (FileItem a ia i), f)
     }
   }"

definition FAT_FILE_VOLUME_LABEL :: u8 where "FAT_FILE_VOLUME_LABEL = 0x08"

fun find_file_index32 :: "fat_directory_item list \<Rightarrow> u8 list \<Rightarrow> nat \<Rightarrow> nat \<Rightarrow> nat option option" where
  \<comment> \<open>the loop of \<open>fat32_find_item_in_directory\<close>, which skips volume labels: iterations left and \<open>i\<close>\<close>
  "find_file_index32 items name 0 i = Some None"
| "find_file_index32 items name (Suc n) i = do {
     item \<leftarrow> rd items i;
     if di_attribute item AND FAT_FILE_VOLUME_LABEL \<noteq> 0 then find_file_index32 items name n (Suc i)
     else do {
       tmp_filename \<leftarrow> fat32_get_full_relative_filename item 108;
       r \<leftarrow> istrncmp tmp_filename name 108;
       if r = 0 then Some (Some i) else find_file_index32 items name n (Suc i)
     }
   }"

definition fat32_find_item_in_directory ::
  "'s port_ops \<Rightarrow> disk \<Rightarrow> 's fs32 \<Rightarrow> dir_ptr \<Rightarrow> u8 list \<Rightarrow> (fat_item option \<times> 's fs32) option" where
  "fat32_find_item_in_directory ops d f p name =
     (case p of
        Null \<Rightarrow> None
      | Dangling \<Rightarrow> None
      | Dir directory \<Rightarrow> do {
          r \<leftarrow> find_file_index32 (fd_item directory) name (nat (fd_total directory)) 0;
          case r of
            None \<Rightarrow> Some (None, f)
          | Some i \<Rightarrow> do { item \<leftarrow> rd (fd_item directory) i; fat32_new_fat_item_for_directory_item ops d f item }
        })"

definition fat32_find_entry_in_directory :: "fat_directory \<Rightarrow> u8 list \<Rightarrow> fat_directory_item option option" where
  "fat32_find_entry_in_directory = fat16_find_entry_in_directory"

fun directory_entry_loop32 ::
  "'s port_ops \<Rightarrow> disk \<Rightarrow> 's fs32 \<Rightarrow> fat_item option \<Rightarrow> path_part list \<Rightarrow> (fat_item option \<times> 's fs32) option" where
  "directory_entry_loop32 ops d f current_item [] = Some (current_item, f)"
| "directory_entry_loop32 ops d f None (part # parts) = None"
| "directory_entry_loop32 ops d f (Some (FileItem a ia i)) (part # parts) = Some (None, f)"
| "directory_entry_loop32 ops d f (Some (DirItem a p)) (part # parts) = do {
     (tmp_item, f) \<leftarrow> fat32_find_item_in_directory ops d f p (pp_part part @ [0]);
     k \<leftarrow> fat32_fat_item_free (g_k f) (DirItem a p);
     directory_entry_loop32 ops d (f\<lparr>g_k := k\<rparr>) tmp_item parts
   }"

definition fat32_get_directory_entry ::
  "'s port_ops \<Rightarrow> disk \<Rightarrow> 's fs32 \<Rightarrow> path_part list \<Rightarrow> (fat_item option \<times> 's fs32) option" where
  "fat32_get_directory_entry ops d f path =
     (case path of
        [] \<Rightarrow> None
      | part # parts \<Rightarrow> do {
          (root_item, f) \<leftarrow> fat32_find_item_in_directory ops d f (f3_root_directory (g_private f)) (pp_part part @ [0]);
          case root_item of
            None \<Rightarrow> Some (None, f)
          | Some item \<Rightarrow> directory_entry_loop32 ops d f (Some item) parts
        })"

definition fat32_get_parent_dir ::
  "'s port_ops \<Rightarrow> disk \<Rightarrow> 's fs32 \<Rightarrow> path_part list \<Rightarrow> (fat_item option \<times> 's fs32) option" where
  "fat32_get_parent_dir ops d f path =
     (case path of
        [] \<Rightarrow> Some (None, f)
      | [part] \<Rightarrow> do {
          (a, k) \<leftarrow> kzalloc (g_k f) 8;
          if a = 0 then None
          else Some (Some (DirItem a (f3_root_directory (g_private f))), f\<lparr>g_k := k\<rparr>)
        }
      | _ \<Rightarrow> fat32_get_directory_entry ops d f (butlast path))"

section \<open>Writing entries\<close>

definition same_directory :: "dir_ptr \<Rightarrow> dir_ptr \<Rightarrow> bool" where
  \<comment> \<open>the two pointers are equal\<close>
  "same_directory p q = (case (p, q) of (Dir a, Dir b) \<Rightarrow> fd_addr a = fd_addr b | _ \<Rightarrow> False)"

definition free_item32 :: "'s fs32 \<Rightarrow> fat_item \<Rightarrow> 's fs32 option" where
  \<comment> \<open>\<open>fat32_fat_item_free\<close>; when the item's directory is the root directory, the private data keep a dangling pointer\<close>
  "free_item32 f item = do {
     k \<leftarrow> fat32_fat_item_free (g_k f) item;
     let f = f\<lparr>g_k := k\<rparr>;
     case item of
       FileItem a ia i \<Rightarrow> Some f
     | DirItem a p \<Rightarrow>
         Some (if same_directory p (f3_root_directory (g_private f))
               then f\<lparr>g_private := (g_private f)\<lparr>f3_root_directory := Dangling\<rparr>\<rparr> else f)
   }"

definition fat32_write_directory_entry ::
  "'s port_ops \<Rightarrow> disk \<Rightarrow> 's fs32 \<Rightarrow> path_part list \<Rightarrow> fat_directory_item \<Rightarrow> (int \<times> 's fs32) option" where
  "fat32_write_directory_entry ops d f path new_item = do {
     (parent_dir_item, f) \<leftarrow> fat32_get_parent_dir ops d f path;
     case parent_dir_item of
       None \<Rightarrow> None
     | Some (FileItem a ia i) \<Rightarrow> None
     | Some (DirItem a p) \<Rightarrow>
         (case p of
            Null \<Rightarrow> Some (- EBADPATH, f)
          | Dangling \<Rightarrow> None
          | Dir dir \<Rightarrow> do {
              part \<leftarrow> pathparser_get_last_part path;
              i \<leftarrow> entry_position_loop (fd_item dir) (pp_part part @ [0]) (nat (fd_total dir)) 0;
              if int i = fd_total dir then Some (- EINVARG, f)
              else do {
                let location_bytes = fd_sector_pos dir * dk_sector_size d + 32 * int i;
                (res, f) \<leftarrow> fat32_directory_write ops f (s32 location_bytes) (bytes_of_item new_item) 32;
                f \<leftarrow> free_item32 f (DirItem a p);
                Some (res, f)
              }
            })
   }"

section \<open>Descriptors\<close>

definition fat32_seek :: "fat_file_descriptor \<Rightarrow> u32 \<Rightarrow> u32 \<Rightarrow> int \<times> fat_file_descriptor" where
  "fat32_seek = fat16_seek"

definition fat32_stat :: "fat_file_descriptor \<Rightarrow> filestat \<Rightarrow> int \<times> filestat" where
  "fat32_stat = fat16_stat"

definition fat32_ftell :: "fat_file_descriptor \<Rightarrow> int" where
  "fat32_ftell = fat16_ftell"

definition fat32_free_file_descriptor :: "kmem \<Rightarrow> fat_file_descriptor \<Rightarrow> kmem option" where
  "fat32_free_file_descriptor = fat16_free_file_descriptor"

definition fat32_close :: "kmem \<Rightarrow> fat_file_descriptor \<Rightarrow> (int \<times> kmem) option" where
  "fat32_close = fat16_close"

definition fat32_open ::
  "'s port_ops \<Rightarrow> disk \<Rightarrow> date_time \<Rightarrow> 's fs32 \<Rightarrow> path_part list \<Rightarrow> u8 \<Rightarrow> ((int + fat_file_descriptor) \<times> 's fs32) option" where
  \<comment> \<open>an error code is returned as a pointer\<close>
  "fat32_open ops d now f path mode = do {
     (a, k) \<leftarrow> kzalloc (g_k f) 16;
     let f = f\<lparr>g_k := k\<rparr>;
     if a = 0 then Some (Inl (- ENOMEM), f)
     else do {
       let err_out = (\<lambda>e f. do { k \<leftarrow> kfree (g_k f) a; Some (Inl e, f\<lparr>g_k := k\<rparr>) });
       (item, f) \<leftarrow> fat32_get_directory_entry ops d f path;
       case item of
         None \<Rightarrow> err_out (- EIO) f
       | Some (DirItem ia p) \<Rightarrow> err_out (- EINVARG) f
       | Some (FileItem ia ca i) \<Rightarrow>
           if mode AND FILE_MODE_WRITE \<noteq> 0 \<and> di_attribute i AND FAT_FILE_READ_ONLY \<noteq> 0 then err_out (- ERDONLY) f
           else do {
             let desc = \<lparr>fdesc_addr = a, fdesc_path = [], fdesc_item = FileItem ia ca i, fdesc_pos = 0, fdesc_mode = 0\<rparr>;
             let desc = (if mode AND FILE_MODE_APPEND \<noteq> 0 then snd (fat32_seek desc 0 SEEK_END) else desc\<lparr>fdesc_pos := 0\<rparr>);
             let i = i\<lparr>di_last_access := fat_date now\<rparr>;
             let desc = desc\<lparr>fdesc_path := path, fdesc_mode := mode, fdesc_item := FileItem ia ca i\<rparr>;
             (_, f) \<leftarrow> fat32_write_directory_entry ops d f path i;
             Some (Inr desc, f)
           }
     }
   }"

fun fat32_read_loop ::
  "'s port_ops \<Rightarrow> disk \<Rightarrow> 's fs32 \<Rightarrow> fat_directory_item \<Rightarrow> int \<Rightarrow> nat \<Rightarrow> int \<Rightarrow> (int \<times> int \<times> u8 list \<times> 's fs32) option" where
  \<comment> \<open>the iterations left and \<open>offset\<close>; the result is \<open>res\<close>, the last \<open>offset\<close> and the bytes stored\<close>
  "fat32_read_loop ops d f item sz 0 offset = Some (0, offset, [], f)"
| "fat32_read_loop ops d f item sz (Suc n) offset = do {
     (res, out, f) \<leftarrow> fat32_read_internal ops d f (fat32_get_first_cluster item) offset sz;
     if res < 0 then Some (res, offset, out, f)
     else do {
       (res', offset, rest, f) \<leftarrow> fat32_read_loop ops d f item sz n (offset + sz);
       Some (if n = 0 then res else res', offset, out @ rest, f)
     }
   }"

definition fat32_read ::
  "'s port_ops \<Rightarrow> disk \<Rightarrow> 's fs32 \<Rightarrow> fat_file_descriptor \<Rightarrow> u32 \<Rightarrow> u32 \<Rightarrow>
     (int \<times> u8 list \<times> fat_file_descriptor \<times> 's fs32) option" where
  "fat32_read ops d f desc sz nmemb =
     (case fdesc_item desc of
        DirItem a p \<Rightarrow> None
      | FileItem a ia item \<Rightarrow> do {
          (res, offset, out, f) \<leftarrow> fat32_read_loop ops d f item (sint sz) (unat nmemb) (sint (fdesc_pos desc));
          Some (res, out, if res < 0 then desc else desc\<lparr>fdesc_pos := word_of_int offset\<rparr>, f)
        })"

section \<open>Allocation\<close>

partial_function (option) find_free_entry_loop32 :: "fat_directory_item list \<Rightarrow> u32 \<Rightarrow> u32 option" where
  "find_free_entry_loop32 items res = do {
     item \<leftarrow> rd items (unat res);
     c \<leftarrow> rd (di_filename item) 0;
     if c = 0 then Some 0xFFFFFFFF else if c = 0xE5 then Some res else find_free_entry_loop32 items (res + 1)
   }"

definition fat32_find_free_entry_in_directory :: "fat_directory \<Rightarrow> u32 option" where
  "fat32_find_free_entry_in_directory dir = find_free_entry_loop32 (fd_item dir) 0"

definition fat32_filesize_to_cluster_count :: "disk \<Rightarrow> fat32_private \<Rightarrow> u32 \<Rightarrow> u32 option" where
  "fat32_filesize_to_cluster_count d p filesize =
     (let bytes_per_cluster = word_of_int (dk_sector_size d * uint (h3_sectors_per_cluster (f3_header p)))
      in if bytes_per_cluster = 0 then None
         else let res = filesize div bytes_per_cluster
              in Some (if filesize mod bytes_per_cluster \<noteq> 0 then res + 1 else res))"

definition fat32_write_fat_entry :: "'s port_ops \<Rightarrow> disk \<Rightarrow> 's fs32 \<Rightarrow> u32 \<Rightarrow> u32 \<Rightarrow> (int \<times> 's fs32) option" where
  "fat32_write_fat_entry ops d f entry val =
     fat32_fat_write ops f
       (s32 (uint (h3_reserved_sectors (f3_header (g_private f))) * dk_sector_size d + uint entry * 4)) (bytes32 val) 4"

definition fat32_update_fsinfo :: "'s port_ops \<Rightarrow> disk \<Rightarrow> 's fs32 \<Rightarrow> 's fs32 option" where
  "fat32_update_fsinfo ops d f = do {
     (_, dev) \<leftarrow> disk_write_block ops (g_dev f) d (ucast (h3_fs_info_location (f3_header (g_private f)))) 1 (f3_fsinfo (g_private f));
     Some (f\<lparr>g_dev := dev\<rparr>)
   }"

partial_function (option) free_cluster_loop32 :: "'s port_ops \<Rightarrow> disk \<Rightarrow> 's fs32 \<Rightarrow> u32 \<Rightarrow> (u32 option \<times> 's fs32) option" where
  \<comment> \<open>the loop of \<open>fat32_get_first_free_cluster\<close>; \<open>None\<close> as the first component stands for its early return\<close>
  "free_cluster_loop32 ops d f cluster = do {
     (code, f) \<leftarrow> fat32_get_fat_entry ops d f cluster;
     if code = 0 then Some (Some cluster, f)
     else if h3_sectors_per_cluster (f3_header (g_private f)) = 0 then None
     else if cluster \<ge> h3_sectors_big (f3_header (g_private f)) div ucast (h3_sectors_per_cluster (f3_header (g_private f)))
     then Some (None, f)
     else free_cluster_loop32 ops d f (cluster + 1)
   }"

definition fat32_get_first_free_cluster :: "'s port_ops \<Rightarrow> disk \<Rightarrow> 's fs32 \<Rightarrow> (u32 \<times> 's fs32) option" where
  "fat32_get_first_free_cluster ops d f = do {
     let next_free = fsinfo_next_free_cluster (f3_fsinfo (g_private f));
     (r, f) \<leftarrow> free_cluster_loop32 ops d f (if next_free = 0xFFFFFFFF then 3 else next_free);
     case r of
       None \<Rightarrow> Some (0, f)
     | Some cluster \<Rightarrow> do {
         f \<leftarrow> fat32_update_fsinfo ops d
                (f\<lparr>g_private := (g_private f)\<lparr>f3_fsinfo := set_next_free_cluster (f3_fsinfo (g_private f)) cluster\<rparr>\<rparr>);
         Some (cluster, f)
       }
   }"

partial_function (option) fat32_find_last_cluster_of_chain :: "'s port_ops \<Rightarrow> disk \<Rightarrow> 's fs32 \<Rightarrow> u32 \<Rightarrow> (u32 \<times> 's fs32) option" where
  "fat32_find_last_cluster_of_chain ops d f cur = do {
     (code, f) \<leftarrow> fat32_get_fat_entry ops d f cur;
     if code \<ge> 0x0FFFFFF8 then Some (cur, f) else fat32_find_last_cluster_of_chain ops d f code
   }"

fun new_cluster_chain_loop32 ::
  "'s port_ops \<Rightarrow> disk \<Rightarrow> 's fs32 \<Rightarrow> u32 list \<Rightarrow> nat \<Rightarrow> nat \<Rightarrow> (bool \<times> nat \<times> u32 list \<times> 's fs32) option" where
  "new_cluster_chain_loop32 ops d f out 0 i = Some (True, i, out, f)"
| "new_cluster_chain_loop32 ops d f out (Suc n) i = do {
     (c, f) \<leftarrow> fat32_get_first_free_cluster ops d f;
     out \<leftarrow> wr out i c;
     if c = 0 then Some (False, i, out, f) else new_cluster_chain_loop32 ops d f out n (Suc i)
   }"

definition fat32_new_cluster_chain ::
  "'s port_ops \<Rightarrow> disk \<Rightarrow> 's fs32 \<Rightarrow> u32 list \<Rightarrow> int \<Rightarrow> (int \<times> u32 list \<times> 's fs32) option" where
  "fat32_new_cluster_chain ops d f out count = do {
     (done, i, out, f) \<leftarrow> new_cluster_chain_loop32 ops d f out (nat (count - 1)) 0;
     if \<not> done then Some (- ENODISKSPACE, out, f)
     else do { out \<leftarrow> wr out (i + 1) 0x0FFFFFFF; Some (int i, out, f) }
   }"

partial_function (option) get_cluster_chain_loop32 ::
  "'s port_ops \<Rightarrow> disk \<Rightarrow> 's fs32 \<Rightarrow> u32 list \<Rightarrow> u32 \<Rightarrow> nat \<Rightarrow> (int \<times> u32 list \<times> 's fs32) option" where
  "get_cluster_chain_loop32 ops d f out cur i = do {
     out \<leftarrow> wr out i cur;
     (code, f) \<leftarrow> fat32_get_fat_entry ops d f cur;
     if code < 0x0FFFFFF8 then get_cluster_chain_loop32 ops d f out code (Suc i) else Some (int (Suc i), out, f)
   }"

definition fat32_get_cluster_chain ::
  "'s port_ops \<Rightarrow> disk \<Rightarrow> 's fs32 \<Rightarrow> u32 list \<Rightarrow> u32 \<Rightarrow> (int \<times> u32 list \<times> 's fs32) option" where
  "fat32_get_cluster_chain ops d f out first_cluster = get_cluster_chain_loop32 ops d f out first_cluster 0"

partial_function (option) count_clusters_loop32 :: "'s port_ops \<Rightarrow> disk \<Rightarrow> 's fs32 \<Rightarrow> u32 \<Rightarrow> int \<Rightarrow> (int \<times> 's fs32) option" where
  "count_clusters_loop32 ops d f cur i = do {
     (code, f) \<leftarrow> fat32_get_fat_entry ops d f cur;
     if code < 0x0FFFFFF8 then count_clusters_loop32 ops d f code (i + 1) else Some (i, f)
   }"

definition fat32_count_clusters_in_chain :: "'s port_ops \<Rightarrow> disk \<Rightarrow> 's fs32 \<Rightarrow> u16 \<Rightarrow> (int \<times> 's fs32) option" where
  \<comment> \<open>the parameter has 16 bits\<close>
  "fat32_count_clusters_in_chain ops d f first_cluster = count_clusters_loop32 ops d f (ucast first_cluster) 1"

definition fat32_add_cluster_to_chain :: "'s port_ops \<Rightarrow> disk \<Rightarrow> 's fs32 \<Rightarrow> u32 \<Rightarrow> (int \<times> 's fs32) option" where
  "fat32_add_cluster_to_chain ops d f first_cluster = do {
     (cluster, f) \<leftarrow> fat32_find_last_cluster_of_chain ops d f first_cluster;
     (next_free_cluster, f) \<leftarrow> fat32_get_first_free_cluster ops d f;
     if next_free_cluster = 0 then Some (- ENODISKSPACE, f)
     else do {
       (res, f) \<leftarrow> fat32_write_fat_entry ops d f cluster next_free_cluster;
       if res \<noteq> 2 then Some (- EIO, f)
       else do {
         (res, f) \<leftarrow> fat32_write_fat_entry ops d f next_free_cluster 0x0FFFFFFF;
         if res \<noteq> 2 then Some (- EIO, f) else Some (0, f)
       }
     }
   }"

fun add_clusters32 :: "'s port_ops \<Rightarrow> disk \<Rightarrow> nat \<Rightarrow> u32 \<Rightarrow> 's fs32 \<Rightarrow> 's fs32 option" where
  "add_clusters32 ops d 0 first f = Some f"
| "add_clusters32 ops d (Suc n) first f = do {
     (_, f) \<leftarrow> fat32_add_cluster_to_chain ops d f first;
     add_clusters32 ops d n first f
   }"

definition fat32_generate_cluster_chain :: "'s port_ops \<Rightarrow> disk \<Rightarrow> 's fs32 \<Rightarrow> int \<Rightarrow> (u32 \<times> 's fs32) option" where
  "fat32_generate_cluster_chain ops d f count =
     (if count \<le> 0 then Some (word_of_int (- EINVARG), f)
      else do {
        (first, f) \<leftarrow> fat32_get_first_free_cluster ops d f;
        if first = 0 then Some (0, f)
        else do {
          (res, f) \<leftarrow> fat32_write_fat_entry ops d f first 0x0FFFFFF;
          if res \<noteq> 4 then Some (word_of_int (- EIO), f)
          else do { f \<leftarrow> add_clusters32 ops d (nat (count - 1)) first f; Some (first, f) }
        }
      })"

partial_function (option) erase_chain_loop32 :: "'s port_ops \<Rightarrow> disk \<Rightarrow> 's fs32 \<Rightarrow> u32 \<Rightarrow> 's fs32 option" where
  "erase_chain_loop32 ops d f cur = do {
     (code, f) \<leftarrow> fat32_get_fat_entry ops d f cur;
     (_, f) \<leftarrow> fat32_write_fat_entry ops d f cur 0;
     if code = 0x0FFFFFF then Some f else erase_chain_loop32 ops d f code
   }"

definition fat32_erase_cluster_chain :: "'s port_ops \<Rightarrow> disk \<Rightarrow> 's fs32 \<Rightarrow> u32 \<Rightarrow> (int \<times> 's fs32) option" where
  "fat32_erase_cluster_chain ops d f first =
     (if first \<le> 2 then Some (- EINVARG, f)
      else do { f \<leftarrow> erase_chain_loop32 ops d f first; Some (0, f) })"

section \<open>Deleting and writing\<close>

definition fat32_delete ::
  "'s port_ops \<Rightarrow> disk \<Rightarrow> 's fs32 \<Rightarrow> fat_file_descriptor \<Rightarrow> (int \<times> fat_file_descriptor \<times> 's fs32) option" where
  "fat32_delete ops d f desc =
     (if fdesc_mode desc AND FILE_MODE_WRITE = 0 then Some (- EINVARG, desc, f)
      else case fdesc_item desc of
        DirItem a p \<Rightarrow> None
      | FileItem a ia item \<Rightarrow>
          if di_attribute item AND FAT_FILE_READ_ONLY \<noteq> 0 then Some (- EINVARG, desc, f)
          else do {
            let item = item\<lparr>di_filename := (di_filename item)[0 := 0xE5]\<rparr>;
            let desc = desc\<lparr>fdesc_item := FileItem a ia item\<rparr>;
            (res, f) \<leftarrow> fat32_write_directory_entry ops d f (fdesc_path desc) item;
            if res < 0 then Some (- EIO, desc, f)
            else do {
              (res, f) \<leftarrow> fat32_erase_cluster_chain ops d f (fat32_get_first_cluster item);
              k \<leftarrow> fat32_free_file_descriptor (g_k f) desc;
              Some (res, desc, f\<lparr>g_k := k\<rparr>)
            }
          })"

fun grow_chain32 :: "'s port_ops \<Rightarrow> disk \<Rightarrow> nat \<Rightarrow> u32 \<Rightarrow> 's fs32 \<Rightarrow> (int \<times> 's fs32) option" where
  \<comment> \<open>the loop that adds clusters: \<open>count_of_needed_clusters\<close>\<close>
  "grow_chain32 ops d 0 first f = Some (0, f)"
| "grow_chain32 ops d (Suc n) first f = do {
     (res, f) \<leftarrow> fat32_add_cluster_to_chain ops d f first;
     if res < 0 then Some (res, f) else grow_chain32 ops d n first f
   }"

definition fat32_sector_to_absolute :: "disk \<Rightarrow> u32 \<Rightarrow> u32" where
  "fat32_sector_to_absolute d sector = sector * word_of_int (dk_sector_size d)"

partial_function (option) write_clusters32 ::
  "'s port_ops \<Rightarrow> disk \<Rightarrow> 's fs32 \<Rightarrow> u32 \<Rightarrow> u8 list \<Rightarrow> int \<Rightarrow> int \<Rightarrow> (int \<times> 's fs32) option" where
  \<comment> \<open>the loop over the clusters behind the first: \<open>target_cluster\<close>, \<open>buf\<close>, \<open>size\<close> and \<open>res\<close>\<close>
  "write_clusters32 ops d f target_cluster buf n res =
     (if n \<le> 0 then Some (res, f)
      else do {
        (target_cluster, f) \<leftarrow> fat32_get_fat_entry ops d f target_cluster;
        if target_cluster \<ge> 0x0FFFFFF8 then Some (res, f)
        else do {
          let cs = cluster_size32 d (g_private f);
          let total_to_write = (if n \<le> cs then n else cs);
          (res, f) \<leftarrow> fat32_cluster_write ops f
             (sint (fat32_sector_to_absolute d (fat32_cluster_to_sector (g_private f) target_cluster))) buf total_to_write;
          if res < 0 then Some (res, f)
          else write_clusters32 ops d f target_cluster (drop (nat total_to_write) buf) (n - total_to_write) res
        }
      })"

definition fat32_write ::
  "'s port_ops \<Rightarrow> disk \<Rightarrow> 's fs32 \<Rightarrow> fat_file_descriptor \<Rightarrow> u8 list \<Rightarrow> int \<Rightarrow> (int \<times> fat_file_descriptor \<times> 's fs32) option" where
  \<comment> \<open>for a descriptor, a buffer and a disk that are not null\<close>
  "fat32_write ops d f desc buf n =
     (if n = 0 then Some (- EINVARG, desc, f)
      else case fdesc_item desc of
        DirItem a p \<Rightarrow> Some (- EINVARG, desc, f)
      | FileItem a ia item \<Rightarrow>
          if fdesc_mode desc AND FILE_MODE_WRITE = 0 then Some (- ERDONLY, desc, f)
          else do {
            let old_filesize = di_filesize item;
            let new_filesize = old_filesize + word_of_int n;
            old_cluster_count \<leftarrow> fat32_filesize_to_cluster_count d (g_private f) old_filesize;
            (first_cluster_to_write, f) \<leftarrow> fat32_find_last_cluster_of_chain ops d f (fat32_get_first_cluster item);
            new_cluster_count \<leftarrow> fat32_filesize_to_cluster_count d (g_private f) new_filesize;
            let cs = cluster_size32 d (g_private f);
            (res, f) \<leftarrow>
              (if new_filesize > old_cluster_count * word_of_int cs
               then grow_chain32 ops d (unat (new_cluster_count - old_cluster_count)) (fat32_get_first_cluster item) f
               else Some (0, f));
            if res < 0 then Some (res, desc, f)
            else do {
              let item = item\<lparr>di_filesize := new_filesize\<rparr>;
              let desc = desc\<lparr>fdesc_item := FileItem a ia item\<rparr>;
              (res, f) \<leftarrow> fat32_write_directory_entry ops d f (fdesc_path desc) item;
              if res \<le> 0 then Some (res, desc, f)
              else do {
                let free_space_of_first_cluster = fdesc_pos desc mod word_of_int cs;
                let offset = fat32_sector_to_absolute d (fat32_cluster_to_sector (g_private f) first_cluster_to_write)
                             + free_space_of_first_cluster;
                (res, f) \<leftarrow> fat32_cluster_write ops f (sint offset) buf (sint free_space_of_first_cluster);
                if res < 0 then Some (res, desc, f)
                else do {
                  (res, f) \<leftarrow> write_clusters32 ops d f first_cluster_to_write (drop (unat free_space_of_first_cluster) buf)
                                (s32 (n - uint free_space_of_first_cluster)) res;
                  Some (res, desc, f)
                }
              }
            }
          })"

end
