(* ===== verification/Fat32_Props.thy ===== *)
theory Fat32_Props
  imports Fat32
begin

text \<open>
  The FAT32 allocation table and its root directory: what the table operations of \<^verbatim>\<open>fat32.c\<close> do on a device that keeps its promises, in
  the terms of \<open>Fat_Table\<close>.
\<close>

section \<open>What is on the disk\<close>

definition mounted32 :: "('s \<Rightarrow> bool) \<Rightarrow> disk \<Rightarrow> 's fs32 \<Rightarrow> bool" where
  "mounted32 good d f \<longleftrightarrow> good (g_dev f) \<and> usable d \<and> dk_sector_size d = 512 \<and>
     map_option ds_disk (f3_fat_stream (g_private f)) = Some d \<and>
     map_option ds_disk (f3_cluster_stream (g_private f)) = Some d \<and>
     map_option ds_disk (f3_directory_stream (g_private f)) = Some d \<and>
     0 < unat (h3_sectors_per_cluster (f3_header (g_private f))) \<and> length (f3_fsinfo (g_private f)) = 512"

definition fat_pos32 :: "'s fs32 \<Rightarrow> nat \<Rightarrow> nat" where
  "fat_pos32 f c = unat (h3_reserved_sectors (f3_header (g_private f))) * 512 + c * 4"

definition fat_at32 :: "'s image \<Rightarrow> disk \<Rightarrow> 's fs32 \<Rightarrow> table" where
  "fat_at32 img d f c = unat (le32 (map (disk_byte img (g_dev f) d) [fat_pos32 f c ..< fat_pos32 f c + 4]) 0)"

definition last_cluster32 :: "'s fs32 \<Rightarrow> nat" where
  "last_cluster32 f = unat (h3_sectors_big (f3_header (g_private f))) div unat (h3_sectors_per_cluster (f3_header (g_private f)))"

definition search_start :: "'s fs32 \<Rightarrow> nat" where
  \<comment> \<open>where the search for a free cluster begins\<close>
  "search_start f = (let c = fsinfo_next_free_cluster (f3_fsinfo (g_private f)) in if c = 0xFFFFFFFF then 3 else unat c)"

definition roomy32 :: "disk \<Rightarrow> 's fs32 \<Rightarrow> bool" where
  \<comment> \<open>the table lies in the reach of the driver behind the information sector\<close>
  "roomy32 d f \<longleftrightarrow> last_cluster32 f < 0x0FFFFFF8 \<and> fat_pos32 f (Suc (last_cluster32 f)) < 2 ^ 31 \<and>
     addressable d (fat_pos32 f (Suc (last_cluster32 f))) \<and>
     unat (h3_fs_info_location (f3_header (g_private f))) < unat (h3_reserved_sectors (f3_header (g_private f)))"

definition same_volume32 :: "'s fs32 \<Rightarrow> 's fs32 \<Rightarrow> bool" where
  "same_volume32 f f' \<longleftrightarrow> g_k f' = g_k f \<and> f3_header (g_private f') = f3_header (g_private f) \<and>
     f3_root_directory (g_private f') = f3_root_directory (g_private f) \<and> f3_addr (g_private f') = f3_addr (g_private f)"

definition table_now32 :: "'s image \<Rightarrow> disk \<Rightarrow> 's fs32 \<Rightarrow> 's fs32 \<Rightarrow> table \<Rightarrow> bool" where
  "table_now32 img d f f' fat \<longleftrightarrow> same_volume32 f f' \<and> fat_at32 img d f' = fat"

lemma same_volume32_views:
  assumes "same_volume32 f g"
  shows "fat_pos32 g = fat_pos32 f" "last_cluster32 g = last_cluster32 f" "roomy32 d g = roomy32 d f"
    "f3_header (g_private g) = f3_header (g_private f)"
  using assms by (simp_all add: same_volume32_def fat_pos32_def fun_eq_iff last_cluster32_def roomy32_def)

lemma table_now32_volume: "table_now32 img d f g fat \<Longrightarrow> same_volume32 f g" and
  table_now32_fat: "table_now32 img d f g fat \<Longrightarrow> fat_at32 img d g = fat"
  by (simp_all add: table_now32_def)

lemma table_now32_trans: "table_now32 img d f g fat \<Longrightarrow> table_now32 img d g h fat' \<Longrightarrow> table_now32 img d f h fat'"
  by (auto simp: table_now32_def same_volume32_def)

lemma fat_at32_cong:
  assumes "same_volume32 f g" and "\<forall>q. fat_pos32 f 0 \<le> q \<longrightarrow> disk_byte img (g_dev g) d q = disk_byte img (g_dev f) d q"
  shows "table_now32 img d f g (fat_at32 img d f)"
proof -
  have "fat_pos32 f 0 \<le> q" if "q \<in> set [fat_pos32 f c ..< fat_pos32 f c + 4]" for q c using that by (simp add: fat_pos32_def)
  then have "map (disk_byte img (g_dev g) d) [fat_pos32 f c ..< fat_pos32 f c + 4] =
      map (disk_byte img (g_dev f) d) [fat_pos32 f c ..< fat_pos32 f c + 4]" for c using assms(2) by (intro map_cong) auto
  then have "fat_at32 img d g c = fat_at32 img d f c" for c by (simp only: fat_at32_def same_volume32_views [OF assms(1)])
  then show ?thesis using assms(1) by (auto simp: table_now32_def)
qed

lemma fat_at32_write:
  assumes "same_volume32 f g" and "\<forall>q. disk_byte img (g_dev g) d q =
      (if fat_pos32 f c \<le> q \<and> q < fat_pos32 f c + 4 then bytes32 v ! (q - fat_pos32 f c) else disk_byte img (g_dev f) d q)"
  shows "table_now32 img d f g ((fat_at32 img d f)(c := unat v))"
proof -
  have ps: "fat_pos32 f x = fat_pos32 f 0 + 4 * x" for x by (simp add: fat_pos32_def)
  have "fat_at32 img d g x = ((fat_at32 img d f)(c := unat v)) x" for x
  proof (cases "x = c")
    case True
    have "map (disk_byte img (g_dev g) d) [fat_pos32 f c ..< fat_pos32 f c + 4] = bytes32 v"
      by (rule nth_equalityI) (simp_all add: assms(2))
    then show ?thesis using True le32_bytes32 [of v "[]"] by (simp add: fat_at32_def same_volume32_views [OF assms(1)])
  next
    case False
    have "\<not> (fat_pos32 f c \<le> q \<and> q < fat_pos32 f c + 4)" if "q \<in> set [fat_pos32 f x ..< fat_pos32 f x + 4]" for q
      using that False unfolding ps [of x] ps [of c] set_upt atLeastLessThan_iff by presburger
    then have "map (disk_byte img (g_dev g) d) [fat_pos32 f x ..< fat_pos32 f x + 4] =
        map (disk_byte img (g_dev f) d) [fat_pos32 f x ..< fat_pos32 f x + 4]" using assms(2) by (intro map_cong) (auto split: if_splits)
    then show ?thesis using False by (simp only: fat_at32_def same_volume32_views [OF assms(1)] fun_upd_other not_False_eq_True)
  qed
  then show ?thesis using assms(1) by (auto simp: table_now32_def)
qed

lemma unat_cluster32: "c < 2 ^ 32 \<Longrightarrow> unat (of_nat c :: u32) = c"
  by (rule unat_of_nat_small)

section \<open>Table operations on a device\<close>

context pata_device
begin

lemma fat32_entry_pos:
  assumes "mounted32 good d f" and "roomy32 d f" and "c \<le> last_cluster32 f"
  shows "s32 (uint (h3_reserved_sectors (f3_header (g_private f))) * dk_sector_size d + uint (of_nat c :: u32) * 4) = int (fat_pos32 f c)"
    "addressable d (fat_pos32 f c + 4)"
proof -
  have c: "c < 2 ^ 32" "fat_pos32 f c + 4 \<le> fat_pos32 f (Suc (last_cluster32 f))"
    using assms(2,3) by (simp_all add: roomy32_def fat_pos32_def)
  have "uint (of_nat c :: u32) = int c" using unat_cluster32 [OF c(1)] by (simp add: uint_nat)
  then have "uint (h3_reserved_sectors (f3_header (g_private f))) * dk_sector_size d + uint (of_nat c :: u32) * 4 = int (fat_pos32 f c)"
    using assms(1) by (simp add: mounted32_def fat_pos32_def)
  moreover have "fat_pos32 f c < 2 ^ 31" using c(2) assms(2) by (simp add: roomy32_def)
  ultimately show "s32 (uint (h3_reserved_sectors (f3_header (g_private f))) * dk_sector_size d + uint (of_nat c :: u32) * 4) = int (fat_pos32 f c)"
    by (simp add: s32_int)
  show "addressable d (fat_pos32 f c + 4)" using addressable_mono [OF _ c(2)] assms(2) by (simp add: roomy32_def)
qed

lemma get_entry32:
  assumes "mounted32 good d f" and "roomy32 d f" and "c \<le> last_cluster32 f"
  obtains f' where "fat32_get_fat_entry ops d f (of_nat c) = Some (of_nat (fat_at32 img d f c), f')" "mounted32 good d f'"
    "table_now32 img d f f' (fat_at32 img d f)" "g_private f' = (g_private f)\<lparr>f3_fat_stream := f3_fat_stream (g_private f')\<rparr>"
proof -
  obtain st where st: "f3_fat_stream (g_private f) = Some st" "ds_disk st = d" using assms(1) by (auto simp: mounted32_def)
  let ?p = "fat_pos32 f c" and ?st = "st\<lparr>ds_pos := int (fat_pos32 f c)\<rparr>"
  note pos = fat32_entry_pos [OF assms]
  have "good (g_dev f)" "usable (ds_disk ?st)" "ds_pos ?st = int ?p" "addressable (ds_disk ?st) (?p + 4)"
    using assms(1) st pos(2) by (simp_all add: mounted32_def)
  from diskstreamer_read_ok [OF this] obtain s' where s': "diskstreamer_read ops (g_dev f) ?st 4 =
      Some (0, map (disk_byte img (g_dev f) d) [?p ..< ?p + 4], ?st\<lparr>ds_pos := int (?p + 4)\<rparr>, s')" "good s'" "img s' = img (g_dev f)"
    using st(2) by auto
  let ?f' = "f\<lparr>g_dev := s', g_private := (g_private f)\<lparr>f3_fat_stream := Some (?st\<lparr>ds_pos := int (?p + 4)\<rparr>)\<rparr>\<rparr>"
  have "fat32_get_fat_entry ops d f (of_nat c) = Some (of_nat (fat_at32 img d f c), ?f')"
    using s'(1) st(1) pos(1)
    by (simp add: fat32_get_fat_entry_def fat32_fat_read_def diskstreamer_seek_ok [OF pos(2)] SERPAEOS_ALL_OK_def fat_at32_def)
  moreover have "mounted32 good d ?f'" using assms(1) s'(2) st by (simp add: mounted32_def)
  moreover have "same_volume32 f ?f'" by (simp add: same_volume32_def)
  then have "table_now32 img d f ?f' (fat_at32 img d f)"
    by (rule fat_at32_cong) (use same_image_bytes [OF s'(3), of d] in simp)
  ultimately show ?thesis using that by simp
qed

lemma put_entry32:
  assumes "mounted32 good d f" and "roomy32 d f" and "c \<le> last_cluster32 f"
  obtains f' where "fat32_write_fat_entry ops d f (of_nat c) v = Some (4, f')" "mounted32 good d f'"
    "table_now32 img d f f' ((fat_at32 img d f)(c := unat v))"
proof -
  obtain st where st: "f3_fat_stream (g_private f) = Some st" "ds_disk st = d" using assms(1) by (auto simp: mounted32_def)
  note pos = fat32_entry_pos [OF assms]
  have "good (g_dev f)" "usable d" "addressable d (fat_pos32 f c + length (bytes32 v))" using assms(1) pos(2) by (simp_all add: mounted32_def)
  from stream_write_ok [OF this(1,2) st(2) this(3)] obtain s' where s':
    "diskstreamer_write ops (g_dev f) (snd (diskstreamer_seek st (int (fat_pos32 f c)))) (bytes32 v) 4 =
      Some (4, st\<lparr>ds_pos := int (fat_pos32 f c + 4)\<rparr>, s')" "good s'"
    "\<forall>q. disk_byte img s' d q = (if fat_pos32 f c \<le> q \<and> q < fat_pos32 f c + 4 then bytes32 v ! (q - fat_pos32 f c) else disk_byte img (g_dev f) d q)"
    by auto
  let ?f' = "f\<lparr>g_dev := s', g_private := (g_private f)\<lparr>f3_fat_stream := Some (st\<lparr>ds_pos := int (fat_pos32 f c + 4)\<rparr>)\<rparr>\<rparr>"
  have "fat32_write_fat_entry ops d f (of_nat c) v = Some (4, ?f')"
    using s'(1) st(1) pos(1) by (simp add: fat32_write_fat_entry_def fat32_fat_write_def)
  moreover have "mounted32 good d ?f'" using assms(1) s'(2) st by (simp add: mounted32_def)
  moreover have "same_volume32 f ?f'" by (simp add: same_volume32_def)
  then have "table_now32 img d f ?f' ((fat_at32 img d f)(c := unat v))" by (rule fat_at32_write) (use s'(3) in simp)
  ultimately show ?thesis using that by blast
qed

lemma end_of_chain32: "(0x0FFFFFF8 :: u32) \<le> of_nat (fat_at32 img d f c) \<longleftrightarrow> 0x0FFFFFF8 \<le> fat_at32 img d f c"
  using unat_cluster32 [of "fat_at32 img d f c"] unat_u32_lt by (simp add: word_le_nat_alt fat_at32_def)

lemma find_last32_ok:
  assumes "mounted32 good d f" and "roomy32 d f" and "chain 0x0FFFFFF8 (fat_at32 img d f) (c # cs)"
    and "\<forall>x \<in> set (c # cs). x \<le> last_cluster32 f"
  shows "\<exists>f'. fat32_find_last_cluster_of_chain ops d f (of_nat c) = Some (of_nat (last (c # cs)), f') \<and>
     mounted32 good d f' \<and> table_now32 img d f f' (fat_at32 img d f) \<and> f3_fsinfo (g_private f') = f3_fsinfo (g_private f)"
  using assms
proof (induction cs arbitrary: c f)
  case Nil
  then have c: "c \<le> last_cluster32 f" "0x0FFFFFF8 \<le> fat_at32 img d f c" by simp_all
  obtain f1 where f1: "fat32_get_fat_entry ops d f (of_nat c) = Some (of_nat (fat_at32 img d f c), f1)" "mounted32 good d f1"
    "table_now32 img d f f1 (fat_at32 img d f)" "g_private f1 = (g_private f)\<lparr>f3_fat_stream := f3_fat_stream (g_private f1)\<rparr>"
    using get_entry32 [OF Nil(1,2) c(1)] .
  have "f3_fsinfo (g_private f1) = f3_fsinfo (g_private f)" by (subst f1(4)) simp
  with f1(1-3) c(2) end_of_chain32 [of d f c] show ?case by (subst fat32_find_last_cluster_of_chain.simps) simp
next
  case (Cons x xs)
  then have c: "c \<le> last_cluster32 f" and x: "fat_at32 img d f c = x" "chain 0x0FFFFFF8 (fat_at32 img d f) (x # xs)" by simp_all
  obtain f1 where f1: "fat32_get_fat_entry ops d f (of_nat c) = Some (of_nat (fat_at32 img d f c), f1)" "mounted32 good d f1"
    "table_now32 img d f f1 (fat_at32 img d f)" "g_private f1 = (g_private f)\<lparr>f3_fat_stream := f3_fat_stream (g_private f1)\<rparr>"
    using get_entry32 [OF Cons(2,3) c] .
  note v = same_volume32_views [OF table_now32_volume [OF f1(3)]] and t = table_now32_fat [OF f1(3)]
  have i: "f3_fsinfo (g_private f1) = f3_fsinfo (g_private f)" by (subst f1(4)) simp
  have "roomy32 d f1" "chain 0x0FFFFFF8 (fat_at32 img d f1) (x # xs)" "\<forall>y \<in> set (x # xs). y \<le> last_cluster32 f1"
    using Cons(3,5) v x(2) t by simp_all
  from Cons.IH [OF f1(2) this] obtain f2 where f2: "fat32_find_last_cluster_of_chain ops d f1 (of_nat x) = Some (of_nat (last (x # xs)), f2)"
    "mounted32 good d f2" "table_now32 img d f1 f2 (fat_at32 img d f)" "f3_fsinfo (g_private f2) = f3_fsinfo (g_private f)"
    unfolding t i by blast
  have "\<not> 0x0FFFFFF8 \<le> fat_at32 img d f c" using chain_hd [OF x(2)] x(1) by simp
  then have "fat32_find_last_cluster_of_chain ops d f (of_nat c) = Some (of_nat (last (c # x # xs)), f2)"
    using f1(1) f2(1) x(1) end_of_chain32 [of d f c] by (subst fat32_find_last_cluster_of_chain.simps) simp
  then show ?case using f2(2,4) table_now32_trans [OF f1(3) f2(3)] by blast
qed

lemma free_cluster_loop32_ok:
  assumes "mounted32 good d f" and "roomy32 d f" and "c \<le> last_cluster32 f" and "first_free c (last_cluster32 f) (fat_at32 img d f) = Some n"
  shows "\<exists>f'. free_cluster_loop32 ops d f (of_nat c) = Some (Some (of_nat n), f') \<and> mounted32 good d f' \<and>
     table_now32 img d f f' (fat_at32 img d f)"
  using assms
proof (induction "last_cluster32 f - c" arbitrary: c f rule: less_induct)
  case less
  let ?h = "f3_header (g_private f)"
  obtain f1 where f1: "fat32_get_fat_entry ops d f (of_nat c) = Some (of_nat (fat_at32 img d f c), f1)" "mounted32 good d f1"
    "table_now32 img d f f1 (fat_at32 img d f)" using get_entry32 [OF less.prems(1-3)] by metis
  note v = same_volume32_views [OF table_now32_volume [OF f1(3)]] and t = table_now32_fat [OF f1(3)]
  have z: "(of_nat (fat_at32 img d f c) :: u32) = 0 \<longleftrightarrow> fat_at32 img d f c = 0" by (simp add: fat_at32_def unat_eq_zero)
  note rec = first_free_rec [of c "last_cluster32 f" "fat_at32 img d f"]
  show ?case
  proof (cases "fat_at32 img d f c = 0")
    case True
    then show ?thesis using f1 less.prems(4) rec by (subst free_cluster_loop32.simps) auto
  next
    case False
    then have c: "c < last_cluster32 f" "first_free (Suc c) (last_cluster32 f) (fat_at32 img d f) = Some n"
      using less.prems(4) rec by (auto split: if_splits)
    then have "last_cluster32 f - Suc c < last_cluster32 f - c" by simp
    with less.hyps [of f1 "Suc c"] f1(2) less.prems(2) v t c obtain f2 where f2:
      "free_cluster_loop32 ops d f1 (of_nat (Suc c)) = Some (Some (of_nat n), f2)" "mounted32 good d f2"
      "table_now32 img d f1 f2 (fat_at32 img d f)" by auto
    have nz: "h3_sectors_per_cluster ?h \<noteq> 0" using less.prems(1) by (auto simp: mounted32_def)
    have "unat (h3_sectors_big ?h div ucast (h3_sectors_per_cluster ?h)) = last_cluster32 f"
      using unat_u8_lt [of "h3_sectors_per_cluster ?h"] by (simp add: last_cluster32_def unat_div unsigned_ucast_eq take_bit_nat_eq_self)
    moreover have "unat (of_nat c :: u32) = c" using c(1) unat_u32_lt [of "h3_sectors_big ?h"] less.prems(2)
      by (intro unat_cluster32) (simp add: roomy32_def)
    ultimately have "\<not> h3_sectors_big ?h div ucast (h3_sectors_per_cluster ?h) \<le> of_nat c" using c(1) by (simp add: word_le_nat_alt)
    then have "free_cluster_loop32 ops d f (of_nat c) = Some (Some (of_nat n), f2)"
      using f1(1) f2(1) nz z False v(4) by (subst free_cluster_loop32.simps) (simp add: add.commute)
    then show ?thesis using f2(2) table_now32_trans [OF f1(3) f2(3)] by blast
  qed
qed

lemma update_fsinfo_ok:
  assumes "mounted32 good d f" and "roomy32 d f"
  shows "\<exists>f'. fat32_update_fsinfo ops d f = Some f' \<and> mounted32 good d f' \<and> table_now32 img d f f' (fat_at32 img d f)"
proof -
  let ?h = "f3_header (g_private f)"
  let ?w = "ucast (h3_fs_info_location ?h) :: u32"
  have lt: "unat (h3_fs_info_location ?h) < unat (h3_reserved_sectors ?h)" using assms(2) by (simp add: roomy32_def)
  have u: "unat ?w = unat (h3_fs_info_location ?h)"
    using unat_u16_lt [of "h3_fs_info_location ?h"] by (simp add: unsigned_ucast_eq take_bit_nat_eq_self)
  have "fat_pos32 f 0 \<le> fat_pos32 f (Suc (last_cluster32 f))" by (simp add: fat_pos32_def)
  then have "addressable d (fat_pos32 f 0)" using addressable_mono assms(2) by (auto simp: roomy32_def)
  then have "unat ?w + 1 + unat (dk_offset d) \<le> 2 ^ 28" using lt u by (simp add: addressable_def fat_pos32_def)
  then obtain s' where s': "disk_write_block ops (g_dev f) d ?w 1 (f3_fsinfo (g_private f)) = Some (0, s')" "good s'"
    "\<And>l. sect img s' d l = (if l = unat ?w then f3_fsinfo (g_private f) else sect img (g_dev f) d l)"
    using disk_write_block_sector [of "g_dev f" d ?w] assms(1) unfolding mounted32_def by blast
  let ?f' = "f\<lparr>g_dev := s'\<rparr>"
  have "disk_byte img s' d q = disk_byte img (g_dev f) d q" if "fat_pos32 f 0 \<le> q" for q
  proof -
    have "unat (h3_reserved_sectors ?h) \<le> q div 512" using that by (simp add: fat_pos32_def less_eq_div_iff_mult_less_eq)
    then show ?thesis using s'(3) lt u by (simp add: disk_byte_def)
  qed
  moreover have "same_volume32 f ?f'" by (simp add: same_volume32_def)
  ultimately have "table_now32 img d f ?f' (fat_at32 img d f)" by (intro fat_at32_cong) simp_all
  moreover have "fat32_update_fsinfo ops d f = Some ?f'" using s'(1) by (simp add: fat32_update_fsinfo_def)
  moreover have "mounted32 good d ?f'" using assms(1) s'(2) by (simp add: mounted32_def)
  ultimately show ?thesis by blast
qed

lemma first_free_cluster32_ok:
  assumes "mounted32 good d f" and "roomy32 d f" and "search_start f \<le> last_cluster32 f"
    and "first_free (search_start f) (last_cluster32 f) (fat_at32 img d f) = Some n"
  shows "\<exists>f'. fat32_get_first_free_cluster ops d f = Some (of_nat n, f') \<and> mounted32 good d f' \<and>
     table_now32 img d f f' (fat_at32 img d f)"
proof -
  let ?next = "fsinfo_next_free_cluster (f3_fsinfo (g_private f))"
  have start: "(if ?next = 0xFFFFFFFF then 3 else ?next) = of_nat (search_start f)" by (simp add: search_start_def Let_def)
  obtain f1 where f1: "free_cluster_loop32 ops d f (of_nat (search_start f)) = Some (Some (of_nat n), f1)" "mounted32 good d f1"
    "table_now32 img d f f1 (fat_at32 img d f)" using free_cluster_loop32_ok [OF assms] by blast
  let ?f2 = "f1\<lparr>g_private := (g_private f1)\<lparr>f3_fsinfo := set_next_free_cluster (f3_fsinfo (g_private f1)) (of_nat n)\<rparr>\<rparr>"
  have "length (set_next_free_cluster bs w) = 512" if "length bs = 512" for bs w using that by (simp add: set_next_free_cluster_def)
  then have m: "mounted32 good d ?f2" using f1(2) by (simp add: mounted32_def)
  have s: "same_volume32 f1 ?f2" by (simp add: same_volume32_def)
  then have t2: "table_now32 img d f1 ?f2 (fat_at32 img d f1)" by (rule fat_at32_cong) simp
  have r: "roomy32 d ?f2"
    using assms(2) same_volume32_views(3) [OF s, of d] same_volume32_views(3) [OF table_now32_volume [OF f1(3)], of d] by blast
  from update_fsinfo_ok [OF m r] obtain f3 where f3: "fat32_update_fsinfo ops d ?f2 = Some f3" "mounted32 good d f3"
    "table_now32 img d ?f2 f3 (fat_at32 img d ?f2)" by blast
  have "fat32_get_first_free_cluster ops d f = Some (of_nat n, f3)"
    using f1(1) f3(1) unfolding fat32_get_first_free_cluster_def Let_def start by simp
  moreover have "fat_at32 img d ?f2 = fat_at32 img d f"
    using table_now32_fat [OF t2] table_now32_fat [OF f1(3)] by (simp only:)
  then have "table_now32 img d f f3 (fat_at32 img d f)"
    using table_now32_trans [OF table_now32_trans [OF f1(3) t2] f3(3)] by (simp only:)
  ultimately show ?thesis using f3(2) by blast
qed

end

section \<open>Properties\<close>

text \<open>C22: growing a file on FAT32 fails and breaks its chain. \<open>fat32_add_cluster_to_chain\<close> compares the four bytes that an entry has with 2; with
  a free cluster at hand it always returns \<open>-EIO\<close>, after it has linked the last cluster of the file to that free cluster and before it has ended
  the chain there. The file now runs into a cluster that counts as free and is handed out again.\<close>
theorem fat32_add_cluster_breaks_chain:
  assumes "pata_device ops good img" and "mounted32 good d f" and "roomy32 d f"
    and "chain 0x0FFFFFF8 (fat_at32 img d f) xs" and "\<forall>x \<in> set xs. x \<le> last_cluster32 f"
    and "2 \<le> search_start f" and "search_start f \<le> last_cluster32 f"
    and "first_free (search_start f) (last_cluster32 f) (fat_at32 img d f) = Some n"
  shows "\<exists>f'. fat32_add_cluster_to_chain ops d f (of_nat (hd xs)) = Some (- EIO, f') \<and> mounted32 good d f' \<and>
     table_now32 img d f f' ((fat_at32 img d f)(last xs := n)) \<and> fat_at32 img d f' n = 0"
proof -
  obtain c cs where xs: "xs = c # cs" using assms(4) by (cases xs) auto
  let ?fat = "fat_at32 img d f" and ?l = "last (c # cs)"
  obtain f1 where f1: "fat32_find_last_cluster_of_chain ops d f (of_nat c) = Some (of_nat ?l, f1)" "mounted32 good d f1"
    "table_now32 img d f f1 ?fat" "f3_fsinfo (g_private f1) = f3_fsinfo (g_private f)"
    using pata_device.find_last32_ok [OF assms(1-3)] assms(4,5) unfolding xs by blast
  note v1 = same_volume32_views [OF table_now32_volume [OF f1(3)]] and t1 = table_now32_fat [OF f1(3)]
  have s1: "search_start f1 = search_start f" using f1(4) by (simp add: search_start_def)
  obtain f2 where f2: "fat32_get_first_free_cluster ops d f1 = Some (of_nat n, f2)" "mounted32 good d f2" "table_now32 img d f1 f2 ?fat"
    using pata_device.first_free_cluster32_ok [OF assms(1) f1(2)] assms(3,7,8) v1 t1 s1 by metis
  note t2 = table_now32_trans [OF f1(3) f2(3)]
  note v2 = same_volume32_views [OF table_now32_volume [OF t2]]
  have n: "search_start f \<le> n" "n \<le> last_cluster32 f" "?fat n = 0"
    using first_free_Some [OF assms(7,8)] by (simp_all add: free_clusters_def)
  have un: "unat (of_nat n :: u32) = n" using n(2) assms(3) by (intro unat_cluster32) (simp add: roomy32_def)
  have "?l \<le> last_cluster32 f2" "roomy32 d f2" using assms(3,5) xs v2 by auto
  then obtain f3 where f3: "fat32_write_fat_entry ops d f2 (of_nat ?l) (of_nat n) = Some (4, f3)" "mounted32 good d f3"
    "table_now32 img d f2 f3 (?fat(?l := n))"
    using pata_device.put_entry32 [OF assms(1) f2(2), of ?l "of_nat n"] un table_now32_fat [OF t2] by metis
  note t3 = table_now32_trans [OF t2 f3(3)]
  have "(of_nat n :: u32) \<noteq> 0" using un n(1) assms(6) by (metis unat_0 le_zero_eq numeral_2_eq_2 nat.distinct(1) order_trans)
  then have "fat32_add_cluster_to_chain ops d f (of_nat c) = Some (- EIO, f3)"
    using f1(1) f2(1) f3(1) by (simp add: fat32_add_cluster_to_chain_def)
  moreover have "n \<noteq> ?l" using chain_last [OF assms(4)] n(3) xs by auto
  then have "fat_at32 img d f3 n = 0" using table_now32_fat [OF t3] n(3) by (simp only: fun_upd_other not_False_eq_True)
  ultimately show ?thesis using f3(2) t3 unfolding xs by auto
qed

definition demo_fat32 :: "u8 list" where
  \<comment> \<open>a table in which the file at cluster 2 goes on at cluster 4, its last\<close>
  "demo_fat32 = replicate 8 0 @ [4, 0, 0, 0, 0, 0, 0, 0, 0xFF, 0xFF, 0xFF, 0x0F] @ replicate 492 0"

definition demo_drive32 :: ata where
  \<comment> \<open>sector 2 holds the table; every other sector is filled with its number\<close>
  "demo_drive32 = demo_ata\<lparr>at_img := (\<lambda>_ _ l. if l = 2 then demo_fat32 else replicate 512 (of_nat l))\<rparr>"

definition demo_fs32 :: "ata fs32" where
  "demo_fs32 = \<lparr>g_dev = demo_drive32, g_k = \<lparr>km_heap = demo_heap ([0x41, 0x41] @ replicate 50 0), km_mem = (\<lambda>_. 0)\<rparr>,
     g_private = \<lparr>f3_addr = 0x00900000,
       f3_header = zero_header32\<lparr>h3_sectors_per_cluster := 1, h3_reserved_sectors := 2, h3_fat_copies := 1, h3_sectors_big := 8,
         h3_sectors_per_fat := 1, h3_root_cluster := 2, h3_fs_info_location := 1\<rparr>,
       f3_root_directory = Dir \<lparr>fd_addr = 0x01000000, fd_item_addr = 0x01001000, fd_item = [demo_file], fd_total = 1,
         fd_sector_pos = 3, fd_ending_sector_pos = 0\<rparr>,
       f3_fsinfo = replicate 492 0 @ [0xFF, 0xFF, 0xFF, 0xFF] @ replicate 16 0,
       f3_cluster_stream = Some demo_stream, f3_fat_stream = Some demo_stream, f3_directory_stream = Some demo_stream\<rparr>\<rparr>"

lemma demo_fs32_mounted:
  "mounted32 ata_good demo_dsk demo_fs32" "roomy32 demo_dsk demo_fs32" "last_cluster32 demo_fs32 = 8" "search_start demo_fs32 = 3"
proof -
  have "ata_good demo_drive32" by (simp add: ata_good_def demo_drive32_def demo_fat32_def)
  moreover have "usable demo_dsk" by (simp add: usable_def demo_disk_def zero_disk_def)
  ultimately show "mounted32 ata_good demo_dsk demo_fs32"
    by (simp add: mounted32_def demo_fs32_def demo_stream_def zero_header32_def)
  show l: "last_cluster32 demo_fs32 = 8" by (simp add: last_cluster32_def demo_fs32_def zero_header32_def)
  show "roomy32 demo_dsk demo_fs32"
    unfolding roomy32_def l
    by (simp add: fat_pos32_def demo_fs32_def zero_header32_def addressable_def demo_disk_def zero_disk_def)
  have "fsinfo_next_free_cluster (f3_fsinfo (g_private demo_fs32)) = 0xFFFFFFFF"
    by (simp add: fsinfo_next_free_cluster_def demo_fs32_def le32_def le16_def nth_append)
  then show "search_start demo_fs32 = 3" by (simp add: search_start_def)
qed

lemma demo_fs32_table:
  "fat_at32 at_img demo_dsk demo_fs32 2 = 4" "fat_at32 at_img demo_dsk demo_fs32 3 = 0" "fat_at32 at_img demo_dsk demo_fs32 4 = 0x0FFFFFFF"
proof -
  have p: "fat_pos32 demo_fs32 c = 1024 + c * 4" for c by (simp add: fat_pos32_def demo_fs32_def zero_header32_def)
  have b: "disk_byte at_img (g_dev demo_fs32) demo_dsk q = (if q div 512 = 2 then demo_fat32 ! (q mod 512) else of_nat (q div 512))" for q
    by (simp add: disk_byte_def sect_def demo_fs32_def demo_drive32_def demo_disk_def zero_disk_def)
  show "fat_at32 at_img demo_dsk demo_fs32 2 = 4" "fat_at32 at_img demo_dsk demo_fs32 3 = 0" "fat_at32 at_img demo_dsk demo_fs32 4 = 0x0FFFFFFF"
    by (simp_all add: fat_at32_def p b upt_rec demo_fat32_def nth_append nth_Cons' le32_def le16_def)
qed

theorem fat32_add_cluster_breaks_chain_witness:
  "\<exists>f'. fat32_add_cluster_to_chain ata_ops demo_dsk demo_fs32 2 = Some (- EIO, f') \<and> fat_at32 at_img demo_dsk f' 4 = 3 \<and>
     fat_at32 at_img demo_dsk f' 3 = 0"
proof -
  have "chain 0x0FFFFFF8 (fat_at32 at_img demo_dsk demo_fs32) [2, 4]" using demo_fs32_table by simp
  moreover have "first_free 3 8 (fat_at32 at_img demo_dsk demo_fs32) = Some 3" using demo_fs32_table(2) by (subst first_free_rec) simp
  ultimately show ?thesis
    using fat32_add_cluster_breaks_chain [OF ata.pata_device_axioms demo_fs32_mounted(1,2), of "[2, 4]" 3]
    by (auto simp: demo_fs32_mounted(3,4) table_now32_def)
qed

section \<open>Opening a file of the root directory\<close>

definition root_owned32 :: "'s fs32 \<Rightarrow> fat_directory \<Rightarrow> bool" where
  \<comment> \<open>the root directory and its entries are two blocks of the heap\<close>
  "root_owned32 f r \<longleftrightarrow> f3_root_directory (g_private f) = Dir r \<and> kinv (g_k f) \<and> fd_addr r \<in> kpages (g_k f) \<and>
     fd_item_addr r \<in> kpages (g_k f) \<and> fd_item_addr r \<noteq> 0 \<and> fd_item_addr r \<noteq> fd_addr r"

lemma free_root_directory32:
  assumes "root_owned32 f r" and "a \<in> kpages (g_k f)" and "a \<noteq> fd_addr r" and "a \<noteq> fd_item_addr r"
  shows "\<exists>k. free_item32 f (DirItem a (Dir r)) = Some (f\<lparr>g_k := k, g_private := (g_private f)\<lparr>f3_root_directory := Dangling\<rparr>\<rparr>) \<and>
     kinv k \<and> kused k = kused (g_k f) - {a, fd_addr r, fd_item_addr r} \<and> kpages k = kpages (g_k f) - {a, fd_addr r, fd_item_addr r}"
proof -
  let ?k = "g_k f"
  have o: "kinv ?k" "fd_addr r \<in> kpages ?k" "fd_item_addr r \<in> kpages ?k" "fd_item_addr r \<noteq> 0" "fd_item_addr r \<noteq> fd_addr r"
    "f3_root_directory (g_private f) = Dir r" using assms(1) by (simp_all add: root_owned32_def)
  obtain k1 where k1: "kfree ?k (fd_item_addr r) = Some k1" "kinv k1" "kused k1 = kused ?k - {fd_item_addr r}"
    "kpages k1 = kpages ?k - {fd_item_addr r}" using kh.free_page [OF o(1,3)] by blast
  have p1: "fd_addr r \<in> kpages k1" using k1(4) o(2,5) by simp
  obtain k2 where k2: "kfree k1 (fd_addr r) = Some k2" "kinv k2" "kused k2 = kused k1 - {fd_addr r}" "kpages k2 = kpages k1 - {fd_addr r}"
    using kh.free_page [OF k1(2) p1] by blast
  have a2: "a \<in> kpages k2" using k2(4) k1(4) assms(2-4) by simp
  obtain k3 where k3: "kfree k2 a = Some k3" "kinv k3" "kused k3 = kused k2 - {a}" "kpages k3 = kpages k2 - {a}"
    using kh.free_page [OF k2(2) a2] by blast
  have "free_item32 f (DirItem a (Dir r)) = Some (f\<lparr>g_k := k3, g_private := (g_private f)\<lparr>f3_root_directory := Dangling\<rparr>\<rparr>)"
    using k1(1) k2(1) k3(1) o(4,6)
    by (simp add: free_item32_def fat32_fat_item_free_def fat16_fat_item_free_def fat16_free_directory_def same_directory_def Let_def)
  moreover have "kused k3 = kused ?k - {a, fd_addr r, fd_item_addr r}" "kpages k3 = kpages ?k - {a, fd_addr r, fd_item_addr r}"
    using k1(3,4) k2(3,4) k3(3,4) by auto
  ultimately show ?thesis using k3(2) by blast
qed

lemma alloc32:
  assumes "root_owned32 f r" and "0 < kroom (g_k f)" and "0 < unat sz" and "unat sz \<le> 4096"
  obtains a k where "kzalloc (g_k f) sz = Some (a, k)" "a \<noteq> 0" "a \<noteq> fd_addr r" "a \<noteq> fd_item_addr r" "root_owned32 (f\<lparr>g_k := k\<rparr>) r"
    "a \<in> kpages k" "Suc (kroom k) = kroom (g_k f)"
proof -
  have o: "kinv (g_k f)" "fd_addr r \<in> kused (g_k f)" "fd_item_addr r \<in> kused (g_k f)"
    using assms(1) kh.pages_used by (auto simp: root_owned32_def)
  from kh.alloc_page [OF o(1) assms(2-4)] obtain a k where z: "kzalloc (g_k f) sz = Some (a, k)" "a \<noteq> 0" "a \<notin> kused (g_k f)"
    "kinv k" "kpages k = insert a (kpages (g_k f))" "Suc (kroom k) = kroom (g_k f)" by blast
  moreover have "root_owned32 (f\<lparr>g_k := k\<rparr>) r" using assms(1) z by (simp add: root_owned32_def)
  moreover have "a \<noteq> fd_addr r" "a \<noteq> fd_item_addr r" using z(3) o(2,3) by auto
  ultimately show ?thesis using that by simp
qed

lemma open_root_item32:
  assumes "root_owned32 f r" and "2 \<le> kroom (g_k f)"
    and "find_file_index32 (fd_item r) (pp_part part @ [0]) (nat (fd_total r)) 0 = Some (Some i)"
    and "i < length (fd_item r)" and "item = fd_item r ! i" and "di_attribute item AND FAT_FILE_SUBDIRECTORY = 0"
  obtains ia ca k where "fat32_get_directory_entry ops d f [part] = Some (Some (FileItem ia ca item), f\<lparr>g_k := k\<rparr>)"
    "root_owned32 (f\<lparr>g_k := k\<rparr>) r" "kroom k + 2 = kroom (g_k f)"
proof -
  have sz: "0 < unat (8 :: u32)" "unat (8 :: u32) \<le> 4096" "0 < unat (32 :: u32)" "unat (32 :: u32) \<le> 4096" "0 < kroom (g_k f)"
    using assms(2) by simp_all
  obtain ia k1 where z1: "kzalloc (g_k f) 8 = Some (ia, k1)" "ia \<noteq> 0" "root_owned32 (f\<lparr>g_k := k1\<rparr>) r" "Suc (kroom k1) = kroom (g_k f)"
    by (rule alloc32 [OF assms(1) sz(5,1,2)]) (rule that)
  have r1: "0 < kroom (g_k (f\<lparr>g_k := k1\<rparr>))" using z1(4) assms(2) by simp
  obtain ca k2 where z2: "kzalloc (g_k (f\<lparr>g_k := k1\<rparr>)) 32 = Some (ca, k2)" "ca \<noteq> 0" "root_owned32 (f\<lparr>g_k := k1, g_k := k2\<rparr>) r"
    "Suc (kroom k2) = kroom (g_k (f\<lparr>g_k := k1\<rparr>))"
    by (rule alloc32 [OF z1(3) r1 sz(3,4)]) (rule that)
  have "f3_root_directory (g_private f) = Dir r" using assms(1) by (simp add: root_owned32_def)
  then have "fat32_get_directory_entry ops d f [part] = Some (Some (FileItem ia ca item), f\<lparr>g_k := k2\<rparr>)"
    using z1(1,2) z2(1,2) assms(3-6)
    by (simp add: fat32_get_directory_entry_def fat32_find_item_in_directory_def fat32_new_fat_item_for_directory_item_def
        fat32_clone_directory_item_def fat16_clone_directory_item_def)
  moreover have "root_owned32 (f\<lparr>g_k := k2\<rparr>) r" "kroom k2 + 2 = kroom (g_k f)" using z1(4) z2(3,4) by simp_all
  ultimately show ?thesis by (rule that)
qed

text \<open>C23: FAT32 opens one file of the root directory. The first \<open>fat32_open\<close> of such a file returns a descriptor and rewrites its entry on the
  disk, but frees the root directory, to which the file system still points; after that no lookup has an outcome, whatever the path.\<close>
theorem fat32_opens_once:
  assumes "pata_device ops good img" and "mounted32 good d f" and "root_owned32 f r" and "4 \<le> kroom (g_k f)"
    and "find_file_index32 (fd_item r) (pp_part part @ [0]) (nat (fd_total r)) 0 = Some (Some i)"
    and "entry_position_loop (fd_item r) (pp_part part @ [0]) (nat (fd_total r)) 0 = Some i"
    and "i < length (fd_item r)" and "int i < fd_total r" and "item = fd_item r ! i" and "item_shape item"
    and "di_attribute item AND FAT_FILE_SUBDIRECTORY = 0" and "di_attribute item AND FAT_FILE_READ_ONLY = 0"
    and "fd_sector_pos r * 512 + 32 * int i = int slot" and "slot < 2 ^ 31" and "addressable d (slot + 32)"
  shows "\<exists>ia ca desc f'. fat32_open ops d now f [part] mode = Some (Inr desc, f') \<and> mounted32 good d f' \<and>
     fdesc_item desc = FileItem ia ca (item\<lparr>di_last_access := fat_date now\<rparr>) \<and>
     map (disk_byte img (g_dev f') d) [slot ..< slot + 32] = bytes_of_item (item\<lparr>di_last_access := fat_date now\<rparr>) \<and>
     fd_addr r \<notin> kused (g_k f') \<and> (\<forall>path. fat32_get_directory_entry ops d f' path = None)"
proof -
  let ?new = "item\<lparr>di_last_access := fat_date now\<rparr>"
  have sz: "0 < unat (16 :: u32)" "unat (16 :: u32) \<le> 4096" "0 < unat (8 :: u32)" "unat (8 :: u32) \<le> 4096" "0 < kroom (g_k f)"
    using assms(4) by simp_all
  obtain a k1 where z: "kzalloc (g_k f) 16 = Some (a, k1)" "a \<noteq> 0" "root_owned32 (f\<lparr>g_k := k1\<rparr>) r" "Suc (kroom k1) = kroom (g_k f)"
    by (rule alloc32 [OF assms(3) sz(5,1,2)]) (rule that)
  have r1: "2 \<le> kroom (g_k (f\<lparr>g_k := k1\<rparr>))" using z(4) assms(4) by simp
  obtain ia ca k2 where l: "fat32_get_directory_entry ops d (f\<lparr>g_k := k1\<rparr>) [part] = Some (Some (FileItem ia ca item), f\<lparr>g_k := k1, g_k := k2\<rparr>)"
    "root_owned32 (f\<lparr>g_k := k1, g_k := k2\<rparr>) r" "kroom k2 + 2 = kroom (g_k (f\<lparr>g_k := k1\<rparr>))"
    by (rule open_root_item32 [OF z(3) r1 assms(5,7,9,11)])
  let ?f2 = "f\<lparr>g_k := k2\<rparr>"
  have o2: "root_owned32 ?f2 r" "0 < kroom (g_k ?f2)" using l(2,3) z(4) assms(4) by simp_all
  obtain b k3 where z3: "kzalloc (g_k ?f2) 8 = Some (b, k3)" "b \<noteq> 0" "b \<noteq> fd_addr r" "b \<noteq> fd_item_addr r"
    "root_owned32 (?f2\<lparr>g_k := k3\<rparr>) r" "b \<in> kpages k3" by (rule alloc32 [OF o2 sz(3,4)]) (rule that)
  obtain st where st: "f3_directory_stream (g_private f) = Some st" "ds_disk st = d" using assms(2) by (auto simp: mounted32_def)
  have len: "length (bytes_of_item ?new) = 32" using assms(10) by (auto simp: item_shape_def bytes_of_item_def)
  have "good (g_dev f)" "usable d" "addressable d (slot + length (bytes_of_item ?new))" using assms(2,15) len by (simp_all add: mounted32_def)
  from pata_device.stream_write_ok [OF assms(1) this(1,2) st(2) this(3)] obtain s' where w:
    "diskstreamer_write ops (g_dev f) (snd (diskstreamer_seek st (int slot))) (bytes_of_item ?new) 32 = Some (32, st\<lparr>ds_pos := int (slot + 32)\<rparr>, s')"
    "good s'" "\<And>q. disk_byte img s' d q = (if slot \<le> q \<and> q < slot + 32 then bytes_of_item ?new ! (q - slot) else disk_byte img (g_dev f) d q)"
    using len by auto
  let ?f4 = "f\<lparr>g_k := k3, g_dev := s', g_private := (g_private f)\<lparr>f3_directory_stream := Some (st\<lparr>ds_pos := int (slot + 32)\<rparr>)\<rparr>\<rparr>"
  have o4: "root_owned32 ?f4 r" using z3(5) by (simp add: root_owned32_def)
  obtain k5 where k5: "free_item32 ?f4 (DirItem b (Dir r)) = Some (?f4\<lparr>g_k := k5, g_private := (g_private ?f4)\<lparr>f3_root_directory := Dangling\<rparr>\<rparr>)"
    "kused k5 = kused (g_k ?f4) - {b, fd_addr r, fd_item_addr r}" using free_root_directory32 [OF o4, of b] z3(3,4,6) by auto
  let ?f5 = "?f4\<lparr>g_k := k5, g_private := (g_private ?f4)\<lparr>f3_root_directory := Dangling\<rparr>\<rparr>"
  have "f3_root_directory (g_private f) = Dir r" "dk_sector_size d = 512" using assms(2,3) by (simp_all add: root_owned32_def mounted32_def)
  then have "fat32_write_directory_entry ops d ?f2 [part] ?new = Some (32, ?f5)"
    using z3(1,2) assms(6,8,13) w(1) k5(1) st(1) s32_int [OF assms(14)]
    by (simp add: fat32_write_directory_entry_def fat32_get_parent_dir_def pathparser_get_last_part_def fat32_directory_write_def)
  then have "\<exists>desc. fat32_open ops d now f [part] mode = Some (Inr desc, ?f5) \<and> fdesc_item desc = FileItem ia ca ?new"
    using z(1,2) l(1) assms(12) by (simp add: fat32_open_def Let_def)
  moreover have "mounted32 good d ?f5" using assms(2) w(2) st by (simp add: mounted32_def)
  moreover have "map (disk_byte img s' d) [slot ..< slot + 32] = bytes_of_item ?new" using len by (intro nth_equalityI) (simp_all add: w(3))
  moreover have "fat32_get_directory_entry ops d ?f5 path = None" for path
    by (cases path) (simp_all add: fat32_get_directory_entry_def fat32_find_item_in_directory_def)
  ultimately show ?thesis using k5(2) by auto
qed

lemma demo_root32: "root_owned32 demo_fs32 \<lparr>fd_addr = 0x01000000, fd_item_addr = 0x01001000, fd_item = [demo_file], fd_total = 1,
         fd_sector_pos = 3, fd_ending_sector_pos = 0\<rparr>" "kroom (g_k demo_fs32) = 50"
proof -
  have k: "g_k demo_fs32 = f_k demo_root" by (simp add: demo_fs32_def demo_root_def)
  show "kroom (g_k demo_fs32) = 50" using demo_root_heap(2) k by simp
  show "root_owned32 demo_fs32 \<lparr>fd_addr = 0x01000000, fd_item_addr = 0x01001000, fd_item = [demo_file], fd_total = 1,
         fd_sector_pos = 3, fd_ending_sector_pos = 0\<rparr>"
    using demo_root_heap(1) unfolding root_owned32_def root_owned_def k by (simp add: demo_fs32_def demo_root_def)
qed

theorem fat32_opens_once_witness:
  "\<exists>desc f'. fat32_open ata_ops demo_dsk demo_date demo_fs32 [demo_part] 1 = Some (Inr desc, f') \<and>
     fat32_get_directory_entry ata_ops demo_dsk f' [demo_part] = None"
proof -
  have "find_file_index32 [demo_file] (pp_part demo_part @ [0]) 1 0 = Some (Some 0)" by code_simp
  moreover have "addressable demo_dsk (1536 + 32)" by (simp add: addressable_def demo_disk_def zero_disk_def)
  ultimately show ?thesis
    using fat32_opens_once [OF ata.pata_device_axioms demo_fs32_mounted(1) demo_root32(1), where part = demo_part and i = 0 and
        item = demo_file and now = demo_date and mode = 1 and slot = 1536] demo_lookup(2) demo_root32(2)
    by (simp add: item_shape_def demo_file_def FAT_FILE_SUBDIRECTORY_def FAT_FILE_READ_ONLY_def) metis
qed

end
