(* ===== verification/Mount.thy ===== *)
theory Mount
  imports Process Fat32
begin

text \<open>
  The file systems behind \<^verbatim>\<open>src/src/fs/file.c\<close>: the tables of functions \<open>fat16_fs\<close> and \<open>fat32_fs\<close>, over the state that the two
  share, that is the drives, the private data of each mounted disk and the open descriptors. The properties follow a request from
  the file numbers of the kernel down to the sectors.
\<close>

section \<open>State\<close>

datatype volume = Volume16 fat_private | Volume32 fat32_private | Freed

record 's fs_world =
  w_dev :: 's
  w_disks :: "disk list"
  w_now :: date_time
  w_volumes :: "int \<Rightarrow> volume option" \<comment> \<open>\<open>fs_private\<close> of the disk with this number\<close>
  w_open :: "u32 \<Rightarrow> fat_file_descriptor option" \<comment> \<open>the open descriptors by their address\<close>

definition volume16 :: "disk \<Rightarrow> kmem \<times> 's fs_world \<Rightarrow> 's fs option" where
  "volume16 d kw =
     (case w_volumes (snd kw) (dk_id d) of
        Some (Volume16 p) \<Rightarrow> Some \<lparr>f_dev = w_dev (snd kw), f_k = fst kw, f_private = p\<rparr>
      | _ \<Rightarrow> None)"

definition settle16 :: "disk \<Rightarrow> 's fs \<Rightarrow> 's fs_world \<Rightarrow> kmem \<times> 's fs_world" where
  \<comment> \<open>the state behind an operation; private data that it freed must not be used again\<close>
  "settle16 d f w =
     (f_k f, w\<lparr>w_dev := f_dev f,
               w_volumes := (w_volumes w)(dk_id d \<mapsto>
                  if allocated (f_k f) (fp_addr (f_private f)) then Volume16 (f_private f) else Freed)\<rparr>)"

definition volume32 :: "disk \<Rightarrow> kmem \<times> 's fs_world \<Rightarrow> 's fs32 option" where
  "volume32 d kw =
     (case w_volumes (snd kw) (dk_id d) of
        Some (Volume32 p) \<Rightarrow> Some \<lparr>g_dev = w_dev (snd kw), g_k = fst kw, g_private = p\<rparr>
      | _ \<Rightarrow> None)"

definition settle32 :: "disk \<Rightarrow> 's fs32 \<Rightarrow> 's fs_world \<Rightarrow> kmem \<times> 's fs_world" where
  "settle32 d f w =
     (g_k f, w\<lparr>w_dev := g_dev f, w_volumes := (w_volumes w)(dk_id d \<mapsto> Volume32 (g_private f))\<rparr>)"

definition put_desc :: "u32 \<Rightarrow> fat_file_descriptor \<Rightarrow> kmem \<times> 's fs_world \<Rightarrow> kmem \<times> 's fs_world" where
  \<comment> \<open>a descriptor that the operation freed is not kept\<close>
  "put_desc a desc kw =
     (fst kw, (snd kw)\<lparr>w_open := (w_open (snd kw))(a := if allocated (fst kw) a then Some desc else None)\<rparr>)"

definition opened :: "int + fat_file_descriptor \<Rightarrow> kmem \<times> 's fs_world \<Rightarrow> u32 \<times> kmem \<times> 's fs_world" where
  \<comment> \<open>an error code is returned as a pointer\<close>
  "opened r kw =
     (case r of
        Inl e \<Rightarrow> (word_of_int e, kw)
      | Inr desc \<Rightarrow> (fdesc_addr desc, put_desc (fdesc_addr desc) desc kw))"

section \<open>The tables of functions\<close>

definition fat16_fs :: "'s port_ops \<Rightarrow> ('s fs_world, filestat) filesystem" where
  "fat16_fs ops = \<lparr>
     fsys_resolve = (\<lambda>d (k, w). do {
       (res, p, dev, k) \<leftarrow> fat16_resolve ops (w_disks w) d (w_dev w) k;
       Some (res, k, w\<lparr>w_dev := dev, w_volumes := (w_volumes w)(dk_id d := map_option Volume16 p)\<rparr>)
     }),
     fsys_open = (\<lambda>d path mode kw. do {
       f \<leftarrow> volume16 d kw;
       (r, f) \<leftarrow> fat16_open ops d (w_now (snd kw)) f path mode;
       Some (opened r (settle16 d f (snd kw)))
     }),
     fsys_read = (\<lambda>d a sz nmemb kw. do {
       f \<leftarrow> volume16 d kw;
       desc \<leftarrow> w_open (snd kw) a;
       (res, out, desc, f) \<leftarrow> fat16_read ops d f desc sz nmemb;
       let w = (snd kw)\<lparr>w_open := (w_open (snd kw))(a \<mapsto> desc)\<rparr>;
       Some (res, out, settle16 d f w)
     }),
     fsys_seek = (\<lambda>a offset seek_mode (k, w). do {
       desc \<leftarrow> w_open w a;
       let (res, desc) = fat16_seek desc offset seek_mode;
       Some (res, k, w\<lparr>w_open := (w_open w)(a \<mapsto> desc)\<rparr>)
     }),
     fsys_stat = (\<lambda>d a stat (k, w). do {
       desc \<leftarrow> w_open w a;
       let (res, stat) = fat16_stat desc stat;
       Some (res, stat, k, w)
     }),
     fsys_close = (\<lambda>a (k, w). do {
       desc \<leftarrow> w_open w a;
       (res, k) \<leftarrow> fat16_close k desc;
       Some (res, k, w\<lparr>w_open := (w_open w)(a := None)\<rparr>)
     }),
     fsys_write = (\<lambda>d a buf n kw. do {
       f \<leftarrow> volume16 d kw;
       desc \<leftarrow> w_open (snd kw) a;
       (res, desc, f) \<leftarrow> fat16_write ops d f desc buf n;
       Some (res, put_desc a desc (settle16 d f (snd kw)))
     }),
     fsys_delete = (\<lambda>d a kw. do {
       f \<leftarrow> volume16 d kw;
       desc \<leftarrow> w_open (snd kw) a;
       (res, desc, f) \<leftarrow> fat16_delete ops d f desc;
       Some (res, put_desc a desc (settle16 d f (snd kw)))
     }),
     fsys_ftell = (\<lambda>a (k, w). map_option fat16_ftell (w_open w a))\<rparr>"

definition fat32_fs :: "'s port_ops \<Rightarrow> ('s fs_world, filestat) filesystem" where
  "fat32_fs ops = \<lparr>
     fsys_resolve = (\<lambda>d (k, w). do {
       (res, p, dev, k) \<leftarrow> fat32_resolve ops (w_disks w) d (w_dev w) k;
       Some (res, k, w\<lparr>w_dev := dev, w_volumes := (w_volumes w)(dk_id d := map_option Volume32 p)\<rparr>)
     }),
     fsys_open = (\<lambda>d path mode kw. do {
       f \<leftarrow> volume32 d kw;
       (r, f) \<leftarrow> fat32_open ops d (w_now (snd kw)) f path mode;
       Some (opened r (settle32 d f (snd kw)))
     }),
     fsys_read = (\<lambda>d a sz nmemb kw. do {
       f \<leftarrow> volume32 d kw;
       desc \<leftarrow> w_open (snd kw) a;
       (res, out, desc, f) \<leftarrow> fat32_read ops d f desc sz nmemb;
       let w = (snd kw)\<lparr>w_open := (w_open (snd kw))(a \<mapsto> desc)\<rparr>;
       Some (res, out, settle32 d f w)
     }),
     fsys_seek = (\<lambda>a offset seek_mode (k, w). do {
       desc \<leftarrow> w_open w a;
       let (res, desc) = fat32_seek desc offset seek_mode;
       Some (res, k, w\<lparr>w_open := (w_open w)(a \<mapsto> desc)\<rparr>)
     }),
     fsys_stat = (\<lambda>d a stat (k, w). do {
       desc \<leftarrow> w_open w a;
       let (res, stat) = fat32_stat desc stat;
       Some (res, stat, k, w)
     }),
     fsys_close = (\<lambda>a (k, w). do {
       desc \<leftarrow> w_open w a;
       (res, k) \<leftarrow> fat32_close k desc;
       Some (res, k, w\<lparr>w_open := (w_open w)(a := None)\<rparr>)
     }),
     fsys_write = (\<lambda>d a buf n kw. do {
       f \<leftarrow> volume32 d kw;
       desc \<leftarrow> w_open (snd kw) a;
       (res, desc, f) \<leftarrow> fat32_write ops d f desc buf n;
       Some (res, put_desc a desc (settle32 d f (snd kw)))
     }),
     fsys_delete = (\<lambda>d a kw. do {
       f \<leftarrow> volume32 d kw;
       desc \<leftarrow> w_open (snd kw) a;
       (res, desc, f) \<leftarrow> fat32_delete ops d f desc;
       Some (res, put_desc a desc (settle32 d f (snd kw)))
     }),
     fsys_ftell = (\<lambda>a (k, w). map_option fat32_ftell (w_open w a))\<rparr>"


section \<open>Reading through shared handles\<close>

fun read_all :: "('v \<Rightarrow> 'h \<Rightarrow> nat \<Rightarrow> (int \<times> u8 list \<times> 'v) option) \<Rightarrow> 'v \<Rightarrow> ('h \<times> nat) list \<Rightarrow> ((int \<times> u8 list) list \<times> 'v) option" where
  \<comment> \<open>a sequence of read requests, each a handle and a number of bytes\<close>
  "read_all read v [] = Some ([], v)"
| "read_all read v ((h, n) # rs) = do {
     (res, bs, v) \<leftarrow> read v h n;
     (out, v) \<leftarrow> read_all read v rs;
     Some ((res, bs) # out, v)
   }"

fun pieces :: "('h \<Rightarrow> nat \<Rightarrow> u8) \<Rightarrow> ('h \<Rightarrow> nat) \<Rightarrow> ('h \<times> nat) list \<Rightarrow> (int \<times> u8 list) list" where
  \<comment> \<open>what the requests should return when every handle has its own contents and position\<close>
  "pieces content pos [] = []"
| "pieces content pos ((h, n) # rs) =
     (0, map (content h) [pos h ..< pos h + n]) # pieces content (pos(h := pos h + n)) rs"

fun positions :: "('h \<Rightarrow> nat) \<Rightarrow> ('h \<times> nat) list \<Rightarrow> 'h \<Rightarrow> nat" where
  "positions pos [] = pos"
| "positions pos ((h, n) # rs) = positions (pos(h := pos h + n)) rs"

fun fit_all :: "('h \<Rightarrow> nat \<Rightarrow> nat \<Rightarrow> bool) \<Rightarrow> ('h \<Rightarrow> nat) \<Rightarrow> ('h \<times> nat) list \<Rightarrow> bool" where
  "fit_all admits pos [] \<longleftrightarrow> True"
| "fit_all admits pos ((h, n) # rs) \<longleftrightarrow> admits h (pos h) n \<and> fit_all admits (pos(h := pos h + n)) rs"

lemma positions_apply: "positions pos rs h = pos h + sum_list (map snd (filter (\<lambda>r. fst r = h) rs))"
  by (induction rs arbitrary: pos) auto

locale shared_reader =
  fixes inv :: "'v \<Rightarrow> ('h \<Rightarrow> nat) \<Rightarrow> bool"
    and admits :: "'h \<Rightarrow> nat \<Rightarrow> nat \<Rightarrow> bool"
    and content :: "'h \<Rightarrow> nat \<Rightarrow> u8"
    and read :: "'v \<Rightarrow> 'h \<Rightarrow> nat \<Rightarrow> (int \<times> u8 list \<times> 'v) option"
  assumes read_piece:
    "inv v pos \<Longrightarrow> admits h (pos h) n \<Longrightarrow>
       \<exists>v'. read v h n = Some (0, map (content h) [pos h ..< pos h + n], v') \<and> inv v' (pos(h := pos h + n))"
begin

lemma read_all_pieces:
  assumes "inv v pos" and "fit_all admits pos rs"
  shows "\<exists>v'. read_all read v rs = Some (pieces content pos rs, v') \<and> inv v' (positions pos rs)"
  using assms
proof (induction rs arbitrary: v pos)
  case (Cons r rs)
  obtain h n where r: "r = (h, n)" by (cases r)
  define pos' where "pos' = pos(h := pos h + n)"
  from Cons.prems have a: "admits h (pos h) n" "fit_all admits pos' rs" by (simp_all add: r pos'_def)
  from read_piece [OF Cons.prems(1) a(1)] obtain v1 where
    v1: "read v h n = Some (0, map (content h) [pos h ..< pos h + n], v1)" "inv v1 pos'" unfolding pos'_def by blast
  from Cons.IH [OF v1(2) a(2)] obtain v2 where
    "read_all read v1 rs = Some (pieces content pos' rs, v2)" "inv v2 (positions pos' rs)" by blast
  with v1(1) show ?case by (simp add: r flip: pos'_def)
qed simp

end

section \<open>Open files of a mounted disk\<close>

definition open_file16 ::
  "'s port_ops \<Rightarrow> ('s fs_world, filestat) vfs \<Rightarrow> disk \<Rightarrow> int \<Rightarrow> u32 \<Rightarrow> nat \<Rightarrow> nat \<Rightarrow> bool" where
  \<comment> \<open>number \<open>fd\<close> is an open FAT16 file on disk \<open>d\<close>: its private data lie at \<open>p\<close>, its chain starts at \<open>c\<close>, its position is \<open>i\<close>\<close>
  "open_file16 ops v d fd p c i \<longleftrightarrow> (\<exists>fl desc a ia item.
     file_get_descriptor v fd = Some (Some fl) \<and> desc_filesystem v (fl_filesystem fl) = Some (fat16_fs ops) \<and>
     fl_disk fl = d \<and> fl_private fl = p \<and> w_open (v_world v) p = Some desc \<and> fdesc_item desc = FileItem a ia item \<and>
     fat16_get_first_cluster item = int c \<and> c < 65536 \<and> unat (fdesc_pos desc) = i)"

definition mounted16 :: "('s \<Rightarrow> bool) \<Rightarrow> ('s fs_world, 'st) vfs \<Rightarrow> disk \<Rightarrow> 's fs \<Rightarrow> bool" where
  "mounted16 good v d f \<longleftrightarrow> volume16 d (v_k v, v_world v) = Some f \<and> mounted good d f \<and> fat_reachable d f \<and>
     allocated (v_k v) (fp_addr (f_private f))"

definition piece_ok :: "'s image \<Rightarrow> disk \<Rightarrow> 's fs \<Rightarrow> nat \<Rightarrow> nat \<Rightarrow> nat \<Rightarrow> bool" where
  \<comment> \<open>a piece that starts at a cluster or lies in one, of a chain that is long enough\<close>
  "piece_ok img d f c i n \<longleftrightarrow> 0 < n \<and> i + n < 2 ^ 31 \<and>
     (i mod cluster_bytes f = 0 \<or> i mod cluster_bytes f + n \<le> cluster_bytes f) \<and>
     (\<forall>j. i \<le> j \<and> j < i + n \<longrightarrow> on_disk img d f c j)"

lemma fd_positive: "file_get_descriptor v fd = Some (Some fl) \<Longrightarrow> 1 \<le> fd"
  by (auto simp: file_get_descriptor_def split: if_splits)

lemma world_update_tables [simp]:
  "file_get_descriptor (v\<lparr>v_world := w\<rparr>) fd = file_get_descriptor v fd"
  "desc_filesystem (v\<lparr>v_world := w\<rparr>) i = desc_filesystem v i"
  by (simp_all add: file_get_descriptor_def desc_filesystem_def)

lemma volume16_k: "volume16 d (k, w) = Some f \<Longrightarrow> f_k f = k"
  by (auto simp: volume16_def split: option.splits volume.splits)

lemma volume16_settled:
  assumes "allocated (f_k f) (fp_addr (f_private f))"
  shows "volume16 d (settle16 d f w) = Some f"
  using assms by (simp add: volume16_def settle16_def)

lemma fread_piece:
  assumes "pata_device ops good img" and "mounted16 good v d f" and "open_file16 ops v d fd p c i" and "piece_ok img d f c i n"
  shows "\<exists>f' w' desc'. fread v fd (int n) = Some (0, map (file_byte img d f c) [i ..< i + n], v\<lparr>v_world := w'\<rparr>) \<and>
     mounted16 good (v\<lparr>v_world := w'\<rparr>) d f' \<and> unchanged img f f' \<and> open_file16 ops (v\<lparr>v_world := w'\<rparr>) d fd p c (i + n) \<and>
     w_open w' = (w_open (v_world v))(p \<mapsto> desc')"
proof -
  from assms(3) obtain fl desc a ia item where o: "file_get_descriptor v fd = Some (Some fl)"
    "desc_filesystem v (fl_filesystem fl) = Some (fat16_fs ops)" "fl_disk fl = d" "fl_private fl = p"
    "w_open (v_world v) p = Some desc" "fdesc_item desc = FileItem a ia item" "fat16_get_first_cluster item = int c" "c < 65536"
    "unat (fdesc_pos desc) = i" unfolding open_file16_def by blast
  from assms(2) have m: "volume16 d (v_k v, v_world v) = Some f" "mounted good d f" "fat_reachable d f"
    "allocated (v_k v) (fp_addr (f_private f))" by (simp_all add: mounted16_def)
  from assms(4) have q: "0 < n" "i + n < 2 ^ 31" "i mod cluster_bytes f = 0 \<or> i mod cluster_bytes f + n \<le> cluster_bytes f"
    "\<forall>j. i \<le> j \<and> j < i + n \<longrightarrow> on_disk img d f c j" by (simp_all add: piece_ok_def)
  let ?desc = "desc\<lparr>fdesc_pos := of_nat (i + n)\<rparr>" and ?bs = "map (file_byte img d f c) [i ..< i + n]"
  from fat16_read_contents [OF assms(1) m(2,3) o(6-9) q(2,1,3,4)] obtain f' where
    r: "fat16_read ops d f desc (of_nat n) 1 = Some (0, ?bs, ?desc, f')" "mounted good d f'" "unchanged img f f'" by blast
  define w where "w = (v_world v)\<lparr>w_open := (w_open (v_world v))(p \<mapsto> ?desc)\<rparr>"
  have k: "f_k f' = v_k v" using r(3) volume16_k [OF m(1)] by (simp add: unchanged_def)
  obtain w' where s: "settle16 d f' w = (v_k v, w')" "w_open w' = w_open w" using k by (simp add: settle16_def)
  let ?v = "v\<lparr>v_world := w'\<rparr>"
  have "fread v fd (int n) = Some (0, ?bs, ?v)"
    using o(1-5) fd_positive [OF o(1)] q(1) m(1) r(1) s(1) w_def by (simp add: fread_def fat16_fs_def Let_def)
  moreover have a: "allocated (f_k f') (fp_addr (f_private f'))" using m(4) r(3) k by (simp add: unchanged_def)
  have "mounted16 good ?v d f'"
    using volume16_settled [OF a, of d w] s(1) r(2) m(3) unchanged_views(7) [OF r(3)] a k by (simp add: mounted16_def)
  moreover have "unat (of_nat (i + n) :: u32) = i + n" using q(2) unat_of_nat_small [of "i + n"] by simp
  then have "open_file16 ops ?v d fd p c (i + n)"
    using o(1-4,6-8) s(2) unfolding open_file16_def by (simp add: w_def)
  moreover have "w_open w' = (w_open (v_world v))(p \<mapsto> ?desc)" using s(2) by (simp add: w_def)
  ultimately show ?thesis using r(3) by blast
qed

section \<open>Interleaved readers\<close>

definition reading ::
  "'s port_ops \<Rightarrow> ('s \<Rightarrow> bool) \<Rightarrow> 's image \<Rightarrow> disk \<Rightarrow> 's fs \<Rightarrow> int set \<Rightarrow> (int \<Rightarrow> u32) \<Rightarrow> (int \<Rightarrow> nat) \<Rightarrow>
     ('s fs_world, filestat) vfs \<Rightarrow> (int \<Rightarrow> nat) \<Rightarrow> bool" where
  \<comment> \<open>the files \<open>F\<close> are open on one disk that still holds what \<open>f\<close> says, file \<open>fd\<close> at position \<open>pos fd\<close>\<close>
  "reading ops good img d f F priv c v pos \<longleftrightarrow> pata_device ops good img \<and> inj_on priv F \<and>
     (\<exists>g. mounted16 good v d g \<and> unchanged img f g) \<and> (\<forall>fd\<in>F. open_file16 ops v d fd (priv fd) (c fd) (pos fd))"

lemma piece_ok_unchanged:
  assumes "unchanged img f g"
  shows "piece_ok img d g = piece_ok img d f"
  by (simp add: piece_ok_def fun_eq_iff unchanged_views [OF assms])

lemma open_file16_other:
  assumes "open_file16 ops v d fd p c i" and "w_open w p = w_open (v_world v) p"
  shows "open_file16 ops (v\<lparr>v_world := w\<rparr>) d fd p c i"
  using assms by (simp add: open_file16_def)

lemma reading_piece:
  assumes "reading ops good img d f F priv c v pos" and "fd \<in> F \<and> piece_ok img d f (c fd) (pos fd) n"
  shows "\<exists>v'. fread v fd (int n) = Some (0, map (file_byte img d f (c fd)) [pos fd ..< pos fd + n], v') \<and>
     reading ops good img d f F priv c v' (pos(fd := pos fd + n))"
proof -
  from assms(1) obtain g where dev: "pata_device ops good img" and inj: "inj_on priv F" and m: "mounted16 good v d g"
    and u: "unchanged img f g" and o: "\<forall>fd\<in>F. open_file16 ops v d fd (priv fd) (c fd) (pos fd)"
    unfolding reading_def by blast
  have fd: "fd \<in> F" and ok: "piece_ok img d g (c fd) (pos fd) n"
    using assms(2) piece_ok_unchanged [OF u] by simp_all
  from fread_piece [OF dev m _ ok] o fd obtain g' w' desc' where
    r: "fread v fd (int n) = Some (0, map (file_byte img d g (c fd)) [pos fd ..< pos fd + n], v\<lparr>v_world := w'\<rparr>)"
    "mounted16 good (v\<lparr>v_world := w'\<rparr>) d g'" "unchanged img g g'"
    "open_file16 ops (v\<lparr>v_world := w'\<rparr>) d fd (priv fd) (c fd) (pos fd + n)"
    "w_open w' = (w_open (v_world v))(priv fd \<mapsto> desc')" by blast
  have "open_file16 ops (v\<lparr>v_world := w'\<rparr>) d fd' (priv fd') (c fd') ((pos(fd := pos fd + n)) fd')" if "fd' \<in> F" for fd'
  proof (cases "fd' = fd")
    case False
    then have "priv fd' \<noteq> priv fd" using inj fd that by (auto dest: inj_onD)
    then show ?thesis using False o that r(5) open_file16_other by fastforce
  qed (use r(4) in simp)
  then have "reading ops good img d f F priv c (v\<lparr>v_world := w'\<rparr>) (pos(fd := pos fd + n))"
    using dev inj r(2) unchanged_trans [OF u r(3)] unfolding reading_def by blast
  then show ?thesis using r(1) unchanged_views(5) [OF u] by auto
qed

interpretation vr: shared_reader "reading ops good img d f F priv c" "\<lambda>fd i n. fd \<in> F \<and> piece_ok img d f (c fd) i n"
    "\<lambda>fd. file_byte img d f (c fd)" "\<lambda>v fd n. fread v fd (int n)"
  for ops good img d f F priv c
  by unfold_locales (rule reading_piece)

lemma ftell_open_file:
  assumes "open_file16 ops v d fd p c i" and "i < 2 ^ 31"
  shows "ftell v fd = Some (int i)"
proof -
  from assms(1) obtain fl desc where o: "file_get_descriptor v fd = Some (Some fl)"
    "desc_filesystem v (fl_filesystem fl) = Some (fat16_fs ops)" "fl_private fl = p" "w_open (v_world v) p = Some desc"
    "unat (fdesc_pos desc) = i" unfolding open_file16_def by blast
  have "sint (fdesc_pos desc) = int i" using o(5) assms(2) sint_small [of "fdesc_pos desc"] by simp
  then show ?thesis using o(1-4) fd_positive [OF o(1)] by (simp add: ftell_def fat16_fs_def fat16_ftell_def)
qed

text \<open>C1: files that are read in turns do not disturb each other. Several files may be open on one FAT16 disk, all served by the same three
  streams. Whatever the order of the requests, every \<open>fread\<close> returns the next bytes of its own file, found by following its cluster
  chain from its own position; afterwards \<open>ftell\<close> is the number of bytes read from each file plus where it began, and the disk is as it was. Each
  request must start at a cluster or stay inside one.\<close>
theorem fread_interleaved:
  assumes "pata_device ops good img" and "mounted16 good v d f" and "inj_on priv F"
    and "\<forall>fd\<in>F. open_file16 ops v d fd (priv fd) (c fd) (pos fd)"
    and "fit_all (\<lambda>fd i n. fd \<in> F \<and> piece_ok img d f (c fd) i n) pos requests"
  shows "\<exists>v' f'. read_all (\<lambda>v fd n. fread v fd (int n)) v requests =
       Some (pieces (\<lambda>fd. file_byte img d f (c fd)) pos requests, v') \<and>
     mounted16 good v' d f' \<and> unchanged img f f' \<and>
     (\<forall>fd\<in>F. positions pos requests fd < 2 ^ 31 \<longrightarrow>
        ftell v' fd = Some (int (pos fd + sum_list (map snd (filter (\<lambda>r. fst r = fd) requests)))))"
proof -
  have "reading ops good img d f F priv c v pos"
    using assms(1-4) unchanged_refl [of img f] unfolding reading_def by blast
  from vr.read_all_pieces [OF this assms(5)] obtain v' where
    v': "read_all (\<lambda>v fd n. fread v fd (int n)) v requests = Some (pieces (\<lambda>fd. file_byte img d f (c fd)) pos requests, v')"
    "reading ops good img d f F priv c v' (positions pos requests)" by blast
  have "ftell v' fd = Some (int (positions pos requests fd))" if "fd \<in> F" "positions pos requests fd < 2 ^ 31" for fd
    using v'(2) that ftell_open_file unfolding reading_def by blast
  then show ?thesis using v' unfolding reading_def positions_apply by blast
qed

definition demo_mnt :: "ata fs" where
  "demo_mnt = demo_fs\<lparr>f_k := f_k demo_root, f_private := (f_private demo_fs)\<lparr>fp_addr := 0x01000000\<rparr>\<rparr>"

definition demo_fd :: "int \<Rightarrow> u32 \<Rightarrow> file_descriptor" where
  "demo_fd i p = \<lparr>fl_addr = 0, fl_index = i, fl_filesystem = 0, fl_private = p, fl_disk = demo_dsk, fl_mode = 1\<rparr>"

definition demo_mount :: "(ata fs_world, filestat) vfs" where
  \<comment> \<open>one file opened twice, at its start and at its second cluster\<close>
  "demo_mount = \<lparr>v_k = f_k demo_mnt,
     v_world = \<lparr>w_dev = f_dev demo_mnt, w_disks = [demo_dsk], w_now = demo_date,
       w_volumes = (\<lambda>_. Some (Volume16 (f_private demo_mnt))), w_open = [0x5000 \<mapsto> demo_desc 0, 0x6000 \<mapsto> demo_desc 512]\<rparr>,
     v_filesystems = [Some (fat16_fs ata_ops), Some (fat32_fs ata_ops)],
     v_descs = [Some (demo_fd 1 0x5000), Some (demo_fd 2 0x6000)] @ replicate 510 None, v_disks = [demo_dsk]\<rparr>"

lemma demo_mnt_views:
  "mounted ata_good demo_dsk demo_mnt" "fat_reachable demo_dsk demo_mnt" "cluster_bytes demo_mnt = 512"
  "on_disk at_img demo_dsk demo_mnt = on_disk at_img demo_dsk demo_fs"
  "file_byte at_img demo_dsk demo_mnt = file_byte at_img demo_dsk demo_fs"
proof -
  have p: "fat_pos demo_mnt = fat_pos demo_fs" "data_pos demo_mnt = data_pos demo_fs" "f_dev demo_mnt = f_dev demo_fs"
    and c: "cluster_bytes demo_mnt = cluster_bytes demo_fs"
    by (simp_all add: fun_eq_iff fat_pos_def data_pos_def cluster_bytes_def demo_mnt_def)
  then have a: "fat_at at_img demo_dsk demo_mnt = fat_at at_img demo_dsk demo_fs" by (simp add: fat_at_def fun_eq_iff)
  show "mounted ata_good demo_dsk demo_mnt" using demo_fs_mounted(1) by (simp add: mounted_def demo_mnt_def)
  show "fat_reachable demo_dsk demo_mnt" using demo_fs_mounted(2) p by (simp add: fat_reachable_def)
  show "cluster_bytes demo_mnt = 512" using demo_fs_mounted(3) c by simp
  show "on_disk at_img demo_dsk demo_mnt = on_disk at_img demo_dsk demo_fs" by (simp add: on_disk_def fun_eq_iff a c p)
  show "file_byte at_img demo_dsk demo_mnt = file_byte at_img demo_dsk demo_fs" by (simp add: file_byte_def fun_eq_iff a c p)
qed

lemma demo_mount_ready:
  "mounted16 ata_good demo_mount demo_dsk demo_mnt"
  "open_file16 ata_ops demo_mount demo_dsk 1 0x5000 2 0" "open_file16 ata_ops demo_mount demo_dsk 2 0x6000 2 512"
proof -
  have "allocated (f_k demo_mnt) (fp_addr (f_private demo_mnt))"
    by (simp add: allocated_def demo_mnt_def demo_root_def demo_heap_def heap_address_to_block_def)
  then show "mounted16 ata_good demo_mount demo_dsk demo_mnt"
    using demo_mnt_views(1,2) by (simp add: mounted16_def volume16_def demo_mount_def)
  show "open_file16 ata_ops demo_mount demo_dsk 1 0x5000 2 0" "open_file16 ata_ops demo_mount demo_dsk 2 0x6000 2 512"
    using demo_first_cluster(2)
    by (simp_all add: open_file16_def file_get_descriptor_def demo_mount_def desc_filesystem_def demo_fd_def demo_desc_def
        SERPAEOS_MAX_FILE_DESCRIPTORS_def)
qed

theorem fread_interleaved_witness:
  "\<exists>v'. read_all (\<lambda>v fd n. fread v fd (int n)) demo_mount [(1, 3), (2, 2), (1, 4)] =
       Some ([(0, [3, 3, 3]), (0, [5, 5]), (0, [3, 3, 3, 3])], v') \<and> ftell v' 1 = Some 7 \<and> ftell v' 2 = Some 514"
proof -
  let ?pos = "\<lambda>fd :: int. if fd = 1 then 0 else 512" and ?priv = "\<lambda>fd :: int. if fd = 1 then 0x5000 else 0x6000"
  have ok: "piece_ok at_img demo_dsk demo_mnt 2 i n"
    if "0 < n" "i + n \<le> 1024" "i mod 512 + n \<le> 512" for i n
    using that demo_on_disk by (simp add: piece_ok_def demo_mnt_views)
  have b: "file_byte at_img demo_dsk demo_mnt 2 j = (if j < 512 then 3 else 5)" if "j < 1024" for j
  proof -
    have "j div 512 = Suc 0" if "\<not> j < 512" using that \<open>j < 1024\<close> by auto
    then consider "j < 512" | "j div 512 = Suc 0" "\<not> j < 512" by blast
    then show ?thesis
    proof cases
      case 1
      then have "(1536 + j) div 512 = 3" by simp
      with 1 show ?thesis by (simp add: demo_mnt_views file_byte_def demo_fs_mounted(3) demo_data_pos demo_byte)
    next
      case 2
      have "(2560 + j mod 512) div 512 = 5" by simp
      with 2 demo_walk(1) show ?thesis by (simp add: demo_mnt_views file_byte_def demo_fs_mounted(3) demo_data_pos demo_byte)
    qed
  qed
  from fread_interleaved [OF ata.pata_device_axioms demo_mount_ready(1), of ?priv "{1, 2}" "\<lambda>_. 2" ?pos "[(1, 3), (2, 2), (1, 4)]"]
  show ?thesis using demo_mount_ready(2,3) by (simp add: ok b upt_rec) blast
qed

section \<open>Loading a program\<close>

lemma kzalloc_keeps_allocated:
  assumes "heap_inv (km_heap k)" and "0 < unat sz" and "unat sz \<le> 0xFFFFF000" and "kzalloc k sz = Some (p, k')" and "allocated k a"
  shows "allocated k' a"
proof -
  from assms(4) obtain h where h: "heap_malloc (km_heap k) sz = Some (p, h)" "km_heap k' = h"
    by (auto simp: kzalloc_def kmalloc_def bind_eq_Some_conv split: if_splits)
  from assms(1-3) h(1) show ?thesis
  proof (cases rule: heap_malloc_cases)
    case (fit b)
    let ?es = "entries_of (km_heap k)" and ?n = "blocks_needed sz" and ?j = "nat (heap_address_to_block (km_heap k) a)"
    have w: "window_free ?es b ?n" using fit(1) by (simp add: first_fit_def)
    have j: "?j < length ?es" "\<not> is_free (?es ! ?j)"
      using assms(5) by (auto simp: allocated_def rd_def split: if_splits option.splits)
    have l: "length (block_pattern ?n) = ?n" and b: "b + ?n \<le> length ?es"
      using w blocks_needed_pos [OF assms(2)] by (simp_all add: window_free_def)
    have "\<not> (b \<le> ?j \<and> ?j < b + ?n)" using w j by (auto simp: window_free_def)
    then have "overlay ?es b (block_pattern ?n) ! ?j = ?es ! ?j" using j(1) b l by (auto simp: nth_overlay)
    moreover have "heap_address_to_block h a = heap_address_to_block (km_heap k) a" "entries_of h = overlay ?es b (block_pattern ?n)"
      by (simp_all add: fit(5) heap_address_to_block_def)
    ultimately show ?thesis using j b l by (simp add: allocated_def h(2) rd_def)
  qed (use assms(5) h(2) in \<open>simp add: allocated_def\<close>)
qed

lemma heap_update_views [simp]:
  "mounted good d (f\<lparr>f_k := k\<rparr>) = mounted good d f" "cluster_bytes (f\<lparr>f_k := k\<rparr>) = cluster_bytes f" "fat_pos (f\<lparr>f_k := k\<rparr>) = fat_pos f"
  "fat_reachable d (f\<lparr>f_k := k\<rparr>) = fat_reachable d f" "data_pos (f\<lparr>f_k := k\<rparr>) = data_pos f" "fat_at img d (f\<lparr>f_k := k\<rparr>) = fat_at img d f"
  by (simp_all add: mounted_def cluster_bytes_def fat_pos_def fat_reachable_def data_pos_def fat_at_def fun_eq_iff)

lemma heap_update_contents [simp]:
  "file_byte img d (f\<lparr>f_k := k\<rparr>) = file_byte img d f" "on_disk img d (f\<lparr>f_k := k\<rparr>) = on_disk img d f"
  "piece_ok img d (f\<lparr>f_k := k\<rparr>) = piece_ok img d f"
  by (simp_all add: file_byte_def on_disk_def piece_ok_def fun_eq_iff)

lemma open_file16_heap [simp]: "open_file16 ops (v\<lparr>v_k := k\<rparr>) = open_file16 ops v"
  by (simp add: open_file16_def fun_eq_iff file_get_descriptor_def desc_filesystem_def)

lemma mounted16_heap:
  assumes "mounted16 good v d f" and "allocated k (fp_addr (f_private f))"
  shows "mounted16 good (v\<lparr>v_k := k\<rparr>) d (f\<lparr>f_k := k\<rparr>)"
  using assms by (auto simp: mounted16_def volume16_def split: option.splits volume.splits)

lemma fstat_open_file:
  assumes "open_file16 ops v d fd p c i" and "w_open (v_world v) p = Some desc" and "fdesc_item desc = FileItem a ia item"
  shows "\<exists>st. fstat v fd stat = Some (0, st, v) \<and> st_filesize st = di_filesize item"
proof -
  from assms(1,2) obtain fl where o: "file_get_descriptor v fd = Some (Some fl)"
    "desc_filesystem v (fl_filesystem fl) = Some (fat16_fs ops)" "fl_private fl = p" unfolding open_file16_def by blast
  then show ?thesis using assms(2,3) by (simp add: fstat_def fat16_fs_def fat16_stat_def)
qed

definition loaded_memory :: "mem \<Rightarrow> u32 \<Rightarrow> u32 \<Rightarrow> u8 list \<Rightarrow> mem" where
  "loaded_memory m process ptr bs =
     store32 (store32 ((store_bytes m ptr bs)(process + process_filetype := PROCESS_FILETYPE_BINARY)) (process + process_ptr) ptr)
       (process + process_size) (word_of_nat (length bs))"

lemma load_binary_image_run:
  assumes "fstat (os_vfs s) fd uninit_stat = Some (0, st, os_vfs s)" and "v_k (os_vfs s) = sc_k (os_s s)"
    and "kzalloc (sc_k (os_s s)) (st_filesize st) = Some (ptr, k)" and "ptr \<noteq> 0"
    and "fread ((os_vfs s)\<lparr>v_k := k\<rparr>) fd (sint (st_filesize st)) = Some (0, bs, (os_vfs s)\<lparr>v_k := k, v_world := w\<rparr>)"
    and "length bs = unat (st_filesize st)"
  shows "\<exists>s'. load_binary_image fd process s = Some (0, s') \<and> os_mem s' = loaded_memory (km_mem k) process ptr bs"
proof -
  have v: "(os_vfs s)\<lparr>v_k := sc_k (os_s s)\<rparr> = os_vfs s" using assms(2) by (metis vfs.surjective vfs.update_convs(1))
  have "on_vfs (\<lambda>v. do { (res, st, v) \<leftarrow> fstat v fd uninit_stat; Some ((res, st), v) }) s = Some ((0, st), s)"
    using assms(1,2) by (simp add: on_vfs_def v)
  then show ?thesis using assms(3-6)
    by (simp add: load_binary_image_def os_kzalloc_def on_sched_def on_kmem_def SERPAEOS_ALL_OK_def Let_def on_vfs_def
        put_mem_def put32_def put8_def loaded_memory_def)
qed

lemma loaded_memory_image:
  assumes "length bs < 2 ^ 32" and "9464 \<le> unat (a - process)"
  shows "loaded_memory m process ptr bs a = (if unat (a - ptr) < length bs then bs ! unat (a - ptr) else m a)"
proof -
  have ne: "a \<noteq> x + process" if "unat x < 9464" for x using assms(2) that by auto
  from ne [of 8320] ne [of 8324] ne [of 8325] ne [of 8326] ne [of 8327] ne [of 8332] ne [of 8333] ne [of 8334] ne [of 8335]
  show ?thesis by (simp add: loaded_memory_def store32_def store_bytes_apply [OF assms(1)] layout add.commute [of process])
qed

lemma loaded_memory_fields:
  assumes "unat process mod 4 = 0"
  shows "load32 (loaded_memory m process ptr bs) (process + process_ptr) = ptr"
    "load32 (loaded_memory m process ptr bs) (process + process_size) = word_of_nat (length bs)"
    "loaded_memory m process ptr bs (process + process_filetype) = PROCESS_FILETYPE_BINARY"
proof -
  have al: "unat (process + x) mod 4 = 0" if "unat x mod 4 = 0" for x
    using that assms mod_add_eq [of "unat process" 4 "unat x"] by (simp add: unat_word_ariths mod_mod_cancel)
  have "unat (process + process_ptr) mod 4 = 0" "unat (process + process_size) mod 4 = 0" by (rule al, simp add: layout)+
  then show "load32 (loaded_memory m process ptr bs) (process + process_ptr) = ptr"
    by (simp add: loaded_memory_def load32_store32_other load32_store32_same layout)
  show "load32 (loaded_memory m process ptr bs) (process + process_size) = word_of_nat (length bs)"
    by (simp add: loaded_memory_def load32_store32_same)
qed (simp add: loaded_memory_def store32_def layout)

text \<open>C2: a flat program image in memory is the file on the disk. \<open>process_load_binary\<close>, with the file open at its start, asks the file system for the
  size, takes a heap block of that size and reads the file into it: on every drive that keeps its promises, for a chain as long as the size in the directory
  entry, byte \<open>j\<close> of the block is byte \<open>j\<close> of the file, the process structure holds the block, the size and the file type, and no byte outside
  the block and the structure is changed.\<close>
theorem load_binary_contents:
  assumes "pata_device ops good img" and "mounted16 good (os_vfs s) d f" and "open_file16 ops (os_vfs s) d fd p c 0"
    and "w_open (v_world (os_vfs s)) p = Some desc" and "fdesc_item desc = FileItem a ia item" and "unat (di_filesize item) = n"
    and "piece_ok img d f c 0 n" and "v_k (os_vfs s) = sc_k (os_s s)" and "heap_inv (km_heap (sc_k (os_s s)))"
    and "kzalloc (sc_k (os_s s)) (di_filesize item) = Some (ptr, k)" and "ptr \<noteq> 0"
    and "unat process mod 4 = 0" and "\<forall>j<n. 9464 \<le> unat (ptr + of_nat j - process)"
  shows "\<exists>s'. load_binary_image fd process s = Some (0, s') \<and>
     (\<forall>j<n. os_mem s' (ptr + of_nat j) = file_byte img d f c j) \<and>
     get32 s' (process + process_ptr) = ptr \<and> get32 s' (process + process_size) = di_filesize item \<and>
     get8 s' (process + process_filetype) = PROCESS_FILETYPE_BINARY \<and>
     (\<forall>b. 9464 \<le> unat (b - process) \<longrightarrow> n \<le> unat (b - ptr) \<longrightarrow> os_mem s' b = os_mem s b)"
proof -
  let ?v = "(os_vfs s)\<lparr>v_k := k\<rparr>" and ?bs = "map (file_byte img d f c) [0 ..< n]"
  have n: "0 < n" "n < 2 ^ 31" using assms(7) by (simp_all add: piece_ok_def)
  have sn: "sint (di_filesize item) = int n" using assms(6) n(2) sint_small [of "di_filesize item"] by simp
  obtain st where st: "fstat (os_vfs s) fd uninit_stat = Some (0, st, os_vfs s)" "st_filesize st = di_filesize item"
    using fstat_open_file [OF assms(3-5)] by blast
  have "allocated k (fp_addr (f_private f))"
    using kzalloc_keeps_allocated [OF assms(9) _ _ assms(10)] assms(2,6,8) n by (simp add: mounted16_def)
  from fread_piece [OF assms(1) mounted16_heap [OF assms(2) this], of fd p c 0 n] assms(3,7) obtain w where
    r: "fread ?v fd (int n) = Some (0, ?bs, ?v\<lparr>v_world := w\<rparr>)" by auto
  obtain s' where s': "load_binary_image fd process s = Some (0, s')" "os_mem s' = loaded_memory (km_mem k) process ptr ?bs"
    using load_binary_image_run [OF st(1) assms(8), of ptr k ?bs w process] st(2) assms(6,10,11) r sn by auto
  have km: "km_mem k = memset_at (os_mem s) ptr 0 n"
    using assms(6,10,11) by (auto simp: kzalloc_def kmalloc_def bind_eq_Some_conv split: if_splits)
  have l: "length ?bs < 2 ^ 32" using n by simp
  have "os_mem s' (ptr + of_nat j) = file_byte img d f c j" if "j < n" for j
  proof -
    have "unat (of_nat j :: u32) = j" using that n(2) unat_of_nat_small [of j] by simp
    then show ?thesis using that assms(13) unfolding s'(2) by (subst loaded_memory_image [OF l]) simp_all
  qed
  moreover have "os_mem s' b = os_mem s b" if "9464 \<le> unat (b - process)" "n \<le> unat (b - ptr)" for b
    using that n(2) unfolding s'(2) km by (subst loaded_memory_image [OF l]) (simp_all add: memset_at_apply)
  moreover have "of_nat n = di_filesize item" using assms(6) by auto
  ultimately show ?thesis using s'(1) loaded_memory_fields [OF assms(12), of "km_mem k" ptr ?bs]
    by (auto simp: get32_def get8_def s'(2))
qed

definition demo_loader :: "ata fs_world os" where
  "demo_loader = \<lparr>os_s = os_s (demo_os (f_k demo_mnt)), os_vfs = demo_mount, os_term = os_term (demo_os (f_k demo_mnt)),
     current_process = 0, processes = [], ret_codes = [], directory_screen_x = 0, directory_screen_y = 0, directory_screen_video = [],
     directory_screen_is_current = False, os_now = demo_date, os_text = []\<rparr>"

lemma demo_loader_parts:
  "os_vfs demo_loader = demo_mount" "sc_k (os_s demo_loader) = f_k demo_root" "v_k demo_mount = f_k demo_root"
  "w_open (v_world demo_mount) 0x5000 = Some (demo_desc 0)"
  by (simp_all add: demo_loader_def demo_os_def demo_mount_def demo_mnt_def)

lemma demo_loader_block: "\<exists>k. kzalloc (f_k demo_root) 1024 = Some (0x01002000, k)"
proof -
  have "heap_malloc (demo_heap ([0x41, 0x41] @ replicate 50 0)) 1024 = Some (0x01002000, demo_heap ([0x41, 0x41, 0x41] @ replicate 49 0))"
    by code_simp
  then show ?thesis by (simp add: kzalloc_def kmalloc_def demo_root_def)
qed

theorem load_binary_contents_witness:
  "\<exists>s'. load_binary_image 1 0x1000 demo_loader = Some (0, s') \<and> get32 s' (0x1000 + process_size) = 1024 \<and>
     os_mem s' 0x01002000 = 3 \<and> os_mem s' 0x01002200 = 5"
proof -
  obtain k where k: "kzalloc (sc_k (os_s demo_loader)) (di_filesize demo_file) = Some (0x01002000, k)"
    using demo_loader_block by (auto simp: demo_file_def demo_loader_parts)
  have m: "mounted16 ata_good (os_vfs demo_loader) demo_dsk demo_mnt" "open_file16 ata_ops (os_vfs demo_loader) demo_dsk 1 0x5000 2 0"
    "w_open (v_world (os_vfs demo_loader)) 0x5000 = Some (demo_desc 0)" "unat (di_filesize demo_file) = 1024"
    "v_k (os_vfs demo_loader) = sc_k (os_s demo_loader)" "heap_inv (km_heap (sc_k (os_s demo_loader)))"
    using demo_mount_ready demo_root_heap(1) by (simp_all add: demo_loader_parts demo_file_def root_owned_def kinv_def)
  have ok: "piece_ok at_img demo_dsk demo_mnt 2 0 1024" using demo_on_disk by (simp add: piece_ok_def demo_mnt_views)
  have far: "9464 \<le> unat ((0x01002000 :: u32) + of_nat j - 0x1000)" if "j < 1024" for j
  proof -
    have "unat (of_nat j :: u32) = j" using that unat_of_nat_small [of j] by simp
    then have "unat ((0x01001000 :: u32) + of_nat j) = 0x01001000 + j" using that by (simp add: unat_word_ariths)
    then show ?thesis by (simp add: algebra_simps)
  qed
  have b: "file_byte at_img demo_dsk demo_mnt 2 0 = 3" "file_byte at_img demo_dsk demo_mnt 2 512 = 5"
    using demo_walk by (simp_all add: demo_mnt_views file_byte_def demo_fs_mounted(3) demo_data_pos demo_byte)
  from load_binary_contents [OF ata.pata_device_axioms m(1-3) demo_first_cluster(1) m(4) ok m(5,6) k, of "0x1000"] far obtain s' where
    s': "load_binary_image 1 0x1000 demo_loader = Some (0, s')" "get32 s' (0x1000 + process_size) = di_filesize demo_file"
    and m': "\<forall>j<1024. os_mem s' (0x01002000 + of_nat j) = file_byte at_img demo_dsk demo_mnt 2 j" by auto
  from m' [THEN spec, of 0] m' [THEN spec, of 512] b have "os_mem s' 0x01002000 = 3" "os_mem s' 0x01002200 = 5" by simp_all
  with s' show ?thesis by (auto simp: demo_file_def)
qed

end
