(* ===== verification/Kernel.thy ===== *)
theory Kernel
  imports Syscall Classic Gdt Mount
begin

text \<open>
  The boot sequence, \<^verbatim>\<open>src/src/kernel.c\<close>, and the interrupt of the keyboard. The state of the whole kernel puts the parts of the other theories
  together: the devices and the variables of the keyboard driver are the device below the file systems, the file systems are the world of the
  virtual file system, and this is part of the operating system that the system calls work on. The addresses and the uninitialised memory that the
  boot sequence meets are the record \<open>boot_env\<close>. A panic, like every other loop without an end, is \<open>None\<close>.
\<close>

section \<open>State\<close>

record 'd machine =
  m_dev :: 'd
  m_keys :: classic_state

type_synonym 'd world = "'d machine fs_world"

record tss =
  tss_link :: u32
  tss_esp0 :: u32
  tss_ss0 :: u32
  tss_esp1 :: u32
  tss_esp2 :: u32
  tss_ss2 :: u32
  tss_sr3 :: u32
  tss_eip :: u32
  tss_eflags :: u32
  tss_eax :: u32
  tss_ecx :: u32
  tss_edx :: u32
  tss_ebx :: u32
  tss_esp :: u32
  tss_ebp :: u32
  tss_esi :: u32
  tss_edi :: u32
  tss_es :: u32
  tss_cs :: u32
  tss_ss :: u32
  tss_ds :: u32
  tss_fs :: u32
  tss_gs :: u32
  tss_ldtr :: u32
  tss_iopb :: u32

definition zero_tss :: tss where
  "zero_tss = \<lparr>tss_link = 0, tss_esp0 = 0, tss_ss0 = 0, tss_esp1 = 0, tss_esp2 = 0, tss_ss2 = 0, tss_sr3 = 0, tss_eip = 0, tss_eflags = 0,
     tss_eax = 0, tss_ecx = 0, tss_edx = 0, tss_ebx = 0, tss_esp = 0, tss_ebp = 0, tss_esi = 0, tss_edi = 0, tss_es = 0, tss_cs = 0, tss_ss = 0,
     tss_ds = 0, tss_fs = 0, tss_gs = 0, tss_ldtr = 0, tss_iopb = 0\<rparr>"

definition sizeof_tss :: u32 where "sizeof_tss = 100"

record configeration =
  cf_magic :: "u8 list"
  cf_timezone :: int
  cf_username :: "u8 list"
  cf_password :: "u8 list"

record 'd kernel =
  kn_os :: "'d world os"
  kn_idt :: "'d world idt"
  kn_gdt :: "u8 list list"
  kn_tss :: tss
  kn_tr :: u32 \<comment> \<open>the selector in the task register\<close>
  kn_paging :: bool
  kn_keyboards :: "keyboard list"
  kn_config_file :: int
  kn_SOS_config :: configeration
  kn_prog_to_load :: "u8 list"

record 'd boot_env =
  be_ops :: "'d port_ops"
  be_acpi :: acpi
  be_locals :: u32
  be_garbage :: u32
  be_century :: u8
  be_tss :: u32 \<comment> \<open>\<open>&tss\<close>\<close>
  be_interrupts :: "u32 list" \<comment> \<open>\<open>interrupt_pointer_table\<close>\<close>
  be_isr80h :: u32 \<comment> \<open>\<open>isr80h_wrapper\<close>\<close>
  be_heap_table :: "u8 list" \<comment> \<open>the memory at \<open>SERPAEOS_HEAP_TABLE_ADDRESS\<close>\<close>
  be_buf :: "u8 list" \<comment> \<open>the buffer on the stack of \<open>disk_search_and_init\<close>\<close>

section \<open>Port access of the parts\<close>

definition lift_ops :: "('w \<Rightarrow> 's) \<Rightarrow> ('s \<Rightarrow> 'w \<Rightarrow> 'w) \<Rightarrow> 's port_ops \<Rightarrow> 'w port_ops" where
  \<comment> \<open>the ports of a part as ports of the whole\<close>
  "lift_ops get put ops = \<lparr>
     outb = (\<lambda>port v w. put (outb ops port v (get w)) w),
     inb = (\<lambda>port w. case inb ops port (get w) of (v, s) \<Rightarrow> (v, put s w)),
     inw = (\<lambda>port w. case inw ops port (get w) of (v, s) \<Rightarrow> (v, put s w)),
     outw = (\<lambda>port v w. put (outw ops port v (get w)) w)\<rparr>"

locale part =
  fixes get :: "'w \<Rightarrow> 's"
    and put :: "'s \<Rightarrow> 'w \<Rightarrow> 'w"
  assumes get_put [simp]: "get (put x w) = x"
    and put_put [simp]: "put x (put y w) = put x w"
    and put_get [simp]: "put (get w) w = w"
begin

lemma lift_ports [simp]:
  "outb (lift_ops get put ops) port v w = put (outb ops port v (get w)) w"
  "outw (lift_ops get put ops) port u w = put (outw ops port u (get w)) w"
  "inb (lift_ops get put ops) port w = (case inb ops port (get w) of (v, s) \<Rightarrow> (v, put s w))"
  "inw (lift_ops get put ops) port w = (case inw ops port (get w) of (v, s) \<Rightarrow> (v, put s w))"
  by (simp_all add: lift_ops_def)

lemma lift_read_words:
  "read_words (lift_ops get put ops) port n w = (case read_words ops port n (get w) of (ws, s) \<Rightarrow> (ws, put s w))"
  by (induction n arbitrary: w) (simp_all split: prod.splits)

lemma lift_pata_wait:
  "pata_wait (lift_ops get put ops) port n c w = (case pata_wait ops port n c (get w) of (ready, s) \<Rightarrow> (ready, put s w))"
  by (induction n arbitrary: c w) (simp_all split: prod.splits)

lemma lift_pata_command:
  "pata_command (lift_ops get put ops) ps dr lba n cmd w = put (pata_command ops ps dr lba n cmd (get w)) w"
  by (simp add: pata_command_def Let_def)

lemma lift_pata_read_loop:
  "pata_read_loop (lift_ops get put ops) ps n out w = (case pata_read_loop ops ps n out (get w) of (res, out, s) \<Rightarrow> (res, out, put s w))"
  by (induction n arbitrary: out w) (simp_all add: lift_pata_wait lift_read_words split: prod.splits)

lemma lift_pata_read_sector:
  "pata_read_sector (lift_ops get put ops) w ps dr lba n = (case pata_read_sector ops (get w) ps dr lba n of (res, out, s) \<Rightarrow> (res, out, put s w))"
  by (simp add: pata_read_sector_def lift_pata_read_loop lift_pata_command split: prod.splits)

lemma lift_write_words:
  "write_words (lift_ops get put ops) port n buf w = map_option (map_prod id (\<lambda>s. put s w)) (write_words ops port n buf (get w))"
proof (induction ops port n buf "get w" arbitrary: w rule: write_words.induct)
  case (2 ops port n lo hi buf)
  then show ?case by simp
qed simp_all

lemma lift_pata_write_loop:
  "pata_write_loop (lift_ops get put ops) ps n buf w = map_option (map_prod id (\<lambda>s. put s w)) (pata_write_loop ops ps n buf (get w))"
proof (induction n arbitrary: buf w)
  case (Suc n)
  then show ?case
    by (simp add: lift_pata_wait lift_write_words split: prod.splits option.splits bind_split)
qed simp

lemma lift_pata_flush:
  assumes "pata_flush ops port c s = Some s'" and "get w = s"
  shows "pata_flush (lift_ops get put ops) port c w = Some (put s' w)"
  using assms
proof (induction arbitrary: w rule: pata_flush.raw_induct [rotated, consumes 1, case_names step])
  case (step pata_flush ops port c s s')
  show ?case
  proof (cases "c AND 0x80 = 0")
    case True
    then show ?thesis using step by (subst pata_flush.simps) auto
  next
    case False
    obtain c1 s1 where i: "inb ops port s = (c1, s1)" by fastforce
    then have "pata_flush ops port c1 s1 = Some s'" using step(2) False by simp
    from step(1) [OF this, of "put s1 w"] show ?thesis using False i step(3) by (subst pata_flush.simps) simp
  qed
qed

lemma lift_pata_write_sector:
  assumes "pata_write_sector ops (get w) ps dr lba n buf = Some (res, s')"
  shows "pata_write_sector (lift_ops get put ops) w ps dr lba n buf = Some (res, put s' w)"
proof -
  let ?s = "pata_command ops ps dr lba n 0x30 (get w)"
  obtain ok s1 where l: "pata_write_loop ops ps (nat n) buf ?s = Some (ok, s1)"
    using assms by (auto simp: pata_write_sector_def bind_eq_Some_conv)
  obtain c s2 where i: "inb ops (pors ps + 7) (outb ops (pors ps + 7) 0xE7 s1) = (c, s2)" by fastforce
  show ?thesis using assms lift_pata_flush [of ops "pors ps + 7" c s2 s' "put s2 w"]
    by (auto simp: pata_write_sector_def lift_pata_write_loop lift_pata_command l i bind_eq_Some_conv split: if_splits)
qed

lemma lift_pata_device:
  assumes "pata_device ops good img"
  shows "pata_device (lift_ops get put ops) (\<lambda>w. good (get w)) (\<lambda>w. img (get w))"
proof -
  note d = assms [unfolded pata_device_def]
  show ?thesis
  proof (unfold_locales, goal_cases)
    case (1 w ch dr l)
    then show ?case using d by blast
  next
    case (2 w n lba ps dr)
    then obtain s' where "pata_read_sector ops (get w) ps dr lba (int n) =
        (0, concat (map (img (get w) (ps = PRIMARY) dr) [unat lba ..< unat lba + n]), s')" "good s'" "img s' = img (get w)"
      using d by meson
    then show ?case by (simp add: lift_pata_read_sector)
  next
    case (3 w n lba buf ps dr)
    then obtain s' where "pata_write_sector ops (get w) ps dr lba (int n) buf = Some (0, s')" "good s'"
       "img s' = (\<lambda>ch' dr' l. if ch' = (ps = PRIMARY) \<and> dr' = dr \<and> unat lba \<le> l \<and> l < unat lba + n
                                    then take 512 (drop (512 * (l - unat lba)) buf) else img (get w) ch' dr' l)"
      using d by meson
    then show ?case by (intro exI [of _ "put s' w"]) (simp add: lift_pata_write_sector)
  qed
qed

end

definition machine_ops :: "'d port_ops \<Rightarrow> 'd machine port_ops" where
  "machine_ops = lift_ops m_dev (\<lambda>d m. m\<lparr>m_dev := d\<rparr>)"

definition world_ops :: "'d port_ops \<Rightarrow> 'd world port_ops" where
  "world_ops ops = lift_ops w_dev (\<lambda>d w. w\<lparr>w_dev := d\<rparr>) (machine_ops ops)"

definition os_ops :: "'w port_ops \<Rightarrow> 'w os port_ops" where
  "os_ops = lift_ops (\<lambda>s. v_world (os_vfs s)) (\<lambda>w s. s\<lparr>os_vfs := (os_vfs s)\<lparr>v_world := w\<rparr>\<rparr>)"

interpretation mp: part m_dev "\<lambda>d m. m\<lparr>m_dev := d\<rparr>" by unfold_locales simp_all

interpretation wp: part w_dev "\<lambda>d w. w\<lparr>w_dev := d\<rparr>" by unfold_locales simp_all

interpretation op: part "\<lambda>s. v_world (os_vfs s)" "\<lambda>w s. s\<lparr>os_vfs := (os_vfs s)\<lparr>v_world := w\<rparr>\<rparr>" by unfold_locales simp_all

interpretation machine_ata: pata_device "machine_ops ata_ops" "\<lambda>m. ata_good (m_dev m)" "\<lambda>m. at_img (m_dev m)"
  unfolding machine_ops_def by (rule mp.lift_pata_device) (rule ata.pata_device_axioms)

definition kernel_hw :: "'d boot_env \<Rightarrow> 'd world hw" where
  "kernel_hw e = \<lparr>hw_ops = world_ops (be_ops e), hw_acpi = be_acpi e, hw_locals = be_locals e, hw_garbage = be_garbage e,
     hw_century = be_century e, hw_set_now = (\<lambda>now w. w\<lparr>w_now := now\<rparr>)\<rparr>"

section \<open>The keyboard\<close>

definition KEYBOARD_INPUT_PORT :: u16 where "KEYBOARD_INPUT_PORT = 0x60"
definition PS2_PORT :: u16 where "PS2_PORT = 0x64"
definition PS2_COMMAND_ENABLE_FIRST_PORT :: u8 where "PS2_COMMAND_ENABLE_FIRST_PORT = 0xAE"
definition ISR_KEYBOARD_INTERRUPT :: int where "ISR_KEYBOARD_INTERRUPT = 0x21"

lemmas keyboard_consts = KEYBOARD_INPUT_PORT_def PS2_PORT_def PS2_COMMAND_ENABLE_FIRST_PORT_def ISR_KEYBOARD_INTERRUPT_def

definition keys :: "'d world os \<Rightarrow> classic_state" where
  "keys s = m_keys (w_dev (v_world (os_vfs s)))"

definition set_keys :: "classic_state \<Rightarrow> 'd world os \<Rightarrow> 'd world os" where
  "set_keys c s = s\<lparr>os_vfs := (os_vfs s)\<lparr>v_world := (v_world (os_vfs s))\<lparr>w_dev := (w_dev (v_world (os_vfs s)))\<lparr>m_keys := c\<rparr>\<rparr>\<rparr>\<rparr>"

fun perform :: "'w hw \<Rightarrow> key_action \<Rightarrow> 'w os \<Rightarrow> (unit outcome \<times> 'w os) option" where
  "perform hw (Outb port v) s = Some (Returns (), outb (os_ops (hw_ops hw)) port v s)"
| "perform hw ProcessTerminateCurrent s = do { (_, s) \<leftarrow> process_terminate (process_current s) s; Some (Returns (), s) }"
| "perform hw (ProcessFlip pid) s = process_flip (int pid) s"
| "perform hw HideDirectory s = Some (Returns (), hide_directory s)"
| "perform hw ShowDirectory s = do { s \<leftarrow> show_directory s; Some (Returns (), s) }"

fun perform_all :: "'w hw \<Rightarrow> key_action list \<Rightarrow> 'w os \<Rightarrow> (unit outcome \<times> 'w os) option" where
  \<comment> \<open>a flip to another process leaves through \<open>task_return\<close>\<close>
  "perform_all hw [] s = Some (Returns (), s)"
| "perform_all hw (a # as) s = do {
     (r, s) \<leftarrow> perform hw a s;
     case r of Resumes regs \<Rightarrow> Some (Resumes regs, s) | Returns _ \<Rightarrow> perform_all hw as s
   }"

definition os_keyboard_push :: "u8 \<Rightarrow> 'w os \<Rightarrow> 'w os option" where
  "os_keyboard_push c s =
     (let process = process_current s
      in if process = 0 then Some s
         else do {
           kb \<leftarrow> keyboard_push (load_keyboard (os_mem s) process) c;
           Some (put_mem (store_keyboard (os_mem s) process kb) s)
         })"

definition keyboard_interrupt :: "'d world hw \<Rightarrow> 'd world callback" where
  \<comment> \<open>\<open>classic_keyboard_handle_interrupt\<close> on the whole state\<close>
  "keyboard_interrupt hw s = do {
     let s = s\<lparr>os_s := kernel_page (os_s s)\<rparr>;
     let (scancode, s) = inb (os_ops (hw_ops hw)) KEYBOARD_INPUT_PORT s;
     let (_, s) = inb (os_ops (hw_ops hw)) KEYBOARD_INPUT_PORT s;
     let (c, ks, acts) = classic_keyboard_scancode_to_char scancode (keys s);
     (r, s) \<leftarrow> perform_all hw acts (set_keys ks s);
     case r of
       Resumes regs \<Rightarrow> Some (Resumes regs, s)
     | Returns _ \<Rightarrow> do {
         s \<leftarrow> (if c > 0 then os_keyboard_push c s else Some s);
         Some (Returns (), s\<lparr>os_s := task_page (os_s s)\<rparr>)
       }
   }"

definition classic_keyboard :: keyboard where
  "classic_keyboard = Keyboard (Some (\<lambda>_. 0)) (cstr ''Classic'')"

definition classic_keyboard_init :: "'d world hw \<Rightarrow> 'd kernel \<Rightarrow> 'd kernel" where
  "classic_keyboard_init hw k =
     k\<lparr>kn_idt := snd (idt_register_interrupt_callback ISR_KEYBOARD_INTERRUPT (keyboard_interrupt hw) (kn_idt k)),
       kn_os := outb (os_ops (hw_ops hw)) PS2_PORT PS2_COMMAND_ENABLE_FIRST_PORT (kn_os k)\<rparr>"

definition keyboard_init :: "'d world hw \<Rightarrow> 'd kernel \<Rightarrow> 'd kernel" where
  \<comment> \<open>\<open>keyboard_insert(classic_init())\<close>, which calls \<open>classic_keyboard_init\<close>\<close>
  "keyboard_init hw k =
     classic_keyboard_init hw (k\<lparr>kn_keyboards := snd (keyboard_insert (kn_keyboards k) classic_keyboard)\<rparr>)"

section \<open>The boot sequence\<close>

definition panic :: "u8 list \<Rightarrow> 'w os \<Rightarrow> 'a option" where
  \<comment> \<open>the loop behind the message has no end\<close>
  "panic msg s = do { s \<leftarrow> os_print (cstr (''\<newline>KERNEL PANIC (fatal): '')) s; s \<leftarrow> os_print msg s; None }"

definition SERPAEOS_TOTAL_GDT_SEGMENTS :: nat where "SERPAEOS_TOTAL_GDT_SEGMENTS = 6"
definition KERNEL_DATA_SELECTOR :: u32 where "KERNEL_DATA_SELECTOR = 0x10"

definition gdt_structured_table :: "u32 \<Rightarrow> gdt_structured list" where
  \<comment> \<open>the argument is \<open>&tss\<close>\<close>
  "gdt_structured_table tss =
     [\<lparr>gs_base = 0, gs_limit = 0, gs_type = 0\<rparr>,
      \<lparr>gs_base = 0, gs_limit = 0xffffffff, gs_type = 0x9a\<rparr>,
      \<lparr>gs_base = 0, gs_limit = 0xffffffff, gs_type = 0x92\<rparr>,
      \<lparr>gs_base = 0, gs_limit = 0xffffffff, gs_type = 0xf8\<rparr>,
      \<lparr>gs_base = 0, gs_limit = 0xffffffff, gs_type = 0xf2\<rparr>,
      \<lparr>gs_base = tss, gs_limit = sizeof_tss, gs_type = 0xE9\<rparr>]"

definition config_magic :: "u8 list" where
  "config_magic = [0x53, 0x4F, 0x53, 0x3E]"

definition read_config :: "u8 list \<Rightarrow> configeration" where
  \<comment> \<open>the packed structure in 60 bytes\<close>
  "read_config bs = \<lparr>cf_magic = take 4 bs, cf_timezone = sint (load32 (\<lambda>a. bs ! (4 + unat a)) 0), cf_username = take 21 (drop 8 bs),
     cf_password = take 31 (drop 29 bs)\<rparr>"

definition say :: "string \<Rightarrow> 'd kernel \<Rightarrow> 'd kernel option" where
  "say msg k = do { s \<leftarrow> os_print (cstr msg) (kn_os k); Some (k\<lparr>kn_os := s\<rparr>) }"

definition os_resolve :: "'d world os \<Rightarrow> disk \<Rightarrow> (nat option \<times> 'd world os) option" where
  \<comment> \<open>\<open>fs_resolve\<close> with its message, on a disk that stands in the table already\<close>
  "os_resolve s d = do {
     (_, s) \<leftarrow> on_world (\<lambda>w. Some ((), w\<lparr>w_disks := (w_disks w)[nat (dk_id d) := d]\<rparr>)) s;
     (fs, s) \<leftarrow> on_vfs (\<lambda>v. fs_resolve v d) s;
     s \<leftarrow> (if fs = None
          then os_print (cstr ''\<newline>KERNEL ERROR (non fatal): disk filesystem cannot be initiated (is disk partitioned?)'') s
          else Some s);
     Some (fs, s)
   }"

definition in_os :: "('d world os \<Rightarrow> ('a \<times> 'd world os) option) \<Rightarrow> 'd kernel \<Rightarrow> ('a \<times> 'd kernel) option" where
  "in_os f k = do { (x, s) \<leftarrow> f (kn_os k); Some (x, k\<lparr>kn_os := s\<rparr>) }"

definition boot_disks :: "'d boot_env \<Rightarrow> 'd world os \<Rightarrow> (unit \<times> 'd world os) option" where
  \<comment> \<open>\<open>disk_search_and_init()\<close>; afterwards both file layers see the table\<close>
  "boot_disks e s = do {
     (_, s) \<leftarrow> on_world (\<lambda>w. Some ((), w\<lparr>w_disks := replicate SERPAEOS_MAX_DISKS zero_disk\<rparr>)) s;
     (disks, s) \<leftarrow> disk_search_and_init (os_ops (world_ops (be_ops e))) os_resolve (be_buf e) s;
     Some ((), s\<lparr>os_vfs := (os_vfs s)\<lparr>v_disks := disks, v_world := (v_world (os_vfs s))\<lparr>w_disks := disks\<rparr>\<rparr>\<rparr>)
   }"

definition boot_paging :: "'d world os \<Rightarrow> (unit \<times> 'd world os) option" where
  \<comment> \<open>\<open>kernel_chunk = paging_new_4gb(...); paging_switch(kernel_chunk);\<close>\<close>
  "boot_paging s = do {
     (chunk, s) \<leftarrow> on_sched (on_kmem (\<lambda>k. paging_new_4gb k 7)) s;
     let c = (os_s s)\<lparr>kernel_chunk := chunk\<rparr>;
     Some ((), s\<lparr>os_s := c\<lparr>sc_paging := paging_switch (sc_mem c) (sc_paging c) chunk\<rparr>\<rparr>)
   }"

definition load_config :: "'d kernel \<Rightarrow> 'd kernel option" where
  "load_config k = do {
     (config_file, k) \<leftarrow> in_os (os_fopen (cstr ''0:/sys/config/config.dat'') (cstr ''rw'')) k;
     let k = k\<lparr>kn_config_file := config_file\<rparr>;
     if config_file = 0 then panic (cstr ''config file inaccesable!!'') (kn_os k)
     else do {
       (bytes, k) \<leftarrow> in_os (on_vfs (\<lambda>v. do { (_, bytes, v) \<leftarrow> fread v config_file 60; Some (bytes, v) })) k;
       let k = k\<lparr>kn_SOS_config := read_config (bytes @ replicate (60 - length bytes) 0)\<rparr>;
       differs \<leftarrow> memcmp (cf_magic (kn_SOS_config k)) config_magic 4;
       if differs \<noteq> 0
       then do { prog \<leftarrow> strcpy (kn_prog_to_load k) (cstr ''0:/sys/bin/new_usr''); Some (k\<lparr>kn_prog_to_load := prog\<rparr>) }
       else Some k
     }
   }"

definition start_first_process :: "'d boot_env \<Rightarrow> 'd kernel \<Rightarrow> (u32 \<times> 'd kernel) option" where
  "start_first_process e k = do {
     ((res, process), k) \<leftarrow> in_os (\<lambda>s. do {
        (res, process, s) \<leftarrow> process_load_switch (kn_prog_to_load k) 0 0 (be_garbage e) s;
        Some ((res, process), s) }) k;
     if res \<noteq> SERPAEOS_ALL_OK then panic (cstr ''Failed to startup'') (kn_os k)
     else in_os (on_sched task_run_first_ever_task) (k\<lparr>kn_os := put8 (process + process_priv) 1 (kn_os k)\<rparr>)
   }"

definition kernel_init :: "'d boot_env \<Rightarrow> 'd kernel \<Rightarrow> 'd kernel option" where
  \<comment> \<open>\<open>kernel_main\<close> from its start to the call of \<open>keyboard_init\<close>\<close>
  "kernel_init e k = do {
     let hw = kernel_hw e;
     let k = k\<lparr>kn_os := on_term terminal_initialize (kn_os k)\<rparr>;
     k \<leftarrow> say ''GDT initialization...\<newline>'' k;
     gdt \<leftarrow> gdt_structured_to_gdt (gdt_structured_table (be_tss e));
     let k = k\<lparr>kn_gdt := gdt\<rparr>;
     k \<leftarrow> say ''Heap initialization...\<newline>'' k;
     heap \<leftarrow> kheap_init (be_heap_table e);
     let k = k\<lparr>kn_os := (kn_os k)\<lparr>os_s := (os_s (kn_os k))\<lparr>sc_k := (sc_k (os_s (kn_os k)))\<lparr>km_heap := heap\<rparr>\<rparr>\<rparr>\<rparr>;
     k \<leftarrow> say ''Filesystems initialization...\<newline>'' k;
     (_, k) \<leftarrow> in_os (on_vfs (\<lambda>v. do {
        v \<leftarrow> fs_init (fat16_fs (machine_ops (be_ops e))) (fat32_fs (machine_ops (be_ops e))) v; Some ((), v) })) k;
     k \<leftarrow> say ''Disk initialization...\<newline>'' k;
     (_, k) \<leftarrow> in_os (boot_disks e) k;
     k \<leftarrow> say ''IDT initialization...\<newline>'' k;
     t \<leftarrow> idt_init hw (be_interrupts e) (be_isr80h e) (kn_idt k);
     let k = k\<lparr>kn_idt := t\<rparr>;
     k \<leftarrow> say ''TSS initialization'' k;
     let k = k\<lparr>kn_tss := zero_tss\<lparr>tss_esp0 := 0x600000, tss_ss0 := KERNEL_DATA_SELECTOR\<rparr>, kn_tr := 0x28\<rparr>;
     k \<leftarrow> say ''Paging initialization...\<newline>'' k;
     (_, k) \<leftarrow> in_os boot_paging k;
     let k = k\<lparr>kn_paging := True\<rparr>;
     k \<leftarrow> say ''ISR initialization...\<newline>'' k;
     let k = k\<lparr>kn_idt := isr80h_register_commands hw (kn_idt k)\<rparr>;
     k \<leftarrow> say ''Keyboard initialization...\<newline>'' k;
     Some (keyboard_init hw k)
   }"

definition kernel_main :: "'d boot_env \<Rightarrow> 'd kernel \<Rightarrow> (u32 \<times> 'd kernel) option" where
  "kernel_main e k = do {
     let hw = kernel_hw e;
     k \<leftarrow> kernel_init e k;
     k \<leftarrow> say ''Loading configurations...\<newline>'' k;
     k \<leftarrow> load_config k;
     (_, k) \<leftarrow> in_os (\<lambda>s. do {
        (now, s) \<leftarrow> on_world (cmos_read_RTC (hw_ops hw) (hw_century hw) (os_now s)) s;
        (_, s) \<leftarrow> on_world (\<lambda>w. Some ((), hw_set_now hw now w)) s;
        Some ((), s\<lparr>os_now := now\<rparr>) }) k;
     start_first_process e k
   }"

section \<open>The tables after boot\<close>

definition zero_idt :: "'w idt" where
  "zero_idt = \<lparr>idt_descriptors = replicate SERPAEOS_TOTAL_INTERRUPTS \<lparr>offset_1 = 0, selector = 0, idt_zero = 0, type_attr = 0, offset_2 = 0\<rparr>,
     interrupt_callbacks = replicate SERPAEOS_TOTAL_INTERRUPTS None, isr80h_commands = replicate SERPAEOS_MAX_ISR80H_COMMANDS None\<rparr>"

definition handler_address :: "idt_desc \<Rightarrow> u32" where
  \<comment> \<open>where the processor jumps through a gate\<close>
  "handler_address d = ucast (offset_1 d) OR push_bit 16 (ucast (offset_2 d))"

definition gate :: "u32 \<Rightarrow> idt_desc" where
  "gate a = \<lparr>offset_1 = ucast (a AND 0xffff), selector = KERNEL_CODE_SELECTOR, idt_zero = 0, type_attr = 0xEE, offset_2 = ucast (drop_bit 16 a)\<rparr>"

lemma handler_address_gate [simp]: "handler_address (gate a) = a"
proof (rule bit_word_eqI)
  fix n assume "n < LENGTH(32)"
  moreover have "(0xffff :: u32) = mask 16" by (simp add: mask_eq_exp_minus_1)
  ultimately show "bit (handler_address (gate a)) n = bit a n"
    unfolding handler_address_def gate_def by (cases "n < 16") (simp_all only: \<open>0xffff = mask 16\<close>, auto simp: bit_simps)
qed

lemma idt_set_all_effect:
  assumes "i + length as \<le> length (idt_descriptors t)"
  shows "idt_set_all as i t = Some (t\<lparr>idt_descriptors := take i (idt_descriptors t) @ map gate as @ drop (i + length as) (idt_descriptors t)\<rparr>)"
  using assms
proof (induction as arbitrary: i t)
  case (Cons a as)
  let ?ds = "(idt_descriptors t)[i := gate a]"
  have s: "idt_set (int i) a t = Some (t\<lparr>idt_descriptors := ?ds\<rparr>)" using Cons.prems by (simp add: idt_set_def gate_def)
  have "take (Suc i) ?ds @ map gate as @ drop (Suc i + length as) ?ds =
        take i (idt_descriptors t) @ map gate (a # as) @ drop (i + length (a # as)) (idt_descriptors t)"
    using Cons.prems by (simp add: take_Suc_conv_app_nth)
  then show ?case using Cons.IH [of "Suc i" "t\<lparr>idt_descriptors := ?ds\<rparr>"] Cons.prems s by simp
qed simp

lemma register_exceptions_effect:
  assumes "i + n \<le> SERPAEOS_TOTAL_INTERRUPTS" and "length (interrupt_callbacks t) = SERPAEOS_TOTAL_INTERRUPTS"
  shows "register_exceptions n i t = t\<lparr>interrupt_callbacks := take i (interrupt_callbacks t) @ replicate n (Some idt_handle_exception_generic) @
     drop (i + n) (interrupt_callbacks t)\<rparr>"
  using assms
proof (induction n arbitrary: i t)
  case (Suc n)
  let ?cs = "(interrupt_callbacks t)[i := Some idt_handle_exception_generic]"
  have s: "idt_register_interrupt_callback (int i) idt_handle_exception_generic t = (0, t\<lparr>interrupt_callbacks := ?cs\<rparr>)"
    using Suc.prems by (simp add: idt_register_interrupt_callback_def)
  have "take (Suc i) ?cs @ replicate n (Some idt_handle_exception_generic) @ drop (Suc i + n) ?cs =
        take i (interrupt_callbacks t) @ replicate (Suc n) (Some idt_handle_exception_generic) @ drop (i + Suc n) (interrupt_callbacks t)"
    using Suc.prems by (simp add: take_Suc_conv_app_nth)
  then show ?case using Suc.IH [of "Suc i" "t\<lparr>interrupt_callbacks := ?cs\<rparr>"] Suc.prems s by simp
qed simp

lemma register_commands_keeps:
  "idt_descriptors (isr80h_register_commands hw t) = idt_descriptors t"
  "interrupt_callbacks (isr80h_register_commands hw t) = interrupt_callbacks t"
proof -
  have "idt_descriptors (fold (\<lambda>(n, f). isr80h_register_command n f) xs t) = idt_descriptors t \<and>
    interrupt_callbacks (fold (\<lambda>(n, f). isr80h_register_command n f) xs t) = interrupt_callbacks t" for xs
  proof (induction xs arbitrary: t)
    case (Cons x xs)
    then show ?case by (cases x) (simp add: isr80h_register_command_def)
  qed simp
  then show "idt_descriptors (isr80h_register_commands hw t) = idt_descriptors t"
    "interrupt_callbacks (isr80h_register_commands hw t) = interrupt_callbacks t" by (simp_all add: isr80h_register_commands_def)
qed

lemma idt_init_effect:
  assumes "length as = SERPAEOS_TOTAL_INTERRUPTS"
  shows "idt_init hw as w zero_idt = Some (zero_idt\<lparr>idt_descriptors := (map gate as)[0x80 := gate w],
     interrupt_callbacks := replicate 0x20 (Some idt_handle_exception_generic) @ Some (idt_clock hw) # replicate 479 None\<rparr>)"
proof -
  let ?z = "zero_idt :: 'a idt"
  have "idt_set_all as 0 ?z = Some (?z\<lparr>idt_descriptors := map gate as\<rparr>)"
    using idt_set_all_effect [of 0 as ?z] assms by (simp add: zero_idt_def)
  moreover have "idt_set 0x80 w (?z\<lparr>idt_descriptors := map gate as\<rparr>) = Some (?z\<lparr>idt_descriptors := (map gate as)[0x80 := gate w]\<rparr>)"
    using assms by (simp add: idt_set_def gate_def idt_consts)
  moreover have "register_exceptions 0x20 0 (?z\<lparr>idt_descriptors := (map gate as)[0x80 := gate w]\<rparr>) =
     ?z\<lparr>idt_descriptors := (map gate as)[0x80 := gate w], interrupt_callbacks := replicate 0x20 (Some idt_handle_exception_generic) @ replicate 480 None\<rparr>"
    by (subst register_exceptions_effect) (simp_all add: zero_idt_def idt_consts drop_replicate)
  moreover have "(replicate 480 None)[0 := x] = x # replicate 479 None" for x :: "'c option"
    by (simp add: numeral_eq_Suc)
  ultimately show ?thesis using assms
    by (simp add: idt_init_def zero_idt_def idt_register_interrupt_callback_def list_update_append idt_consts)
qed

section \<open>A key on its way to a program\<close>

definition keyboard_bytes :: "keyboard_buffer \<Rightarrow> u8 list" where
  \<comment> \<open>the structure in memory\<close>
  "keyboard_bytes kb = kb_buffer kb @ bytes32 (kb_tail kb) @ bytes32 (kb_head kb)"

lemma store_keyboard_eq:
  assumes "length (kb_buffer kb) = 1024"
  shows "store_keyboard m p kb = store_bytes m (p + process_keyboard) (keyboard_bytes kb)"
  using assms by (simp add: store_keyboard_def keyboard_bytes_def store_bytes_append store32_bytes Let_def add.commute [of 1028])

lemma load_keyboard_eq: "load_keyboard m p = (let bs = load_bytes m (p + process_keyboard) 1032 in
   \<lparr>kb_buffer = take 1024 bs, kb_tail = le32 (take 4 (drop 1024 bs)) 0, kb_head = le32 (drop 1028 bs) 0\<rparr>)"
proof -
  have "load_bytes m b 1032 = load_bytes m b 1024 @ load_bytes m (b + 1024) 4 @ load_bytes m (b + 1028) 4" for b
    using load_bytes_add [of m b 1024 8] load_bytes_add [of m "b + 1024" 4 4] by (simp add: algebra_simps)
  moreover have "length (load_bytes m a n) = n" for a n by (simp add: load_bytes_def)
  ultimately show ?thesis by (simp add: load_keyboard_def load32_load_bytes Let_def SERPAEOS_KEYBOARD_BUFFER_SIZE_def)
qed

lemma load_store_keyboard:
  assumes "length (kb_buffer kb) = 1024"
  shows "load_keyboard (store_keyboard m p kb) p = kb"
proof -
  have l: "length (keyboard_bytes kb) = 1032" using assms by (simp add: keyboard_bytes_def)
  then have "load_bytes (store_keyboard m p kb) (p + process_keyboard) 1032 = keyboard_bytes kb"
    unfolding store_keyboard_eq [OF assms] using load_store_bytes [of "keyboard_bytes kb" m] by simp
  then show ?thesis using assms using le32_bytes32 [of _ "[]"] by (simp add: load_keyboard_eq keyboard_bytes_def Let_def)
qed

lemma keyboard_page:
  assumes "page_base p = p" and "k < 1032"
  shows "page_base (p + process_keyboard + of_nat k) = p + 8192"
proof -
  have "p + process_keyboard + of_nat k = p + 8192 + of_nat (144 + k)" by (simp add: layout)
  moreover have "page_base (p + 8192) = p + 8192" using page_base_add [OF assms(1)] page_base_consts by auto
  ultimately show ?thesis using page_base_offset [of "p + 8192" "144 + k"] assms(2) by (simp only:)
qed

lemma store_keyboard_frame:
  assumes "length (kb_buffer kb) = 1024" and "page_base p = p" and "page_base a \<noteq> p + 8192"
  shows "store_keyboard m p kb a = m a"
proof -
  let ?k = "unat (a - (p + process_keyboard))"
  have "\<not> ?k < 1032"
  proof
    assume "?k < 1032"
    moreover have "p + process_keyboard + of_nat ?k = a" by simp
    ultimately show False using keyboard_page [OF assms(2), of ?k] assms(3) by simp
  qed
  moreover have "length (keyboard_bytes kb) = 1032" using assms(1) by (simp add: keyboard_bytes_def)
  ultimately show ?thesis by (simp add: store_keyboard_eq [OF assms(1)] store_bytes_apply)
qed

lemma load_keyboard_cong:
  assumes "page_base p = p" and "\<And>a. page_base a = p + 8192 \<Longrightarrow> m' a = m a"
  shows "load_keyboard m' p = load_keyboard m p"
proof -
  have "load_bytes m' (p + process_keyboard) 1032 = load_bytes m (p + process_keyboard) 1032"
    using keyboard_page [OF assms(1)] assms(2) by (simp add: load_bytes_def)
  then show ?thesis by (simp add: load_keyboard_eq)
qed


lemma os_ops_keys:
  fixes pops :: "'d port_ops"
  defines "ops \<equiv> os_ops (world_ops pops)"
  shows "os_s (snd (inb ops port s)) = os_s s" "keys (snd (inb ops port s)) = keys s" "os_s (outb ops port v s) = os_s s"
    "keys (outb ops port v s) = keys s" "current_process (snd (inb ops port s)) = current_process s"
    "current_process (outb ops port v s) = current_process s"
    "fst (inb ops port s) = fst (inb pops port (m_dev (w_dev (v_world (os_vfs s)))))"
  by (simp_all add: ops_def os_ops_def world_ops_def machine_ops_def keys_def split: prod.splits)

lemma keyboard_push_effect:
  assumes "current_process s = p" and "p \<noteq> 0" and "page_base p = p" and "c \<noteq> 0"
    and "kb_rep (load_keyboard (os_mem s) p) q" and "length q < 1024"
  obtains m where "os_keyboard_push c s = Some (put_mem m s)" "kb_rep (load_keyboard m p) (q @ [c])"
    "\<forall>a. page_base a \<noteq> p + 8192 \<longrightarrow> m a = os_mem s a"
proof -
  obtain kb where kb: "keyboard_push (load_keyboard (os_mem s) p) c = Some kb" "kb_rep kb (q @ [c])"
    using kb.push_rep [OF assms(5,4,6)] by blast
  then have l: "length (kb_buffer kb) = 1024" by (simp add: kb_rep_def)
  show thesis
    by (rule that [of "store_keyboard (os_mem s) p kb"])
      (use assms kb l in \<open>simp_all add: os_keyboard_push_def process_current_def load_store_keyboard store_keyboard_frame\<close>)
qed

lemma keyboard_interrupt_effect:
  assumes "fst (inb (be_ops e) KEYBOARD_INPUT_PORT (m_dev (w_dev (v_world (os_vfs s))))) = sc"
    and "classic_keyboard_scancode_to_char sc (keys s) = (c, ks, [])" and "c \<noteq> 0"
    and "current_process s = p" and "p \<noteq> 0" and "page_base p = p"
    and "kb_rep (load_keyboard (os_mem s) p) q" and "length q < 1024"
  obtains s' where "keyboard_interrupt (kernel_hw e) s = Some (Returns (), s')" "kb_rep (load_keyboard (os_mem s') p) (q @ [c])" "keys s' = ks"
    "\<forall>a. page_base a \<noteq> p + 8192 \<longrightarrow> os_mem s' a = os_mem s a" "current_task (os_s s') = current_task (os_s s)" "current_process s' = p"
proof -
  let ?ops = "os_ops (hw_ops (kernel_hw e))" and ?k = "s\<lparr>os_s := kernel_page (os_s s)\<rparr>"
  let ?in = "\<lambda>s. inb ?ops KEYBOARD_INPUT_PORT s"
  define s1 where "s1 = set_keys ks (snd (?in (snd (?in ?k))))"
  have ops: "?ops = os_ops (world_ops (be_ops e))" by (simp add: kernel_hw_def)
  have k: "keys ?k = keys s" "os_vfs ?k = os_vfs s" by (simp_all add: keys_def)
  have v: "fst (?in ?k) = sc" "keys (snd (?in (snd (?in ?k)))) = keys s" unfolding ops using assms(1) k by (simp_all add: os_ops_keys)
  have s1: "os_s s1 = kernel_page (os_s s)" "current_process s1 = p" "keys s1 = ks" "os_mem s1 = os_mem s"
    unfolding s1_def ops by (simp_all add: set_keys_def os_ops_keys assms(4)) (simp add: keys_def)
  obtain m where m: "os_keyboard_push c s1 = Some (put_mem m s1)" "kb_rep (load_keyboard m p) (q @ [c])"
      "\<forall>a. page_base a \<noteq> p + 8192 \<longrightarrow> m a = os_mem s1 a"
    using keyboard_push_effect [OF s1(2) assms(5,6,3)] assms(7,8) s1(4) by metis
  define s' where "s' = (put_mem m s1)\<lparr>os_s := task_page (os_s (put_mem m s1))\<rparr>"
  have c: "c > 0" using assms(3) by (simp add: word_gt_0)
  have "keyboard_interrupt (kernel_hw e) s = Some (Returns (), s')"
    using v assms(2) m(1) c unfolding keyboard_interrupt_def Let_def s'_def s1_def by (simp add: case_prod_unfold)
  moreover have "os_mem s' = m" "current_task (os_s s') = current_task (os_s s)" "keys s' = ks" "current_process s' = p"
    using s1 by (simp_all add: s'_def task_page_def task_switch_def Let_def put_mem_def keys_def)
  ultimately show thesis using m(2,3) s1(4) by (intro that [of s']) auto
qed

lemma keyboard_pop_effect:
  assumes "cur_task s \<noteq> 0" and "cur_process s = p" and "page_base p = p" and "kb_rep (load_keyboard (os_mem s) p) (c # q)"
  obtains m where "isr80h_command2_getkey frame s = Some (Returns (scast c), put_mem m s)" "kb_rep (load_keyboard m p) q"
    "\<forall>a. page_base a \<noteq> p + 8192 \<longrightarrow> m a = os_mem s a"
proof -
  obtain kb where kb: "keyboard_pop (load_keyboard (os_mem s) p) = Some (c, kb)" "kb_rep kb q"
    using kb.pop_rep [OF assms(4)] by blast
  then have l: "length (kb_buffer kb) = 1024" by (simp add: kb_rep_def)
  show thesis
    by (rule that [of "store_keyboard (os_mem s) p kb"])
      (use assms kb l in \<open>simp_all add: isr80h_command2_getkey_def os_keyboard_pop_def load_store_keyboard store_keyboard_frame\<close>)
qed

lemma save_state_effect:
  assumes "cur_task s = t" and "t \<noteq> 0" and "page_base t = t"
  obtains s' where "os_save_state frame (s\<lparr>os_s := kernel_page (os_s s)\<rparr>) = Some s'"
    "\<forall>a. page_base a \<noteq> t \<longrightarrow> os_mem s' a = os_mem s a" "fld (os_mem s') t task_process = fld (os_mem s) t task_process"
    "fld (os_mem s') t task_page_directory = fld (os_mem s) t task_page_directory" "fld (os_mem s') t task_ip = i_ip frame"
    "cur_task s' = t" "os_vfs s' = os_vfs s" "current_process s' = current_process s"
proof -
  define c where "c = task_save_state t frame (kernel_page (os_s s))"
  note e = task_save_state_effect [OF assms(3), where frame = frame and c = "kernel_page (os_s s)", folded c_def, simplified]
  show thesis
    by (rule that [of "s\<lparr>os_s := c\<rparr>"])
      (use assms e in \<open>simp_all add: os_save_state_def task_current_save_state_def cur_task_def c_def\<close>)
qed

definition runs :: "'w os \<Rightarrow> u32 \<Rightarrow> u32 \<Rightarrow> bool" where
  \<comment> \<open>the task \<open>t\<close> of the process \<open>p\<close> is the current one and has the keyboard; their structures are blocks of the heap\<close>
  "runs s t p \<longleftrightarrow> cur_task s = t \<and> t \<noteq> 0 \<and> page_base t = t \<and> p \<noteq> 0 \<and> page_base p = p \<and> t \<noteq> p + 8192 \<and>
     fld (os_mem s) t task_process = p \<and> current_process s = p"

section \<open>Properties\<close>

lemma dispatch_table:
  "isr80h_commands (isr80h_register_commands hw (zero_idt\<lparr>idt_descriptors := ds, interrupt_callbacks := cs\<rparr>)) =
     map (\<lambda>n. map_of (isr80h_command_list hw) (int n)) [0 ..< SERPAEOS_MAX_ISR80H_COMMANDS]"
proof (rule nth_equalityI)
  let ?t = "zero_idt\<lparr>idt_descriptors := ds, interrupt_callbacks := cs\<rparr>"
  have l: "length (isr80h_commands ?t) = SERPAEOS_MAX_ISR80H_COMMANDS" by (simp add: zero_idt_def)
  have k: "\<forall>(n, f) \<in> set (isr80h_command_list hw). 0 \<le> n \<and> n < int SERPAEOS_MAX_ISR80H_COMMANDS"
    by (simp add: isr80h_command_list_def idt_consts)
  note e = register_commands_effect [OF l _ k, folded isr80h_register_commands_def]
  have len: "length (isr80h_commands (isr80h_register_commands hw ?t)) = SERPAEOS_MAX_ISR80H_COMMANDS" using e [of 0] by (simp add: idt_consts)
  then show "length (isr80h_commands (isr80h_register_commands hw ?t)) = length (map (\<lambda>n. map_of (isr80h_command_list hw) (int n)) [0 ..< SERPAEOS_MAX_ISR80H_COMMANDS])"
    by simp
  fix i assume "i < length (isr80h_commands (isr80h_register_commands hw ?t))"
  then have "i < SERPAEOS_MAX_ISR80H_COMMANDS" by (simp only: len)
  then show "isr80h_commands (isr80h_register_commands hw ?t) ! i = map (\<lambda>n. map_of (isr80h_command_list hw) (int n)) [0 ..< SERPAEOS_MAX_ISR80H_COMMANDS] ! i"
    using e [of i] by (simp add: zero_idt_def)
qed

lemma boot_segments:
  "\<exists>gdt. gdt_structured_to_gdt (gdt_structured_table tss) = Some gdt \<and> map desc_base gdt = [0, 0, 0, 0, 0, tss] \<and>
     map desc_limit gdt = [0, 0xffffffff, 0xffffffff, 0xffffffff, 0xffffffff, sizeof_tss] \<and> map (\<lambda>d. d ! 5) gdt = [0, 0x9a, 0x92, 0xf8, 0xf2, 0xE9]"
proof -
  have "\<exists>d. encodeGdtEntry \<lparr>gs_base = b, gs_limit = 0xffffffff, gs_type = ty\<rparr> = Some d \<and> desc_base d = b \<and> desc_limit d = 0xffffffff \<and> d ! 5 = ty" for b ty
    using encodeGdtEntry_roundtrip [of "\<lparr>gs_base = b, gs_limit = 0xffffffff, gs_type = ty\<rparr>"] by auto
  from this [of 0 "0x9a"] this [of 0 "0x92"] this [of 0 "0xf8"] this [of 0 "0xf2"]
    encodeGdtEntry_roundtrip [of "\<lparr>gs_base = 0, gs_limit = 0, gs_type = 0\<rparr>"] encodeGdtEntry_roundtrip [of "\<lparr>gs_base = tss, gs_limit = 100, gs_type = 0xE9\<rparr>"]
  show ?thesis by (auto simp: gdt_structured_table_def sizeof_tss_def)
qed

lemma say_os: "say msg k = Some k' \<Longrightarrow> \<exists>s. k' = k\<lparr>kn_os := s\<rparr>"
  by (auto simp: say_def bind_eq_Some_conv)

lemma in_os_os: "in_os f k = Some (x, k') \<Longrightarrow> \<exists>s. k' = k\<lparr>kn_os := s\<rparr>"
  by (auto simp: in_os_def bind_eq_Some_conv)

lemma kernel_init_tables:
  assumes "kernel_init e k = Some k'"
  obtains t gdt s where "gdt_structured_to_gdt (gdt_structured_table (be_tss e)) = Some gdt"
    "idt_init (kernel_hw e) (be_interrupts e) (be_isr80h e) (kn_idt k) = Some t"
    "k' = keyboard_init (kernel_hw e) (k\<lparr>kn_gdt := gdt, kn_tss := zero_tss\<lparr>tss_esp0 := 0x600000, tss_ss0 := KERNEL_DATA_SELECTOR\<rparr>,
       kn_tr := 0x28, kn_paging := True, kn_idt := isr80h_register_commands (kernel_hw e) t, kn_os := s\<rparr>)"
  using assms unfolding kernel_init_def Let_def
  by (clarsimp simp: bind_eq_Some_conv dest!: say_os in_os_os)

lemma keyboard_init_tables:
  assumes "length (interrupt_callbacks (kn_idt k)) = SERPAEOS_TOTAL_INTERRUPTS"
  shows "kn_idt (keyboard_init hw k) = (kn_idt k)\<lparr>interrupt_callbacks := (interrupt_callbacks (kn_idt k))[33 := Some (keyboard_interrupt hw)]\<rparr>"
    "kn_gdt (keyboard_init hw k) = kn_gdt k" "kn_tss (keyboard_init hw k) = kn_tss k" "kn_tr (keyboard_init hw k) = kn_tr k"
    "kn_paging (keyboard_init hw k) = kn_paging k"
  using assms
  by (simp_all add: keyboard_init_def classic_keyboard_init_def idt_register_interrupt_callback_def keyboard_consts idt_consts)

text \<open>C28: the tables of the processor behind the call of \<open>keyboard_init\<close> in \<open>kernel_main\<close>. With the stubs of the assembly part in the pointer
  table and an empty interrupt table to begin with, whenever the boot sequence gets that far every gate is a present interrupt gate in the
  segment of the kernel that user code may raise, every interrupt enters its own stub and 0x80 the system call wrapper; the 32 exceptions end the program, 0x20 is the
  clock, 0x21 the keyboard and no other interrupt has a callback; every system call number has the handler of the list. The code and data segments
  are flat and have the types of kernel and user segments; the task segment is the structure in the kernel, with a limit of one byte more than its
  last, loaded in the task register with the stack of the kernel, and paging is on.\<close>
theorem boot_tables:
  assumes "length (be_interrupts e) = 512" and "kn_idt k = zero_idt" and "kernel_init e k = Some k'"
  shows "map handler_address (idt_descriptors (kn_idt k')) = (be_interrupts e)[0x80 := be_isr80h e] \<and>
     (\<forall>d \<in> set (idt_descriptors (kn_idt k')). selector d = KERNEL_CODE_SELECTOR \<and> idt_zero d = 0 \<and> type_attr d = 0xEE) \<and>
     interrupt_callbacks (kn_idt k') = replicate 0x20 (Some idt_handle_exception_generic) @
        [Some (idt_clock (kernel_hw e)), Some (keyboard_interrupt (kernel_hw e))] @ replicate 478 None \<and>
     isr80h_commands (kn_idt k') = map (\<lambda>n. map_of (isr80h_command_list (kernel_hw e)) (int n)) [0 ..< SERPAEOS_MAX_ISR80H_COMMANDS] \<and>
     map desc_base (kn_gdt k') = [0, 0, 0, 0, 0, be_tss e] \<and>
     map desc_limit (kn_gdt k') = [0, 0xffffffff, 0xffffffff, 0xffffffff, 0xffffffff, sizeof_tss] \<and>
     map (\<lambda>d. d ! 5) (kn_gdt k') = [0, 0x9a, 0x92, 0xf8, 0xf2, 0xE9] \<and>
     kn_tss k' = zero_tss\<lparr>tss_esp0 := 0x600000, tss_ss0 := KERNEL_DATA_SELECTOR\<rparr> \<and> kn_tr k' = 0x28 \<and> kn_paging k'"
proof -
  have *: "(replicate 32 a @ b # replicate 479 c)[33 := d] = replicate 32 a @ [b, d] @ replicate 478 c" for a b c d :: 'c
    by (simp add: list_update_append numeral_eq_Suc)
  let ?hw = "kernel_hw e"
  let ?cs = "replicate 0x20 (Some idt_handle_exception_generic) @ Some (idt_clock ?hw) # replicate 479 None"
  define t where "t = zero_idt\<lparr>idt_descriptors := (map gate (be_interrupts e))[0x80 := gate (be_isr80h e)], interrupt_callbacks := ?cs\<rparr>"
  have "idt_init ?hw (be_interrupts e) (be_isr80h e) (kn_idt k) = Some t"
    unfolding assms(2) t_def by (rule idt_init_effect) (simp add: assms(1) idt_consts)
  with kernel_init_tables [OF assms(3)] obtain gdt s where
    g: "gdt_structured_to_gdt (gdt_structured_table (be_tss e)) = Some gdt"
    and k': "k' = keyboard_init ?hw (k\<lparr>kn_gdt := gdt, kn_tss := zero_tss\<lparr>tss_esp0 := 0x600000, tss_ss0 := KERNEL_DATA_SELECTOR\<rparr>,
       kn_tr := 0x28, kn_paging := True, kn_idt := isr80h_register_commands ?hw t, kn_os := s\<rparr>)"
    by (metis option.inject)
  have len: "length ?cs = SERPAEOS_TOTAL_INTERRUPTS" by (simp add: idt_consts)
  then have i: "kn_idt k' = (isr80h_register_commands ?hw t)\<lparr>interrupt_callbacks := ?cs[33 := Some (keyboard_interrupt ?hw)]\<rparr>"
    and o: "kn_gdt k' = gdt" "kn_tss k' = zero_tss\<lparr>tss_esp0 := 0x600000, tss_ss0 := KERNEL_DATA_SELECTOR\<rparr>" "kn_tr k' = 0x28" "kn_paging k'"
    unfolding k' by (simp_all add: keyboard_init_tables register_commands_keeps t_def)
  have "map handler_address (idt_descriptors (kn_idt k')) = (be_interrupts e)[0x80 := be_isr80h e]"
    by (simp add: i register_commands_keeps t_def map_update comp_def)
  moreover have "\<forall>d \<in> set (idt_descriptors (kn_idt k')). selector d = KERNEL_CODE_SELECTOR \<and> idt_zero d = 0 \<and> type_attr d = 0xEE"
    by (auto simp: i register_commands_keeps t_def gate_def dest!: subsetD [OF set_update_subset_insert])
  moreover have "interrupt_callbacks (kn_idt k') = replicate 0x20 (Some idt_handle_exception_generic) @
        [Some (idt_clock ?hw), Some (keyboard_interrupt ?hw)] @ replicate 478 None"
    unfolding i by (simp add: *)
  moreover have "isr80h_commands (kn_idt k') = map (\<lambda>n. map_of (isr80h_command_list ?hw) (int n)) [0 ..< SERPAEOS_MAX_ISR80H_COMMANDS]"
    unfolding i t_def by (simp add: dispatch_table)
  ultimately show ?thesis using boot_segments [of "be_tss e"] g o by simp
qed

text \<open>C3: a key on its way from the keyboard to the program that reads it. When the keyboard raises its interrupt while a program runs, and the scancode
  stands for a character, the handler behind the interrupt puts it behind the characters that wait in the buffer of the process, saves the
  registers of the task and goes back to its address space; the next \<open>getkey\<close> of the program, again from the trap to the return, gets the character
  that has waited longest. Apart from the task structure and the page of the process structure with the keyboard buffer, memory stays as it was.\<close>
theorem key_reaches_program:
  assumes "rd (interrupt_callbacks t) 0x21 = Some (Some (keyboard_interrupt (kernel_hw e)))" and "rd (isr80h_commands t) 2 = Some (Some isr80h_command2_getkey)"
    and "runs s tk p" and "kb_rep (load_keyboard (os_mem s) p) q" and "length q < 1024"
    and "fst (inb (be_ops e) KEYBOARD_INPUT_PORT (m_dev (w_dev (v_world (os_vfs s))))) = sc"
    and "classic_keyboard_scancode_to_char sc (keys s) = (c, ks, [])" and "c \<noteq> 0"
  shows "\<exists>s1 s2. interrupt_handler (kernel_hw e) t 0x21 frame s = Some (Returns (), s1) \<and>
     kb_rep (load_keyboard (os_mem s1) p) (q @ [c]) \<and> keys s1 = ks \<and> fld (os_mem s1) tk task_ip = i_ip frame \<and>
     cr3 (sc_paging (os_s s1)) = load32 (os_mem s1) (fld (os_mem s) tk task_page_directory) \<and>
     isr80h_handler t 2 frame' s1 = Some (Returns (scast (hd (q @ [c]))), s2) \<and>
     kb_rep (load_keyboard (os_mem s2) p) (tl (q @ [c])) \<and>
     (\<forall>a. page_base a \<notin> {tk, p + 8192} \<longrightarrow> os_mem s2 a = os_mem s a)"
proof -
  let ?hw = "kernel_hw e"
  have r: "cur_task s = tk" "tk \<noteq> 0" "page_base tk = tk" "p \<noteq> 0" "page_base p = p" "tk \<noteq> p + 8192" "fld (os_mem s) tk task_process = p"
    "current_process s = p" using assms(3) by (simp_all add: runs_def)
  obtain s0 where s0: "os_save_state frame (s\<lparr>os_s := kernel_page (os_s s)\<rparr>) = Some s0" "\<forall>a. page_base a \<noteq> tk \<longrightarrow> os_mem s0 a = os_mem s a"
    "fld (os_mem s0) tk task_process = fld (os_mem s) tk task_process"
    "fld (os_mem s0) tk task_page_directory = fld (os_mem s) tk task_page_directory" "fld (os_mem s0) tk task_ip = i_ip frame"
    "cur_task s0 = tk" "os_vfs s0 = os_vfs s" "current_process s0 = current_process s" by (rule save_state_effect [OF r(1-3)])
  have kb0: "kb_rep (load_keyboard (os_mem s0) p) q" using load_keyboard_cong [OF r(5), of "os_mem s0" "os_mem s"] s0(2) r(6) assms(4) by simp
  have "classic_keyboard_scancode_to_char sc (keys s0) = (c, ks, [])" using assms(7) s0(7) by (simp add: keys_def)
  then obtain s' where s': "keyboard_interrupt ?hw s0 = Some (Returns (), s')" "kb_rep (load_keyboard (os_mem s') p) (q @ [c])" "keys s' = ks"
    "\<forall>a. page_base a \<noteq> p + 8192 \<longrightarrow> os_mem s' a = os_mem s0 a" "current_task (os_s s') = current_task (os_s s0)" "current_process s' = p"
    using keyboard_interrupt_effect [of e s0 sc c ks p q] assms(5,6,8) s0(7,8) r kb0 by metis
  define s1 where "s1 = outb_eoi ?hw (s'\<lparr>os_s := task_page (os_s s')\<rparr>)"
  have run: "interrupt_handler ?hw t 0x21 frame s = Some (Returns (), s1)"
    using assms(1) s0(1) s'(1) by (simp add: interrupt_handler_def s1_def)
  have tk: "current_task (os_s s') = tk" using s'(5) s0(6) by (simp add: cur_task_def)
  have f: "fld (os_mem s') tk j = fld (os_mem s0) tk j" if "j < 1024" for j
    using fld_cong [OF r(3) that, of "os_mem s'" "os_mem s0"] s'(4) r(6) by simp
  have s1: "os_mem s1 = os_mem s'" "cur_task s1 = tk" "keys s1 = ks" "current_process s1 = p"
    "cr3 (sc_paging (os_s s1)) = load32 (os_mem s1) (fld (os_mem s1) tk task_page_directory)"
    using tk s'(3,6)
    by (simp_all add: s1_def outb_eoi_def task_page_def task_switch_def paging_switch_def Let_def cur_task_def keys_def kernel_hw_def
        world_ops_def machine_ops_def)
  have fs: "fld (os_mem s1) tk task_process = p" "fld (os_mem s1) tk task_ip = i_ip frame"
    "fld (os_mem s1) tk task_page_directory = fld (os_mem s) tk task_page_directory"
    using f s0(3-5) r(7) by (simp_all add: s1(1) layout)
  obtain s2 where s2: "os_save_state frame' (s1\<lparr>os_s := kernel_page (os_s s1)\<rparr>) = Some s2" "\<forall>a. page_base a \<noteq> tk \<longrightarrow> os_mem s2 a = os_mem s1 a"
    "fld (os_mem s2) tk task_process = fld (os_mem s1) tk task_process" "cur_task s2 = tk"
    by (rule save_state_effect [OF s1(2) r(2,3), of frame'])
  have "kb_rep (load_keyboard (os_mem s2) p) (hd (q @ [c]) # tl (q @ [c]))"
    using load_keyboard_cong [OF r(5), of "os_mem s2" "os_mem s1"] s2(2) r(6) s'(2) s1(1) by simp
  moreover have "cur_process s2 = p" using s2(3,4) fs(1) by (simp add: cur_process_def)
  ultimately obtain m where m: "isr80h_command2_getkey frame' s2 = Some (Returns (scast (hd (q @ [c]))), put_mem m s2)"
    "kb_rep (load_keyboard m p) (tl (q @ [c]))" "\<forall>a. page_base a \<noteq> p + 8192 \<longrightarrow> m a = os_mem s2 a"
    using keyboard_pop_effect [of s2 p] s2(4) r(2,5) by metis
  define s3 where "s3 = (put_mem m s2)\<lparr>os_s := task_page (os_s (put_mem m s2))\<rparr>"
  have "isr80h_handler t 2 frame' s1 = Some (Returns (scast (hd (q @ [c]))), s3)"
    using s2(1) m(1) by (simp add: isr80h_handler_def isr80h_handle_command_def idt_consts assms(2) s3_def)
  moreover have "os_mem s3 = m" by (simp add: s3_def task_page_def task_switch_def Let_def)
  moreover have "m a = os_mem s a" if "page_base a \<notin> {tk, p + 8192}" for a using that m(3) s2(2) s1(1) s'(4) s0(2) by simp
  ultimately show ?thesis using run s'(2) s1 fs m(2) by (intro exI [of _ s1] exI [of _ s3]) simp
qed

definition demo_ports :: "u8 \<Rightarrow> unit port_ops" where
  "demo_ports sc = \<lparr>outb = \<lambda>_ _ d. d, inb = \<lambda>port d. (if port = 0x60 then sc else 0, d), inw = \<lambda>_ d. (0, d), outw = \<lambda>_ _ d. d\<rparr>"

definition demo_env :: "u8 \<Rightarrow> unit boot_env" where
  "demo_env sc = \<lparr>be_ops = demo_ports sc, be_acpi = zero_acpi, be_locals = 0x5FF000, be_garbage = 0, be_century = 0, be_tss = 0x10D000,
     be_interrupts = map (\<lambda>i. 0x100000 + 16 * of_nat i) [0 ..< 512], be_isr80h = 0x103000, be_heap_table = [], be_buf = []\<rparr>"

definition demo_world :: "unit world" where
  "demo_world = \<lparr>w_dev = \<lparr>m_dev = (), m_keys = no_keys\<rparr>, w_disks = [], w_now = demo_date, w_volumes = (\<lambda>_. None), w_open = (\<lambda>_. None)\<rparr>"

definition demo_running :: "unit world os" where
  \<comment> \<open>a process at \<open>0x1000000\<close> with its task at \<open>0x1003000\<close>\<close>
  "demo_running = (let k = \<lparr>km_heap = demo_heap (replicate 4 0x41 @ replicate 40 0), km_mem = store32 (\<lambda>_. 0) (slot 0x1003000 task_process) 0x1000000\<rparr>
     in \<lparr>os_s = os_s (demo_os k),
         os_vfs = \<lparr>v_k = k, v_world = demo_world, v_filesystems = [], v_descs = [], v_disks = []\<rparr>, os_term = os_term (demo_os k),
         current_process = 0x1000000, processes = replicate 50 0, ret_codes = replicate 13 0, directory_screen_x = 0, directory_screen_y = 0,
         directory_screen_video = [], directory_screen_is_current = False, os_now = demo_date, os_text = []\<rparr>)"

lemma demo_running_parts:
  "runs demo_running 0x1003000 0x1000000" "kb_rep (load_keyboard (os_mem demo_running) 0x1000000) []"
  "keys demo_running = no_keys"
proof -
  let ?m = "os_mem demo_running"
  have m: "?m = store32 (\<lambda>_. 0) (slot 0x1003000 task_process) 0x1000000" by (simp add: demo_running_def demo_os_def Let_def)
  have b: "page_base 0x1003000 = 0x1003000" "page_base 0x1000000 = 0x1000000" by (simp_all add: page_base_def)
  have "fld ?m 0x1003000 task_process = 0x1000000" by (simp add: m fld_def load32_store32_same)
  then show "runs demo_running 0x1003000 0x1000000" using b
    by (simp add: runs_def cur_task_def) (simp add: demo_running_def demo_os_def Let_def)
  have "?m a = 0" if "page_base a = 0x1000000 + 8192" for a
  proof -
    have "a \<noteq> slot 0x1003000 task_process + of_nat c" if "c < 4" for c
      using page_base_offset [OF b(1), of "52 + c"] that \<open>page_base a = _\<close> by (auto simp: layout)
    from this [of 0] this [of 1] this [of 2] this [of 3] show ?thesis by (simp add: m store32_def)
  qed
  then have "load_keyboard ?m 0x1000000 = load_keyboard (\<lambda>_. 0) 0x1000000" by (intro load_keyboard_cong [OF b(2)]) simp
  moreover have "load_keyboard (\<lambda>_. 0) 0x1000000 = fresh_buffer 0"
    by (simp add: load_keyboard_def fresh_buffer_def load_bytes_def load32_def SERPAEOS_KEYBOARD_BUFFER_SIZE_def map_replicate_const)
  ultimately show "kb_rep (load_keyboard ?m 0x1000000) []" using fresh_buffer_rep by simp
  show "keys demo_running = no_keys" by (simp add: keys_def demo_running_def demo_world_def Let_def)
qed

definition demo_kernel :: "unit kernel" where
  "demo_kernel = \<lparr>kn_os = demo_running, kn_idt = zero_idt, kn_gdt = [], kn_tss = zero_tss, kn_tr = 0, kn_paging = False, kn_keyboards = [],
     kn_config_file = 0, kn_SOS_config = read_config (replicate 60 0), kn_prog_to_load = cstr ''0:/sys/bin/shell.elf'' @ replicate 4 0\<rparr>"

section \<open>Boot on a machine without drives\<close>

text \<open>The search for drives ends when no device answers: every transfer times out, and neither file system accepts a disk.\<close>

definition silent :: "'s port_ops \<Rightarrow> bool" where
  \<comment> \<open>no device answers: every port but that of the keyboard reads 0, and nothing is changed\<close>
  "silent ops \<longleftrightarrow> (\<forall>port v s. outb ops port v s = s) \<and> (\<forall>port s. port \<noteq> 0x60 \<longrightarrow> inb ops port s = (0, s))"

lemma silent_machine: "silent ops \<Longrightarrow> silent (machine_ops ops)"
  by (simp add: silent_def machine_ops_def)

lemma silent_os: "silent ops \<Longrightarrow> silent (os_ops (world_ops ops))"
  using silent_machine [of ops] by (simp add: silent_def os_ops_def world_ops_def)

lemma silent_wait: "silent ops \<Longrightarrow> port \<noteq> 0x60 \<Longrightarrow> pata_wait ops port n 0 s = (False, s)"
  by (induction n) (simp_all add: silent_def)

lemma pors_not_keyboard: "pors ps + 6 \<noteq> 0x60" "pors ps + 7 \<noteq> 0x60"
  by (simp_all add: pors_def)

lemma silent_read_block: 
  assumes "silent ops"
  shows "\<exists>r. disk_read_block ops s d lba 1 = (r, [], s) \<and> r < 0"
proof -
  have "pata_command ops ps dr l n c s = s" for ps dr l n c using assms by (simp add: pata_command_def silent_def Let_def)
  moreover have "inb ops (pors ps + 7) s = (0, s)" for ps using assms pors_not_keyboard by (simp add: silent_def)
  ultimately show ?thesis using silent_wait [OF assms pors_not_keyboard(2)]
    by (simp add: disk_read_block_def pata_read_sector_def status_simps)
qed

lemma silent_stream_read:
  assumes "silent ops"
  shows "\<exists>r. diskstreamer_read ops s st n = Some (r, [], st, s) \<and> r < 0"
  using silent_read_block [OF assms, of s "ds_disk st" "word_of_int (ds_pos st sdiv 512)"]
  by (subst diskstreamer_read.simps) (auto simp: Let_def)

lemma silent_identify:
  assumes "silent ops"
  shows "ata_identify ops s ms ps buf = Some (- ENODISKSPACE, buf, s)"
proof -
  have "outb_range ops port n s = s" for port n using assms by (induction n arbitrary: port) (simp_all add: silent_def)
  moreover have "inb ops (pors ps + 7) s = (0, s)" using assms pors_not_keyboard by (simp add: silent_def)
  ultimately show ?thesis using assms by (simp add: ata_identify_def silent_def Let_def)
qed

lemma new_stream:
  assumes "kinv k" and "0 < kroom k" and "disk_get disks i = Some (Some d)"
  obtains a k' where "diskstreamer_new k disks i = Some (Some \<lparr>ds_addr = a, ds_pos = 0, ds_disk = d\<rparr>, k')" "kinv k'"
    "kpages k' = insert a (kpages k)" "Suc (kroom k') = kroom k" "a \<notin> kpages k"
proof -
  have sz: "0 < unat (8 :: u32)" "unat (8 :: u32) \<le> 4096" by simp_all
  from kh.alloc_page [OF assms(1,2) sz] obtain a k' where "kzalloc k 8 = Some (a, k')" "a \<noteq> 0" "a \<notin> kused k" "kinv k'"
    "kpages k' = insert a (kpages k)" "Suc (kroom k') = kroom k" by blast
  with that [of a k'] assms(3) kh.pages_used [of k] show thesis by (auto simp: diskstreamer_new_def)
qed

lemma private_streams:
  assumes "kinv k" and "3 < kroom k" and "disk_get disks i = Some (Some d)"
  obtains s1 k1 s2 k2 s3 k3 where "diskstreamer_new k disks i = Some (Some s1, k1)" "diskstreamer_new k1 disks i = Some (Some s2, k2)"
    "diskstreamer_new k2 disks i = Some (Some s3, k3)" "kinv k3" "kpages k \<subseteq> kpages k3" "kroom k3 + 3 = kroom k"
proof -
  have r: "0 < kroom k" using assms(2) by simp
  obtain a1 k1 where 1: "diskstreamer_new k disks i = Some (Some \<lparr>ds_addr = a1, ds_pos = 0, ds_disk = d\<rparr>, k1)" "kinv k1"
    "kpages k1 = insert a1 (kpages k)" "Suc (kroom k1) = kroom k" using new_stream [OF assms(1) r assms(3)] .
  have r1: "0 < kroom k1" using assms(2) 1(4) by simp
  obtain a2 k2 where 2: "diskstreamer_new k1 disks i = Some (Some \<lparr>ds_addr = a2, ds_pos = 0, ds_disk = d\<rparr>, k2)" "kinv k2"
    "kpages k2 = insert a2 (kpages k1)" "Suc (kroom k2) = kroom k1" using new_stream [OF 1(2) r1 assms(3)] .
  have r2: "0 < kroom k2" using assms(2) 1(4) 2(4) by simp
  obtain a3 k3 where 3: "diskstreamer_new k2 disks i = Some (Some \<lparr>ds_addr = a3, ds_pos = 0, ds_disk = d\<rparr>, k3)" "kinv k3"
    "kpages k3 = insert a3 (kpages k2)" "Suc (kroom k3) = kroom k2" using new_stream [OF 2(2) r2 assms(3)] .
  show thesis by (rule that [OF 1(1) 2(1) 3(1,2)]) (use 1 2 3 in auto)
qed

lemma resolve_setup:
  \<comment> \<open>the allocations of either \<open>resolve\<close>, and the two releases with which it gives up\<close>
  assumes "kinv k" and "5 \<le> kroom k" and "disk_get disks i = Some (Some d)" and "0 < unat sz" and "unat sz \<le> 4096"
  obtains a k0 s1 k1 s2 k2 s3 k3 st k4 k5 k6 where "kzalloc k sz = Some (a, k0)" "a \<noteq> 0" "diskstreamer_new k0 disks i = Some (Some s1, k1)"
    "diskstreamer_new k1 disks i = Some (Some s2, k2)" "diskstreamer_new k2 disks i = Some (Some s3, k3)"
    "diskstreamer_new k3 disks i = Some (Some st, k4)" "diskstreamer_close k4 st = Some k5" "kfree k5 a = Some k6" "kinv k6" "kroom k \<le> kroom k6 + 3"
proof -
  have r: "0 < kroom k" using assms(2) by simp
  from kh.alloc_page [OF assms(1) r assms(4,5)] obtain a k0 where 0: "kzalloc k sz = Some (a, k0)" "a \<noteq> 0" "kinv k0"
    "kpages k0 = insert a (kpages k)" "Suc (kroom k0) = kroom k" by blast
  have r0: "3 < kroom k0" using 0(5) assms(2) by simp
  obtain s1 k1 s2 k2 s3 k3 where 1: "diskstreamer_new k0 disks i = Some (Some s1, k1)" "diskstreamer_new k1 disks i = Some (Some s2, k2)"
    "diskstreamer_new k2 disks i = Some (Some s3, k3)" "kinv k3" "kpages k0 \<subseteq> kpages k3" "kroom k3 + 3 = kroom k0"
    using private_streams [OF 0(3) r0 assms(3)] .
  have r3: "0 < kroom k3" using 1(6) r0 by simp
  obtain b k4 where 4: "diskstreamer_new k3 disks i = Some (Some \<lparr>ds_addr = b, ds_pos = 0, ds_disk = d\<rparr>, k4)" "kinv k4"
    "kpages k4 = insert b (kpages k3)" "Suc (kroom k4) = kroom k3" "b \<notin> kpages k3" using new_stream [OF 1(4) r3 assms(3)] .
  have "b \<in> kpages k4" using 4(3) by simp
  from kh.free_page [OF 4(2) this] obtain k5 where 5: "kfree k4 b = Some k5" "kinv k5" "kpages k5 = kpages k4 - {b}" "kroom k5 = Suc (kroom k4)" by blast
  have "a \<in> kpages k5" using 0(4) 1(5) 4(3,5) 5(3) by auto
  from kh.free_page [OF 5(2) this] obtain k6 where 6: "kfree k5 a = Some k6" "kinv k6" "kroom k6 = Suc (kroom k5)" by blast
  show thesis by (rule that [OF 0(1,2) 1(1-3) 4(1) _ 6(1,2)]) (use 0 1 4 5 6 in \<open>simp_all add: diskstreamer_close_def\<close>)
qed

lemma silent_resolve16:
  assumes "silent ops" and "kinv k" and "5 \<le> kroom k" and "disk_get disks (dk_id d) = Some (Some d')"
  obtains k' where "fat16_resolve ops disks d dev k = Some (- EIO, None, dev, k')" "kinv k'" "kroom k \<le> kroom k' + 3"
proof -
  have sz: "0 < unat (92 :: u32)" "unat (92 :: u32) \<le> 4096" by simp_all
  obtain a k0 s1 k1 s2 k2 s3 k3 st k4 k5 k6 where s: "kzalloc k 92 = Some (a, k0)" "a \<noteq> 0" "diskstreamer_new k0 disks (dk_id d) = Some (Some s1, k1)"
    "diskstreamer_new k1 disks (dk_id d) = Some (Some s2, k2)" "diskstreamer_new k2 disks (dk_id d) = Some (Some s3, k3)"
    "diskstreamer_new k3 disks (dk_id d) = Some (Some st, k4)" "diskstreamer_close k4 st = Some k5" "kfree k5 a = Some k6" "kinv k6" "kroom k \<le> kroom k6 + 3"
    using resolve_setup [OF assms(2-4) sz] .
  obtain r where "diskstreamer_read ops dev st 62 = Some (r, [], st, dev)" "r < 0" using silent_stream_read [OF assms(1)] by blast
  with s show thesis by (intro that [of k6]) (simp_all add: fat16_resolve_def fat16_init_private_def status_simps SERPAEOS_ALL_OK_def)
qed

lemma silent_resolve32:
  assumes "silent ops" and "kinv k" and "5 \<le> kroom k" and "disk_get disks (dk_id d) = Some (Some d')"
  obtains k' where "fat32_resolve ops disks d dev k = Some (- EIO, None, dev, k')" "kinv k'" "kroom k \<le> kroom k' + 3"
proof -
  have sz: "0 < unat (620 :: u32)" "unat (620 :: u32) \<le> 4096" by simp_all
  obtain a k0 s1 k1 s2 k2 s3 k3 st k4 k5 k6 where s: "kzalloc k 620 = Some (a, k0)" "a \<noteq> 0" "diskstreamer_new k0 disks (dk_id d) = Some (Some s1, k1)"
    "diskstreamer_new k1 disks (dk_id d) = Some (Some s2, k2)" "diskstreamer_new k2 disks (dk_id d) = Some (Some s3, k3)"
    "diskstreamer_new k3 disks (dk_id d) = Some (Some st, k4)" "diskstreamer_close k4 st = Some k5" "kfree k5 a = Some k6" "kinv k6" "kroom k \<le> kroom k6 + 3"
    using resolve_setup [OF assms(2-4) sz] .
  obtain r where "diskstreamer_read ops dev st 90 = Some (r, [], st, dev)" "r < 0" using silent_stream_read [OF assms(1)] by blast
  with s show thesis by (intro that [of k6]) (simp_all add: fat32_resolve_def fat32_init_private_def read_volume32_def status_simps SERPAEOS_ALL_OK_def Let_def)
qed

lemma strlen_literal: "\<exists>n. strlen (xs @ [0]) = Some n"
  by (induction xs) auto

lemma os_print_keeps:
  obtains s' where "os_print (cstr msg) s = Some s'" "km_heap (sc_k (os_s s')) = km_heap (sc_k (os_s s))" "os_vfs s' = os_vfs s"
proof -
  obtain n where "strlen (cstr msg) = Some n" using strlen_literal unfolding cstr_def by blast
  then obtain t where "print (cstr msg) ((os_term s)\<lparr>t_mem := os_mem s\<rparr>) = Some t" by (simp add: print_def)
  then show thesis by (intro that [of "on_term (\<lambda>_. t) s"]) (simp_all add: os_print_def on_term_def put_mem_def)
qed

definition searching :: "'d boot_env \<Rightarrow> nat \<Rightarrow> 'd world os \<Rightarrow> bool" where
  \<comment> \<open>the heap has so many blocks left, and both file systems are entered\<close>
  "searching e n s \<longleftrightarrow> kinv (sc_k (os_s s)) \<and> n \<le> kroom (sc_k (os_s s)) \<and>
     v_filesystems (os_vfs s) = Some (fat16_fs (machine_ops (be_ops e))) # Some (fat32_fs (machine_ops (be_ops e))) # replicate 10 None \<and>
     length (w_disks (v_world (os_vfs s))) = SERPAEOS_MAX_DISKS"

lemma resolve_none: "fs_resolve_loop (replicate n None) i d w = Some (None, w)"
  by (induction n arbitrary: i) simp_all

lemma silent_fs_resolve:
  assumes "silent ops" and "kinv k" and "10 \<le> kroom k" and "disk_get (w_disks w) (dk_id d) = Some (Some d')"
  obtains k' w' where "fs_resolve_loop (Some (fat16_fs ops) # Some (fat32_fs ops) # replicate n None) 0 d (k, w) = Some (None, k', w')"
    "kinv k'" "kroom k \<le> kroom k' + 6" "w_disks w' = w_disks w"
proof -
  have r: "5 \<le> kroom k" using assms(3) by simp
  obtain k1 where 1: "fat16_resolve ops (w_disks w) d (w_dev w) k = Some (- EIO, None, w_dev w, k1)" "kinv k1" "kroom k \<le> kroom k1 + 3"
    using silent_resolve16 [OF assms(1,2) r assms(4)] .
  have r1: "5 \<le> kroom k1" using 1(3) assms(3) by simp
  obtain k2 where 2: "fat32_resolve ops (w_disks w) d (w_dev w) k1 = Some (- EIO, None, w_dev w, k2)" "kinv k2" "kroom k1 \<le> kroom k2 + 3"
    using silent_resolve32 [OF assms(1) 1(2) r1 assms(4)] .
  show thesis by (rule that [of k2 "w\<lparr>w_volumes := (w_volumes w)(dk_id d := None)\<rparr>"]) (use 1 2 in \<open>simp_all add: fat16_fs_def fat32_fs_def resolve_none status_simps\<close>)
qed

lemma silent_os_resolve:
  assumes "silent (be_ops e)" and "searching e (n + 10) s" and "0 \<le> dk_id d" and "dk_id d < 13" and "dk_dev d \<noteq> 0"
  obtains s' where "os_resolve s d = Some (None, s')" "searching e n s'"
proof -
  let ?w = "v_world (os_vfs s)"
  let ?w1 = "?w\<lparr>w_disks := (w_disks ?w)[nat (dk_id d) := d]\<rparr>" and ?k = "sc_k (os_s s)"
  have q: "kinv ?k" "n + 10 \<le> kroom ?k" "length (w_disks ?w) = 13"
    "v_filesystems (os_vfs s) = Some (fat16_fs (machine_ops (be_ops e))) # Some (fat32_fs (machine_ops (be_ops e))) # replicate 10 None"
    using assms(2) by (simp_all add: searching_def disk_consts)
  have r: "10 \<le> kroom ?k" using q(2) by simp
  have i: "nat (dk_id d) < 13" using assms(3,4) by simp
  have "disk_get (w_disks ?w1) (dk_id d) = Some (Some d)"
    using assms(3-5) i q(3) by (simp add: disk_get_def disk_consts rd_def)
  from silent_fs_resolve [OF silent_machine [OF assms(1)] q(1) r this, where n = 10]
  obtain k' w' where f: "fs_resolve_loop (v_filesystems (os_vfs s)) 0 d (?k, ?w1) = Some (None, k', w')"
    "kinv k'" "kroom ?k \<le> kroom k' + 6" "w_disks w' = w_disks ?w1" unfolding q(4) by blast
  let ?s1 = "s\<lparr>os_vfs := (os_vfs s)\<lparr>v_k := k', v_world := w'\<rparr>, os_s := (os_s s)\<lparr>sc_k := k'\<rparr>\<rparr>"
  obtain s' where s': "os_print (cstr ''\<newline>KERNEL ERROR (non fatal): disk filesystem cannot be initiated (is disk partitioned?)'') ?s1 = Some s'"
    "km_heap (sc_k (os_s s')) = km_heap (sc_k (os_s ?s1))" "os_vfs s' = os_vfs ?s1" using os_print_keeps .
  have "os_resolve s d = Some (None, s')"
    using f(1) s'(1) by (simp add: os_resolve_def on_world_def on_vfs_def fs_resolve_def)
  moreover have "searching e n s'" using q f(2-4) heap_view(1,4) [OF s'(2)] by (simp add: searching_def s'(3) disk_consts)
  ultimately show thesis by (rule that)
qed

lemma silent_init_disk:
  assumes "silent (be_ops e)" and "searching e (n + 10) s" and "i < 13" and "length disks = 13" and "dk_dev (disks ! i) \<noteq> 0"
  obtains d s' where "init_disk os_resolve disks i ps ms s = Some (disks[i := d], s')" "searching e n s'" "dk_filesystem d = None" "dk_dev d = dk_dev (disks ! i)"
proof -
  let ?d = "(disks ! i)\<lparr>dk_id := int i, dk_primary_secondary := ps, dk_master_slave := ms,
               dk_sector_size := (if dk_dev (disks ! i) = 3 \<or> dk_dev (disks ! i) = 4 then 512 else 2048)\<rparr>"
  have "0 \<le> dk_id ?d" "dk_id ?d < 13" "dk_dev ?d \<noteq> 0" using assms(3,5) by simp_all
  from silent_os_resolve [OF assms(1,2) this] obtain s' where "os_resolve s ?d = Some (None, s')" "searching e n s'" .
  with assms(3,4) show thesis by (intro that [of "?d\<lparr>dk_filesystem := None\<rparr>" s']) (simp_all add: init_disk_def rd_def wr_def Let_def)
qed

lemma no_partitions:
  "length bs = 512 \<Longrightarrow> set bs \<subseteq> {0} \<Longrightarrow> i + n \<le> 4 \<Longrightarrow> probe_partitions r bs tmp ps ms n i off disks u s = Some (disks, u, s)"
proof (induction n arbitrary: i)
  case (Suc n)
  have "rd bs j = Some 0" if "j < 512" for j using that Suc.prems(1) subsetD [OF Suc.prems(2) nth_mem, of j] by (simp add: rd_def)
  then have "bootsect_u32 bs (0x1BE + 16 * i + 12) = Some 0" using Suc.prems(3) by (simp add: bootsect_u32_def)
  then show ?case using Suc by simp
qed simp

lemma silent_probe:
  assumes "silent (be_ops e)" and "searching e (n + 10) s" and "Suc off < 13" and "length disks = 13" and "length buf = 512" and "set buf \<subseteq> {0}"
  obtains disks' s' where "probe_drive (os_ops (world_ops (be_ops e))) os_resolve ps ms (disks, off, buf, s) = Some (disks', Suc off, buf, s')"
    "searching e n s'" "length disks' = 13"
proof -
  let ?ops = "os_ops (world_ops (be_ops e))"
  let ?ds = "disks[Suc off := (disks ! Suc off)\<lparr>dk_dev := word_of_int (- ENODISKSPACE)\<rparr>]"
  have nz: "(word_of_int (- ENODISKSPACE) :: u32) \<noteq> 0" "\<not> (word_of_int (- ENODISKSPACE) :: u32) \<le> 0" by (simp_all add: status_simps)
  have "dk_dev (?ds ! Suc off) \<noteq> 0" "length ?ds = 13" using assms(3,4) nz by simp_all
  then obtain d s1 where i: "init_disk os_resolve ?ds (Suc off) ps ms s = Some (?ds[Suc off := d], s1)" "searching e n s1" "dk_filesystem d = None"
    using silent_init_disk [OF assms(1,2,3)] by metis
  obtain r where b: "disk_read_block ?ops s1 d 0 1 = (r, [], s1)" using silent_read_block [OF silent_os [OF assms(1)]] by blast
  have "probe_drive ?ops os_resolve ps ms (disks, off, buf, s) = Some (?ds[Suc off := d], Suc off, buf, s1)"
    using i b nz assms(3,4)
    by (simp add: no_partitions [OF assms(5,6)] probe_drive_def silent_identify [OF silent_os [OF assms(1)]] upd_disk_def rd_def wr_def Let_def)
  then show thesis by (rule that) (use i assms(4) in simp_all)
qed

lemma silent_search:
  assumes "silent (be_ops e)" and "searching e (n + 40) s" and "length (be_buf e) = 512" and "set (be_buf e) \<subseteq> {0}"
  obtains disks s' where "disk_search_and_init (os_ops (world_ops (be_ops e))) os_resolve (be_buf e) s = Some (disks, s')"
    "searching e n s'" "length disks = 13"
proof -
  let ?z = "(replicate 13 zero_disk)[0 := zero_disk\<lparr>dk_dev := word_of_int PATA\<rparr>]"
  have "searching e ((n + 30) + 10) s" using assms(2) by (simp add: add.assoc)
  moreover have "dk_dev (?z ! 0) \<noteq> 0" "length ?z = 13" by (simp_all add: disk_consts)
  ultimately obtain d s0 where 0: "init_disk os_resolve ?z 0 PRIMARY MASTER s = Some (?z[0 := d], s0)" "searching e (n + 30) s0"
    using silent_init_disk [OF assms(1), where i = 0 and disks = ?z and n = "n + 30" and s = s] by (metis zero_less_numeral)
  have p: "upd_disk (replicate SERPAEOS_MAX_DISKS zero_disk) 0 (\<lambda>d. d\<lparr>dk_dev := word_of_int PATA\<rparr>) = Some ?z"
    by (simp add: upd_disk_def rd_def wr_def disk_consts)
  have s: "searching e ((n + 20) + 10) s0" "length (?z[0 := d]) = 13" using 0(2) by (simp_all add: add.assoc)
  obtain d1 s1 where 1: "probe_drive (os_ops (world_ops (be_ops e))) os_resolve PRIMARY SLAVE (?z[0 := d], 0, be_buf e, s0) = Some (d1, Suc 0, be_buf e, s1)"
    "searching e (n + 20) s1" "length d1 = 13" using silent_probe [OF assms(1) s(1) _ s(2) assms(3,4)] by (metis One_nat_def one_less_numeral_iff semiring_norm(77))
  have s': "searching e ((n + 10) + 10) s1" using 1(2) by (simp add: add.assoc)
  obtain d2 s2 where 2: "probe_drive (os_ops (world_ops (be_ops e))) os_resolve SECONDARY MASTER (d1, Suc 0, be_buf e, s1) = Some (d2, Suc (Suc 0), be_buf e, s2)"
    "searching e (n + 10) s2" "length d2 = 13" using silent_probe [OF assms(1) s' _ 1(3) assms(3,4), where off = "Suc 0" and ps = SECONDARY and ms = MASTER] by auto
  obtain d3 s3 where 3: "probe_drive (os_ops (world_ops (be_ops e))) os_resolve SECONDARY SLAVE (d2, Suc (Suc 0), be_buf e, s2) = Some (d3, Suc (Suc (Suc 0)), be_buf e, s3)"
    "searching e n s3" "length d3 = 13" using silent_probe [OF assms(1) 2(2) _ 2(3) assms(3,4), where off = "Suc (Suc 0)" and ps = SECONDARY and ms = SLAVE] by auto
  show thesis by (rule that [of d3 s3]) (use 0(1) 1(1) 2(1) 3 p in \<open>simp_all add: disk_search_and_init_def Let_def\<close>)
qed

lemma say_ok:
  obtains s where "say msg k = Some (k\<lparr>kn_os := s\<rparr>)" "km_heap (sc_k (os_s s)) = km_heap (sc_k (os_s (kn_os k)))" "os_vfs s = os_vfs (kn_os k)"
proof -
  obtain s' where "os_print (cstr msg) (kn_os k) = Some s'" "km_heap (sc_k (os_s s')) = km_heap (sc_k (os_s (kn_os k)))" "os_vfs s' = os_vfs (kn_os k)"
    using os_print_keeps .
  then show thesis by (intro that [of s']) (simp_all add: say_def)
qed

lemma fs_init_ok:
  "fs_init a b v = Some (v\<lparr>v_descs := replicate SERPAEOS_MAX_FILE_DESCRIPTORS None, v_filesystems := Some a # Some b # replicate 10 None\<rparr>)"
proof -
  have r: "replicate SERPAEOS_MAX_FILESYSTEMS x = x # x # replicate 10 x" for x :: 'c by (simp add: SERPAEOS_MAX_FILESYSTEMS_def numeral_eq_Suc)
  show ?thesis by (simp add: r fs_init_def fs_load_def fs_insert_filesystem_def fs_get_free_filesystem_def)
qed

lemma silent_boot_disks:
  assumes "silent (be_ops e)" and "length (be_buf e) = 512" and "set (be_buf e) \<subseteq> {0}" and "kinv (sc_k (os_s s))" and "n + 40 \<le> kroom (sc_k (os_s s))"
    and "v_filesystems (os_vfs s) = Some (fat16_fs (machine_ops (be_ops e))) # Some (fat32_fs (machine_ops (be_ops e))) # replicate 10 None"
  obtains s' where "boot_disks e s = Some ((), s')" "kinv (sc_k (os_s s'))" "n \<le> kroom (sc_k (os_s s'))"
proof -
  let ?s = "s\<lparr>os_vfs := (os_vfs s)\<lparr>v_world := (v_world (os_vfs s))\<lparr>w_disks := replicate SERPAEOS_MAX_DISKS zero_disk\<rparr>\<rparr>\<rparr>"
  have "searching e (n + 40) ?s" using assms(4-6) by (simp add: searching_def)
  from silent_search [OF assms(1) this assms(2,3)] obtain disks s' where
    "disk_search_and_init (os_ops (world_ops (be_ops e))) os_resolve (be_buf e) ?s = Some (disks, s')" "searching e n s'" "length disks = 13" .
  then show thesis
    by (intro that [of "s'\<lparr>os_vfs := (os_vfs s')\<lparr>v_disks := disks, v_world := (v_world (os_vfs s'))\<lparr>w_disks := disks\<rparr>\<rparr>\<rparr>"])
      (simp_all add: boot_disks_def on_world_def searching_def)
qed

lemma boot_paging_ok:
  assumes "kinv (sc_k (os_s s))" and "1026 \<le> kroom (sc_k (os_s s))"
  obtains s' where "boot_paging s = Some ((), s')"
  using paging_new_4gb_space [OF assms, of 7] by (auto simp: boot_paging_def on_sched_def on_kmem_def Let_def)

lemma boot_without_drives:
  assumes "silent (be_ops e)" and "length (be_interrupts e) = 512" and "kn_idt k = zero_idt" and "length (be_heap_table e) = 409600"
    and "length (be_buf e) = 512" and "set (be_buf e) \<subseteq> {0}"
  obtains k' where "kernel_init e k = Some k'"
proof -
  obtain gdt where g: "gdt_structured_to_gdt (gdt_structured_table (be_tss e)) = Some gdt" using boot_segments by blast
  obtain h where h: "kheap_init (be_heap_table e) = Some h" "\<And>m. kinv \<lparr>km_heap = h, km_mem = m\<rparr>" "\<And>m. kroom \<lparr>km_heap = h, km_mem = m\<rparr> = 409600"
    using kheap_init_ready [OF assms(4)] kheap_init_eq [OF assms(4)] by (metis option.inject)
  obtain t where t: "idt_init (kernel_hw e) (be_interrupts e) (be_isr80h e) zero_idt = Some t"
    using idt_init_effect assms(2) by (metis SERPAEOS_TOTAL_INTERRUPTS_def)
  let ?k = "k\<lparr>kn_os := on_term terminal_initialize (kn_os k)\<rparr>"
  obtain s1 where s1: "say ''GDT initialization...\<newline>'' ?k = Some (?k\<lparr>kn_os := s1\<rparr>)" using say_ok .
  let ?k1 = "?k\<lparr>kn_os := s1, kn_gdt := gdt\<rparr>"
  obtain s2 where s2: "say ''Heap initialization...\<newline>'' ?k1 = Some (?k1\<lparr>kn_os := s2\<rparr>)" using say_ok .
  let ?k2 = "?k1\<lparr>kn_os := s2\<lparr>os_s := (os_s s2)\<lparr>sc_k := (sc_k (os_s s2))\<lparr>km_heap := h\<rparr>\<rparr>\<rparr>\<rparr>"
  obtain s3 where s3: "say ''Filesystems initialization...\<newline>'' ?k2 = Some (?k2\<lparr>kn_os := s3\<rparr>)" "km_heap (sc_k (os_s s3)) = h"
    using say_ok [of "''Filesystems initialization...\<newline>''" ?k2] by auto
  obtain s4 where s4: "in_os (on_vfs (\<lambda>v. do { v \<leftarrow> fs_init (fat16_fs (machine_ops (be_ops e))) (fat32_fs (machine_ops (be_ops e))) v; Some ((), v) }))
      (?k2\<lparr>kn_os := s3\<rparr>) = Some ((), ?k2\<lparr>kn_os := s4\<rparr>)" "km_heap (sc_k (os_s s4)) = h"
    "v_filesystems (os_vfs s4) = Some (fat16_fs (machine_ops (be_ops e))) # Some (fat32_fs (machine_ops (be_ops e))) # replicate 10 None"
    using s3(2) by (simp add: in_os_def on_vfs_def fs_init_ok)
  obtain s5 where s5: "say ''Disk initialization...\<newline>'' (?k2\<lparr>kn_os := s4\<rparr>) = Some (?k2\<lparr>kn_os := s5\<rparr>)" "km_heap (sc_k (os_s s5)) = h" "os_vfs s5 = os_vfs s4"
    using say_ok [of "''Disk initialization...\<newline>''" "?k2\<lparr>kn_os := s4\<rparr>"] s4(2) by auto
  have "kinv (sc_k (os_s s5))" "1026 + 40 \<le> kroom (sc_k (os_s s5))"
    using h(2,3) heap_view(1,4) [of "sc_k (os_s s5)" "\<lparr>km_heap = h, km_mem = (\<lambda>_. 0)\<rparr>"] s5(2) by simp_all
  then obtain s6 where s6: "boot_disks e s5 = Some ((), s6)" "kinv (sc_k (os_s s6))" "1026 \<le> kroom (sc_k (os_s s6))"
    using silent_boot_disks [OF assms(1,5,6)] s5(3) s4(3) by metis
  obtain s7 where s7: "say ''IDT initialization...\<newline>'' (?k2\<lparr>kn_os := s6\<rparr>) = Some (?k2\<lparr>kn_os := s7\<rparr>)" "km_heap (sc_k (os_s s7)) = km_heap (sc_k (os_s s6))"
    using say_ok [of "''IDT initialization...\<newline>''" "?k2\<lparr>kn_os := s6\<rparr>"] by auto
  let ?k7 = "?k2\<lparr>kn_os := s7, kn_idt := t\<rparr>"
  obtain s8 where s8: "say ''TSS initialization'' ?k7 = Some (?k7\<lparr>kn_os := s8\<rparr>)" "km_heap (sc_k (os_s s8)) = km_heap (sc_k (os_s s7))"
    using say_ok [of "''TSS initialization''" ?k7] by auto
  let ?k8 = "?k7\<lparr>kn_os := s8, kn_tss := zero_tss\<lparr>tss_esp0 := 0x600000, tss_ss0 := KERNEL_DATA_SELECTOR\<rparr>, kn_tr := 0x28\<rparr>"
  obtain s9 where s9: "say ''Paging initialization...\<newline>'' ?k8 = Some (?k8\<lparr>kn_os := s9\<rparr>)" "km_heap (sc_k (os_s s9)) = km_heap (sc_k (os_s s8))"
    using say_ok [of "''Paging initialization...\<newline>''" ?k8] by auto
  have "kinv (sc_k (os_s s9))" "1026 \<le> kroom (sc_k (os_s s9))"
    using s6(2,3) heap_view(1,4) [of "sc_k (os_s s9)" "sc_k (os_s s6)"] s7(2) s8(2) s9(2) by simp_all
  then obtain s10 where s10: "boot_paging s9 = Some ((), s10)" using boot_paging_ok by blast
  let ?k10 = "?k8\<lparr>kn_os := s10, kn_paging := True\<rparr>"
  obtain s11 where s11: "say ''ISR initialization...\<newline>'' ?k10 = Some (?k10\<lparr>kn_os := s11\<rparr>)" using say_ok .
  let ?k11 = "?k10\<lparr>kn_os := s11, kn_idt := isr80h_register_commands (kernel_hw e) t\<rparr>"
  obtain s12 where s12: "say ''Keyboard initialization...\<newline>'' ?k11 = Some (?k11\<lparr>kn_os := s12\<rparr>)" using say_ok .
  have d: "in_os (boot_disks e) (?k2\<lparr>kn_os := s5\<rparr>) = Some ((), ?k2\<lparr>kn_os := s6\<rparr>)" using s6(1) by (simp add: in_os_def)
  have b: "in_os boot_paging (?k8\<lparr>kn_os := s9\<rparr>) = Some ((), ?k8\<lparr>kn_os := s10\<rparr>)" using s10 by (simp add: in_os_def)
  show thesis
    by (rule that [of "keyboard_init (kernel_hw e) (?k11\<lparr>kn_os := s12\<rparr>)"])
      (use assms(3) g h(1) t s1 s2 s3(1) s4(1) s5(1) d s7(1) s8(1) s9(1) b s11 s12 in \<open>simp add: kernel_init_def Let_def\<close>)
qed

definition demo_boot :: "unit boot_env" where
  "demo_boot = (demo_env 0)\<lparr>be_heap_table := replicate 409600 0, be_buf := replicate 512 0\<rparr>"

theorem boot_tables_witness:
  "\<exists>k'. kernel_init demo_boot demo_kernel = Some k' \<and>
     interrupt_callbacks (kn_idt k') ! 0x21 = Some (keyboard_interrupt (kernel_hw demo_boot)) \<and>
     handler_address (idt_descriptors (kn_idt k') ! 0x80) = 0x103000 \<and> map desc_base (kn_gdt k') = [0, 0, 0, 0, 0, 0x10D000]"
proof -
  have d: "silent (be_ops demo_boot)" "length (be_interrupts demo_boot) = 512" "kn_idt demo_kernel = zero_idt" "be_isr80h demo_boot = 0x103000" "be_tss demo_boot = 0x10D000"
    "length (be_heap_table demo_boot) = 409600" "length (be_buf demo_boot) = 512" "set (be_buf demo_boot) \<subseteq> {0}"
    by (simp_all add: demo_boot_def demo_env_def demo_kernel_def silent_def demo_ports_def)
  obtain k' where k': "kernel_init demo_boot demo_kernel = Some k'" using boot_without_drives [OF d(1-3) d(6-8)] .
  note b = boot_tables [OF d(2,3) k']
  have l: "length (idt_descriptors (kn_idt k')) = 512" using arg_cong [OF conjunct1 [OF b], of length] d(2) by simp
  have "handler_address (idt_descriptors (kn_idt k') ! 0x80) = map handler_address (idt_descriptors (kn_idt k')) ! 0x80" using l by simp
  with b k' d(2,4,5) show ?thesis by (simp add: nth_append)
qed

theorem key_reaches_program_witness:
  "\<exists>(t :: unit world idt) s1 s2. interrupt_handler (kernel_hw (demo_env 0x1E)) t 0x21 demo_frame demo_running = Some (Returns (), s1) \<and>
     isr80h_handler t 2 demo_frame s1 = Some (Returns 97, s2)"
proof -
  let ?hw = "kernel_hw (demo_env 0x1E)"
  let ?t = "\<lparr>idt_descriptors = [], interrupt_callbacks = (replicate 512 None)[0x21 := Some (keyboard_interrupt ?hw)],
     isr80h_commands = (replicate 1024 None)[2 := Some isr80h_command2_getkey]\<rparr> :: unit world idt"
  have t: "rd (interrupt_callbacks ?t) 0x21 = Some (Some (keyboard_interrupt ?hw))" "rd (isr80h_commands ?t) 2 = Some (Some isr80h_command2_getkey)"
    by simp_all
  have i: "fst (inb (be_ops (demo_env 0x1E)) KEYBOARD_INPUT_PORT (m_dev (w_dev (v_world (os_vfs demo_running))))) = 0x1E"
    by (simp add: demo_env_def demo_ports_def keyboard_consts)
  have "classic_keyboard_scancode_to_char 0x1E no_keys = (97, no_keys, [])" by code_simp
  then have c: "classic_keyboard_scancode_to_char 0x1E (keys demo_running) = (97, no_keys, [])" by (simp only: demo_running_parts(3))
  show ?thesis using key_reaches_program [OF t demo_running_parts(1,2) _ i c, of demo_frame demo_frame] by auto
qed

end
