(* ===== verification/Ustring.thy ===== *)
theory Ustring
  imports Physmem
begin

text \<open>
  The string and memory routines that user programs are linked with: \<^verbatim>\<open>src/programs/stdlib/src/string.c\<close> and \<^verbatim>\<open>memory.c\<close>. They work on the address
  space of the program, a memory \<open>mem\<close>, through pointers; a null pointer is the address 0, which every address space maps. A loop that
  runs to a terminator is a \<open>partial_function\<close>. Names that the kernel uses too have the suffix \<open>_user\<close>. \<open>atof\<close> is the only
  routine left out: it computes in floating point.
\<close>

section \<open>Characters\<close>

definition isdigit_user :: "u8 \<Rightarrow> bool" where
  "isdigit_user c \<longleftrightarrow> sint c \<ge> 48 \<and> sint c \<le> 57"

definition tolower_user :: "u8 \<Rightarrow> int" where
  \<comment> \<open>the macro adds 32 to everything that is not a small letter\<close>
  "tolower_user c = (if c \<le> 122 \<and> c \<ge> 97 then uint c else uint c + 32)"

definition tonumericdigit_user :: "u8 \<Rightarrow> int" where
  "tonumericdigit_user c = (if isdigit_user c then sint c - 48 else sint c)"

section \<open>Lengths and comparisons\<close>

partial_function (option) strlen_loop_user :: "mem \<Rightarrow> u32 \<Rightarrow> int \<Rightarrow> int option" where
  "strlen_loop_user m ptr i = (if m ptr \<noteq> 0 then strlen_loop_user m (ptr + 1) (i + 1) else Some i)"

definition strlen_user :: "mem \<Rightarrow> u32 \<Rightarrow> int option" where
  "strlen_user m ptr = strlen_loop_user m ptr 0"

fun strnlen_loop_user :: "mem \<Rightarrow> u32 \<Rightarrow> nat \<Rightarrow> int \<Rightarrow> int" where
  "strnlen_loop_user m ptr 0 i = i"
| "strnlen_loop_user m ptr (Suc n) i = (if m ptr = 0 then i else strnlen_loop_user m (ptr + 1) n (i + 1))"

definition strnlen_user :: "mem \<Rightarrow> u32 \<Rightarrow> int \<Rightarrow> int" where
  "strnlen_user m ptr max_len = strnlen_loop_user m ptr (nat max_len) 0"

fun strnlen_terminator_loop_user :: "mem \<Rightarrow> u32 \<Rightarrow> nat \<Rightarrow> u8 \<Rightarrow> int \<Rightarrow> int" where
  "strnlen_terminator_loop_user m s 0 terminator i = i"
| "strnlen_terminator_loop_user m s (Suc n) terminator i =
     (if m s = 0 \<or> m s = terminator then i else strnlen_terminator_loop_user m (s + 1) n terminator (i + 1))"

definition strnlen_terminator_user :: "mem \<Rightarrow> u32 \<Rightarrow> int \<Rightarrow> u8 \<Rightarrow> int" where
  "strnlen_terminator_user m s max_len terminator = strnlen_terminator_loop_user m s (nat max_len) terminator 0"

fun istrncmp_loop_user :: "mem \<Rightarrow> u32 \<Rightarrow> u32 \<Rightarrow> nat \<Rightarrow> int" where
  "istrncmp_loop_user m s1 s2 0 = 0"
| "istrncmp_loop_user m s1 s2 (Suc n) =
     (if m s1 \<noteq> m s2 \<and> tolower_user (m s1) \<noteq> tolower_user (m s2) then uint (m s1) - uint (m s2)
      else if m s1 = 0 then 0 else istrncmp_loop_user m (s1 + 1) (s2 + 1) n)"

definition istrncmp_user :: "mem \<Rightarrow> u32 \<Rightarrow> u32 \<Rightarrow> int \<Rightarrow> int" where
  "istrncmp_user m s1 s2 n = istrncmp_loop_user m s1 s2 (nat n)"

fun strncmp_loop_user :: "mem \<Rightarrow> u32 \<Rightarrow> u32 \<Rightarrow> nat \<Rightarrow> int" where
  "strncmp_loop_user m s1 s2 0 = 0"
| "strncmp_loop_user m s1 s2 (Suc n) =
     (if m s1 \<noteq> m s2 then uint (m s1) - uint (m s2)
      else if m s1 = 0 then 0 else strncmp_loop_user m (s1 + 1) (s2 + 1) n)"

definition strncmp_user :: "mem \<Rightarrow> u32 \<Rightarrow> u32 \<Rightarrow> int \<Rightarrow> int" where
  "strncmp_user m s1 s2 n = strncmp_loop_user m s1 s2 (nat n)"

partial_function (option) strcmp_user :: "mem \<Rightarrow> u32 \<Rightarrow> u32 \<Rightarrow> int option" where
  "strcmp_user m s1 s2 =
     (if m s1 \<noteq> m s2 then Some (uint (m s1) - uint (m s2))
      else if m s1 \<noteq> 0 \<and> m s2 \<noteq> 0 then strcmp_user m (s1 + 1) (s2 + 1) else Some 0)"

section \<open>Copies\<close>

partial_function (option) strcpy_loop_user :: "mem \<Rightarrow> u32 \<Rightarrow> u32 \<Rightarrow> mem option" where
  "strcpy_loop_user m dest src =
     (if m src \<noteq> 0 then strcpy_loop_user (m(dest := m src)) (dest + 1) (src + 1) else Some (m(dest := 0)))"

definition strcpy_user :: "mem \<Rightarrow> u32 \<Rightarrow> u32 \<Rightarrow> (u32 \<times> mem) option" where
  "strcpy_user m dest src = map_option (Pair dest) (strcpy_loop_user m dest src)"

fun strncpy_loop_user :: "mem \<Rightarrow> u32 \<Rightarrow> u32 \<Rightarrow> nat \<Rightarrow> mem" where
  "strncpy_loop_user m dest src 0 = m(dest := 0)"
| "strncpy_loop_user m dest src (Suc n) =
     (if m src = 0 then m(dest := 0) else strncpy_loop_user (m(dest := m src)) (dest + 1) (src + 1) n)"

definition strncpy_user :: "mem \<Rightarrow> u32 \<Rightarrow> u32 \<Rightarrow> int \<Rightarrow> u32 \<times> mem" where
  "strncpy_user m dest src count = (dest, strncpy_loop_user m dest src (nat (count - 1)))"

definition memset_user :: "mem \<Rightarrow> u32 \<Rightarrow> int \<Rightarrow> u32 \<Rightarrow> u32 \<times> mem" where
  \<comment> \<open>it also sets \<open>errno\<close> to 0\<close>
  "memset_user m ptr c sz = (ptr, memset_at m ptr (word_of_int c) (unat sz))"

fun memcmp_loop_user :: "mem \<Rightarrow> u32 \<Rightarrow> u32 \<Rightarrow> nat \<Rightarrow> int" where
  "memcmp_loop_user m s1 s2 0 = 0"
| "memcmp_loop_user m s1 s2 (Suc n) =
     (if m s1 \<noteq> m s2 then (if sint (m s1) < sint (m s2) then - 1 else 1) else memcmp_loop_user m (s1 + 1) (s2 + 1) n)"

definition memcmp_user :: "mem \<Rightarrow> u32 \<Rightarrow> u32 \<Rightarrow> int \<Rightarrow> int" where
  "memcmp_user m s1 s2 count = memcmp_loop_user m s1 s2 (nat count)"

definition memcpy_user :: "mem \<Rightarrow> u32 \<Rightarrow> u32 \<Rightarrow> int \<Rightarrow> (u32 \<times> mem) option" where
  \<comment> \<open>\<open>while (len--)\<close>: a negative length runs through the whole address space and overflows\<close>
  "memcpy_user m dest src len = (if len < 0 then None else Some (dest, memcpy_at m dest src (nat len)))"

section \<open>Tokens\<close>

fun delim_index :: "mem \<Rightarrow> u32 \<Rightarrow> u8 \<Rightarrow> nat \<Rightarrow> nat \<Rightarrow> nat" where
  \<comment> \<open>the inner loops: \<open>i\<close> behind them, with so many delimiters to go\<close>
  "delim_index m delimiters c 0 i = i"
| "delim_index m delimiters c (Suc n) i = (if c = m (delimiters + of_nat i) then i else delim_index m delimiters c n (Suc i))"

partial_function (option) skip_delimiters :: "mem \<Rightarrow> u32 \<Rightarrow> nat \<Rightarrow> u32 \<Rightarrow> u32 option" where
  "skip_delimiters m delimiters len p_start =
     (if delim_index m delimiters (m p_start) len 0 = len then Some p_start
      else skip_delimiters m delimiters len (p_start + 1))"

partial_function (option) token_end :: "mem \<Rightarrow> u32 \<Rightarrow> nat \<Rightarrow> u32 \<Rightarrow> (u32 \<times> mem) option" where
  "token_end m delimiters len sp =
     (if m sp = 0 then Some (sp, m)
      else if delim_index m delimiters (m sp) len 0 < len then Some (sp + 1, m(sp := 0))
      else token_end m delimiters len (sp + 1))"

definition strtok_user :: "mem \<Rightarrow> u32 \<Rightarrow> u32 \<Rightarrow> u32 \<Rightarrow> (u32 \<times> u32 \<times> mem) option" where
  \<comment> \<open>the second argument and the second result are the static variable \<open>sp\<close>\<close>
  "strtok_user m sp s delimiters = do {
     len \<leftarrow> strlen_user m delimiters;
     if s = 0 \<and> sp = 0 then Some (0, sp, m)
     else do {
       let sp = (if s \<noteq> 0 \<and> sp = 0 then s else sp);
       if s = 0 \<and> delimiters = 0 then Some (0, 0, m)
       else do {
         p_start \<leftarrow> skip_delimiters m delimiters (nat len) sp;
         if m p_start = 0 then Some (0, 0, m)
         else do {
           (sp, m) \<leftarrow> token_end m delimiters (nat len) p_start;
           Some (p_start, sp, m)
         }
       }
     }
   }"

section \<open>Numbers and the rest\<close>

function reverse_loop_user :: "mem \<Rightarrow> u32 \<Rightarrow> int \<Rightarrow> int \<Rightarrow> mem" where
  "reverse_loop_user m s i j =
     (if i < j
      then let c = m (s + word_of_int i)
           in reverse_loop_user (m(s + word_of_int i := m (s + word_of_int j), s + word_of_int j := c)) s (i + 1) (j - 1)
      else m)"
  by auto
termination by (relation "measure (\<lambda>(m, s, i, j). nat (j - i))") auto

definition reverse_user :: "mem \<Rightarrow> u32 \<Rightarrow> mem option" where
  "reverse_user m s = do { len \<leftarrow> strlen_user m s; Some (reverse_loop_user m s 0 (len - 1)) }"

partial_function (option) strnocc_loop :: "mem \<Rightarrow> u32 \<Rightarrow> u8 \<Rightarrow> int \<Rightarrow> int option" where
  "strnocc_loop m s delim i =
     (if m s = 0 then Some i else strnocc_loop m (s + 1) delim (if m s = delim then i + 1 else i))"

definition strnocc :: "mem \<Rightarrow> u32 \<Rightarrow> u8 \<Rightarrow> int option" where
  "strnocc m s delim = strnocc_loop m s delim 0"

function itoa_digits_user :: "mem \<Rightarrow> u32 \<Rightarrow> int \<Rightarrow> nat \<Rightarrow> nat \<times> mem" where
  \<comment> \<open>the loop on a number that is not positive; \<open>loc\<close> is the index behind the next digit\<close>
  "itoa_digits_user m text i loc =
     (if i < 0 then itoa_digits_user (m(text + of_nat (loc - 1) := word_of_int (48 - i smod 10))) text (i sdiv 10) (loc - 1)
      else (loc, m))"
  by auto
termination by (relation "measure (\<lambda>(m, text, i, loc). nat (- i))") (auto simp: signed_divide_int_def)

definition itoa_user :: "mem \<Rightarrow> u32 \<Rightarrow> int \<Rightarrow> u32 \<times> mem" where
  \<comment> \<open>\<open>text\<close> is the address of the static buffer of 12 bytes; an \<open>int\<close> has at most ten digits\<close>
  "itoa_user m text i =
     (let neg = i < 0;
          (loc, m) = itoa_digits_user (m(text + 11 := 0)) text (if neg then i else - i) 11;
          (loc, m) = (if loc = 11 then (loc - 1, m(text + of_nat (loc - 1) := 48)) else (loc, m));
          (loc, m) = (if neg then (loc - 1, m(text + of_nat (loc - 1) := 45)) else (loc, m))
      in (text + of_nat loc, m))"

partial_function (option) atoi_loop :: "mem \<Rightarrow> u32 \<Rightarrow> int \<Rightarrow> int option" where
  "atoi_loop m s res =
     (if m s \<noteq> 0 \<and> isdigit_user (m s) then atoi_loop m (s + 1) (s32 (s32 (res * 10) + tonumericdigit_user (m s))) else Some res)"

definition atoi :: "mem \<Rightarrow> u32 \<Rightarrow> int option" where
  "atoi m s = atoi_loop m s 0"

declare itoa_digits_user.simps [simp del] reverse_loop_user.simps [simp del]

section \<open>Strings in memory\<close>

primrec cstring :: "mem \<Rightarrow> u32 \<Rightarrow> u8 list \<Rightarrow> bool" where
  "cstring m p [] \<longleftrightarrow> m p = 0"
| "cstring m p (c # cs) \<longleftrightarrow> c \<noteq> 0 \<and> m p = c \<and> cstring m (p + 1) cs"

lemma cstring_iff:
  "cstring m p cs \<longleftrightarrow> (\<forall>j<length cs. m (p + of_nat j) = cs ! j \<and> cs ! j \<noteq> 0) \<and> m (p + of_nat (length cs)) = 0"
  by (induction cs arbitrary: p) (auto simp: All_less_Suc2 algebra_simps nth_Cons split: nat.splits)

lemma cstring_append: "cstring m p (w @ r) \<longleftrightarrow> (\<forall>j<length w. m (p + of_nat j) = w ! j \<and> w ! j \<noteq> 0) \<and> cstring m (p + of_nat (length w)) r"
  by (induction w arbitrary: p) (auto simp: All_less_Suc2 algebra_simps)

lemma cstring_cong:
  assumes "\<And>j. j \<le> length cs \<Longrightarrow> m' (p + of_nat j) = m (p + of_nat j)"
  shows "cstring m' p cs = cstring m p cs"
  using assms by (simp add: cstring_iff)

lemma of_nat_eq_u32: "i < 2 ^ 32 \<Longrightarrow> j < 2 ^ 32 \<Longrightarrow> (of_nat i :: u32) = of_nat j \<longleftrightarrow> i = j"
  using unat_of_nat_small [of i] unat_of_nat_small [of j] by metis

lemma cstring_cut:
  assumes "cstring m p (w @ r)" and "length w < 2 ^ 32"
  shows "cstring (m(p + of_nat (length w) := 0)) p w"
proof -
  have "(of_nat j :: u32) \<noteq> of_nat (length w)" if "j < length w" for j using that assms(2) of_nat_eq_u32 [of j "length w"] by simp
  then show ?thesis using assms(1) unfolding cstring_append by (simp add: cstring_iff [of _ _ w])
qed

lemma strlen_cstring: "cstring m p cs \<Longrightarrow> strlen_user m p = Some (int (length cs))"
proof -
  have "cstring m p cs \<Longrightarrow> strlen_loop_user m p i = Some (i + int (length cs))" for i
    by (induction cs arbitrary: p i) (subst strlen_loop_user.simps, simp)+
  then show "cstring m p cs \<Longrightarrow> strlen_user m p = Some (int (length cs))" by (simp add: strlen_user_def)
qed

section \<open>Tokens of a string\<close>

function tokens :: "(u8 \<Rightarrow> bool) \<Rightarrow> u8 list \<Rightarrow> u8 list list" where
  \<comment> \<open>the maximal pieces without a delimiter\<close>
  "tokens D cs =
     (let cs' = dropWhile D cs
      in if cs' = [] then [] else takeWhile (Not \<circ> D) cs' # tokens D (tl (dropWhile (Not \<circ> D) cs')))"
  by auto
termination
proof (relation "measure (\<lambda>(D, cs). length cs)")
  fix D cs and cs' :: "u8 list"
  assume "cs' = dropWhile D cs" and "cs' \<noteq> []"
  then have "0 < length cs" by auto
  moreover have "length (dropWhile (Not \<circ> D) cs') \<le> length cs'" "length (dropWhile D cs) \<le> length cs" by (rule length_dropWhile_le)+
  ultimately have "length (tl (dropWhile (Not \<circ> D) cs')) < length cs"
    unfolding length_tl \<open>cs' = dropWhile D cs\<close> by linarith
  then show "((D, tl (dropWhile (Not \<circ> D) cs')), D, cs) \<in> measure (\<lambda>(D, cs). length cs)" by simp
qed simp

declare tokens.simps [simp del]

lemma delim_index_bound: "delim_index m d c n i \<le> i + n"
proof (induction n arbitrary: i)
  case (Suc n)
  show ?case using Suc [of "Suc i"] by simp
qed simp

lemma delim_index_less: "delim_index m d c n i < i + n \<longleftrightarrow> (\<exists>k<n. c = m (d + of_nat (i + k)))"
proof (induction n arbitrary: i)
  case (Suc n)
  show ?case using Suc [of "Suc i"] by (simp add: Ex_less_Suc2 ac_simps)
qed simp

lemma is_delimiter:
  assumes "cstring m d ds"
  shows "delim_index m d c (length ds) 0 < length ds \<longleftrightarrow> c \<in> set ds"
proof -
  have "\<forall>k<length ds. m (d + of_nat k) = ds ! k" using assms by (simp add: cstring_iff)
  then show ?thesis using delim_index_less [of m d c "length ds" 0] by (auto simp: in_set_conv_nth)
qed

lemma is_no_delimiter: "cstring m d ds \<Longrightarrow> delim_index m d c (length ds) 0 = length ds \<longleftrightarrow> c \<notin> set ds"
  using is_delimiter [of m d ds c] delim_index_bound [of m d c "length ds" 0] by auto

lemma zero_no_delimiter: "cstring m d ds \<Longrightarrow> 0 \<notin> set ds"
  by (auto simp: cstring_iff in_set_conv_nth)

lemma skip_delimiters_cstring:
  assumes "cstring m d ds" and "cstring m p cs"
  shows "skip_delimiters m d (length ds) p = Some (p + of_nat (length (takeWhile (\<lambda>c. c \<in> set ds) cs)))"
  using assms(2)
proof (induction cs arbitrary: p)
  case Nil
  then show ?case using is_no_delimiter [OF assms(1)] zero_no_delimiter [OF assms(1)]
    by (subst skip_delimiters.simps) simp
next
  case (Cons c cs)
  then show ?case using is_no_delimiter [OF assms(1), of c]
    by (subst skip_delimiters.simps) (simp add: algebra_simps)
qed

lemma token_end_cstring:
  assumes "cstring m d ds" and "cstring m p cs"
  shows "token_end m d (length ds) p =
     (let w = takeWhile (\<lambda>c. c \<notin> set ds) cs
      in if w = cs then Some (p + of_nat (length cs), m)
         else Some (p + of_nat (length w) + 1, m(p + of_nat (length w) := 0)))"
  using assms(2)
proof (induction cs arbitrary: p)
  case Nil
  then show ?case by (subst token_end.simps) simp
next
  case (Cons c cs)
  then show ?case using is_delimiter [OF assms(1), of c]
    by (subst token_end.simps) (auto simp add: Let_def algebra_simps takeWhile_eq_all_conv)
qed

definition strtok_at :: "u32 \<Rightarrow> u32 \<Rightarrow> u32 \<Rightarrow> bool" where
  \<comment> \<open>a call with these \<open>sp\<close> and \<open>s\<close> goes on at \<open>q\<close>\<close>
  "strtok_at sp s q \<longleftrightarrow> s \<noteq> 0 \<and> sp = 0 \<and> q = s \<or> s = 0 \<and> sp \<noteq> 0 \<and> q = sp"

lemma strtok_cstring:
  assumes "cstring m d ds" and "d \<noteq> 0" and "cstring m q (a @ cs)" and "strtok_at sp s q"
    and "set a \<subseteq> set ds" and "cs = [] \<or> hd cs \<notin> set ds"
  shows "strtok_user m sp s d =
     (if cs = [] then Some (0, 0, m)
      else let w = takeWhile (\<lambda>c. c \<notin> set ds) cs; p = q + of_nat (length a)
           in Some (if w = cs then (p, p + of_nat (length cs), m)
                    else (p, p + of_nat (length w) + 1, m(p + of_nat (length w) := 0))))"
proof -
  let ?p = "q + of_nat (length a)"
  have "takeWhile (\<lambda>c. c \<in> set ds) (a @ cs) = a" using assms(5,6) by (cases cs) (auto simp: takeWhile_append)
  then have k: "skip_delimiters m d (length ds) q = Some ?p" using skip_delimiters_cstring [OF assms(1,3)] by simp
  have c: "cstring m ?p cs" using assms(3) by (simp add: cstring_append)
  then have z: "m ?p = 0 \<longleftrightarrow> cs = []" by (cases cs) auto
  show ?thesis using assms(2,4) k z strlen_cstring [OF assms(1)] token_end_cstring [OF assms(1) c]
    by (auto simp: strtok_user_def strtok_at_def Let_def)
qed

partial_function (option) all_tokens :: "mem \<Rightarrow> u32 \<Rightarrow> u32 \<Rightarrow> u32 \<Rightarrow> (u32 list \<times> u32 \<times> mem) option" where
  \<comment> \<open>\<open>strtok\<close> is called until it returns null, for the rest with a null string\<close>
  "all_tokens m sp s d = do {
     (t, sp, m) \<leftarrow> strtok_user m sp s d;
     if t = 0 then Some ([], sp, m)
     else do { (ts, sp, m) \<leftarrow> all_tokens m sp 0 d; Some (t # ts, sp, m) }
   }"

lemma tokens_append:
  assumes "set a \<subseteq> set ds" and "cs = [] \<or> hd cs \<notin> set ds"
  shows "tokens (\<lambda>c. c \<in> set ds) (a @ cs) =
     (let w = takeWhile (\<lambda>c. c \<notin> set ds) cs
      in if cs = [] then [] else w # tokens (\<lambda>c. c \<in> set ds) (drop (Suc (length w)) cs))"
proof -
  have "dropWhile (\<lambda>c. c \<in> set ds) (a @ cs) = cs" using assms by (cases cs) (auto simp: dropWhile_append)
  moreover have "tl (dropWhile (\<lambda>c. c \<notin> set ds) cs) = drop (Suc (length (takeWhile (\<lambda>c. c \<notin> set ds) cs))) cs"
    by (simp add: dropWhile_eq_drop drop_Suc tl_drop)
  ultimately show ?thesis by (subst tokens.simps) (simp add: Let_def comp_def)
qed

lemma nonzero_offset:
  assumes "0 < unat (q :: u32)" and "unat q + k < 2 ^ 32"
  shows "q + of_nat k \<noteq> 0" "unat (q + of_nat k) = unat q + k"
proof -
  have "unat (of_nat k :: u32) = k" using assms(2) unat_of_nat_small [of k] by simp
  then show u: "unat (q + of_nat k) = unat q + k" using assms(2) by (simp add: unat_word_ariths)
  then show "q + of_nat k \<noteq> 0" using assms(1) by force
qed

lemma strtok_next:
  assumes "cstring m d ds" and "d \<noteq> 0" and "cstring m q str" and "strtok_at sp s q" and "length str < 2 ^ 32"
    and "\<And>i j. i \<le> length ds \<Longrightarrow> j \<le> length str \<Longrightarrow> d + of_nat i \<noteq> q + of_nat j"
    and "tokens (\<lambda>c. c \<in> set ds) str \<noteq> []"
  obtains i w k str' m1 where "strtok_user m sp s d = Some (q + of_nat i, q + of_nat k, m1)"
    "tokens (\<lambda>c. c \<in> set ds) str = w # tokens (\<lambda>c. c \<in> set ds) str'" "cstring m1 (q + of_nat i) w"
    "cstring m1 (q + of_nat k) str'" "cstring m1 d ds" "i + length w \<le> k" "str' = [] \<or> i + length w < k"
    "k + length str' = length str" "length str' < length str" "\<And>x. (\<forall>j<length str. x \<noteq> q + of_nat j) \<Longrightarrow> m1 x = m x"
proof -
  define a where "a = takeWhile (\<lambda>c. c \<in> set ds) str"
  define cs where "cs = dropWhile (\<lambda>c. c \<in> set ds) str"
  define w where "w = takeWhile (\<lambda>c. c \<notin> set ds) cs"
  define p where "p = q + of_nat (length a)"
  have str: "str = a @ cs" by (simp add: a_def cs_def)
  have ds: "set a \<subseteq> set ds" "cs = [] \<or> hd cs \<notin> set ds"
    using set_takeWhileD [of _ "\<lambda>c. c \<in> set ds" str] hd_dropWhile [of "\<lambda>c. c \<in> set ds" str] by (auto simp: a_def cs_def)
  have ne: "cs \<noteq> []" using assms(7) tokens_append [OF ds] by (auto simp: str)
  note st = strtok_cstring [OF assms(1,2) assms(3) [unfolded str] assms(4) ds, folded w_def p_def]
  note tk = tokens_append [OF ds, folded str w_def]
  have c: "cstring m p cs" using assms(3) by (simp add: str cstring_append p_def)
  show thesis
  proof (cases "w = cs")
    case True
    show thesis
    proof (rule that [of "length a" "length str" m w "[]"])
      show "cstring m (q + of_nat (length str)) []" using assms(3) by (simp add: cstring_iff)
      show "tokens (\<lambda>c. c \<in> set ds) str = w # tokens (\<lambda>c. c \<in> set ds) []" using tk ne True by (simp add: Let_def)
    qed (use st True ne c assms(1) in \<open>simp_all add: str p_def Let_def add.assoc\<close>)
  next
    case False
    then obtain e r where r: "cs = w @ e # r" unfolding w_def by (metis takeWhile_dropWhile_id append.right_neutral list.exhaust)
    let ?m = "m(p + of_nat (length w) := 0)" and ?k = "Suc (length a + length w)"
    have far: "(of_nat i :: u32) \<noteq> of_nat j" if "i \<noteq> j" "i \<le> length str" "j \<le> length str" for i j
      using that assms(5) of_nat_eq_u32 [of i j] by simp
    have at: "p + of_nat (length w) = q + of_nat (length a + length w)" by (simp add: p_def)
    show thesis
    proof (rule that [of "length a" ?k ?m w r])
      show "strtok_user m sp s d = Some (q + of_nat (length a), q + of_nat ?k, ?m)"
        using st ne False by (simp add: Let_def p_def ac_simps)
      show "tokens (\<lambda>c. c \<in> set ds) str = w # tokens (\<lambda>c. c \<in> set ds) r" using tk ne by (simp add: Let_def r)
      show "cstring ?m (q + of_nat (length a)) w"
        using cstring_cut [of m p w "e # r"] c assms(5) by (simp add: r str p_def)
      have "cstring m (q + of_nat ?k) r" using c by (simp add: r cstring_append p_def ac_simps)
      moreover have "?m (q + of_nat ?k + of_nat j) = m (q + of_nat ?k + of_nat j)" if "j \<le> length r" for j
        using far [of "?k + j" "length a + length w"] that unfolding at by (simp add: r str ac_simps)
      ultimately show "cstring ?m (q + of_nat ?k) r" by (simp add: cstring_cong [of r ?m _ m])
      have "?m (d + of_nat i) = m (d + of_nat i)" if "i \<le> length ds" for i
        using assms(6) [OF that, of "length a + length w"] unfolding at by (simp add: r str)
      then show "cstring ?m d ds" using assms(1) by (simp add: cstring_cong [of ds ?m _ m])
      show "?m x = m x" if "\<forall>j<length str. x \<noteq> q + of_nat j" for x
        using that [rule_format, of "length a + length w"] unfolding at by (simp add: r str)
    qed (simp_all add: r str)
  qed
qed

text \<open>C38: \<open>strtok\<close> cuts a string into its words. Called with a string and then with null until it returns null, it gives pointers to the pieces of the
  string between delimiters, in order and without empty ones, each terminated; it writes only into the string, and forgets it at the end.\<close>
theorem strtok_tokens:
  assumes "cstring m d ds" and "d \<noteq> 0" and "cstring m q str" and "strtok_at sp s q" and "0 < unat q" and "unat q + length str < 2 ^ 32"
    and "\<forall>i\<le>length ds. \<forall>j\<le>length str. d + of_nat i \<noteq> q + of_nat j"
  shows "\<exists>ts m'. all_tokens m sp s d = Some (ts, 0, m') \<and> list_all2 (cstring m') ts (tokens (\<lambda>c. c \<in> set ds) str) \<and>
     (\<forall>x. (\<forall>j<length str. x \<noteq> q + of_nat j) \<longrightarrow> m' x = m x)"
  using assms
proof (induction "length str" arbitrary: m q sp s str rule: less_induct)
  case less
  let ?D = "\<lambda>c. c \<in> set ds"
  show ?case
  proof (cases "tokens ?D str = []")
    case True
    then have "dropWhile ?D str = []" by (subst (asm) tokens.simps) (auto simp: Let_def split: if_splits)
    then have "takeWhile ?D str = str" "set str \<subseteq> set ds" by (auto simp: takeWhile_eq_all_conv)
    then have "strtok_user m sp s d = Some (0, 0, m)"
      using strtok_cstring [OF less.prems(1,2) _ less.prems(4), of str "[]"] less.prems(3) by simp
    then show ?thesis using True by (subst all_tokens.simps) simp
  next
    case False
    have len: "length str < 2 ^ 32" using less.prems(6) by simp
    obtain i w k str' m1 where n: "strtok_user m sp s d = Some (q + of_nat i, q + of_nat k, m1)"
      "tokens ?D str = w # tokens ?D str'" "cstring m1 (q + of_nat i) w" "cstring m1 (q + of_nat k) str'" "cstring m1 d ds"
      "i + length w \<le> k" "str' = [] \<or> i + length w < k" "k + length str' = length str" "length str' < length str"
      "\<And>x. (\<forall>j<length str. x \<noteq> q + of_nat j) \<Longrightarrow> m1 x = m x"
      by (rule strtok_next [OF less.prems(1-4) len _ False]) (use less.prems(7) in blast, rule that)
    have k: "q + of_nat k \<noteq> 0" "unat (q + of_nat k) = unat q + k" and i: "q + of_nat i \<noteq> 0"
      using nonzero_offset [OF less.prems(5), of k] nonzero_offset [OF less.prems(5), of i] n(6,8) less.prems(6) by auto
    have at: "strtok_at (q + of_nat k) 0 (q + of_nat k)" using k(1) by (simp add: strtok_at_def)
    have u: "0 < unat (q + of_nat k)" "unat (q + of_nat k) + length str' < 2 ^ 32" using k(2) less.prems(5,6) n(8) by linarith+
    have away: "\<forall>i\<le>length ds. \<forall>j\<le>length str'. d + of_nat i \<noteq> q + of_nat k + of_nat j"
    proof (intro allI impI)
      fix i j assume "i \<le> length ds" "j \<le> length str'"
      then show "d + of_nat i \<noteq> q + of_nat k + of_nat j" using less.prems(7) [rule_format, of i "k + j"] n(8) by (simp add: add.assoc)
    qed
    from less.hyps [OF n(9) n(5) less.prems(2) n(4) at u away] obtain ts m' where
      r: "all_tokens m1 (q + of_nat k) 0 d = Some (ts, 0, m')" "list_all2 (cstring m') ts (tokens ?D str')"
      "\<And>x. (\<forall>j<length str'. x \<noteq> q + of_nat k + of_nat j) \<Longrightarrow> m' x = m1 x" by blast
    have "m' (q + of_nat i + of_nat j) = m1 (q + of_nat i + of_nat j)" if "j \<le> length w" for j
    proof (rule r(3), intro allI impI)
      fix j' assume "j' < length str'"
      then show "q + of_nat i + of_nat j \<noteq> q + of_nat k + of_nat j'"
        using n(7,8) that len of_nat_eq_u32 [of "i + j" "k + j'"] by (auto simp: add.assoc)
    qed
    then have "cstring m' (q + of_nat i) w" using n(3) by (simp add: cstring_cong [of w m' _ m1])
    moreover have "m' x = m x" if "\<forall>j<length str. x \<noteq> q + of_nat j" for x
    proof -
      have "\<forall>j<length str'. x \<noteq> q + of_nat k + of_nat j" 
      proof (intro allI impI)
        fix j assume "j < length str'"
        then show "x \<noteq> q + of_nat k + of_nat j" using that [rule_format, of "k + j"] n(8) by (simp add: add.assoc)
      qed
      then show ?thesis using r(3) n(10) that by metis
    qed
    ultimately show ?thesis using n(1,2) r(1,2) i by (subst all_tokens.simps) simp
  qed
qed

definition demo_command :: mem where
  \<comment> \<open>\<open>ls  -a\<close> at \<open>0x100\<close> and a blank as a string at \<open>0x200\<close>\<close>
  "demo_command = store_bytes (store_bytes (\<lambda>_. 0) 0x100 [108, 115, 32, 32, 45, 97]) 0x200 [32]"

theorem strtok_tokens_witness:
  "\<exists>ts m'. all_tokens demo_command 0 0x100 0x200 = Some (ts, 0, m') \<and> list_all2 (cstring m') ts [[108, 115], [45, 97]]"
proof -
  have c: "cstring demo_command 0x200 [32]" "cstring demo_command 0x100 [108, 115, 32, 32, 45, 97]"
    by (simp_all add: demo_command_def)
  have "tokens (\<lambda>c. c \<in> set [32]) [108, 115, 32, 32, 45, 97] = [[108, 115], [45, 97 :: u8]]"
    by (simp add: tokens.simps Let_def)
  moreover have "\<forall>i\<le>length [32 :: u8]. \<forall>j\<le>length [108, 115, 32, 32, 45, 97 :: u8]. (0x200 :: u32) + of_nat i \<noteq> 0x100 + of_nat j"
  proof (intro allI impI notI)
    fix i j assume "i \<le> length [32 :: u8]" "j \<le> length [108, 115, 32, 32, 45, 97 :: u8]" "(0x200 :: u32) + of_nat i = 0x100 + of_nat j"
    moreover from this(3) have "(of_nat (0x200 + i) :: u32) = of_nat (0x100 + j)" by simp
    ultimately show False using of_nat_eq_u32 [of "0x200 + i" "0x100 + j"] by simp
  qed
  ultimately show ?thesis
    using strtok_tokens [OF c(1) _ c(2), of 0 "0x100"] by (simp add: strtok_at_def) blast
qed

section \<open>Numbers\<close>

fun digit_text :: "nat \<Rightarrow> u8 list" where
  "digit_text n = (if n = 0 then [] else digit_text (n div 10) @ [of_nat (48 + n mod 10)])"

declare digit_text.simps [simp del]

lemma digit_text_0 [simp]: "digit_text 0 = []"
  by (simp add: digit_text.simps)

lemma digit_text_nonempty: "0 < n \<Longrightarrow> digit_text n \<noteq> []"
  by (simp add: digit_text.simps [of n])

lemma digit_char: "unat (of_nat (48 + n mod 10) :: u8) = 48 + n mod 10"
proof -
  have "(48 + n mod 10) mod 256 = 48 + n mod 10" using mod_less_divisor [of 10 n] by (intro mod_less) simp
  then show ?thesis by (subst unat_of_nat) simp
qed

definition numeral_text :: "int \<Rightarrow> u8 list" where
  \<comment> \<open>how a number is written\<close>
  "numeral_text i = (if i < 0 then [45] else []) @ (if i = 0 then [48] else digit_text (nat \<bar>i\<bar>))"

lemma length_digit_text: "n < 10 ^ k \<Longrightarrow> length (digit_text n) \<le> k"
proof (induction n arbitrary: k rule: digit_text.induct)
  case (1 n)
  then show ?case
    by (cases k) (simp_all add: digit_text.simps [of n] less_mult_imp_div_less mult.commute)
qed

lemma cstring_prepend:
  assumes "cstring m (p + of_nat loc) r" and "0 < loc" and "loc + length r < 2 ^ 32" and "c \<noteq> 0"
  shows "cstring (m(p + of_nat (loc - 1) := c)) (p + of_nat (loc - 1)) (c # r)"
proof -
  let ?a = "p + of_nat (loc - 1)"
  have "(m(?a := c)) (p + of_nat loc + of_nat j) = m (p + of_nat loc + of_nat j)" if "j \<le> length r" for j
  proof (rule fun_upd_other)
    have "(of_nat (loc + j) :: u32) \<noteq> of_nat (loc - 1)" using of_nat_eq_u32 [of "loc + j" "loc - 1"] assms(2,3) that by simp
    then show "p + of_nat loc + of_nat j \<noteq> ?a" unfolding add.assoc of_nat_add [symmetric] by simp
  qed
  from cstring_cong [of r "m(?a := c)" "p + of_nat loc" m, OF this] assms(1)
  have r: "cstring (m(?a := c)) (p + of_nat loc) r" by blast
  have "?a + 1 = p + of_nat loc" using assms(2) by (cases loc) (simp_all add: ac_simps)
  then show ?thesis unfolding cstring.simps \<open>?a + 1 = p + of_nat loc\<close> using r assms(4) by simp
qed

lemma itoa_digits_cstring:
  assumes "cstring m (text + of_nat loc) r" and "length (digit_text n) \<le> loc" and "loc + length r < 2 ^ 32"
  shows "fst (itoa_digits_user m text (- int n) loc) = loc - length (digit_text n) \<and>
     cstring (snd (itoa_digits_user m text (- int n) loc)) (text + of_nat (loc - length (digit_text n))) (digit_text n @ r)"
  using assms
proof (induction n arbitrary: m loc r rule: digit_text.induct)
  case (1 n)
  show ?case
  proof (cases "n = 0")
    case True
    then show ?thesis using "1.prems"(1) by (simp add: itoa_digits_user.simps [of m "text" 0])
  next
    case False
    let ?c = "of_nat (48 + n mod 10) :: u8"
    define m1 where "m1 = m(text + of_nat (loc - 1) := ?c)"
    have d: "digit_text n = digit_text (n div 10) @ [?c]" using False by (simp add: digit_text.simps [of n])
    have l: "0 < loc" "length (digit_text (n div 10)) \<le> loc - 1" "loc - 1 + length (?c # r) < 2 ^ 32"
      using "1.prems"(2,3) by (auto simp: d)
    have "?c \<noteq> 0" using digit_char [of n] by (metis add_eq_0_iff_both_eq_0 unsigned_0 zero_neq_numeral)
    note ih = "1.IH" [OF False cstring_prepend [OF "1.prems"(1) l(1) "1.prems"(3) this, folded m1_def] l(2,3)]
    have "48 - (- int n) smod 10 = int (48 + n mod 10)" "(- int n) sdiv 10 = - int (n div 10)"
      by (simp_all add: signed_modulo_int_def signed_divide_int_def sgn_if zmod_int zdiv_int)
    moreover from this(1) have "word_of_int (48 - (- int n) smod 10) = ?c" by (simp only: of_int_of_nat_eq)
    ultimately have "itoa_digits_user m text (- int n) loc = itoa_digits_user m1 text (- int (n div 10)) (loc - 1)"
      using False unfolding m1_def by (subst itoa_digits_user.simps) simp
    then show ?thesis using ih by (simp add: d)
  qed
qed

lemma itoa_user_cstring:
  assumes "- (2 ^ 31) \<le> i" and "i < 2 ^ 31" and "itoa_user m text i = (p, m')"
  shows "cstring m' p (numeral_text i)"
proof -
  let ?n = "nat \<bar>i\<bar>"
  have l: "length (digit_text ?n) \<le> 10" using assms by (intro length_digit_text) simp
  obtain loc m1 where r: "itoa_digits_user (m(text + 11 := 0)) text (- int ?n) 11 = (loc, m1)" by fastforce
  have c: "loc = 11 - length (digit_text ?n)" "cstring m1 (text + of_nat loc) (digit_text ?n)"
    using itoa_digits_cstring [of "m(text + 11 := 0)" "text" 11 "[]" ?n] l r by simp_all
  consider "i = 0" | "0 < i" | "i < 0" by linarith
  then show ?thesis
  proof cases
    case 1
    then show ?thesis using assms(3) r c cstring_prepend [of m1 "text" 11 "[]" 48] by (auto simp: itoa_user_def numeral_text_def)
  next
    case 2
    then have "digit_text ?n \<noteq> []" using digit_text_nonempty by simp
    then have "loc \<noteq> 11" using c(1) l by (cases "digit_text ?n") auto
    then show ?thesis using 2 assms(3) r c(2) by (auto simp: itoa_user_def numeral_text_def)
  next
    case 3
    then have "digit_text ?n \<noteq> []" using digit_text_nonempty by simp
    then have "loc \<noteq> 11" "0 < loc" "loc + length (digit_text ?n) < 2 ^ 32" using c(1) l by (cases "digit_text ?n", auto)+
    then show ?thesis using 3 assms(3) r cstring_prepend [OF c(2), of 45] by (auto simp: itoa_user_def numeral_text_def)
  qed
qed

lemma atoi_loop_digit:
  assumes "m p = of_nat (48 + k mod 10)"
  shows "atoi_loop m p res = atoi_loop m (p + 1) (s32 (s32 (res * 10) + int (k mod 10)))"
proof -
  have u: "unat (m p) = 48 + k mod 10" using assms digit_char by simp
  then have "uint (m p) = int (48 + k mod 10)" by (simp add: uint_nat)
  then have "sint (m p) = int (48 + k mod 10)" using mod_less_divisor [of 10 k] by (simp add: sint_uint signed_take_bit_int_eq_self)
  moreover have "m p \<noteq> 0" using u by force
  moreover have "k mod 10 \<le> 9" using mod_less_divisor [of 10 k] by simp
  ultimately show ?thesis by (subst atoi_loop.simps) (simp add: isdigit_user_def tonumericdigit_user_def)
qed

lemma atoi_digit_text:
  assumes "cstring m p (digit_text n @ r)" and "n < 2 ^ 31"
  shows "atoi_loop m p 0 = atoi_loop m (p + of_nat (length (digit_text n))) (int n)"
  using assms
proof (induction n arbitrary: r rule: digit_text.induct)
  case (1 n)
  show ?case
  proof (cases "n = 0")
    case False
    let ?c = "of_nat (48 + n mod 10) :: u8" and ?q = "p + of_nat (length (digit_text (n div 10)))"
    have d: "digit_text n = digit_text (n div 10) @ [?c]" using False by (simp add: digit_text.simps [of n])
    have s: "cstring m p (digit_text (n div 10) @ ?c # r)" using "1.prems"(1) by (simp add: d)
    then have "m ?q = ?c" by (simp add: cstring_append)
    moreover have "n div 10 < 2 ^ 31" using "1.prems"(2) by simp
    ultimately have "atoi_loop m p 0 = atoi_loop m (?q + 1) (s32 (s32 (int (n div 10) * 10) + int (n mod 10)))"
      using "1.IH" [OF False s] atoi_loop_digit [of m ?q n] by simp
    moreover have "s32 (s32 (int (n div 10) * 10) + int (n mod 10)) = int n"
    proof -
      have "n div 10 * 10 < 2 ^ 31" using "1.prems"(2) by (meson div_times_less_eq_dividend le_less_trans)
      then have "s32 (int (n div 10) * 10) = int (n div 10 * 10)" using s32_int [of "n div 10 * 10"] by simp
      then have "s32 (int (n div 10) * 10) + int (n mod 10) = int n" by (simp only: of_nat_add [symmetric] div_mult_mod_eq)
      then show ?thesis using s32_int [OF "1.prems"(2)] by simp
    qed
    ultimately show ?thesis by (simp add: d ac_simps)
  qed simp
qed

text \<open>C40: numbers printed and read again. \<open>itoa\<close> writes every \<open>int\<close> as a string in its static buffer, in decimal without leading zeros; \<open>atoi\<close> of that
  string gives the number back when it is not negative. Of a negative number \<open>atoi\<close> makes 0, since it stops at the sign.\<close>
theorem atoi_itoa:
  assumes "- (2 ^ 31) \<le> i" and "i < 2 ^ 31" and "itoa_user m text i = (p, m')"
  shows "cstring m' p (numeral_text i) \<and> atoi m' p = Some (if 0 \<le> i then i else 0)"
proof
  show c: "cstring m' p (numeral_text i)" by (rule itoa_user_cstring [OF assms])
  have stop: "atoi_loop m' q res = Some res" if "m' q = 0 \<or> m' q = 45" for q res
    using that by (subst atoi_loop.simps) (auto simp: isdigit_user_def)
  consider "i = 0" | "0 < i" | "i < 0" by linarith
  then show "atoi m' p = Some (if 0 \<le> i then i else 0)"
  proof cases
    case 1
    then have "m' p = of_nat (48 + 0 mod 10)" "m' (p + 1) = 0" using c by (simp_all add: numeral_text_def)
    then show ?thesis using 1 atoi_loop_digit [of m' p 0 0] stop by (simp add: atoi_def s32_int [of 0, simplified])
  next
    case 2
    then have s: "cstring m' p (digit_text (nat i) @ [])" using c by (simp add: numeral_text_def)
    then have "m' (p + of_nat (length (digit_text (nat i)))) = 0" using cstring_append [of m' p "digit_text (nat i)" "[]"] by simp
    then show ?thesis using 2 assms(2) atoi_digit_text [OF s] stop by (simp add: atoi_def)
  next
    case 3
    then show ?thesis using c stop by (simp add: atoi_def numeral_text_def)
  qed
qed

theorem atoi_itoa_witness:
  "\<exists>p m'. itoa_user (\<lambda>_. 0) 0x100 2023 = (p, m') \<and> cstring m' p [50, 48, 50, 51] \<and> atoi m' p = Some 2023"
proof -
  obtain p m' where e: "itoa_user (\<lambda>_. 0) 0x100 2023 = (p, m')" by fastforce
  have "numeral_text 2023 = [50, 48, 50, 51]" by (simp add: numeral_text_def digit_text.simps)
  with atoi_itoa [OF _ _ e] e show ?thesis by simp
qed

end
