(* ===== verification/Ulib.thy ===== *)
theory Ulib
  imports Ustring
begin

text \<open>
  The C library of user programs apart from its string routines: \<^verbatim>\<open>stdio.c\<close>, \<^verbatim>\<open>stdlib.c\<close>, \<^verbatim>\<open>serpaeos.c\<close>, \<^verbatim>\<open>errno.c\<close>, \<^verbatim>\<open>cursor.c\<close> and \<^verbatim>\<open>start.c\<close> under
  \<^verbatim>\<open>src/programs/stdlib/src\<close>. A program is its memory, its static variables, and its side of the system calls: those that return something take it from a
  list of what the kernel will answer, and all others are noted in order. Waiting for a key that never comes is \<open>None\<close>, like every run without an
  end. The addresses that the linker and the stack give to static buffers, string literals and arrays are the record \<open>linked\<close>.
\<close>

section \<open>State\<close>

datatype system_call =
    Putchar u8 | Print "u8 list" | Draw_block u8 int int | Free u32 | System u32 | Newthread u32 int u32 | Exit int | Clrscr u8
  | Fopen "u8 list" "u8 list" | Fclose u32 | Fread u32 int | Fwrite u32 "u8 list" | Fseek u32 int u32 | Ftell u32 | Remove "u8 list"
  | Play u32 | Quit_sound | Kill int | Retcode int | Write_sector int int "u8 list" | Set_cursor int int

datatype finish = Returned int | Exited int

record program =
  u_mem :: mem
  u_sp :: u32
  u_errno :: int
  u_exit_funcs :: "u32 list"
  u_keys :: "u8 list" \<comment> \<open>what \<open>getkey\<close> will return\<close>
  u_blocks :: "u32 list" \<comment> \<open>what \<open>sos_malloc\<close> will return\<close>
  u_results :: "int list" \<comment> \<open>what the other calls with a result will return\<close>
  u_bytes :: "u8 option list" \<comment> \<open>what \<open>fread\<close> of one byte will store\<close>
  u_reads :: "u8 list list" \<comment> \<open>what \<open>fread\<close> of more bytes will store\<close>
  u_trace :: "system_call list"

record linked =
  lk_itoa :: u32 \<comment> \<open>\<open>text\<close> of \<open>itoa\<close>\<close>
  lk_buf :: u32 \<comment> \<open>\<open>buf\<close> of \<open>scanf\<close>\<close>
  lk_blank :: u32 \<comment> \<open>a literal of one blank\<close>
  lk_scommand :: u32 \<comment> \<open>\<open>scommand\<close> of \<open>sos_parse_command\<close>\<close>
  lk_exit_text :: u32 \<comment> \<open>the format in \<open>exit\<close>\<close>
  lk_error_format :: u32 \<comment> \<open>the format in \<open>perror\<close>\<close>
  lk_errors :: "u32 list" \<comment> \<open>\<open>str_errors\<close>\<close>
  lk_lit :: "string \<Rightarrow> u32" \<comment> \<open>the other string literals\<close>

section \<open>System calls\<close>

definition note_call :: "system_call \<Rightarrow> program \<Rightarrow> program" where
  "note_call c s = s\<lparr>u_trace := u_trace s @ [c]\<rparr>"

definition sos_malloc :: "program \<Rightarrow> u32 \<times> program" where
  "sos_malloc s = (case u_blocks s of [] \<Rightarrow> (0, s) | b # bs \<Rightarrow> (b, s\<lparr>u_blocks := bs\<rparr>))"

definition next_result :: "program \<Rightarrow> (int \<times> program) option" where
  "next_result s = (case u_results s of [] \<Rightarrow> None | r # rs \<Rightarrow> Some (r, s\<lparr>u_results := rs\<rparr>))"

partial_function (option) read_string :: "mem \<Rightarrow> u32 \<Rightarrow> u8 list \<Rightarrow> u8 list option" where
  "read_string m p acc = (if m p = 0 then Some acc else read_string m (p + 1) (acc @ [m p]))"

definition print_user :: "u32 \<Rightarrow> program \<Rightarrow> program option" where
  "print_user msg s = do { str \<leftarrow> read_string (u_mem s) msg []; Some (note_call (Print str) s) }"

section \<open>Characters in and out\<close>

definition puts :: "u32 \<Rightarrow> program \<Rightarrow> (int \<times> program) option" where
  "puts str s = do { s \<leftarrow> print_user str s; Some (0, s) }"

definition putchar :: "int \<Rightarrow> program \<Rightarrow> int \<times> program" where
  "putchar ch s = (0, note_call (Putchar (word_of_int ch)) s)"

fun next_key :: "u8 list \<Rightarrow> (u8 \<times> u8 list) option" where
  "next_key [] = None"
| "next_key (k # ks) = (if k = 0 then next_key ks else Some (k, ks))"

definition getchar :: "program \<Rightarrow> (int \<times> program) option" where
  "getchar s = do { (c, ks) \<leftarrow> next_key (u_keys s); Some (uint c, s\<lparr>u_keys := ks\<rparr>) }"

definition KEY_DOWN :: int where "KEY_DOWN = 220"

definition echo :: "u32 \<Rightarrow> int \<Rightarrow> program \<Rightarrow> program" where
  \<comment> \<open>store a character and show it\<close>
  "echo out c s = snd (putchar c (s\<lparr>u_mem := (u_mem s)(out := word_of_int c)\<rparr>))"

definition unecho :: "u32 \<Rightarrow> program \<Rightarrow> program" where
  \<comment> \<open>\<open>*(--out) = 0; putchar('\b')\<close>\<close>
  "unecho out s = snd (putchar 8 (s\<lparr>u_mem := (u_mem s)(out - 1 := 0)\<rparr>))"

definition terminate_line :: "u32 \<Rightarrow> program \<Rightarrow> program" where
  "terminate_line out s = s\<lparr>u_mem := (u_mem s)(out := 0)\<rparr>"

partial_function (option) get_s_loop :: "u32 \<Rightarrow> u32 \<Rightarrow> u8 \<Rightarrow> int \<Rightarrow> program \<Rightarrow> (u32 \<times> program) option" where
  \<comment> \<open>\<open>c != EOF\<close> holds for every unsigned character\<close>
  "get_s_loop tmp out i lim s = do {
     (c, s) \<leftarrow> getchar s;
     if c = 13 \<or> \<not> uint i < lim then Some (out, s)
     else if c \<ge> KEY_DOWN then get_s_loop tmp out i lim s
     else if c = 8 then (if out = tmp then get_s_loop tmp out i lim s else get_s_loop tmp (out - 1) i lim (unecho out s))
     else get_s_loop tmp (out + 1) (if c = 32 then i + 1 else i) lim (echo out c s)
   }"

definition get_s :: "u32 \<Rightarrow> int \<Rightarrow> u8 \<Rightarrow> program \<Rightarrow> (u32 \<times> program) option" where
  \<comment> \<open>\<open>i\<close> is what the uninitialised counter holds\<close>
  "get_s out lim i s = do { (end_ptr, s) \<leftarrow> get_s_loop out out i lim s; Some (out, terminate_line end_ptr s) }"

partial_function (option) getline_loop :: "u32 \<Rightarrow> u32 \<Rightarrow> u8 \<Rightarrow> int \<Rightarrow> program \<Rightarrow> (u32 \<times> u8 \<times> program) option" where
  "getline_loop tmp out i max_len s = do {
     (c, s) \<leftarrow> getchar s;
     if c = 13 \<or> \<not> uint i < max_len then Some (out, i, s)
     else if c \<ge> KEY_DOWN then getline_loop tmp out i max_len s
     else if c = 8 then (if out = tmp then getline_loop tmp out i max_len s else getline_loop tmp (out - 1) (i - 1) max_len (unecho out s))
     else getline_loop tmp (out + 1) (i + 1) max_len (echo out c s)
   }"

definition getline :: "u32 \<Rightarrow> int \<Rightarrow> u8 \<Rightarrow> program \<Rightarrow> (int \<times> program) option" where
  \<comment> \<open>\<open>i\<close> is what the uninitialised counter holds\<close>
  "getline out max_len i s = do {
     (end_ptr, i, s) \<leftarrow> getline_loop out out i max_len s;
     Some (uint i, terminate_line end_ptr s)
   }"

partial_function (option) gets_loop :: "u32 \<Rightarrow> u32 \<Rightarrow> program \<Rightarrow> (u32 \<times> program) option" where
  "gets_loop tmp out s = do {
     (c, s) \<leftarrow> getchar s;
     if c = 13 then Some (out, s)
     else if c \<ge> KEY_DOWN then gets_loop tmp out s
     else if c = 8 then (if out = tmp then gets_loop tmp out s else gets_loop tmp (out - 1) (unecho out s))
     else gets_loop tmp (out + 1) (echo out c s)
   }"

definition gets :: "u32 \<Rightarrow> program \<Rightarrow> (u32 \<times> program) option" where
  "gets out s = do { (end_ptr, s) \<leftarrow> gets_loop out out s; Some (out, terminate_line end_ptr s) }"

definition getc :: "u32 \<Rightarrow> program \<Rightarrow> (u8 \<times> program) option" where
  "getc fp s =
     (if fp = 0 then Some (0, s)
      else case u_bytes s of
        [] \<Rightarrow> None
      | b # bs \<Rightarrow> Some (case b of None \<Rightarrow> 0 | Some c \<Rightarrow> c, s\<lparr>u_bytes := bs\<rparr>))"

section \<open>Formatted output and input\<close>

definition va_arg :: "u32 list \<Rightarrow> (u32 \<times> u32 list) option" where
  "va_arg args = (case args of [] \<Rightarrow> None | a # as \<Rightarrow> Some (a, as))"

partial_function (option) printf_loop :: "linked \<Rightarrow> u32 \<Rightarrow> u32 list \<Rightarrow> program \<Rightarrow> program option" where
  \<comment> \<open>a \<open>%\<close> at the end of the format makes the loop step over its terminator\<close>
  "printf_loop lk p args s =
     (let c = u_mem s p; d = u_mem s (p + 1)
      in if c = 0 then Some s
         else if c \<noteq> 37 then printf_loop lk (p + 1) args (snd (putchar (sint c) s))
         else if d = 105 \<or> d = 100
         then do {
           (ival, args) \<leftarrow> va_arg args;
           let (str, m) = itoa_user (u_mem s) (lk_itoa lk) (sint ival);
           s \<leftarrow> print_user str (s\<lparr>u_mem := m\<rparr>);
           printf_loop lk (p + 2) args s
         }
         else if d = 115
         then do { (sval, args) \<leftarrow> va_arg args; s \<leftarrow> print_user sval s; printf_loop lk (p + 2) args s }
         else if d = 99
         then do { (cval, args) \<leftarrow> va_arg args; printf_loop lk (p + 2) args (snd (putchar (sint cval) s)) }
         else printf_loop lk (p + 2) args (snd (putchar (sint d) s)))"

definition printf :: "linked \<Rightarrow> u32 \<Rightarrow> u32 list \<Rightarrow> program \<Rightarrow> (int \<times> program) option" where
  "printf lk fmt args s = do { s \<leftarrow> printf_loop lk fmt args s; Some (0, s) }"

definition strtok_step :: "u32 \<Rightarrow> u32 \<Rightarrow> program \<Rightarrow> (u32 \<times> program) option" where
  "strtok_step str delimiters s = do {
     (t, sp, m) \<leftarrow> strtok_user (u_mem s) (u_sp s) str delimiters;
     Some (t, s\<lparr>u_mem := m, u_sp := sp\<rparr>)
   }"

partial_function (option) scanf_loop :: "linked \<Rightarrow> u32 \<Rightarrow> u32 \<Rightarrow> u32 list \<Rightarrow> program \<Rightarrow> program option" where
  \<comment> \<open>\<open>%f\<close> stores a floating point number, which has no model here: \<open>None\<close>\<close>
  "scanf_loop lk p token args s =
     (let c = u_mem s p; d = u_mem s (p + 1)
      in if c = 0 \<or> token = 0 then Some s
         else if c \<noteq> 37 then scanf_loop lk (p + 1) token args s
         else if d = 115
         then do {
           (sval, args) \<leftarrow> va_arg args;
           (_, m) \<leftarrow> strcpy_user (u_mem s) sval token;
           (token, s) \<leftarrow> strtok_step 0 (lk_blank lk) (s\<lparr>u_mem := m\<rparr>);
           scanf_loop lk (p + 2) token args s
         }
         else if d = 105 \<or> d = 100
         then do {
           (ival, args) \<leftarrow> va_arg args;
           v \<leftarrow> atoi (u_mem s) token;
           (token, s) \<leftarrow> strtok_step 0 (lk_blank lk) (s\<lparr>u_mem := store32 (u_mem s) ival (word_of_int v)\<rparr>);
           scanf_loop lk (p + 2) token args s
         }
         else if d = 102 then None
         else scanf_loop lk (p + 2) token args s)"

definition scanf :: "linked \<Rightarrow> u32 \<Rightarrow> u32 list \<Rightarrow> u8 \<Rightarrow> program \<Rightarrow> (int \<times> program) option" where
  "scanf lk fmt args i s = do {
     n \<leftarrow> strnocc (u_mem s) fmt 32;
     (_, s) \<leftarrow> get_s (lk_buf lk) (n + 1) i s;
     (token, s) \<leftarrow> strtok_step (lk_buf lk) (lk_blank lk) s;
     s \<leftarrow> scanf_loop lk fmt token args s;
     Some (0, s)
   }"

section \<open>Commands and threads\<close>

definition command_argument_next_user :: u32 where "command_argument_next_user = 512"

definition new_argument :: "u32 \<Rightarrow> u32 \<Rightarrow> program \<Rightarrow> program" where
  \<comment> \<open>\<open>strncpy(node->argument, token, 512); node->next = 0;\<close>\<close>
  "new_argument node token s =
     s\<lparr>u_mem := store32 (snd (strncpy_user (u_mem s) node token 512)) (node + command_argument_next_user) 0\<rparr>"

partial_function (option) parse_command_loop :: "linked \<Rightarrow> u32 \<Rightarrow> u32 \<Rightarrow> program \<Rightarrow> program option" where
  "parse_command_loop lk current token s =
     (if token = 0 then Some s
      else case sos_malloc s of (new_command, s) \<Rightarrow>
        if new_command = 0 then Some s
        else do {
          let s = new_argument new_command token s;
          let s = s\<lparr>u_mem := store32 (u_mem s) (current + command_argument_next_user) new_command\<rparr>;
          (token, s) \<leftarrow> strtok_step 0 (lk_blank lk) s;
          parse_command_loop lk new_command token s
        })"

definition sos_parse_command :: "linked \<Rightarrow> u32 \<Rightarrow> int \<Rightarrow> program \<Rightarrow> (u32 \<times> program) option" where
  "sos_parse_command lk command max_len s = do {
     (_, s) \<leftarrow> strtok_step 0 0 s;
     if max_len \<ge> 1025 then Some (0, s)
     else do {
       let s = s\<lparr>u_mem := snd (strncpy_user (u_mem s) (lk_scommand lk) command 1025)\<rparr>;
       (token, s) \<leftarrow> strtok_step (lk_scommand lk) (lk_blank lk) s;
       if token = 0 then Some (0, s)
       else case sos_malloc s of (root_command, s) \<Rightarrow>
         if root_command = 0 then Some (0, s)
         else do {
           let s = new_argument root_command token s;
           (token, s) \<leftarrow> strtok_step 0 (lk_blank lk) s;
           s \<leftarrow> parse_command_loop lk root_command token s;
           Some (root_command, s)
         }
     }
   }"

definition system :: "linked \<Rightarrow> u32 \<Rightarrow> program \<Rightarrow> (int \<times> program) option" where
  "system lk filename s = do {
     (args, s) \<leftarrow> sos_parse_command lk filename 512 s;
     if args = 0 then Some (- 2, s) else next_result (note_call (System args) s)
   }"

fun count_args :: "u32 list \<Rightarrow> nat option" where
  \<comment> \<open>arguments up to the first 0; without one the loop reads past them\<close>
  "count_args [] = None"
| "count_args (a # as) = (if a = 0 then Some 0 else map_option Suc (count_args as))"

fun store_args :: "mem \<Rightarrow> u32 \<Rightarrow> u32 list \<Rightarrow> mem" where
  "store_args m p [] = m"
| "store_args m p (a # as) = store_args (store32 m p a) (p + 4) as"

definition newthread :: "u32 \<Rightarrow> u32 list \<Rightarrow> program \<Rightarrow> (int \<times> program) option" where
  "newthread addr args s = do {
     n \<leftarrow> count_args args;
     let (arguments, s) = sos_malloc s;
     let s = s\<lparr>u_mem := store_args (u_mem s) arguments (take n args)\<rparr>;
     next_result (note_call (Newthread addr (int n) arguments) s)
   }"

section \<open>Memory, exit, errors\<close>

definition malloc :: "program \<Rightarrow> u32 \<times> program" where
  "malloc s = sos_malloc s"

definition free :: "u32 \<Rightarrow> program \<Rightarrow> program" where
  "free ptr s = note_call (Free ptr) s"

definition atexit :: "u32 \<Rightarrow> program \<Rightarrow> int \<times> program" where
  \<comment> \<open>it reports success when the table is full, too\<close>
  "atexit func s =
     (0, case scan (\<lambda>f. f = 0) 0 (u_exit_funcs s) of None \<Rightarrow> s | Some i \<Rightarrow> s\<lparr>u_exit_funcs := (u_exit_funcs s)[i := func]\<rparr>)"

fun exit_loop :: "(u32 \<Rightarrow> program \<Rightarrow> program option) \<Rightarrow> nat \<Rightarrow> program \<Rightarrow> program option" where
  "exit_loop call 0 s = Some s"
| "exit_loop call (Suc i) s = do {
     f \<leftarrow> rd (u_exit_funcs s) i;
     s \<leftarrow> (if f \<noteq> 0 then call f s else Some s);
     exit_loop call i s
   }"

definition exit_user :: "linked \<Rightarrow> (u32 \<Rightarrow> program \<Rightarrow> program option) \<Rightarrow> int \<Rightarrow> program \<Rightarrow> program option" where
  \<comment> \<open>\<open>call\<close> is what the functions of the program do\<close>
  "exit_user lk call code s = do {
     s \<leftarrow> exit_loop call 20 s;
     (_, s) \<leftarrow> printf lk (lk_exit_text lk) [word_of_int code] s;
     (_, s) \<leftarrow> getchar s;
     Some (note_call (Exit code) s)
   }"

definition std_errors_count :: int where "std_errors_count = 13"

definition strerror :: "linked \<Rightarrow> int \<Rightarrow> u32 option" where
  "strerror lk errnum = (if errnum > std_errors_count \<or> errnum < 0 then Some 0 else rd (lk_errors lk) (nat errnum))"

definition perror :: "linked \<Rightarrow> u32 \<Rightarrow> program \<Rightarrow> program option" where
  "perror lk str s = do {
     e \<leftarrow> strerror lk (u_errno s);
     (_, s) \<leftarrow> printf lk (lk_error_format lk) [str, e] s;
     Some s
   }"

definition VGAWIDTH :: nat where "VGAWIDTH = 80"
definition VGAHEIGHT :: nat where "VGAHEIGHT = 25"

definition draw_row :: "u8 \<Rightarrow> u16 \<Rightarrow> program \<Rightarrow> program" where
  "draw_row colour row s = fold (\<lambda>i. note_call (Draw_block colour (int i) (uint row))) [0 ..< VGAWIDTH] s"

definition draw_collumn :: "u8 \<Rightarrow> u16 \<Rightarrow> program \<Rightarrow> program" where
  "draw_collumn colour collumn s = fold (\<lambda>i. note_call (Draw_block colour (uint collumn) (int i))) [0 ..< VGAHEIGHT] s"

definition c_start :: "(int \<Rightarrow> u32 \<Rightarrow> program \<Rightarrow> (finish \<times> program) option) \<Rightarrow> int \<Rightarrow> u32 \<Rightarrow> u8 \<Rightarrow> program \<Rightarrow> (finish \<times> program) option" where
  \<comment> \<open>the arguments are \<open>main\<close>, what \<open>sos_process_get_arguments\<close> stores, and the colour; a program that calls \<open>exit\<close> does not come back\<close>
  "c_start main argc argv white_on_black s = do {
     let s = s\<lparr>u_exit_funcs := replicate 20 0, u_errno := 0\<rparr>;
     (res, s) \<leftarrow> main argc argv s;
     case res of Exited code \<Rightarrow> Some (res, s) | Returned _ \<Rightarrow> Some (res, note_call (Clrscr white_on_black) s)
   }"

end
