(* ===== verification/Programs.thy ===== *)
theory Programs
  imports Ulib
begin

text \<open>
  The user programs under \<^verbatim>\<open>src/programs\<close>: the shell, the password check \<^verbatim>\<open>pr\<close>, the set-up of a new user, the file tools
  \<^verbatim>\<open>view\<close>, \<^verbatim>\<open>fapp\<close>, \<^verbatim>\<open>fwrite\<close>, \<^verbatim>\<open>rm\<close>, \<^verbatim>\<open>edit\<close>, the music box and the updater. Each is a function of the program state of \<open>Ulib\<close>; its arrays on the
  stack are addresses that it is given. A run ends when \<open>main\<close> returns or calls \<open>exit\<close>; a program that waits for a key, a byte of a file or an answer
  that does not come has no result.
\<close>

section \<open>System calls of the programs\<close>

definition call_result :: "system_call \<Rightarrow> program \<Rightarrow> (int \<times> program) option" where
  "call_result c s = next_result (note_call c s)"

definition getkey :: "program \<Rightarrow> (int \<times> program) option" where
  \<comment> \<open>the kernel extends the character with its sign\<close>
  "getkey s = (case u_keys s of [] \<Rightarrow> None | k # ks \<Rightarrow> Some (sint k, s\<lparr>u_keys := ks\<rparr>))"

definition fopen_user :: "u32 \<Rightarrow> u32 \<Rightarrow> program \<Rightarrow> (u32 \<times> program) option" where
  "fopen_user path mode s = do {
     p \<leftarrow> read_string (u_mem s) path [];
     md \<leftarrow> read_string (u_mem s) mode [];
     (r, s) \<leftarrow> call_result (Fopen p md) s;
     Some (word_of_int r, s)
   }"

definition fread_user :: "u32 \<Rightarrow> int \<Rightarrow> u32 \<Rightarrow> program \<Rightarrow> (int \<times> program) option" where
  "fread_user fp n ptr s =
     (case u_reads s of
        [] \<Rightarrow> None
      | bs # rest \<Rightarrow> call_result (Fread fp n) (s\<lparr>u_mem := store_bytes (u_mem s) ptr (take (nat n) bs), u_reads := rest\<rparr>))"

definition fwrite_user :: "u32 \<Rightarrow> int \<Rightarrow> u32 \<Rightarrow> program \<Rightarrow> (int \<times> program) option" where
  "fwrite_user fp n ptr s = call_result (Fwrite fp (load_bytes (u_mem s) ptr (nat n))) s"

definition remove_user :: "u32 \<Rightarrow> program \<Rightarrow> program option" where
  "remove_user path s = do { p \<leftarrow> read_string (u_mem s) path []; Some (note_call (Remove p) s) }"

definition sos_writesector :: "int \<Rightarrow> int \<Rightarrow> u32 \<Rightarrow> program \<Rightarrow> (int \<times> program) option" where
  "sos_writesector sector disk buf s = call_result (Write_sector sector disk (load_bytes (u_mem s) buf 512)) s"

definition EOF :: int where "EOF = - 1"

definition say_user :: "linked \<Rightarrow> string \<Rightarrow> u32 list \<Rightarrow> program \<Rightarrow> program option" where
  \<comment> \<open>\<open>printf\<close> of a literal\<close>
  "say_user lk fmt args s = do { (_, s) \<leftarrow> printf lk (lk_lit lk fmt) args s; Some s }"

definition exit_program :: "linked \<Rightarrow> int \<Rightarrow> program \<Rightarrow> (finish \<times> program) option" where
  \<comment> \<open>no program registers functions with \<open>atexit\<close>\<close>
  "exit_program lk code s = do { s \<leftarrow> exit_user lk (\<lambda>_ _. None) code s; Some (Exited code, s) }"

definition argument :: "mem \<Rightarrow> u32 \<Rightarrow> nat \<Rightarrow> u32" where
  \<comment> \<open>\<open>argv[i]\<close>\<close>
  "argument m argv i = load32 m (argv + of_nat (4 * i))"

definition set_argument :: "u32 \<Rightarrow> nat \<Rightarrow> u32 \<Rightarrow> program \<Rightarrow> program" where
  "set_argument argv i p s = s\<lparr>u_mem := store32 (u_mem s) (argv + of_nat (4 * i)) p\<rparr>"

definition copy_string_user :: "u32 \<Rightarrow> u32 \<Rightarrow> program \<Rightarrow> program option" where
  \<comment> \<open>\<open>strcpy\<close>\<close>
  "copy_string_user dest src s = do { (_, m) \<leftarrow> strcpy_user (u_mem s) dest src; Some (s\<lparr>u_mem := m\<rparr>) }"

section \<open>shell\<close>

definition shell_number :: "linked \<Rightarrow> program \<Rightarrow> (int \<times> program) option" where
  \<comment> \<open>\<open>atoi(strtok(NULL, " "))\<close>\<close>
  "shell_number lk s = do {
     (t, s) \<leftarrow> strtok_step 0 (lk_blank lk) s;
     n \<leftarrow> atoi (u_mem s) t;
     Some (n, s)
   }"

definition is_command :: "linked \<Rightarrow> string \<Rightarrow> int \<Rightarrow> u32 \<Rightarrow> program \<Rightarrow> bool" where
  "is_command lk name n token s \<longleftrightarrow> istrncmp_user (u_mem s) (lk_lit lk name) token n = 0"

definition shell_command :: "linked \<Rightarrow> u32 \<Rightarrow> u32 \<Rightarrow> u32 \<Rightarrow> program \<Rightarrow> (bool \<times> bool \<times> program) option" where
  \<comment> \<open>one command: whether the shell goes on, and \<open>newline\<close>; the second argument is \<open>help_page\<close>\<close>
  "shell_command lk help_page buf token s =
     (if is_command lk ''exit'' 5 token s then do { s \<leftarrow> say_user lk ''\<newline>Exiting...'' [] s; Some (False, True, s) }
      else if is_command lk ''help'' 5 token s
      then do { (_, s) \<leftarrow> printf lk help_page [] (note_call (Clrscr 15) s); Some (True, True, s) }
      else if is_command lk ''about'' 6 token s \<or> is_command lk ''man'' 4 token s
      then do { (_, s) \<leftarrow> system lk (lk_lit lk ''view ~/ABOUT'') s; Some (True, True, s) }
      else if is_command lk ''clear'' 6 token s then Some (True, False, note_call (Clrscr 15) s)
      else if is_command lk ''kill'' 5 token s
      then do {
        (pid, s) \<leftarrow> shell_number lk s;
        (res, s) \<leftarrow> call_result (Kill pid) s;
        s \<leftarrow> (if res \<noteq> 0
             then say_user lk ''\<newline>ERROR: kill: Process %d could not be killed (error code %d)'' [word_of_int pid, word_of_int res] s
             else Some s);
        Some (True, True, s)
      }
      else if is_command lk ''rc'' 3 token s
      then do {
        (pid, s) \<leftarrow> shell_number lk s;
        (res, s) \<leftarrow> call_result (Retcode pid) s;
        s \<leftarrow> say_user lk ''\<newline>return code for process %d is %d'' [word_of_int pid, word_of_int res] s;
        Some (True, True, s)
      }
      else do {
        (res, s) \<leftarrow> system lk buf s;
        s \<leftarrow> (if res < 0
             then say_user lk ''\<newline>ERROR: \"%s\" is not recognized as an operable program or command. Try \"man\"'' [token] s
             else Some s);
        Some (True, True, s)
      })"

partial_function (option) shell_loop :: "linked \<Rightarrow> u32 \<Rightarrow> u32 \<Rightarrow> bool \<Rightarrow> program \<Rightarrow> (finish \<times> program) option" where
  "shell_loop lk help_page input newline s = do {
     let s = (if newline then snd (putchar 10 s) else s);
     s \<leftarrow> say_user lk ''>'' [] s;
     (_, s) \<leftarrow> strtok_step 0 0 s;
     (_, s) \<leftarrow> gets input s;
     (_, m) \<leftarrow> memcpy_user (u_mem s) (input + 1024) input 1024;
     (token, s) \<leftarrow> strtok_step input (lk_blank lk) (s\<lparr>u_mem := m\<rparr>);
     if token < input \<or> token > input + 1024 then shell_loop lk help_page input True s
     else do {
       (goes_on, newline, s) \<leftarrow> shell_command lk help_page (input + 1024) token s;
       if goes_on then shell_loop lk help_page input newline s else Some (Returned 0, s)
     }
   }"

definition shell_main :: "linked \<Rightarrow> u32 \<Rightarrow> int \<Rightarrow> u32 \<Rightarrow> program \<Rightarrow> (finish \<times> program) option" where
  "shell_main lk help_page argc argv s = do {
     s \<leftarrow> say_user lk ''SerpaeOS Shell v23.4.1'' [] s;
     let (input, s) = malloc s;
     shell_loop lk help_page input True s
   }"

section \<open>pr: privileged execution\<close>

definition config_username :: u32 where "config_username = 8"
definition config_password :: u32 where "config_password = 29"
definition sizeof_config :: int where "sizeof_config = 60"

lemmas config_layout = config_username_def config_password_def sizeof_config_def

fun pr_read :: "u32 \<Rightarrow> nat \<Rightarrow> nat \<Rightarrow> program \<Rightarrow> (nat \<times> program) option" where
  \<comment> \<open>the loop over \<open>i\<close>, with so many characters to go\<close>
  "pr_read buf 0 i s = Some (i, s)"
| "pr_read buf (Suc n) i s = do {
     (c, s) \<leftarrow> getchar s;
     if c = 13 then Some (i, s) else pr_read buf n (Suc i) (s\<lparr>u_mem := (u_mem s)(buf + of_nat i := word_of_int c)\<rparr>)
   }"

partial_function (option) pr_login :: "linked \<Rightarrow> u32 \<Rightarrow> u32 \<Rightarrow> program \<Rightarrow> (bool \<times> program) option" where
  \<comment> \<open>the arguments are the addresses of \<open>config\<close> and \<open>buf\<close>; \<open>False\<close> is the way out with \<open>exit\<close>\<close>
  "pr_login lk config buf s = do {
     s \<leftarrow> say_user lk ''[%s] password: '' [config + config_username] s;
     (i, s) \<leftarrow> pr_read buf 29 0 s;
     let s = s\<lparr>u_mem := (u_mem s)(buf + of_nat i := 0)\<rparr>;
     differs \<leftarrow> strcmp_user (u_mem s) (config + config_password) buf;
     if differs = 0 then Some (True, s)
     else if strncmp_user (u_mem s) (lk_lit lk ''exit'') buf 30 = 0 then Some (False, s)
     else pr_login lk config buf (snd (putchar 10 s))
   }"

fun pr_join :: "u32 \<Rightarrow> nat \<Rightarrow> nat \<Rightarrow> u32 \<Rightarrow> program \<Rightarrow> program option" where
  \<comment> \<open>the arguments behind \<open>"he "\<close>, each with a blank\<close>
  "pr_join argv 0 i cur s = Some s"
| "pr_join argv (Suc n) i cur s = do {
     s \<leftarrow> copy_string_user cur (argument (u_mem s) argv i) s;
     len \<leftarrow> strlen_user (u_mem s) (argument (u_mem s) argv i);
     let cur = cur + word_of_int len;
     pr_join argv n (Suc i) (cur + 1) (s\<lparr>u_mem := (u_mem s)(cur := 32)\<rparr>)
   }"

definition pr_main :: "linked \<Rightarrow> u32 \<Rightarrow> u32 \<Rightarrow> u32 \<Rightarrow> int \<Rightarrow> u32 \<Rightarrow> program \<Rightarrow> (finish \<times> program) option" where
  \<comment> \<open>the addresses are those of \<open>config\<close>, \<open>buf\<close> and \<open>path\<close>\<close>
  "pr_main lk config buf path argc argv s =
     (if argc < 2 then do { s \<leftarrow> say_user lk ''[pr] ERROR: invalid usage\<newline>'' [] s; Some (Returned (- 2), s) }
      else do {
        (fp, s) \<leftarrow> fopen_user (lk_lit lk ''0:/sys/config/config.dat'') (lk_lit lk ''r'') s;
        let s = note_call (Fseek fp 0x3c 0) s;
        (_, s) \<leftarrow> fread_user fp sizeof_config config s;
        (accepted, s) \<leftarrow> pr_login lk config buf s;
        if \<not> accepted then Some (Returned 0, s)
        else do {
          let s = s\<lparr>u_mem := store_bytes (u_mem s) path ([104, 101, 32] @ replicate 105 0)\<rparr>;
          s \<leftarrow> pr_join argv (nat (argc - 1)) 1 (path + 3) s;
          (res, s) \<leftarrow> system lk path s;
          s \<leftarrow> (if res = - 2 then say_user lk ''\<newline>ERROR: \"%s\" is not a valid program name.'' [argument (u_mem s) argv 1] s else Some s);
          Some (Returned 0, s)
        }
      })"

section \<open>new\_usr: the first start\<close>

partial_function (option) new_usr_get_s_loop :: "u32 \<Rightarrow> u32 \<Rightarrow> u8 \<Rightarrow> int \<Rightarrow> program \<Rightarrow> (u32 \<times> program) option" where
  \<comment> \<open>a star for every character\<close>
  "new_usr_get_s_loop tmp out i lim s = do {
     (c, s) \<leftarrow> getchar s;
     if c = 13 \<or> \<not> uint i < lim then Some (out, s)
     else if c \<ge> KEY_DOWN then new_usr_get_s_loop tmp out i lim s
     else if c = 8
     then (if out = tmp then new_usr_get_s_loop tmp out i lim s else new_usr_get_s_loop tmp (out - 1) (i - 1) lim (unecho out s))
     else new_usr_get_s_loop tmp (out + 1) (i + 1) lim (snd (putchar 42 (s\<lparr>u_mem := (u_mem s)(out := word_of_int c)\<rparr>)))
   }"

definition new_usr_get_s :: "u32 \<Rightarrow> int \<Rightarrow> u8 \<Rightarrow> program \<Rightarrow> program option" where
  \<comment> \<open>the third argument is what the uninitialised counter holds\<close>
  "new_usr_get_s out lim i s = do { (end_ptr, s) \<leftarrow> new_usr_get_s_loop out out i lim s; Some (terminate_line end_ptr s) }"

partial_function (option) new_usr_password :: "linked \<Rightarrow> u32 \<Rightarrow> u32 \<Rightarrow> u8 \<Rightarrow> program \<Rightarrow> program option" where
  "new_usr_password lk password1 password2 i s = do {
     s \<leftarrow> say_user lk ''\<newline>Please enter your new password (30 character limit): '' [] s;
     s \<leftarrow> new_usr_get_s password1 30 i s;
     s \<leftarrow> say_user lk ''\<newline>Please re-enter your password: '' [] s;
     s \<leftarrow> new_usr_get_s password2 30 i s;
     differs \<leftarrow> strcmp_user (u_mem s) password1 password2;
     if differs \<noteq> 0
     then do {
       s \<leftarrow> say_user lk ''\<newline>Passwords do not match. Please try again...\<newline>'' [] s;
       new_usr_password lk password1 password2 i s
     }
     else Some s
   }"

definition new_usr_main :: "linked \<Rightarrow> u32 \<Rightarrow> u32 \<Rightarrow> u32 \<Rightarrow> u32 \<Rightarrow> u8 \<Rightarrow> int \<Rightarrow> u32 \<Rightarrow> program \<Rightarrow> (finish \<times> program) option" where
  \<comment> \<open>the addresses are those of \<open>config\<close>, \<open>buf\<close>, \<open>password1\<close> and \<open>password2\<close>\<close>
  "new_usr_main lk config buf password1 password2 i argc argv s = do {
     (fd, s) \<leftarrow> fopen_user (lk_lit lk ''0:/sys/config/config.dat'') (lk_lit lk ''rwa'') s;
     if fd = 0
     then do { s \<leftarrow> say_user lk ''ERROR: 0:/sys/config/config.dat in inaccesable'' [] s; exit_program lk 1 s }
     else do {
       let s = s\<lparr>u_mem := memset_at (u_mem s) config 0 (nat sizeof_config)\<rparr>;
       s \<leftarrow> say_user lk ''It looks like you're a new user. Welcome to SerpaeOS!\<newline>Please enter your timezone from UTC (ie, enter -6 for Central time zone):\<newline>'' [] s;
       (line, s) \<leftarrow> gets buf s;
       timezone \<leftarrow> atoi (u_mem s) line;
       let s = s\<lparr>u_mem := store32 (u_mem s) (config + 4) (word_of_int timezone)\<rparr>;
       s \<leftarrow> say_user lk ''\<newline>Great! Please enter your new username (20 character limit):\<newline>'' [] s;
       (_, s) \<leftarrow> gets (config + config_username) s;
       s \<leftarrow> new_usr_password lk password1 password2 i s;
       s \<leftarrow> say_user lk ''\<newline>Writing... '' [] s;
       s \<leftarrow> copy_string_user (config + config_password) password1 s;
       let s = s\<lparr>u_mem := store_bytes (u_mem s) config [0x53, 0x4F, 0x53, 0x3E]\<rparr>;
       (res, s) \<leftarrow> fwrite_user fd sizeof_config config s;
       if res < 0 then do { s \<leftarrow> say_user lk ''\<newline>ERROR'' [] s; exit_program lk 1 s }
       else do { (_, s) \<leftarrow> system lk (lk_lit lk ''he pr shell.elf'') s; Some (Returned 0, s) }
     }
   }"

section \<open>Files: view, fapp, fwrite, rm, edit\<close>

definition home_path :: "linked \<Rightarrow> u32 \<Rightarrow> nat \<Rightarrow> u32 \<Rightarrow> program \<Rightarrow> (u32 \<times> program) option" where
  \<comment> \<open>a leading \<open>~\<close> of \<open>argv[i]\<close> stands for the directory of the user; the result is the moved \<open>cur\<close>\<close>
  "home_path lk argv i cur s =
     (if u_mem s (argument (u_mem s) argv i) = 126
      then do {
        s \<leftarrow> copy_string_user cur (lk_lit lk ''0:/usr/files'') s;
        Some (cur + 12, set_argument argv i (argument (u_mem s) argv i + 1) s)
      }
      else Some (cur, s))"

partial_function (option) wait_eof :: "program \<Rightarrow> program option" where
  \<comment> \<open>\<open>while (getkey() != EOF);\<close>\<close>
  "wait_eof s = do { (c, s) \<leftarrow> getkey s; if c \<noteq> EOF then wait_eof s else Some s }"

fun print_line_loop :: "u32 \<Rightarrow> u32 \<Rightarrow> nat \<Rightarrow> nat \<Rightarrow> program \<Rightarrow> (bool \<times> program) option" where
  \<comment> \<open>\<open>True\<close> at the end of the file\<close>
  "print_line_loop fp buf 0 i s = Some (False, s)"
| "print_line_loop fp buf (Suc n) i s = do {
     (c, s) \<leftarrow> getc fp s;
     let line = (\<lambda>c. s\<lparr>u_mem := (u_mem s)(buf + of_nat i := c)\<rparr>);
     if c = 10 \<or> c = 13 then Some (False, line c)
     else if c = 0 \<or> sint c = EOF then Some (True, line 10)
     else print_line_loop fp buf n (Suc i) (line c)
   }"

definition print_line :: "linked \<Rightarrow> u32 \<Rightarrow> u32 \<Rightarrow> program \<Rightarrow> (int \<times> program) option" where
  "print_line lk fp buf s = do {
     (ended, s) \<leftarrow> print_line_loop fp buf 80 0 (s\<lparr>u_mem := memset_at (u_mem s) buf 0 81\<rparr>);
     (_, s) \<leftarrow> printf lk buf [] s;
     Some (if ended then 1 else 0, s)
   }"

fun print_lines :: "linked \<Rightarrow> u32 \<Rightarrow> u32 \<Rightarrow> nat \<Rightarrow> program \<Rightarrow> (bool \<times> program) option" where
  "print_lines lk fp buf 0 s = Some (False, s)"
| "print_lines lk fp buf (Suc n) s = do {
     (ended, s) \<leftarrow> print_line lk fp buf s;
     if ended \<noteq> 0 then do { s \<leftarrow> wait_eof s; Some (True, s) } else print_lines lk fp buf n s
   }"

partial_function (option) wait_page_key :: "program \<Rightarrow> (int \<times> program) option" where
  "wait_page_key s = do { (cm, s) \<leftarrow> getchar s; if cm \<noteq> 99 \<and> cm \<noteq> 113 then wait_page_key s else Some (cm, s) }"

partial_function (option) view_pages :: "linked \<Rightarrow> u32 \<Rightarrow> u32 \<Rightarrow> program \<Rightarrow> program option" where
  "view_pages lk fp buf s = do {
     (ended, s) \<leftarrow> print_lines lk fp buf 24 (note_call (Clrscr 0xF0) s);
     if ended then Some s
     else do {
       s \<leftarrow> say_user lk ''---------PAGING: press 'c' to continue with the next page, 'q' to quit---------'' [] (note_call (Set_cursor 0 79) s);
       (cm, s) \<leftarrow> wait_page_key s;
       if cm = 113 then Some s else view_pages lk fp buf s
     }
   }"

definition view_main :: "linked \<Rightarrow> u32 \<Rightarrow> u32 \<Rightarrow> int \<Rightarrow> u32 \<Rightarrow> program \<Rightarrow> (finish \<times> program) option" where
  \<comment> \<open>the addresses are those of \<open>path\<close> and of the static \<open>buf\<close>\<close>
  "view_main lk path buf argc argv s =
     (if argc < 2
      then do { s \<leftarrow> say_user lk ''view: ERROR: invalid usage\<newline>'' [] s; (_, s) \<leftarrow> getchar s; Some (Returned (- 2), s) }
      else do {
        (cur, s) \<leftarrow> home_path lk argv 1 path s;
        s \<leftarrow> copy_string_user cur (argument (u_mem s) argv 1) s;
        (fp, s) \<leftarrow> fopen_user path (lk_lit lk ''r'') s;
        if fp = 0
        then do {
          s \<leftarrow> say_user lk ''view: ERROR: file %s is inaccessable for reading\<newline>'' [path] s;
          (_, s) \<leftarrow> getchar s;
          Some (Returned (- 1), s)
        }
        else do { s \<leftarrow> view_pages lk fp buf s; Some (Returned 0, note_call (Fclose fp) s) }
      })"

partial_function (option) fapp_loop :: "u32 \<Rightarrow> u32 \<Rightarrow> int \<Rightarrow> program \<Rightarrow> program option" where
  "fapp_loop fp buf i s = do {
     (c, s) \<leftarrow> getkey s;
     if c = 0 then fapp_loop fp buf i s
     else do {
       s \<leftarrow> (if i = 1024 \<or> c = EOF then do { (_, s) \<leftarrow> fwrite_user fp i buf s; Some s } else Some s);
       if c = EOF then Some s
       else do {
         let s = snd (putchar c s);
         if c \<noteq> 8 then fapp_loop fp buf (i + 1) (s\<lparr>u_mem := (u_mem s)(buf + word_of_int i := word_of_int c)\<rparr>)
         else fapp_loop fp buf (i - 1) s
       }
     }
   }"

definition fapp_main :: "linked \<Rightarrow> u32 \<Rightarrow> u32 \<Rightarrow> int \<Rightarrow> u32 \<Rightarrow> program \<Rightarrow> (finish \<times> program) option" where
  "fapp_main lk path buf argc argv s =
     (if argc < 2 then do { s \<leftarrow> say_user lk ''fapp: ERROR: invalid usage\<newline>'' [] s; s \<leftarrow> wait_eof s; Some (Returned (- 2), s) }
      else do {
        (cur, s) \<leftarrow> home_path lk argv 1 path s;
        s \<leftarrow> copy_string_user cur (argument (u_mem s) argv 1) s;
        (fp, s) \<leftarrow> fopen_user path (lk_lit lk ''rwa'') s;
        if fp = 0
        then do { s \<leftarrow> say_user lk ''fapp: ERROR: file %s is inaccessable\<newline>'' [path] s; s \<leftarrow> wait_eof s; Some (Returned (- 1), s) }
        else do { s \<leftarrow> fapp_loop fp buf 0 s; Some (Returned 0, note_call (Fclose fp) s) }
      })"

partial_function (option) wait_eof_char :: "program \<Rightarrow> program option" where
  \<comment> \<open>\<open>while (getchar() != EOF);\<close>: a character is never negative\<close>
  "wait_eof_char s = do { (c, s) \<leftarrow> getchar s; if c \<noteq> EOF then wait_eof_char s else Some s }"

partial_function (option) fwrite_loop :: "u32 \<Rightarrow> u32 \<Rightarrow> int \<Rightarrow> program \<Rightarrow> program option" where
  "fwrite_loop fp buf i s = do {
     (c, s) \<leftarrow> getchar s;
     s \<leftarrow> (if i = 1024 \<or> c = 27 then do { (_, s) \<leftarrow> fwrite_user fp i buf s; Some s } else Some s);
     if c = 27 then Some s
     else do {
       let s = snd (putchar c s);
       if c \<noteq> 8 then fwrite_loop fp buf (i + 1) (s\<lparr>u_mem := (u_mem s)(buf + word_of_int i := word_of_int c)\<rparr>)
       else fwrite_loop fp buf (i - 1) s
     }
   }"

definition fwrite_main :: "linked \<Rightarrow> u32 \<Rightarrow> u32 \<Rightarrow> int \<Rightarrow> u32 \<Rightarrow> program \<Rightarrow> (finish \<times> program) option" where
  \<comment> \<open>\<open>cur\<close> starts at \<open>path + 3\<close>, but \<open>path\<close> is opened\<close>
  "fwrite_main lk path buf argc argv s =
     (if argc < 2 then do { s \<leftarrow> say_user lk ''fwrite: ERROR: invalid usage\<newline>'' [] s; s \<leftarrow> wait_eof_char s; Some (Returned (- 2), s) }
      else do {
        let (cur, s) =
          (if u_mem s (argument (u_mem s) argv 1) = 126
           then let s = s\<lparr>u_mem := snd (strncpy_user (u_mem s) (path + 3) (lk_lit lk ''0:/usr/files'') 12)\<rparr>
                in (path + 15, set_argument argv 1 (argument (u_mem s) argv 1 + 1) s)
           else (path + 3, s));
        let s = s\<lparr>u_mem := snd (strncpy_user (u_mem s) cur (argument (u_mem s) argv 1) 108)\<rparr>;
        (fp, s) \<leftarrow> fopen_user path (lk_lit lk ''rw'') s;
        if fp = 0
        then do { s \<leftarrow> say_user lk ''fwrite: ERROR: file %s is inaccessable\<newline>'' [path] s; s \<leftarrow> wait_eof_char s; Some (Returned (- 1), s) }
        else do { s \<leftarrow> fwrite_loop fp buf 0 s; Some (Returned 0, note_call (Fclose fp) s) }
      })"

fun rm_loop :: "linked \<Rightarrow> u32 \<Rightarrow> u32 \<Rightarrow> nat \<Rightarrow> nat \<Rightarrow> u32 \<Rightarrow> program \<Rightarrow> program option" where
  \<comment> \<open>\<open>cur\<close> is not set back for the next argument\<close>
  "rm_loop lk path argv 0 i cur s = Some s"
| "rm_loop lk path argv (Suc n) i cur s = do {
     (cur, s) \<leftarrow> home_path lk argv i cur s;
     s \<leftarrow> copy_string_user cur (argument (u_mem s) argv i) s;
     s \<leftarrow> remove_user path s;
     rm_loop lk path argv n (Suc i) cur s
   }"

definition rm_main :: "linked \<Rightarrow> u32 \<Rightarrow> int \<Rightarrow> u32 \<Rightarrow> program \<Rightarrow> (finish \<times> program) option" where
  "rm_main lk path argc argv s =
     (if argc < 2 then Some (Returned (- 1), s)
      else do { s \<leftarrow> rm_loop lk path argv (nat (argc - 1)) 1 (path + 3) s; Some (Returned 0, s) })"

definition edit_error :: "linked \<Rightarrow> string \<Rightarrow> program \<Rightarrow> (finish \<times> program) option" where
  "edit_error lk msg s = do { s \<leftarrow> say_user lk ''edit: ERROR: %s'' [lk_lit lk msg] s; exit_program lk 1 s }"

definition edit_main :: "linked \<Rightarrow> int \<Rightarrow> u32 \<Rightarrow> program \<Rightarrow> (finish \<times> program) option" where
  "edit_main lk argc argv s =
     (if argc < 2 then edit_error lk ''invalid usage\<newline>USAGE: edit [filename]'' s
      else do {
        (fp, s) \<leftarrow> fopen_user (argument (u_mem s) argv 1) (lk_lit lk ''rw'') s;
        if fp = 0 then edit_error lk ''file is unaccessable'' s else exit_program lk 0 (note_call (Clrscr 0xF0) s)
      })"

section \<open>musicbox\<close>

definition music_error :: "linked \<Rightarrow> string \<Rightarrow> program \<Rightarrow> (finish \<times> program) option" where
  "music_error lk msg s = do {
     s \<leftarrow> say_user lk ''musicbox: ERROR: %s\<newline>Press any key to terminate...'' [lk_lit lk msg] s;
     (_, s) \<leftarrow> getchar s;
     exit_program lk 1 s
   }"

definition note_frequency :: "u8 \<Rightarrow> u8 \<Rightarrow> u32 option" where
  \<comment> \<open>the \<open>switch\<close>: note and accidental\<close>
  "note_frequency note accidental =
     (let natural = (accidental = 110); sharp = (accidental = 35)
      in if note = 97 then Some (if natural then 440 else if sharp then 466 else 415)
         else if note = 98 then Some (if natural then 494 else 466)
         else if note = 99 then Some (if natural then 262 else 277)
         else if note = 100 then Some (if natural then 294 else if sharp then 311 else 277)
         else if note = 101 then Some (if natural then 330 else 311)
         else if note = 102 then Some (if natural then 349 else 370)
         else if note = 103 then Some (if natural then 392 else if sharp then 415 else 370)
         else None)"

definition next_note :: "linked \<Rightarrow> u32 \<Rightarrow> program \<Rightarrow> ((finish + u32) \<times> program) option" where
  \<comment> \<open>\<open>Inl\<close> when the program ended in \<open>error\<close>; no character is below \<open>a\<close> and above \<open>g\<close>\<close>
  "next_note lk music s = do {
     let fail = (\<lambda>msg s. do { (r, s) \<leftarrow> music_error lk msg s; Some (Inl r, s) });
     (note, s) \<leftarrow> getc music s;
     if note = 0 \<or> sint note = EOF then fail ''end of file'' s
     else if note = 114 then Some (Inr 0, s)
     else if sint note < 97 \<and> sint note > 103 then fail ''invalid note'' s
     else do {
       (accidental, s) \<leftarrow> getc music s;
       if accidental = 0 \<or> sint note = EOF then fail ''end of file'' s
       else if accidental \<noteq> 98 \<and> accidental \<noteq> 35 \<and> accidental \<noteq> 110 then fail ''invalid accidental'' s
       else case note_frequency note accidental of Some f \<Rightarrow> Some (Inr f, s) | None \<Rightarrow> fail ''invalid note'' s
     }
   }"

partial_function (option) music_loop :: "linked \<Rightarrow> u32 \<Rightarrow> program \<Rightarrow> (finish \<times> program) option" where
  \<comment> \<open>the counting loop between the two calls changes nothing\<close>
  "music_loop lk music s = do {
     (r, s) \<leftarrow> next_note lk music s;
     case r of
       Inl e \<Rightarrow> Some (e, s)
     | Inr note \<Rightarrow> music_loop lk music (note_call Quit_sound (if note \<ge> 262 then note_call (Play note) s else s))
   }"

definition music_main :: "linked \<Rightarrow> u32 \<Rightarrow> int \<Rightarrow> u32 \<Rightarrow> program \<Rightarrow> (finish \<times> program) option" where
  "music_main lk path argc argv s =
     (if argc \<noteq> 2 then music_error lk ''invalid usage'' s
      else do {
        let s = s\<lparr>u_mem := store_bytes (u_mem s) path (map of_char ''0:/usr/files/musicbox/'' @ replicate 86 0)\<rparr>;
        s \<leftarrow> copy_string_user (path + 22) (argument (u_mem s) argv 1) s;
        (music, s) \<leftarrow> fopen_user path (lk_lit lk ''r'') s;
        if music = 0 then music_error lk ''file provided is inaccessable for reading'' s else music_loop lk music s
      })"

section \<open>sosupdt: replacing the kernel\<close>

partial_function (option) wait_yes_no :: "program \<Rightarrow> (int \<times> program) option" where
  "wait_yes_no s = do {
     (c, s) \<leftarrow> getchar s;
     if c \<noteq> 89 \<and> c \<noteq> 121 \<and> c \<noteq> 78 \<and> c \<noteq> 110 then wait_yes_no s else Some (c, s)
   }"

definition sosupdt_failed :: string where
  "sosupdt_failed = ''\<newline>sosupdt: Fail on sector %d. SerpaeOS may have been corrupted, and it may be best that you don't boot this copy of SerpaeOS ever again. Your files can probably be backed up before you reinstall SerpaeOS.\<newline>For help, contact us at \"serpaeos.devers@gmail.com\".Press any key to continue...''"

function sosupdt_copy :: "linked \<Rightarrow> u32 \<Rightarrow> u32 \<Rightarrow> int \<Rightarrow> int \<Rightarrow> program \<Rightarrow> (int \<times> program) option" where
  \<comment> \<open>the loop over \<open>filesize\<close>, with \<open>sector\<close>; the result 0 is its end\<close>
  "sosupdt_copy lk kernel_image buf filesize sector s =
     (if filesize \<le> 0 then Some (0, s)
      else do {
        (_, s) \<leftarrow> fread_user kernel_image 512 buf s;
        s \<leftarrow> say_user lk ''\<newline>Sector %d'' [word_of_int sector] s;
        (res, s) \<leftarrow> sos_writesector sector 0 buf s;
        if res = 0
        then sosupdt_copy lk kernel_image buf (filesize - 512) (sector + 1) (s\<lparr>u_mem := memset_at (u_mem s) buf 0 512\<rparr>)
        else do {
          s \<leftarrow> say_user lk sosupdt_failed [word_of_int sector] s;
          (_, s) \<leftarrow> getchar s;
          Some (- 2, note_call (Fclose kernel_image) s)
        }
      })"
  by auto
termination by (relation "measure (\<lambda>(_, _, _, filesize, _, _). nat filesize)") auto

declare sosupdt_copy.simps [simp del]

definition sosupdt_main :: "linked \<Rightarrow> u32 \<Rightarrow> u32 \<Rightarrow> u8 \<Rightarrow> int \<Rightarrow> u32 \<Rightarrow> program \<Rightarrow> (finish \<times> program) option" where
  \<comment> \<open>the addresses are those of \<open>path\<close> and \<open>buf\<close>, then what the uninitialised counter of \<open>getline\<close> holds\<close>
  "sosupdt_main lk path buf i argc argv s = do {
     s \<leftarrow> say_user lk ''SerpaeOS Update Center version %s\<newline>'' [lk_lit lk ''23.2.1''] s;
     s \<leftarrow> (if argc \<noteq> 2
          then do {
            s \<leftarrow> say_user lk ''\<newline>Please enter path to the kernel image: '' [] s;
            (_, s) \<leftarrow> getline path 107 i s;
            Some s
          }
          else copy_string_user path (argument (u_mem s) argv 1) s);
     s \<leftarrow> say_user lk ''\<newline>Are you sure you want to use %s as your kernel image? Using a kernel image not produced by SerpaeOS developers can be very dangerous. [Y/n]'' [path] s;
     (c, s) \<leftarrow> wait_yes_no s;
     if c = 78 \<or> c = 110 then Some (Returned (- 1), s)
     else do {
       (kernel_image, s) \<leftarrow> fopen_user path (lk_lit lk ''r'') s;
       if kernel_image = 0
       then do { s \<leftarrow> say_user lk ''\<newline>sosupdt: ERROR: file %s cannot be accessed'' [path] s; s \<leftarrow> wait_eof s; Some (Returned (- 1), s) }
       else do {
         s \<leftarrow> say_user lk ''\<newline>Working...'' [] s;
         let s = note_call (Fseek kernel_image 0 2) s;
         (filesize, s) \<leftarrow> call_result (Ftell kernel_image) s;
         let s = note_call (Fseek kernel_image 0 0) s;
         (res, s) \<leftarrow> sosupdt_copy lk kernel_image buf filesize 0 s;
         if res \<noteq> 0 then Some (Returned res, s)
         else do {
           s \<leftarrow> say_user lk (''\<newline>Done! Once you reboot, you can enjoy an updated SerpaeOS!'' @ [CHR 0x07]) [] s;
           (_, s) \<leftarrow> getchar s;
           Some (Returned 0, s)
         }
       }
     }
   }"

section \<open>Strings that are printed, compared and stored\<close>

lemma read_string_cstring:
  assumes "cstring m p cs"
  shows "read_string m p acc = Some (acc @ cs)"
  using assms
proof (induction cs arbitrary: p acc)
  case Nil
  then show ?case by (subst read_string.simps) simp
next
  case (Cons c cs)
  then show ?case by (subst read_string.simps) simp
qed

definition emit :: "system_call list \<Rightarrow> program \<Rightarrow> program" where
  "emit cs s = s\<lparr>u_trace := u_trace s @ cs\<rparr>"

lemma emit_simps [simp]: "emit [] s = s" "emit bs (emit as s) = emit (as @ bs) s" "u_mem (emit cs s) = u_mem s" "u_keys (emit cs s) = u_keys s"
  "note_call c s = emit [c] s" "snd (putchar ch s) = emit [Putchar (word_of_int ch)] s"
  by (simp_all add: emit_def note_call_def putchar_def)

lemma printf_plain:
  assumes "cstring (u_mem s) p (cs @ r)" and "37 \<notin> set cs"
  shows "printf_loop lk p args s = printf_loop lk (p + of_nat (length cs)) args (emit (map Putchar cs) s)"
  using assms
proof (induction cs arbitrary: p s)
  case (Cons c cs)
  have "printf_loop lk p args s = printf_loop lk (p + 1) args (emit [Putchar c] s)"
    using Cons.prems by (subst printf_loop.simps) (simp add: Let_def)
  also have "\<dots> = printf_loop lk (p + 1 + of_nat (length cs)) args (emit (map Putchar cs) (emit [Putchar c] s))"
    using Cons.prems by (intro Cons.IH) simp_all
  finally show ?case by (simp add: add.assoc)
qed simp

lemma printf_string:
  assumes "cstring (u_mem s) p ([37, 115] @ r)" and "cstring (u_mem s) a str"
  shows "printf_loop lk p (a # args) s = printf_loop lk (p + 2) args (emit [Print str] s)"
  using assms read_string_cstring [OF assms(2), of "[]"]
  by (subst printf_loop.simps) (simp add: Let_def va_arg_def print_user_def)

lemma printf_end: "cstring (u_mem s) p [] \<Longrightarrow> printf_loop lk p args s = Some s"
  by (subst printf_loop.simps) simp

lemma strcmp_cstring:
  assumes "cstring m p xs" and "cstring m q ys"
  shows "\<exists>r. strcmp_user m p q = Some r \<and> (r = 0 \<longleftrightarrow> xs = ys)"
  using assms
proof (induction xs arbitrary: p q ys)
  case Nil
  then show ?case by (cases ys) (subst strcmp_user.simps, simp add: uint_0_iff)+
next
  case (Cons x xs)
  show ?case
  proof (cases ys)
    case Nil
    then show ?thesis using Cons.prems by (subst strcmp_user.simps) (simp add: uint_0_iff)
  next
    case (Cons y ys')
    then show ?thesis using Cons.prems Cons.IH [of "p + 1" "q + 1" ys'] by (subst strcmp_user.simps) (auto simp: word_uint_eq_iff [symmetric])
  qed
qed

lemma strncmp_cstring:
  assumes "cstring m p xs" and "cstring m q ys" and "length xs < n"
  shows "strncmp_loop_user m p q n = 0 \<longleftrightarrow> xs = ys"
  using assms
proof (induction xs arbitrary: p q ys n)
  case Nil
  then show ?case by (cases ys; cases n) (auto simp: uint_0_iff)
next
  case (Cons x xs)
  then obtain k where n: "n = Suc k" by (cases n) auto
  show ?case
  proof (cases ys)
    case (Cons y ys')
    then show ?thesis using Cons.prems Cons.IH [of "p + 1" "q + 1" ys' k] n by (auto simp: word_uint_eq_iff [symmetric])
  qed (use Cons.prems n in \<open>auto simp: uint_0_iff\<close>)
qed

definition apart :: "u32 \<Rightarrow> nat \<Rightarrow> u32 \<Rightarrow> u8 list \<Rightarrow> bool" where
  \<comment> \<open>the string \<open>cs\<close> at \<open>p\<close> is outside the \<open>n\<close> bytes at \<open>buf\<close>\<close>
  "apart buf n p cs \<longleftrightarrow> (\<forall>j \<le> length cs. n \<le> unat (p + of_nat j - buf))"

lemma apart_below:
  assumes "unat p + length cs < unat buf" and "unat buf + n \<le> 2 ^ 32"
  shows "apart buf n p cs"
proof -
  have "n \<le> unat (p + of_nat j - buf)" if "j \<le> length cs" for j
  proof -
    have b: "unat buf < 2 ^ 32" using unat_u32_lt [of buf] by simp
    have "unat (of_nat j :: u32) = j" using that assms b by (intro unat_of_nat_small) simp
    then have q: "unat (p + of_nat j) = unat p + j" using that assms b by (simp add: unat_word_ariths)
    then have "unat (p + of_nat j - buf) = 2 ^ 32 + (unat p + j) - unat buf" using that assms(1) by (simp add: unat_sub_if')
    then show ?thesis using assms by simp
  qed
  then show ?thesis by (simp add: apart_def)
qed

lemma cstring_apart:
  assumes "apart buf n p cs" and "length bs \<le> n" and "n < 2 ^ 32"
  shows "cstring (store_bytes m buf bs) p cs = cstring m p cs"
  using assms by (intro cstring_cong) (auto simp: apart_def store_bytes_apply dest: spec)

lemma cstring_stored:
  assumes "0 \<notin> set cs" and "length cs < 2 ^ 31"
  shows "cstring (store_bytes m p (cs @ [0])) p cs"
proof -
  have "store_bytes m p (cs @ [0]) (p + of_nat j) = (cs @ [0]) ! j" if "j \<le> length cs" for j
    using that assms(2) by (simp add: store_bytes_apply unat_of_nat_small)
  then show ?thesis using assms(1) by (auto simp: cstring_iff nth_append dest: nth_mem)
qed

section \<open>The password check\<close>

fun typed :: "nat \<Rightarrow> u8 list \<Rightarrow> (u8 list \<times> u8 list) option" where
  \<comment> \<open>a line of at most so many characters, and the keys behind it\<close>
  "typed 0 ks = Some ([], ks)"
| "typed (Suc n) ks = do {
     (c, ks) \<leftarrow> next_key ks;
     if c = 13 then Some ([], ks) else do { (cs, ks) \<leftarrow> typed n ks; Some (c # cs, ks) }
   }"

lemma next_key_shorter: "next_key ks = Some (c, ks') \<Longrightarrow> length ks' < length ks \<and> c \<noteq> 0"
  by (induction ks) (auto split: if_splits)

lemma typed_line:
  "typed n ks = Some (cs, ks') \<Longrightarrow> length cs \<le> n \<and> 0 \<notin> set cs \<and> length ks' \<le> length ks \<and> (0 < n \<longrightarrow> length ks' < length ks)"
proof (induction n arbitrary: ks cs)
  case (Suc n)
  then obtain c ks1 where c: "next_key ks = Some (c, ks1)" by (auto simp: bind_eq_Some_conv)
  with Suc next_key_shorter [OF c] show ?case by (fastforce simp: bind_eq_Some_conv split: if_splits)
qed simp

function attempts :: "u8 list \<Rightarrow> u8 list \<Rightarrow> (bool \<times> u8 list) option" where
  \<comment> \<open>lines are tried until one is the password or \<open>exit\<close>\<close>
  "attempts pw ks =
     (case typed 29 ks of
        None \<Rightarrow> None
      | Some (line, ks) \<Rightarrow>
          if line = pw then Some (True, ks)
          else if line = map of_char ''exit'' then Some (False, ks)
          else attempts pw ks)"
  by auto
termination by (relation "measure (\<lambda>(_, ks). length ks)") (auto dest: typed_line)

declare attempts.simps [simp del]

lemma pr_read_typed:
  "pr_read buf n i s = map_option (\<lambda>(cs, ks). (i + length cs, s\<lparr>u_keys := ks, u_mem := store_bytes (u_mem s) (buf + of_nat i) cs\<rparr>)) (typed n (u_keys s))"
proof (induction n arbitrary: i s)
  case (Suc n)
  have u: "uint c = 13 \<longleftrightarrow> c = 13" for c :: u8 by (simp add: word_uint_eq_iff)
  show ?case
  proof (cases "next_key (u_keys s)")
    case (Some ck)
    obtain c ks where ck: "ck = (c, ks)" by (cases ck)
    then have g: "getchar s = Some (uint c, s\<lparr>u_keys := ks\<rparr>)" using Some by (simp add: getchar_def)
    show ?thesis
    proof (cases "c = 13")
      case False
      define m1 where "m1 = (u_mem s)(buf + of_nat i := c)"
      have "pr_read buf (Suc n) i s = pr_read buf n (Suc i) (s\<lparr>u_keys := ks, u_mem := m1\<rparr>)" using g False by (simp add: u m1_def)
      then show ?thesis using Suc.IH [of "Suc i" "s\<lparr>u_keys := ks, u_mem := m1\<rparr>"] Some ck False
        by (cases "typed n ks") (auto simp: add.assoc add.commute [of 1] m1_def [symmetric])
    qed (use Some ck g in simp)
  qed (simp add: getchar_def)
qed simp

definition console :: "linked \<Rightarrow> u32 \<Rightarrow> u32 \<Rightarrow> u8 list \<Rightarrow> u8 list \<Rightarrow> mem \<Rightarrow> bool" where
  \<comment> \<open>the literals and the loaded configuration, none of them in the 30 bytes of \<open>buf\<close>\<close>
  "console lk config buf user pw m \<longleftrightarrow>
     (\<forall>(p, cs) \<in> {(lk_lit lk ''[%s] password: '', map of_char ''[%s] password: ''), (lk_lit lk ''exit'', map of_char ''exit''),
        (config + config_username, user), (config + config_password, pw)}. cstring m p cs \<and> apart buf 30 p cs)"

lemma console_store:
  assumes "console lk config buf user pw m" and "length bs \<le> 30"
  shows "console lk config buf user pw (store_bytes m buf bs)"
proof -
  have "cstring (store_bytes m buf bs) p cs \<and> apart buf 30 p cs" if "cstring m p cs \<and> apart buf 30 p cs" for p cs
    using that assms(2) cstring_apart [of buf 30 p cs bs m] by simp
  then show ?thesis using assms(1) unfolding console_def by blast
qed

lemma prompt:
  assumes "console lk config buf user pw (u_mem s)"
  shows "say_user lk ''[%s] password: '' [config + config_username] s =
     Some (emit (Putchar 91 # Print user # map Putchar (map of_char ''] password: '')) s)"
proof -
  let ?p = "lk_lit lk ''[%s] password: ''"
  have c: "cstring (u_mem s) ?p ([91] @ [37, 115] @ map of_char ''] password: '')" "cstring (u_mem s) (config + config_username) user"
    using assms by (auto simp: console_def)
  have "cstring (u_mem s) (?p + 3) (map of_char ''] password: '' @ [])" "cstring (u_mem s) (?p + 1) ([37, 115] @ map of_char ''] password: '')"
    using c(1) by (simp_all add: cstring_append add.assoc)
  note d = this
  have "37 \<notin> set (map of_char ''] password: '' :: u8 list)" by simp
  note f = printf_plain [OF _ this, of _ "?p + 3" "[]" lk "[]"]
  have e: "cstring (u_mem s) (?p + 3 + of_nat (length (map of_char ''] password: '' :: u8 list))) []"
    using d(1) unfolding cstring_append by blast
  have "printf_loop lk ?p [config + config_username] s = printf_loop lk (?p + 1) [config + config_username] (emit [Putchar 91] s)"
    using printf_plain [OF c(1), of lk] by simp
  also have "\<dots> = printf_loop lk (?p + 3) [] (emit [Putchar 91, Print user] s)"
    using printf_string [where s = "emit [Putchar 91] s", unfolded emit_simps(3), OF d(2) c(2), of lk "[]"] by (simp add: add.assoc)
  also have "\<dots> = Some (emit (map Putchar (map of_char ''] password: '')) (emit [Putchar 91, Print user] s))"
    using f [of "emit [Putchar 91, Print user] s"] d(1) printf_end [of "emit (map Putchar (map of_char ''] password: '')) (emit [Putchar 91, Print user] s)"] e by simp
  finally have "printf_loop lk ?p [config + config_username] s = Some (emit (Putchar 91 # Print user # map Putchar (map of_char ''] password: '')) s)" by simp
  then show ?thesis by (simp add: say_user_def printf_def)
qed

lemma pr_login_step:
  assumes "console lk config buf user pw (u_mem s)"
  shows "pr_login lk config buf s =
     (case typed 29 (u_keys s) of
        None \<Rightarrow> None
      | Some (line, ks) \<Rightarrow>
          let s' = (emit (Putchar 91 # Print user # map Putchar (map of_char ''] password: '')) s)\<lparr>u_keys := ks, u_mem := store_bytes (u_mem s) buf (line @ [0])\<rparr>
          in if line = pw then Some (True, s')
             else if line = map of_char ''exit'' then Some (False, s')
             else pr_login lk config buf (emit [Putchar 10] s'))"
proof (cases "typed 29 (u_keys s)")
  case None
  then show ?thesis by (subst pr_login.simps) (simp add: prompt [OF assms] pr_read_typed)
next
  case (Some lk')
  obtain line ks where l: "lk' = (line, ks)" by (cases lk')
  have line: "length line \<le> 29" "0 \<notin> set line" using typed_line [of 29 "u_keys s" line ks] Some l by simp_all
  define m1 where "m1 = store_bytes (u_mem s) buf (line @ [0])"
  define ex :: "u8 list" where "ex = map of_char ''exit''"
  have m: "(store_bytes (u_mem s) buf line)(buf + of_nat (length line) := 0) = m1" by (simp add: m1_def store_bytes_append)
  have c: "console lk config buf user pw m1" unfolding m1_def using console_store [OF assms, of "line @ [0]"] line(1) by simp
  have b: "cstring m1 buf line" unfolding m1_def using cstring_stored [OF line(2)] line(1) by simp
  have p: "cstring m1 (config + config_password) pw" "cstring m1 (lk_lit lk ''exit'') ex" using c unfolding console_def ex_def by blast+
  obtain r where r: "strcmp_user m1 (config + config_password) buf = Some r" "r = 0 \<longleftrightarrow> pw = line"
    using strcmp_cstring [OF p(1) b] by blast
  have x: "strncmp_user m1 (lk_lit lk ''exit'') buf 30 = 0 \<longleftrightarrow> ex = line"
    using strncmp_cstring [OF p(2) b, of 30] by (simp add: strncmp_user_def ex_def)
  show ?thesis unfolding Some l option.case prod.case m1_def [symmetric] ex_def [symmetric]
    by (subst pr_login.simps) (use r x Some l in \<open>simp add: prompt [OF assms] pr_read_typed m Let_def eq_commute [of line]\<close>)
qed

lemma pr_login_attempts:
  assumes "console lk config buf user pw (u_mem s)"
  shows "map_option (\<lambda>(accepted, s'). (accepted, u_keys s')) (pr_login lk config buf s) = attempts pw (u_keys s)"
  using assms
proof (induction "u_keys s" arbitrary: s rule: length_induct)
  case 1
  show ?case
  proof (cases "typed 29 (u_keys s)")
    case None
    then show ?thesis using 1(2) by (subst attempts.simps) (simp add: pr_login_step)
  next
    case (Some lk')
    obtain line ks where l: "lk' = (line, ks)" by (cases lk')
    have line: "length line \<le> 29" "length ks < length (u_keys s)" using typed_line [of 29 "u_keys s" line ks] Some l by simp_all
    define s' where "s' = emit [Putchar 10] ((emit (Putchar 91 # Print user # map Putchar (map of_char ''] password: '')) s)
      \<lparr>u_keys := ks, u_mem := store_bytes (u_mem s) buf (line @ [0])\<rparr>)"
    have "console lk config buf user pw (u_mem s')" using console_store [OF 1(2), of "line @ [0]"] line(1) by (simp add: s'_def)
    moreover have k: "u_keys s' = ks" by (simp add: s'_def)
    ultimately have IH: "map_option (\<lambda>(accepted, s'). (accepted, u_keys s')) (pr_login lk config buf s') = attempts pw ks"
      using 1(1) line(2) by fastforce
    show ?thesis using Some l IH unfolding pr_login_step [OF 1(2)] s'_def by (subst attempts.simps) (simp add: Let_def)
  qed
qed

lemma attempts_long:
  assumes "29 < length pw"
  shows "attempts pw ks \<noteq> Some (True, ks')"
proof (induction ks rule: length_induct)
  case (1 ks)
  show ?case
  proof (cases "typed 29 ks")
    case (Some lk)
    then obtain line ks1 where l: "typed 29 ks = Some (line, ks1)" by (cases lk) simp
    then have "length line \<le> 29" "length ks1 < length ks" using typed_line [OF l] by simp_all
    then show ?thesis using 1 assms l by (subst attempts.simps) auto
  qed (subst attempts.simps, simp)
qed

text \<open>C39: the password check of \<^verbatim>\<open>pr\<close>, the only one in the system. Whatever keys are typed, the loop accepts exactly when one of the typed lines is
  the stored password, leaves without accepting when a line is \<open>exit\<close>, and waits for further keys otherwise; a line ends with the enter key or
  after 29 characters. A password of 30 characters, which \<^verbatim>\<open>new_usr\<close> allows, is therefore never accepted.\<close>
theorem pr_checks_password:
  assumes "console lk config buf user pw (u_mem s)"
  shows "map_option (\<lambda>(accepted, s'). (accepted, u_keys s')) (pr_login lk config buf s) = attempts pw (u_keys s) \<and>
     (29 < length pw \<longrightarrow> (\<forall>s'. pr_login lk config buf s \<noteq> Some (True, s')))"
proof -
  have "pr_login lk config buf s \<noteq> Some (True, s')" if "29 < length pw" for s'
    using attempts_long [OF that, of "u_keys s" "u_keys s'"] pr_login_attempts [OF assms] by auto
  then show ?thesis using pr_login_attempts [OF assms] by blast
qed

definition demo_linked :: linked where
  "demo_linked = \<lparr>lk_itoa = 0x4000, lk_buf = 0x4100, lk_blank = 0x4200, lk_scommand = 0x4300, lk_exit_text = 0x4400, lk_error_format = 0x4500,
     lk_errors = [], lk_lit = (\<lambda>l. if l = ''exit'' then 0x5100 else 0x5000)\<rparr>"

definition demo_typing :: "u8 list \<Rightarrow> program" where
  \<comment> \<open>the user \<open>ab\<close> with the password \<open>pw\<close> in a configuration at \<open>0x6000\<close>\<close>
  "demo_typing ks = \<lparr>u_mem = store_bytes (store_bytes (store_bytes (store_bytes (\<lambda>_. 0) 0x5000 (map of_char ''[%s] password: '')) 0x5100 (map of_char ''exit''))
       0x6008 (map of_char ''ab'')) 0x601D (map of_char ''pw''),
     u_sp = 0, u_errno = 0, u_exit_funcs = [], u_keys = ks, u_blocks = [], u_results = [], u_bytes = [], u_reads = [], u_trace = []\<rparr>"

theorem pr_checks_password_witness:
  "\<exists>s'. pr_login demo_linked 0x6000 0x7000 (demo_typing (map of_char ''no'' @ [13] @ map of_char ''pw'' @ [13, 33])) = Some (True, s') \<and> u_keys s' = [33]"
proof -
  let ?s = "demo_typing (map of_char ''no'' @ [13] @ map of_char ''pw'' @ [13, 33])"
  have "console demo_linked 0x6000 0x7000 (map of_char ''ab'') (map of_char ''pw'') (u_mem ?s)"
    by (simp add: console_def demo_linked_def demo_typing_def apart_below config_layout)
  from pr_checks_password [OF this]
  have "map_option (\<lambda>(accepted, s'). (accepted, u_keys s')) (pr_login demo_linked 0x6000 0x7000 ?s) = attempts (map of_char ''pw'') (u_keys ?s)" by blast
  moreover have "attempts (map of_char ''pw'') (u_keys ?s) = Some (True, [33])" by code_simp
  ultimately show ?thesis by auto
qed

end
