(* ===== verification/Spec2Isabelle.thy ===== *)
theory Spec2Isabelle
  imports Prelude Kstring Heap Physmem Kheap Paging Keyboard Classic Pparser Disk Ata_Drive Streamer Fat16 Vfs Task Terminal Rtc Gdt Elf Process Sound Acpi Syscall Fat_Table Fat16_Write Fat32 Fat32_Props Mount Kernel Ustring Ulib Programs
begin

text \<open>
  SerpaeOS: a model of the kernel and the theorems about it.

  SerpaeOS is a 32-bit x86 kernel written in C. At boot it sets up its heap, its file systems, its disks and its interrupt table,
  builds a kernel address space, and starts user programs from disk; afterwards everything happens in interrupt
  handlers: the timer switches tasks, the keyboard fills per-process buffers, and trap \<open>0x80\<close> runs a system call. Every path
  below refers to \<^verbatim>\<open>src/\<close> of the repository.

  \<^bold>\<open>How the C code is represented.\<close> A value of a machine type is a word of its width (\<open>u8\<close>, \<open>u16\<close>, \<open>u32\<close>); where the code computes with
  \<open>int\<close> the model uses \<open>int\<close>, with \<open>s32\<close> or \<open>word_of_int\<close> at the places where a value is narrowed or a sum can leave the type (the overflow then wraps around). An operation takes the state and returns
  \<open>Some\<close> of its results and the new state. \<open>None\<close> means that the run has no outcome that the source defines: an access
  outside an array or to a null or dangling pointer, a division by zero, a loop that does not end. Error codes are ordinary
  results (negative integers of \<^verbatim>\<open>status.h\<close>). Loops are structural recursions on the iterations left, or \<open>partial_function (option)\<close> where the bound is not
  known beforehand (a cluster chain, a busy flag, a scheduler list); no fuel is used, and the properties of such a loop say that it
  returns. Structures that the code reaches through raw addresses (page tables, tasks, processes, ELF files, user memory) live in
  one byte-addressed memory, \<open>mem\<close>, at their C layout; structures that only their own module touches are records carrying their heap address.
  Hardware is a parameter: \<open>'s port_ops\<close> are the port instructions over an arbitrary device state, and what is assumed of a device is the
  locale \<open>pata_device\<close> or the predicate \<open>still_clock\<close>, each with an instance.

  \<^bold>\<open>Theories, in the order of the calls.\<close>

  \<^item> \<open>Prelude\<close>: machine types, status codes, checked arrays (\<open>rd\<close>, \<open>wr\<close>), the slot search \<open>scan\<close>, little-endian bytes.
  \<^item> \<open>Kstring\<close>: \<^verbatim>\<open>memory/memory.c\<close> and \<^verbatim>\<open>string/string.c\<close> on byte lists. Bounds of \<open>strncpy\<close>, meaning of \<open>itoa\<close> and of the comparisons.
  \<^item> \<open>Heap\<close>, \<open>Kheap\<close>: \<^verbatim>\<open>memory/heap/heap.c\<close> and \<^verbatim>\<open>kheap.c\<close>. The status table refines a map from first blocks to lengths of live
    allocations; every reachable heap keeps them disjoint, for requests of any size; allocation is first fit; freeing undoes it. The locale \<open>page_allocator\<close> is what
    the rest of the kernel relies on, interpreted by \<open>kzalloc\<close> and \<open>kfree\<close> as \<open>kh\<close>.
  \<^item> \<open>Physmem\<close>: the memory, its loads, stores and copies. \<open>Paging\<close>: \<^verbatim>\<open>memory/paging/paging.c\<close>; a new address space is the identity, mapping a
    range changes exactly its pages, releasing an address space gives all blocks back.
  \<^item> \<open>Disk\<close>: \<^verbatim>\<open>disk/disk.c\<close>, programmed transfers and detection; the locale \<open>pata_device\<close> states what a drive does when it is
    driven that way. \<open>Ata_Drive\<close>: a controller with four drives, which interprets the locale. \<open>Streamer\<close>: \<^verbatim>\<open>disk/streamer.c\<close>; reads and
    writes at any byte position, through whole sectors.
  \<^item> \<open>Pparser\<close>: \<^verbatim>\<open>fs/pparser.c\<close>; accepted paths, their components, and the blocks they take. \<open>Vfs\<close>: \<^verbatim>\<open>fs/file.c\<close> over a record of
    file system functions.
  \<^item> \<open>Fat_Table\<close>: allocation tables as functions, chains in them, writing and wiping a chain. \<open>Fat16\<close>: mounting, lookup and reading
    (\<^verbatim>\<open>fs/fat/fat16.c\<close>). \<open>Fat16_Write\<close>: allocation, directory entries, creating, opening, writing, deleting
    (\<^verbatim>\<open>fat16_write.c\<close>). What is read is the chain's bytes; adding a cluster extends the chain; erasing an allocated chain restores the
    table. Also proved: the loop of a write fills the clusters behind the one it starts from and changes
    nothing else, and opening a file of the root directory frees the file system's private data (a use of them behind that point has no outcome).
  \<^item> \<open>Fat32\<close>, \<open>Fat32_Props\<close>: \<^verbatim>\<open>fs/fat32/fat32.c\<close>, mounting, lookup, reading, allocation, writing and deleting. Proved: why a file cannot grow, and
    that the root directory is usable for one open only.
  \<^item> \<open>Mount\<close>: the function tables of the two file systems behind \<^verbatim>\<open>file.c\<close>, over the drives, the mounted volumes and the open descriptors. Reads of
    several open files in any order, each inside a cluster or from the start of one, return each file's own bytes (the locale \<open>shared_reader\<close>, interpreted by \<open>fread\<close> as \<open>vr\<close>), and a program
    image in memory is the file on the disk.
  \<^item> \<open>Kernel\<close>: \<^verbatim>\<open>kernel.c\<close> and the keyboard interrupt on the state of the whole kernel. The device of the file systems is a part of the
    machine, and the locale \<open>part\<close> carries the promises of a drive over to the whole (interpreted for the three levels as \<open>mp\<close>, \<open>wp\<close>, \<open>op\<close>). After boot
    the processor's tables lead every interrupt to its handler, and a key that is pressed comes out of the next \<open>getkey\<close>.
  \<^item> \<open>Keyboard\<close>, \<open>Classic\<close>: \<^verbatim>\<open>keyboard/keyboard.c\<close> and the PS/2 driver \<^verbatim>\<open>classic.c\<close>; the ring buffer is a queue until it is full, and scancodes
    give the characters of the layout.
  \<^item> \<open>Terminal\<close>: \<^verbatim>\<open>graphics/graphics.c\<close>; away from the last cell and the last tab stops the cursor stays on the screen and writes stay in video memory. \<open>Sound\<close>: \<^verbatim>\<open>sound/sound.c\<close>.
    \<open>Rtc\<close>: \<^verbatim>\<open>time/time.c\<close>. \<open>Gdt\<close>: \<^verbatim>\<open>gdt/gdt.c\<close>. \<open>Acpi\<close>: \<^verbatim>\<open>power/power.c\<close>; only checked tables are used.
  \<^item> \<open>Task\<close>: \<^verbatim>\<open>task/task.c\<close>, the doubly linked list of tasks in memory; adding, removing and choosing a task refine list operations. \<open>Elf\<close>:
    \<^verbatim>\<open>loader/formats/elfloader.c\<close>. \<open>Process\<close>: \<^verbatim>\<open>task/process.c\<close> over the joined state \<open>os\<close> of scheduler, file systems and console; allocating
    and freeing user memory. \<open>Syscall\<close>: \<^verbatim>\<open>idt/idt.c\<close> and \<^verbatim>\<open>isr80h/\<close>; the dispatcher is the table of calls, and one call is followed
    from the trap to the return.
  \<^item> \<open>Ustring\<close>, \<open>Ulib\<close>: the C library of user programs, \<^verbatim>\<open>programs/stdlib/src\<close>, over the memory of a program and its side of the system calls. \<open>strtok\<close>
    cuts a string into its words, and \<open>atoi\<close> reads back what \<open>itoa\<close> writes. \<open>Programs\<close>: the programs themselves, shell, password check, set-up, file tools,
    music box and updater; the password check agrees with a reference on every sequence of keys.
  \<^bold>\<open>Not modelled.\<close> The assembly files (boot sector, interrupt stubs, return to user mode, \<open>cr3\<close> and \<open>lgdt\<close> loads, the trap instruction of the user library): the C side
  of each is modelled, the instruction itself is a field or a parameter. \<^verbatim>\<open>pci/pci.c\<close> only declares types and \<^verbatim>\<open>fs/iso_9660\<close> is a table without
  functions. Of the user library the floating point of \<open>atof\<close> and of \<open>scanf\<close> is missing, and the program \<^verbatim>\<open>blank\<close> is empty. Interrupts are
  disabled while C code of the kernel runs, so interleaving is the order in which handlers are called. The whole boot sequence is a definition; \<open>boot_tables\<close> is about it up to the start of the keyboard, the other properties
  are about its parts: the tables it builds, the address space of the kernel, the heap, the file systems it mounts.
\<close>

end
